(* ===== verification/Prelude.thy ===== *)
theory Prelude
  imports Complex_Main "HOL-Library.Multiset"
begin

text \<open>
  Shared vocabulary of the development: outcomes of Python calls (a value or a raised
  exception), exact money values, sums over lists, and the list lemmas every component uses.

  A Python call that may raise is a value of \<open>exn + 'a\<close>: \<open>Inl\<close> the exception, \<open>Inr\<close> the
  value.  A handler that works on the database returns that outcome together with the database
  as committed when the handler ends.
\<close>

named_theorems money_simps \<open>arithmetic of money on the decimal grid\<close>
named_theorems row_simps \<open>what an operation leaves unchanged in a row or a table\<close>

section \<open>Outcomes\<close>

datatype exn =
    DomainError int string
  | IntegrityError
  | ValueErr string
  | RuntimeErr string
  | TypeErr
  | InvalidOperation   \<comment> \<open>\<open>decimal.InvalidOperation\<close>\<close>
  | DataError          \<comment> \<open>\<open>sqlalchemy.exc.DataError\<close>: a value does not fit its column\<close>

type_synonym 'a outcome = "exn + 'a"

type_synonym usd = rat
type_synonym time = int
type_synonym uuid = nat

definition ok :: "'a outcome \<Rightarrow> bool" where
  "ok r = (case r of Inl _ \<Rightarrow> False | Inr _ \<Rightarrow> True)"

definition and_then :: "'a outcome \<Rightarrow> ('a \<Rightarrow> 'b outcome) \<Rightarrow> 'b outcome" where
  "and_then r f = (case r of Inl e \<Rightarrow> Inl e | Inr x \<Rightarrow> f x)"

lemma ok_simps [simp]: "ok (Inr x)" "\<not> ok (Inl e)"
  by (simp_all add: ok_def)

lemma and_then_simps [simp]:
  "and_then (Inl e) f = Inl e" "and_then (Inr x) f = f x"
  by (simp_all add: and_then_def)

lemma and_then_Inr:
  "and_then r f = Inr y \<longleftrightarrow> (\<exists>x. r = Inr x \<and> f x = Inr y)"
  by (cases r) auto

definition commit :: "'s \<Rightarrow> ('a \<times> 's) outcome \<Rightarrow> 'a outcome \<times> 's" where
  \<comment> \<open>the end of a handler: the state is committed, or rolled back to \<open>base\<close> when an exception leaves it\<close>
  "commit base r = (case r of Inl e \<Rightarrow> (Inl e, base) | Inr (x, s) \<Rightarrow> (Inr x, s))"

lemma commit_simps [simp]: "commit base (Inl e) = (Inl e, base)" "commit base (Inr (x, s)) = (Inr x, s)"
  by (simp_all add: commit_def)

lemma commit_eq:
  "commit base r = (Inr x, s) \<longleftrightarrow> r = Inr (x, s)" "commit base r = (Inl e, s) \<longleftrightarrow> r = Inl e \<and> s = base"
  by (auto simp: commit_def split: sum.splits)

lemma commit_state: "snd (commit base r) = base \<or> (\<exists>x. r = Inr (x, snd (commit base r)))"
  by (auto simp: commit_def split: sum.splits)

section \<open>Time\<close>

text \<open>
  An aware UTC \<open>datetime\<close> is an integer: microseconds since 0001-01-01T00:00Z.  \<open>_as_utc\<close>
  and \<open>astimezone\<close> do not change the instant, so they are the identity here.
\<close>

definition seconds :: "int \<Rightarrow> time" where
  "seconds n = n * 1000000"

lemma seconds_mono [simp]: "seconds m \<le> seconds n \<longleftrightarrow> m \<le> n" "seconds m < seconds n \<longleftrightarrow> m < n"
  by (simp_all add: seconds_def)

lemma seconds_pos [simp]: "0 < seconds n \<longleftrightarrow> 0 < n" "0 \<le> seconds n \<longleftrightarrow> 0 \<le> n"
  by (simp_all add: seconds_def)

definition clamp :: "'a::linorder \<Rightarrow> 'a \<Rightarrow> 'a \<Rightarrow> 'a" where
  \<comment> \<open>\<open>max(lo, min(x, hi))\<close>, the bounding idiom of the source\<close>
  "clamp lo hi x = max lo (min x hi)"

lemma clamp_bounds: "lo \<le> hi \<Longrightarrow> lo \<le> clamp lo hi x \<and> clamp lo hi x \<le> hi"
  by (simp add: clamp_def)

lemma clamp_in [simp]: "lo \<le> x \<Longrightarrow> x \<le> hi \<Longrightarrow> clamp lo hi x = x"
  by (simp add: clamp_def)

lemma clamp_idem [simp]: "lo \<le> hi \<Longrightarrow> clamp lo hi (clamp lo hi x) = clamp lo hi x"
  by (simp add: clamp_def)

section \<open>Sums and tables\<close>

definition total :: "('a \<Rightarrow> usd) \<Rightarrow> 'a list \<Rightarrow> usd" where
  "total f xs = sum_list (map f xs)"

lemma total_simps [simp]:
  "total f [] = 0" "total f (x # xs) = f x + total f xs" "total f (xs @ ys) = total f xs + total f ys"
  by (simp_all add: total_def)

lemma total_nonneg: "(\<And>x. x \<in> set xs \<Longrightarrow> 0 \<le> f x) \<Longrightarrow> 0 \<le> total f xs"
  by (induction xs) (auto simp: add_nonneg_nonneg)

lemma total_ge_member:
  "x \<in> set xs \<Longrightarrow> (\<And>y. y \<in> set xs \<Longrightarrow> 0 \<le> f y) \<Longrightarrow> f x \<le> total f xs"
proof (induction xs)
  case (Cons y xs)
  have "0 \<le> f y" "0 \<le> total f xs"
    using Cons.prems(2) by (auto intro: total_nonneg)
  then show ?case
    using Cons by (cases "x = y") (auto intro: add_increasing)
qed simp

lemma total_cong: "(\<And>x. x \<in> set xs \<Longrightarrow> f x = g x) \<Longrightarrow> total f xs = total g xs"
  by (induction xs) auto

lemma total_sort [simp]: "total f (sort_key k xs) = total f xs"
proof -
  have "mset (map f (sort_key k xs)) = mset (map f xs)"
    by simp
  then show ?thesis
    unfolding total_def by (metis sum_mset_sum_list)
qed

definition first_match :: "('a \<Rightarrow> bool) \<Rightarrow> 'a list \<Rightarrow> 'a option" where
  \<comment> \<open>\<open>scalar_one_or_none()\<close> on a column under a unique constraint\<close>
  "first_match P xs = List.find P xs"

lemma first_match_Nil [simp]: "first_match P [] = None"
  by (simp add: first_match_def)

lemma first_match_Cons [simp]:
  "first_match P (x # xs) = (if P x then Some x else first_match P xs)"
  by (simp add: first_match_def)

lemma first_match_None: "first_match P xs = None \<longleftrightarrow> (\<forall>x\<in>set xs. \<not> P x)"
  by (auto simp: first_match_def find_None_iff)

lemma first_match_SomeD: "first_match P xs = Some x \<Longrightarrow> x \<in> set xs \<and> P x"
  by (induction xs) (auto split: if_splits)

lemma first_match_append:
  "first_match P (xs @ ys) = (case first_match P xs of None \<Rightarrow> first_match P ys | Some x \<Rightarrow> Some x)"
  by (induction xs) auto

definition update_rows :: "('a \<Rightarrow> bool) \<Rightarrow> ('a \<Rightarrow> 'a) \<Rightarrow> 'a list \<Rightarrow> 'a list" where
  \<comment> \<open>assignment to the attributes of the persistent rows that satisfy \<open>P\<close>\<close>
  "update_rows P f xs = map (\<lambda>x. if P x then f x else x) xs"

lemma update_rows_Nil [simp]: "update_rows P f [] = []"
  by (simp add: update_rows_def)

lemma update_rows_Cons [simp]:
  "update_rows P f (x # xs) = (if P x then f x else x) # update_rows P f xs"
  by (simp add: update_rows_def)

lemma length_update_rows [simp]: "length (update_rows P f xs) = length xs"
  by (simp add: update_rows_def)

lemma update_rows_append [simp]:
  "update_rows P f (xs @ ys) = update_rows P f xs @ update_rows P f ys"
  by (simp add: update_rows_def)

lemma update_rows_id: "(\<And>x. x \<in> set xs \<Longrightarrow> \<not> P x) \<Longrightarrow> update_rows P f xs = xs"
  by (simp add: update_rows_def map_idI)

lemma map_update_rows:
  "(\<And>x. P x \<Longrightarrow> g (f x) = g x) \<Longrightarrow> map g (update_rows P f xs) = map g xs"
  by (simp add: update_rows_def)

lemma total_update_rows:
  "(\<And>x. P x \<Longrightarrow> g (f x) = g x) \<Longrightarrow> total g (update_rows P f xs) = total g xs"
  by (simp add: total_def map_update_rows)

lemma in_update_rows:
  "y \<in> set (update_rows P f xs) \<longleftrightarrow> (\<exists>x\<in>set xs. y = (if P x then f x else x))"
  by (auto simp: update_rows_def)

lemma update_rowsI: "x \<in> set xs \<Longrightarrow> (if P x then f x else x) \<in> set (update_rows P f xs)"
  by (auto simp: update_rows_def)

lemma first_match_update_rows:
  assumes "\<And>x. P x \<Longrightarrow> Q (f x) = Q x"
  shows "first_match Q (update_rows P f xs) =
    map_option (\<lambda>x. if P x then f x else x) (first_match Q xs)"
  using assms by (induction xs) auto

lemma total_filter: "total f (filter P xs) = total (\<lambda>x. if P x then f x else 0) xs"
  by (induction xs) auto

lemma filter_update_rows:
  "(\<And>x. P x \<Longrightarrow> \<not> Q x \<and> \<not> Q (f x)) \<Longrightarrow> filter Q (update_rows P f xs) = filter Q xs"
  by (induction xs) auto

lemma total_update_unique:
  assumes "distinct (map k xs)" "x \<in> set xs"
  shows "total f (update_rows (\<lambda>y. k y = k x) h xs) = total f xs - f x + f (h x)"
  using assms
proof (induction xs)
  case (Cons y xs)
  show ?case
  proof (cases "y = x")
    case True
    with Cons.prems have "update_rows (\<lambda>y. k y = k x) h xs = xs"
      by (intro update_rows_id) (auto simp: image_iff)
    with True show ?thesis by simp
  next
    case False
    with Cons show ?thesis by (auto simp: image_iff)
  qed
qed simp

lemma first_match_unique:
  assumes "distinct (map k xs)" "x \<in> set xs" "P x" "\<And>y. P y \<Longrightarrow> k y = k x"
  shows "first_match P xs = Some x"
  using assms(1,2)
proof (induction xs)
  case (Cons z xs)
  then show ?case using assms(3) assms(4) [of z] by (cases "z = x") (auto simp: image_iff)
qed simp

lemma distinct_map_update_rows:
  "(\<And>x. P x \<Longrightarrow> k (f x) = k x) \<Longrightarrow> distinct (map k (update_rows P f xs)) = distinct (map k xs)"
  by (simp add: map_update_rows)

section \<open>Sort keys\<close>

text \<open>
  \<open>ORDER BY a, b, c\<close> is a stable sort by \<open>c\<close>, then by \<open>b\<close>, then by \<open>a\<close>.  Rows
  that tie on every key keep the order of the table.
\<close>

definition none_last :: "time option \<Rightarrow> int" where
  \<comment> \<open>\<open>CASE WHEN x IS NULL THEN 1 ELSE 0 END\<close>\<close>
  "none_last x = (case x of None \<Rightarrow> 1 | Some _ \<Rightarrow> 0)"

definition order_by :: "('a \<Rightarrow> int) list \<Rightarrow> 'a list \<Rightarrow> 'a list" where
  "order_by ks xs = foldr sort_key ks xs"

lemma set_order_by [simp]: "set (order_by ks xs) = set xs"
  by (induction ks) (auto simp: order_by_def)

lemma mset_order_by [simp]: "mset (order_by ks xs) = mset xs"
  by (induction ks) (auto simp: order_by_def)

lemma total_order_by [simp]: "total f (order_by ks xs) = total f xs"
  by (induction ks) (auto simp: order_by_def)

lemma length_order_by [simp]: "length (order_by ks xs) = length xs"
  by (induction ks) (auto simp: order_by_def)

lemma distinct_map_order_by [simp]: "distinct (map f (order_by ks xs)) = distinct (map f xs)"
  by (metis mset_map mset_order_by mset_eq_imp_distinct_iff)

lemma sorted_order_by_first: "sorted (map k (order_by (k # ks) xs))"
  by (simp add: order_by_def)

end
