(* ===== verification/Strings.thy ===== *)
theory Strings
  imports Prelude
begin

text \<open>
  The part of Python's \<open>str\<close> and \<open>decimal\<close> that the source relies on: \<open>str.strip\<close>,
  \<open>str.lower\<close>, \<open>str.startswith\<close>, \<open>in\<close> on strings, \<open>Decimal(str)\<close> and the rendering of a
  quantized \<open>Decimal\<close>.

  A string is a list of code points below 256 (Latin-1).  Not modelled: NaN, infinities and the
  sign of zero of \<open>Decimal\<close>, and its 28-digit context.
\<close>

section \<open>Strings\<close>

definition is_space :: "char \<Rightarrow> bool" where
  "is_space c = (let n = of_char c :: nat in
     (9 \<le> n \<and> n \<le> 13) \<or> (28 \<le> n \<and> n \<le> 32) \<or> n = 133 \<or> n = 160)"

definition lower_char :: "char \<Rightarrow> char" where
  "lower_char c = (let n = of_char c :: nat in
     if (65 \<le> n \<and> n \<le> 90) \<or> (192 \<le> n \<and> n \<le> 222 \<and> n \<noteq> 215) then char_of (n + 32) else c)"

definition lower :: "string \<Rightarrow> string" where
  "lower s = map lower_char s"

definition lstrip :: "string \<Rightarrow> string" where
  "lstrip s = dropWhile is_space s"

definition strip :: "string \<Rightarrow> string" where
  "strip s = rev (lstrip (rev (lstrip s)))"

definition norm_key :: "string \<Rightarrow> string" where
  \<comment> \<open>\<open>s.strip().lower()\<close>\<close>
  "norm_key s = lower (strip s)"

fun starts_with :: "string \<Rightarrow> string \<Rightarrow> bool" where
  "starts_with s [] = True"
| "starts_with [] (c # p) = False"
| "starts_with (d # s) (c # p) = (d = c \<and> starts_with s p)"

fun contains :: "string \<Rightarrow> string \<Rightarrow> bool" where
  \<comment> \<open>\<open>p in s\<close>\<close>
  "contains s p = (starts_with s p \<or> (case s of [] \<Rightarrow> False | _ # s' \<Rightarrow> contains s' p))"

declare contains.simps [simp del]

definition or_default :: "string \<Rightarrow> string \<Rightarrow> string" where
  \<comment> \<open>\<open>s or d\<close>\<close>
  "or_default s d = (if s = [] then d else s)"

definition or_none :: "string \<Rightarrow> string option" where
  \<comment> \<open>\<open>s or None\<close>\<close>
  "or_none s = (if s = [] then None else Some s)"

definition opt_str :: "string option \<Rightarrow> string" where
  \<comment> \<open>\<open>str(s or "")\<close>\<close>
  "opt_str s = (case s of None \<Rightarrow> [] | Some t \<Rightarrow> t)"

lemma of_char_lower:
  "of_char (lower_char c) =
    (let n = of_char c :: nat in
     if (65 \<le> n \<and> n \<le> 90) \<or> (192 \<le> n \<and> n \<le> 222 \<and> n \<noteq> 215) then n + 32 else n)"
proof -
  have "of_char c < (256::nat)" by simp
  then show ?thesis by (auto simp: lower_char_def Let_def)
qed

lemma lower_char_idem [simp]: "lower_char (lower_char c) = lower_char c"
  by (rule of_char_eqI [where 'a = nat]) (auto simp: of_char_lower Let_def)

lemma is_space_lower [simp]: "is_space (lower_char c) = is_space c"
  by (auto simp: is_space_def of_char_lower Let_def)

lemma lower_idem [simp]: "lower (lower s) = lower s"
  by (simp add: lower_def)

lemma lower_Nil [simp]: "lower [] = []" "lower s = [] \<longleftrightarrow> s = []"
  by (simp_all add: lower_def)

lemma length_lower [simp]: "length (lower s) = length s"
  by (simp add: lower_def)

lemma lstrip_lower: "lstrip (lower s) = lower (lstrip s)"
  by (induction s) (auto simp: lstrip_def lower_def)

lemma strip_lower: "strip (lower s) = lower (strip s)"
proof -
  have "rev (lower t) = lower (rev t)" for t
    by (simp add: lower_def rev_map)
  then show ?thesis by (simp add: strip_def lstrip_lower)
qed

lemma lstrip_idem [simp]: "lstrip (lstrip s) = lstrip s"
  by (simp add: lstrip_def)

lemma lstrip_head: "lstrip s = [] \<or> \<not> is_space (hd (lstrip s))"
  by (metis hd_dropWhile lstrip_def)

lemma lstrip_fixI: "s = [] \<or> \<not> is_space (hd s) \<Longrightarrow> lstrip s = s"
  by (cases s) (auto simp: lstrip_def)

lemma lstrip_rev_lstrip: "lstrip (rev (lstrip (rev (lstrip s)))) = rev (lstrip (rev (lstrip s)))"
proof (rule lstrip_fixI)
  let ?t = "lstrip s"
  obtain pre where pre: "rev ?t = pre @ lstrip (rev ?t)"
    by (metis lstrip_def takeWhile_dropWhile_id)
  then have t: "?t = rev (lstrip (rev ?t)) @ rev pre"
    by (metis rev_append rev_rev_ident)
  show "rev (lstrip (rev ?t)) = [] \<or> \<not> is_space (hd (rev (lstrip (rev ?t))))"
    using lstrip_head [of s] t by (cases "rev (lstrip (rev ?t))") (auto simp: hd_append)
qed

lemma strip_idem [simp]: "strip (strip s) = strip s"
  unfolding strip_def by (simp add: lstrip_rev_lstrip)

lemma strip_Nil [simp]: "strip [] = []"
  by (simp add: strip_def lstrip_def)

lemma length_lstrip: "length (lstrip s) \<le> length s"
  by (simp add: lstrip_def length_dropWhile_le)

lemma length_strip: "length (strip s) \<le> length s"
  using length_lstrip [of s] length_lstrip [of "rev (lstrip s)"] by (simp add: strip_def)

lemma norm_key_idem [simp]: "norm_key (norm_key s) = norm_key s"
  by (simp add: norm_key_def strip_lower)

lemma norm_key_Nil [simp]: "norm_key [] = []"
  by (simp add: norm_key_def)

lemma strip_norm_key [simp]: "strip (norm_key s) = norm_key s"
  by (simp add: norm_key_def strip_lower)

lemma lower_norm_key [simp]: "lower (norm_key s) = norm_key s"
  by (simp add: norm_key_def)

section \<open>Decimal numbers as text\<close>

definition pow10 :: "int \<Rightarrow> rat" where
  "pow10 k = (if 0 \<le> k then 10 ^ nat k else 1 / 10 ^ nat (- k))"

definition digit_char :: "nat \<Rightarrow> char" where
  "digit_char d = char_of (48 + d)"

definition is_digit :: "char \<Rightarrow> bool" where
  "is_digit c = (let n = of_char c :: nat in 48 \<le> n \<and> n \<le> 57)"

definition digit_val :: "char \<Rightarrow> nat" where
  "digit_val c = of_char c - 48"

fun nat_digits :: "nat \<Rightarrow> string" where
  "nat_digits n = (if n < 10 then [digit_char n] else nat_digits (n div 10) @ [digit_char (n mod 10)])"

declare nat_digits.simps [simp del]

definition digits_val :: "string \<Rightarrow> nat" where
  "digits_val s = foldl (\<lambda>v c. 10 * v + digit_val c) 0 s"

definition pad_zeros :: "nat \<Rightarrow> string \<Rightarrow> string" where
  "pad_zeros k s = replicate (k - length s) CHR ''0'' @ s"

definition int_str :: "int \<Rightarrow> string" where
  "int_str n = (if n < 0 then CHR ''-'' # nat_digits (nat (- n)) else nat_digits (nat n))"

definition fixed_str :: "nat \<Rightarrow> usd \<Rightarrow> string" where
  \<comment> \<open>\<open>str(d)\<close> for a \<open>Decimal\<close> with exponent \<open>-p\<close>, \<open>0 < p\<close>\<close>
  "fixed_str p r =
     (let n = \<lfloor>r * 10 ^ p\<rfloor>; ds = pad_zeros (p + 1) (nat_digits (nat \<bar>n\<bar>)); k = length ds - p
      in (if n < 0 then ''-'' else []) @ take k ds @ ''.'' @ drop k ds)"

fun parse_sign :: "string \<Rightarrow> rat \<times> string" where
  "parse_sign (c # s) =
     (if c = CHR ''-'' then (- 1, s) else if c = CHR ''+'' then (1, s) else (1, c # s))"
| "parse_sign [] = (1, [])"

fun parse_exponent :: "string \<Rightarrow> int option" where
  "parse_exponent [] = Some 0"
| "parse_exponent (c # s) =
     (if c = CHR ''e'' \<or> c = CHR ''E'' then
        (let (sg, ds) = parse_sign s
         in if ds \<noteq> [] \<and> list_all is_digit ds
            then Some (if sg < 0 then - int (digits_val ds) else int (digits_val ds)) else None)
      else None)"

definition parse_decimal :: "string \<Rightarrow> usd option" where
  \<comment> \<open>\<open>Decimal(s)\<close> on finite literals; \<open>None\<close> is \<open>InvalidOperation\<close>\<close>
  "parse_decimal s0 =
     (let (sg, s) = parse_sign (filter (\<lambda>c. c \<noteq> CHR ''_'') (strip s0));
          ip = takeWhile is_digit s; r = dropWhile is_digit s;
          (fp, r') = (case r of c # t \<Rightarrow> if c = CHR ''.'' then (takeWhile is_digit t, dropWhile is_digit t)
                                          else ([], r)
                      | [] \<Rightarrow> ([], []))
      in if ip @ fp = [] then None
         else case parse_exponent r' of None \<Rightarrow> None
              | Some e \<Rightarrow> Some (sg * of_nat (digits_val (ip @ fp)) * pow10 (e - int (length fp))))"

lemma of_char_digit [simp]: "d < 10 \<Longrightarrow> of_char (digit_char d) = 48 + d"
  by (simp add: digit_char_def)

lemma digit_char_props [simp]:
  "d < 10 \<Longrightarrow> is_digit (digit_char d)" "d < 10 \<Longrightarrow> digit_val (digit_char d) = d"
  by (simp_all add: is_digit_def digit_val_def Let_def)

lemma digits_val_snoc [simp]: "digits_val (s @ [c]) = 10 * digits_val s + digit_val c"
  by (simp add: digits_val_def)

lemma digits_val_Nil [simp]: "digits_val [] = 0"
  by (simp add: digits_val_def)

lemma digits_val_nat_digits [simp]: "digits_val (nat_digits n) = n"
proof (induction n rule: nat_digits.induct)
  case (1 n)
  then show ?case
    by (cases "n < 10") (simp_all add: nat_digits.simps [of n] digits_val_def)
qed

lemma nat_digits_all: "list_all is_digit (nat_digits n)"
proof (induction n rule: nat_digits.induct)
  case (1 n)
  then show ?case by (cases "n < 10") (simp_all add: nat_digits.simps [of n])
qed

lemma nat_digits_nonempty [simp]: "nat_digits n \<noteq> []"
  by (subst nat_digits.simps) simp

lemma digits_val_zeros: "digits_val (replicate k CHR ''0'' @ s) = digits_val s"
proof -
  have "foldl (\<lambda>v c. 10 * v + digit_val c) 0 (replicate k CHR ''0'') = 0"
    by (induction k) (simp_all add: digit_val_def)
  then show ?thesis by (simp add: digits_val_def)
qed

lemma digits_val_pad [simp]: "digits_val (pad_zeros k (nat_digits n)) = n"
  by (simp add: pad_zeros_def digits_val_zeros)

lemma pad_all: "list_all is_digit (pad_zeros k (nat_digits n))"
  by (simp add: pad_zeros_def nat_digits_all list_all_iff is_digit_def)
     (use nat_digits_all [of n] in \<open>auto simp: list_all_iff is_digit_def Let_def\<close>)

lemma length_pad: "k \<le> length (pad_zeros k s)"
  by (simp add: pad_zeros_def)


lemma takeWhile_digits: "list_all is_digit ds \<Longrightarrow> \<not> is_digit c \<Longrightarrow>
    takeWhile is_digit (ds @ c # t) = ds \<and> dropWhile is_digit (ds @ c # t) = c # t"
  by (induction ds) auto

lemma takeWhile_all_digits: "list_all is_digit ds \<Longrightarrow>
    takeWhile is_digit ds = ds \<and> dropWhile is_digit ds = []"
  by (induction ds) auto

lemma digit_not_special: "is_digit c \<Longrightarrow> c \<noteq> CHR ''-'' \<and> c \<noteq> CHR ''+'' \<and> c \<noteq> CHR ''_'' \<and> \<not> is_space c"
  by (auto simp: is_digit_def is_space_def Let_def)

lemma strip_no_space: "(\<And>c. c \<in> set s \<Longrightarrow> \<not> is_space c) \<Longrightarrow> strip s = s"
proof -
  assume *: "\<And>c. c \<in> set s \<Longrightarrow> \<not> is_space c"
  have "lstrip s = s"
    by (rule lstrip_fixI) (use * in \<open>auto simp: hd_in_set\<close>)
  moreover have "lstrip (rev s) = rev s"
    by (rule lstrip_fixI) (use * in \<open>auto simp: last_in_set hd_rev\<close>)
  ultimately show ?thesis by (simp add: strip_def)
qed

text \<open>Text of the form \<open>[-]digits.digits\<close> parses to its value.\<close>

lemma parse_fixed_text:
  assumes ip: "list_all is_digit ip" "ip \<noteq> []" and fp: "list_all is_digit fp"
  shows "parse_decimal ((if neg then ''-'' else []) @ ip @ ''.'' @ fp) =
    Some ((if neg then - 1 else 1) * of_nat (digits_val (ip @ fp)) * pow10 (- int (length fp)))"
proof -
  let ?s = "(if neg then ''-'' else []) @ ip @ ''.'' @ fp"
  have digs: "\<And>c. c \<in> set ip \<union> set fp \<Longrightarrow> is_digit c"
    using ip fp by (auto simp: list_all_iff)
  have chars: "\<And>c. c \<in> set ?s \<Longrightarrow> \<not> is_space c \<and> c \<noteq> CHR ''_''"
    using digs digit_not_special by (auto simp: is_space_def split: if_splits)
  have st: "strip ?s = ?s"
    by (rule strip_no_space) (use chars in blast)
  have us: "filter (\<lambda>c. c \<noteq> CHR ''_'') ?s = ?s"
    by (rule filter_True) (use chars in blast)
  obtain c ip' where c: "ip = c # ip'" using ip(2) by (cases ip) auto
  have sg: "parse_sign ?s = (if neg then - 1 else 1, ip @ ''.'' @ fp)"
    using digs [of c] digit_not_special [of c] by (auto simp: c)
  have dot: "\<not> is_digit CHR ''.''"
    by (simp add: is_digit_def)
  have parts: "takeWhile is_digit (ip @ CHR ''.'' # fp) = ip"
    "dropWhile is_digit (ip @ CHR ''.'' # fp) = CHR ''.'' # fp"
    "takeWhile is_digit fp = fp" "dropWhile is_digit fp = []"
    using takeWhile_digits [OF ip(1) dot, of fp] takeWhile_all_digits [OF fp] by blast+
  show ?thesis
    unfolding parse_decimal_def st us sg using ip(2)
    by (simp add: Let_def parts)
qed

definition on_grid :: "nat \<Rightarrow> usd \<Rightarrow> bool" where
  \<comment> \<open>the values a \<open>Decimal\<close> of exponent \<open>-p\<close> can hold\<close>
  "on_grid p x = (of_int \<lfloor>x * 10 ^ p\<rfloor> = x * 10 ^ p)"

lemma parse_fixed_str:
  assumes "on_grid p r" "0 < p"
  shows "parse_decimal (fixed_str p r) = Some r"
proof -
  define n where "n = \<lfloor>r * 10 ^ p\<rfloor>"
  define ds where "ds = pad_zeros (p + 1) (nat_digits (nat \<bar>n\<bar>))"
  define k where "k = length ds - p"
  have len: "p + 1 \<le> length ds"
    using length_pad by (simp add: ds_def)
  have all: "list_all is_digit ds"
    using pad_all by (simp add: ds_def)
  have ip: "list_all is_digit (take k ds)" "take k ds \<noteq> []"
    using all len set_take_subset [of k ds] by (auto simp: list_all_iff k_def)
  have fp: "list_all is_digit (drop k ds)" "length (drop k ds) = p"
    using all len set_drop_subset [of k ds] by (auto simp: list_all_iff k_def)
  have val: "digits_val ds = nat \<bar>n\<bar>"
    by (simp add: ds_def)
  have rn: "r * 10 ^ p = of_int n"
    using assms(1) unfolding on_grid_def n_def by (rule sym)
  have "(if n < 0 then - 1 else 1) * of_nat (nat \<bar>n\<bar>) = (of_int n :: rat)"
    by auto
  moreover have "pow10 (- int p) = 1 / 10 ^ p"
    using assms(2) by (simp add: pow10_def)
  moreover have "r = of_int n * (1 / 10 ^ p)"
    using rn by (simp add: field_simps)
  ultimately have "(if n < 0 then - 1 else 1) * of_nat (nat \<bar>n\<bar>) * pow10 (- int p) = r"
    by simp
  moreover have "fixed_str p r = (if n < 0 then ''-'' else []) @ take k ds @ ''.'' @ drop k ds"
    by (simp only: fixed_str_def Let_def n_def ds_def k_def)
  ultimately show ?thesis
    using parse_fixed_text [OF ip fp(1), of "n < 0"] val fp(2) by simp
qed

lemma fixed_str_inj:
  "on_grid p r \<Longrightarrow> on_grid p s \<Longrightarrow> 0 < p \<Longrightarrow> fixed_str p r = fixed_str p s \<longleftrightarrow> r = s"
  by (metis option.inject parse_fixed_str)

section \<open>Hexadecimal text\<close>

definition hex_char :: "nat \<Rightarrow> char" where
  "hex_char d = (if d < 10 then digit_char d else char_of (87 + d))"

fun hex_digits :: "nat \<Rightarrow> nat \<Rightarrow> string" where
  \<comment> \<open>the last \<open>k\<close> hexadecimal digits of \<open>n\<close>\<close>
  "hex_digits 0 n = []"
| "hex_digits (Suc k) n = hex_digits k (n div 16) @ [hex_char (n mod 16)]"

definition uuid_str :: "uuid \<Rightarrow> string" where
  \<comment> \<open>\<open>str(UUID(int=n))\<close>\<close>
  "uuid_str n =
     (let h = hex_digits 32 n
      in take 8 h @ ''-'' @ take 4 (drop 8 h) @ ''-'' @ take 4 (drop 12 h) @ ''-''
         @ take 4 (drop 16 h) @ ''-'' @ drop 20 h)"

end
