(* ===== verification/Calendar.thy ===== *)
theory Calendar
  imports Strings
begin

text \<open>
  The proleptic Gregorian calendar of Python's \<open>datetime\<close>, as far as the source uses it: the
  civil date of an instant, the instant of a civil date, \<open>date - timedelta(days=1)\<close>, the length
  of a month and \<open>isoformat()\<close>.  A date is a triple (year, month, day), compared
  lexicographically.  An instant is a number of microseconds since 0001-01-01T00:00Z, so day
  \<open>n\<close> (counted from 0) is \<open>toordinal() - 1\<close>.
\<close>

type_synonym date = "int \<times> int \<times> int"

definition day_us :: int where
  "day_us = 86400000000"

definition is_leap :: "int \<Rightarrow> bool" where
  "is_leap y = (y mod 4 = 0 \<and> (y mod 100 \<noteq> 0 \<or> y mod 400 = 0))"

definition month_len :: "int \<Rightarrow> int \<Rightarrow> int" where
  "month_len y m =
     (if m = 2 then (if is_leap y then 29 else 28)
      else if m = 4 \<or> m = 6 \<or> m = 9 \<or> m = 11 then 30 else 31)"

definition days_before_year :: "int \<Rightarrow> int" where
  "days_before_year y = (let z = y - 1 in 365 * z + z div 4 - z div 100 + z div 400)"

definition days_before_month :: "int \<Rightarrow> int \<Rightarrow> int" where
  "days_before_month y m = sum_list (map (month_len y) [1..m - 1])"

definition day_number :: "int \<Rightarrow> int \<Rightarrow> int \<Rightarrow> int" where
  "day_number y m d = days_before_year y + days_before_month y m + (d - 1)"

definition year_of_day :: "int \<Rightarrow> int" where
  "year_of_day n =
     (let a = n div 146097; r = n mod 146097;
          b = min 3 (r div 36524); r1 = r - 36524 * b;
          c = r1 div 1461; r2 = r1 mod 1461;
          d = min 3 (r2 div 365)
      in 400 * a + 100 * b + 4 * c + d + 1)"

fun find_month :: "int \<Rightarrow> int \<Rightarrow> int list \<Rightarrow> int \<times> int" where
  \<comment> \<open>month and day of the month of day \<open>r\<close> of the year\<close>
  "find_month y r [] = (12, r)"
| "find_month y r (m # ms) =
     (if r < month_len y m \<or> ms = [] then (m, r + 1) else find_month y (r - month_len y m) ms)"

definition civil :: "int \<Rightarrow> date" where
  "civil n =
     (let y = year_of_day n; (m, d) = find_month y (n - days_before_year y) [1..12] in (y, m, d))"

definition date_of :: "time \<Rightarrow> date" where
  \<comment> \<open>\<open>t.date()\<close>\<close>
  "date_of t = civil (t div day_us)"

definition midnight :: "int \<Rightarrow> int \<Rightarrow> int \<Rightarrow> time" where
  \<comment> \<open>\<open>datetime(y, m, d, tzinfo=utc)\<close>\<close>
  "midnight y m d = day_number y m d * day_us"

definition prev_day :: "date \<Rightarrow> date" where
  \<comment> \<open>\<open>date - timedelta(days=1)\<close>\<close>
  "prev_day dt = (case dt of (y, m, d) \<Rightarrow>
     if 1 < d then (y, m, d - 1)
     else if 1 < m then (y, m - 1, month_len y (m - 1)) else (y - 1, 12, 31))"

definition days_back :: "nat \<Rightarrow> date \<Rightarrow> date" where
  "days_back k dt = (prev_day ^^ k) dt"

definition valid_date :: "date \<Rightarrow> bool" where
  "valid_date dt = (case dt of (y, m, d) \<Rightarrow> 1 \<le> m \<and> m \<le> 12 \<and> 1 \<le> d \<and> d \<le> month_len y m)"

definition dt_le :: "date \<Rightarrow> date \<Rightarrow> bool" where
  "dt_le a b = (case (a, b) of ((y, m, d), (y', m', d')) \<Rightarrow>
     y < y' \<or> (y = y' \<and> (m < m' \<or> (m = m' \<and> d \<le> d'))))"

section \<open>Years\<close>

lemma days_before_year_split:
  assumes "0 \<le> b" "b \<le> 3" "0 \<le> c" "c \<le> 24" "0 \<le> d" "d \<le> 3"
  shows "days_before_year (400 * a + 100 * b + 4 * c + d + 1) = 146097 * a + 36524 * b + 1461 * c + 365 * d"
proof -
  have "(400 * a + 100 * b + 4 * c + d) div 4 = 100 * a + 25 * b + c"
    by (rule int_div_pos_eq [where r = d]) (use assms in \<open>simp_all add: algebra_simps\<close>)
  moreover have "(400 * a + 100 * b + 4 * c + d) div 100 = 4 * a + b"
    by (rule int_div_pos_eq [where r = "4 * c + d"]) (use assms in \<open>simp_all add: algebra_simps\<close>)
  moreover have "(400 * a + 100 * b + 4 * c + d) div 400 = a"
    by (rule int_div_pos_eq [where r = "100 * b + 4 * c + d"]) (use assms in \<open>simp_all add: algebra_simps\<close>)
  ultimately show ?thesis by (simp add: days_before_year_def Let_def)
qed

lemma div_pred:
  fixes k :: int
  assumes "0 < k"
  shows "y div k = (y - 1) div k + (if y mod k = 0 then 1 else 0)"
proof (cases "y mod k = 0")
  case True
  then obtain q where q: "y = k * q" by auto
  have "(k * q - 1) div k = q - 1"
    by (rule int_div_pos_eq [where r = "k - 1"]) (use assms in \<open>simp_all add: right_diff_distrib\<close>)
  with q True assms show ?thesis by simp
next
  case False
  have "0 \<le> y mod k" "y mod k < k" using assms by simp_all
  then have "(y - 1) div k = y div k"
    using False by (intro int_div_pos_eq [where r = "y mod k - 1"]) auto
  with False show ?thesis by simp
qed

lemma leap_count:
  "(p400 \<Longrightarrow> p100) \<Longrightarrow> (p100 \<Longrightarrow> p4) \<Longrightarrow>
    (if p4 \<and> (\<not> p100 \<or> p400) then 366 else 365) =
    365 + (if p4 then 1 else 0) - (if p100 then 1 else 0) + (if p400 then 1 else 0 :: int)"
  by (cases p4; cases p100; cases p400) simp_all

lemma days_before_year_Suc:
  "days_before_year (y + 1) = days_before_year y + (if is_leap y then 366 else 365)"
proof -
  define i4 i100 i400 where "i4 = (if y mod 4 = 0 then 1 else 0 :: int)"
    and "i100 = (if y mod 100 = 0 then 1 else 0 :: int)"
    and "i400 = (if y mod 400 = 0 then 1 else 0 :: int)"
  have "y mod 400 = 0 \<Longrightarrow> y mod 100 = 0" "y mod 100 = 0 \<Longrightarrow> y mod 4 = 0"
    using dvd_trans [of 100 400 y] dvd_trans [of 4 100 y] by (simp_all add: mod_eq_0_iff_dvd)
  then have "(if is_leap y then 366 else 365) = 365 + i4 - i100 + i400"
    unfolding is_leap_def i4_def i100_def i400_def by (rule leap_count)
  moreover have "y div 4 = (y - 1) div 4 + i4" "y div 100 = (y - 1) div 100 + i100"
    "y div 400 = (y - 1) div 400 + i400"
    unfolding i4_def i100_def i400_def by (rule div_pred; simp)+
  moreover have "365 * y + (a + i) - (b + j) + (c + k) = 365 * (y - 1) + a - b + c + (365 + i - j + k)"
    for a b c i j k by simp
  ultimately show ?thesis
    by (simp only: days_before_year_def Let_def add_diff_cancel_right')
qed

lemma capped_div:
  fixes r k :: int
  assumes "0 \<le> r" "r < 4 * k + 1" "0 < k"
  shows "0 \<le> min 3 (r div k) \<and> min 3 (r div k) \<le> 3 \<and> k * min 3 (r div k) \<le> r \<and>
    r - k * min 3 (r div k) < (if min 3 (r div k) = 3 then k + 1 else k)"
proof -
  define q where "q = r div k"
  have q: "r = k * q + r mod k" "0 \<le> r mod k" "r mod k < k"
    using assms by (simp_all add: q_def)
  then obtain t where t: "r = k * q + t" "0 \<le> t" "t < k" by blast
  have "0 \<le> q" using assms by (simp add: q_def pos_imp_zdiv_nonneg_iff)
  have "q \<le> 4"
  proof (rule ccontr)
    assume "\<not> q \<le> 4"
    then have "k * 5 \<le> k * q" using assms(3) by (intro mult_left_mono) auto
    with q assms show False by linarith
  qed
  with \<open>0 \<le> q\<close> have "q = 0 \<or> q = 1 \<or> q = 2 \<or> q = 3 \<or> q = 4" by presburger
  then show ?thesis
    using t assms by (fold q_def) (elim disjE; simp)
qed

lemma leap_last:
  assumes "0 \<le> b" "b \<le> 3" "0 \<le> c" "c < 24 \<or> c = 24 \<and> b = 3"
  shows "is_leap (400 * a + 100 * b + 4 * c + 3 + 1)"
proof -
  let ?y = "400 * a + 100 * b + 4 * c + 4"
  have "?y mod 4 = 0" by presburger
  moreover have "?y mod 100 \<noteq> 0" if "c < 24"
  proof -
    have "?y mod 100 = 4 * c + 4"
      by (rule int_mod_pos_eq [where q = "4 * a + b"]) (use assms that in \<open>simp_all add: algebra_simps\<close>)
    with assms show ?thesis by simp
  qed
  moreover have "?y mod 400 = 0" if "c = 24" "b = 3"
    using that by presburger
  ultimately show ?thesis using assms by (auto simp: is_leap_def add.assoc)
qed

lemma year_of_day_bounds:
  "days_before_year (year_of_day n) \<le> n \<and> n < days_before_year (year_of_day n + 1)"
proof -
  define a where "a = n div 146097"
  define r where "r = n mod 146097"
  define b where "b = min 3 (r div 36524)"
  define r1 where "r1 = r - 36524 * b"
  define c where "c = r1 div 1461"
  define r2 where "r2 = r1 mod 1461"
  define d where "d = min 3 (r2 div 365)"
  have n: "n = 146097 * a + r" "0 \<le> r" "r < 146097"
    by (simp_all add: a_def r_def)
  have b: "0 \<le> b" "b \<le> 3" "0 \<le> r1" "r1 < (if b = 3 then 36525 else 36524)"
    using capped_div [of r 36524] n unfolding b_def [symmetric] r1_def by auto
  have c: "r1 = 1461 * c + r2" "0 \<le> r2" "r2 < 1461"
    by (simp_all add: c_def r2_def)
  then have c': "0 \<le> c" "c \<le> 24"
    using b by (auto split: if_splits)
  have d: "0 \<le> d" "d \<le> 3" "365 * d \<le> r2" "r2 - 365 * d < (if d = 3 then 366 else 365)"
    using capped_div [of r2 365] c unfolding d_def [symmetric] by auto
  have y: "year_of_day n = 400 * a + 100 * b + 4 * c + d + 1"
    by (simp add: year_of_day_def Let_def a_def b_def r1_def c_def r2_def d_def r_def)
  have low: "days_before_year (year_of_day n) = 146097 * a + 36524 * b + 1461 * c + 365 * d"
    unfolding y by (rule days_before_year_split) (use b c' d in auto)
  have leap: "is_leap (year_of_day n)" if "d = 3" "c < 24 \<or> c = 24 \<and> b = 3"
    using leap_last [of b c a] that b c' unfolding y by simp
  have "r2 - 365 * d < (if is_leap (year_of_day n) then 366 else 365)"
  proof (cases "d = 3 \<and> \<not> (c < 24 \<or> c = 24 \<and> b = 3)")
    case True
    then have "c = 24" "b < 3" using b c' by auto
    then have "r2 < 1460" using b c by auto
    with True show ?thesis by auto
  qed (use leap d in \<open>auto split: if_splits\<close>)
  with low n c d r1_def show ?thesis by (simp add: days_before_year_Suc)
qed

section \<open>Months\<close>

lemma upto_months: "[1..12] = [1, 2, 3, 4, 5, 6, 7, 8, 9, 10, 11, 12 :: int]"
  by (simp add: upto_rec1)

lemma month_len_pos [simp]: "28 \<le> month_len y m" "month_len y m \<le> 31"
  by (auto simp: month_len_def)

lemma days_before_month_Suc:
  "1 \<le> m \<Longrightarrow> days_before_month y (m + 1) = days_before_month y m + month_len y m"
  by (simp add: days_before_month_def upto_rec2)

lemma days_before_month_1 [simp]: "days_before_month y 1 = 0"
  by (simp add: days_before_month_def)

lemma year_len: "days_before_month y 13 = (if is_leap y then 366 else 365)"
  by (simp add: days_before_month_def upto_months month_len_def)

lemma find_month_correct:
  assumes "1 \<le> k" "k \<le> 12" "0 \<le> r" "r < days_before_month y 13 - days_before_month y k"
    and "find_month y r [k..12] = (m, d)"
  shows "k \<le> m \<and> m \<le> 12 \<and> 1 \<le> d \<and> d \<le> month_len y m \<and>
    days_before_month y m + (d - 1) = days_before_month y k + r"
  using assms
proof (induction "nat (12 - k)" arbitrary: k r)
  case 0
  then have "k = 12" by simp
  with 0 show ?case
    using days_before_month_Suc [of 12 y] by auto
next
  case (Suc n)
  then have k: "[k..12] = k # [k + 1..12]" "[k + 1..12] \<noteq> []"
    by (simp_all add: upto_rec1)
  show ?case
  proof (cases "r < month_len y k")
    case True
    with Suc.prems k show ?thesis by auto
  next
    case False
    have "k + 1 \<le> m \<and> m \<le> 12 \<and> 1 \<le> d \<and> d \<le> month_len y m \<and>
        days_before_month y m + (d - 1) = days_before_month y (k + 1) + (r - month_len y k)"
      by (rule Suc.hyps(1)) (use Suc k False days_before_month_Suc [of k y] in auto)
    then show ?thesis
      using days_before_month_Suc [of k y] Suc.prems by auto
  qed
qed

lemma civil_correct:
  assumes "civil n = (y, m, d)"
  shows "valid_date (y, m, d) \<and> day_number y m d = n"
proof -
  let ?r = "n - days_before_year y"
  from assms have y: "y = year_of_day n" and fm: "find_month y ?r [1..12] = (m, d)"
    by (auto simp: civil_def Let_def split: prod.splits)
  have "0 \<le> ?r" "?r < days_before_month y 13"
    using year_of_day_bounds [of n] by (auto simp: y year_len days_before_year_Suc)
  with find_month_correct [OF _ _ _ _ fm] show ?thesis
    by (auto simp: valid_date_def day_number_def)
qed

lemma prev_day_number:
  assumes "valid_date (y, m, d)" "prev_day (y, m, d) = (y', m', d')"
  shows "valid_date (y', m', d') \<and> day_number y' m' d' = day_number y m d - 1"
proof -
  have "days_before_month (y - 1) 12 = (if is_leap (y - 1) then 366 else 365) - 31"
    using days_before_month_Suc [of 12 "y - 1"] year_len [of "y - 1"] by (simp add: month_len_def)
  moreover have "m = 1 \<or> days_before_month y m = days_before_month y (m - 1) + month_len y (m - 1)"
    using assms(1) days_before_month_Suc [of "m - 1" y] by (cases "m = 1") (auto simp: valid_date_def)
  ultimately show ?thesis
    using assms days_before_year_Suc [of "y - 1"] order_trans [OF _ month_len_pos(1), of 1]
    by (auto simp: valid_date_def prev_day_def day_number_def month_len_def [of _ 12] split: if_splits)
qed

section \<open>Text\<close>

definition two_digits :: "int \<Rightarrow> string" where
  "two_digits n = pad_zeros 2 (nat_digits (nat n))"

definition date_str :: "date \<Rightarrow> string" where
  \<comment> \<open>\<open>d.isoformat()\<close>\<close>
  "date_str dt = (case dt of (y, m, d) \<Rightarrow>
     pad_zeros 4 (nat_digits (nat y)) @ ''-'' @ two_digits m @ ''-'' @ two_digits d)"

definition iso_str :: "time \<Rightarrow> string" where
  \<comment> \<open>\<open>t.isoformat()\<close> of an aware UTC \<open>datetime\<close>\<close>
  "iso_str t =
     (let r = t mod day_us; s = r div 1000000; us = r mod 1000000
      in date_str (date_of t) @ ''T'' @ two_digits (s div 3600) @ '':'' @ two_digits (s div 60 mod 60)
         @ '':'' @ two_digits (s mod 60)
         @ (if us = 0 then [] else ''.'' @ pad_zeros 6 (nat_digits (nat us))) @ ''+00:00'')"

end
