(* ===== verification/PyValue.thy ===== *)
theory PyValue
  imports Calendar
begin

text \<open>
  The dynamic values of the source: JSON payloads (\<open>dict[str, Any]\<close> in insertion order) with
  truth values, \<open>str(x)\<close>, \<open>repr(x)\<close>, dictionary access and update, and \<open>_to_decimal\<close>.

  A float carries its \<open>repr\<close>, a \<open>Decimal\<close> its coefficient and exponent.  \<open>PUuid u\<close> is the
  string \<open>str(u)\<close> and \<open>PTime t\<close> the string \<open>t.isoformat()\<close>: a payload keeps what they denote.
\<close>

section \<open>Dynamic values\<close>

datatype pyval =
    PNone
  | PBool bool
  | PInt int
  | PFloat string
  | PDec int int
  | PStr string
  | PUuid uuid
  | PTime time
  | PList "pyval list"
  | PDict "(string \<times> pyval) list"

type_synonym pydict = "(string \<times> pyval) list"

definition dec_str :: "int \<Rightarrow> int \<Rightarrow> string" where
  \<comment> \<open>\<open>str(Decimal)\<close> for coefficient \<open>c\<close> and exponent \<open>e\<close>\<close>
  "dec_str c e =
     (let ds = nat_digits (nat \<bar>c\<bar>); left = e + int (length ds);
          dotplace = (if e \<le> 0 \<and> - 6 < left then left else 1);
          body = (if dotplace \<le> 0 then ''0.'' @ replicate (nat (- dotplace)) CHR ''0'' @ ds
                  else if int (length ds) \<le> dotplace
                       then ds @ replicate (nat dotplace - length ds) CHR ''0''
                  else take (nat dotplace) ds @ ''.'' @ drop (nat dotplace) ds);
          expo = (if left = dotplace then []
                  else ''E'' @ (if 0 \<le> left - dotplace then ''+'' else []) @ int_str (left - dotplace))
      in (if c < 0 then ''-'' else []) @ body @ expo)"

definition escape_char :: "char \<Rightarrow> string" where
  "escape_char c =
     (let n = of_char c :: nat in
      if c = CHR ''\<newline>'' then [CHR 0x5C, CHR ''n''] else if n = 9 then [CHR 0x5C, CHR ''t'']
      else if n = 13 then [CHR 0x5C, CHR ''r''] else if n = 92 then [c, c]
      else if n < 32 \<or> (127 \<le> n \<and> n \<le> 160) \<or> n = 173 then
        [CHR 0x5C, CHR ''x'', hex_char (n div 16), hex_char (n mod 16)]
      else [c])"

definition str_repr :: "string \<Rightarrow> string" where
  \<comment> \<open>\<open>repr(s)\<close>\<close>
  "str_repr s =
     (let q = CHR 0x27; dq = CHR 0x22
      in if q \<in> set s \<and> dq \<notin> set s then [dq] @ concat (map escape_char s) @ [dq]
         else [q] @ concat (map (\<lambda>c. if c = q then [CHR 0x5C, q] else escape_char c) s) @ [q])"

fun join_commas :: "string list \<Rightarrow> string" where
  "join_commas [] = []"
| "join_commas [s] = s"
| "join_commas (s # t # ts) = s @ '', '' @ join_commas (t # ts)"

fun py_repr :: "pyval \<Rightarrow> string" where
  "py_repr PNone = ''None''"
| "py_repr (PBool b) = (if b then ''True'' else ''False'')"
| "py_repr (PInt n) = int_str n"
| "py_repr (PFloat s) = s"
| "py_repr (PDec c e) = ''Decimal('' @ str_repr (dec_str c e) @ '')''"
| "py_repr (PStr s) = str_repr s"
| "py_repr (PUuid u) = str_repr (uuid_str u)"
| "py_repr (PTime t) = str_repr (iso_str t)"
| "py_repr (PList vs) = ''['' @ join_commas (map py_repr vs) @ '']''"
| "py_repr (PDict kvs) =
     ''{'' @ join_commas (map (\<lambda>kv. str_repr (fst kv) @ '': '' @ py_repr (snd kv)) kvs) @ ''}''"

definition py_str :: "pyval \<Rightarrow> string" where
  \<comment> \<open>\<open>str(v)\<close>\<close>
  "py_str v = (case v of PStr s \<Rightarrow> s | PUuid u \<Rightarrow> uuid_str u | PTime t \<Rightarrow> iso_str t | PDec c e \<Rightarrow> dec_str c e | _ \<Rightarrow> py_repr v)"

definition truthy :: "pyval \<Rightarrow> bool" where
  "truthy v = (case v of PNone \<Rightarrow> False | PBool b \<Rightarrow> b | PInt n \<Rightarrow> n \<noteq> 0
     | PFloat s \<Rightarrow> parse_decimal s \<noteq> Some 0 | PDec c e \<Rightarrow> c \<noteq> 0 | PStr s \<Rightarrow> s \<noteq> []
     | PUuid u \<Rightarrow> True | PTime t \<Rightarrow> True | PList vs \<Rightarrow> vs \<noteq> [] | PDict kvs \<Rightarrow> kvs \<noteq> [])"

definition str_or_empty :: "pyval \<Rightarrow> string" where
  \<comment> \<open>\<open>str(v or "")\<close>\<close>
  "str_or_empty v = (if truthy v then py_str v else [])"

definition dget :: "pydict \<Rightarrow> string \<Rightarrow> pyval" where
  \<comment> \<open>\<open>d.get(k)\<close>\<close>
  "dget d k = (case map_of d k of None \<Rightarrow> PNone | Some v \<Rightarrow> v)"

fun dset :: "pydict \<Rightarrow> string \<Rightarrow> pyval \<Rightarrow> pydict" where
  \<comment> \<open>\<open>d[k] = v\<close>: a present key keeps its place\<close>
  "dset [] k v = [(k, v)]"
| "dset ((k', v') # d) k v = (if k' = k then (k, v) # d else (k', v') # dset d k v)"

definition dmerge :: "pydict \<Rightarrow> pydict \<Rightarrow> pydict" where
  \<comment> \<open>\<open>{**d, **e}\<close>\<close>
  "dmerge d e = foldl (\<lambda>acc kv. dset acc (fst kv) (snd kv)) d e"

definition has_key :: "pydict \<Rightarrow> string \<Rightarrow> bool" where
  "has_key d k = (map_of d k \<noteq> None)"

definition as_dict :: "pyval \<Rightarrow> pydict" where
  \<comment> \<open>\<open>v if isinstance(v, dict) else {}\<close>\<close>
  "as_dict v = (case v of PDict d \<Rightarrow> d | _ \<Rightarrow> [])"

definition opt_val :: "('a \<Rightarrow> pyval) \<Rightarrow> 'a option \<Rightarrow> pyval" where
  "opt_val f x = (case x of None \<Rightarrow> PNone | Some y \<Rightarrow> f y)"

lemma map_of_dset: "map_of (dset d k v) = (map_of d)(k \<mapsto> v)"
  by (induction d k v rule: dset.induct) (auto simp: fun_eq_iff)

lemma dget_dset [simp]: "dget (dset d k v) k' = (if k' = k then v else dget d k')"
  by (simp add: dget_def map_of_dset)

lemma has_key_dset [simp]: "has_key (dset d k v) k' = (k' = k \<or> has_key d k')"
  by (simp add: has_key_def map_of_dset)

lemma dmerge_simps [simp]:
  "dmerge d [] = d" "dmerge d ((k, v) # e) = dmerge (dset d k v) e"
  by (simp_all add: dmerge_def)

lemma dset_nonempty [simp]: "dset d k v \<noteq> []"
  by (induction d k v rule: dset.induct) auto

section \<open>Decimal values of dynamic values\<close>

definition to_decimal_default :: "usd \<Rightarrow> pyval \<Rightarrow> usd" where
  \<comment> \<open>\<open>_to_decimal(value, default)\<close>\<close>
  "to_decimal_default d v =
     (case v of PDec c e \<Rightarrow> of_int c * pow10 e
      | PNone \<Rightarrow> d
      | _ \<Rightarrow> (case parse_decimal (py_str v) of None \<Rightarrow> d | Some r \<Rightarrow> r))"

definition to_decimal :: "pyval \<Rightarrow> usd" where
  "to_decimal v = to_decimal_default 0 v"

lemma to_decimal_fixed_str [simp]:
  "on_grid p r \<Longrightarrow> 0 < p \<Longrightarrow> to_decimal (PStr (fixed_str p r)) = r"
  by (simp add: to_decimal_def to_decimal_default_def py_str_def parse_fixed_str)

end
