(* ===== verification/Money.thy ===== *)
theory Money
  imports PyValue
begin

text \<open>
  \<open>Decimal.quantize\<close> with the default rounding (half to even), the bounds idioms built on it, and
  the interface \<open>quantizer\<close>: the laws of a quantisation that the source's components, which take
  \<open>quantize_fn\<close> as a parameter, rely on.  It is interpreted for four and for six places.
\<close>

definition quantize :: "nat \<Rightarrow> usd \<Rightarrow> usd" where
  "quantize p x =
     (let y = x * 10 ^ p; n = \<lfloor>y\<rfloor>; d = y - of_int n
      in of_int (if d < 1 / 2 then n else if 1 / 2 < d then n + 1
                 else if even n then n else n + 1) / 10 ^ p)"

abbreviation quantize4 :: "usd \<Rightarrow> usd" where
  "quantize4 \<equiv> quantize 4"

abbreviation quantize6 :: "usd \<Rightarrow> usd" where
  "quantize6 \<equiv> quantize 6"

definition round_even :: "rat \<Rightarrow> int" where
  "round_even y = (let n = \<lfloor>y\<rfloor>; d = y - of_int n in
     if d < 1 / 2 then n else if 1 / 2 < d then n + 1 else if even n then n else n + 1)"

lemma quantize_round_even: "quantize p x = of_int (round_even (x * 10 ^ p)) / 10 ^ p"
  by (simp add: quantize_def round_even_def Let_def)

lemma round_even_of_int [simp]: "round_even (of_int n) = n"
  by (simp add: round_even_def)

lemma round_even_mono:
  assumes "x \<le> y"
  shows "round_even x \<le> round_even y"
proof (cases "\<lfloor>x\<rfloor> = \<lfloor>y\<rfloor>")
  case True
  with assms show ?thesis by (auto simp: round_even_def Let_def)
next
  case False
  with assms have "\<lfloor>x\<rfloor> + 1 \<le> \<lfloor>y\<rfloor>"
    using floor_mono [OF assms] by linarith
  moreover have "round_even x \<le> \<lfloor>x\<rfloor> + 1" "\<lfloor>y\<rfloor> \<le> round_even y"
    by (auto simp: round_even_def Let_def)
  ultimately show ?thesis by linarith
qed

lemma round_even_near: "\<bar>of_int (round_even y) - y\<bar> \<le> 1 / 2"
proof -
  define n where "n = \<lfloor>y\<rfloor>"
  have n: "\<lfloor>y\<rfloor> = n" "of_int n \<le> y" "y < of_int n + 1"
    using floor_correct [of y] by (simp_all add: n_def)
  have "round_even y = n \<and> y - of_int n \<le> 1 / 2 \<or> round_even y = n + 1 \<and> 1 / 2 \<le> y - of_int n"
    unfolding round_even_def Let_def n(1) by (auto split: if_splits)
  with n(2,3) show ?thesis by (auto simp: abs_le_iff)
qed

lemma on_grid_iff: "on_grid p x \<longleftrightarrow> (\<exists>n. x = of_int n / 10 ^ p)"
proof
  assume "on_grid p x"
  then have "of_int \<lfloor>x * 10 ^ p\<rfloor> = x * 10 ^ p"
    by (simp only: on_grid_def)
  then have "x = of_int \<lfloor>x * 10 ^ p\<rfloor> / 10 ^ p"
    by (metis nonzero_mult_div_cancel_right power_not_zero zero_neq_numeral)
  then show "\<exists>n. x = of_int n / 10 ^ p" ..
qed (auto simp: on_grid_def)

lemma on_gridI [intro]: "on_grid p (of_int n / 10 ^ p)"
  by (auto simp: on_grid_iff)

lemma quantize_grid [simp, intro]: "on_grid p (quantize p x)"
  by (auto simp: quantize_round_even)

lemma quantize_id [simp]: "on_grid p x \<Longrightarrow> quantize p x = x"
  by (auto simp: on_grid_iff quantize_round_even)

lemma quantize_mono: "x \<le> y \<Longrightarrow> quantize p x \<le> quantize p y"
  by (simp add: quantize_round_even divide_right_mono round_even_mono mult_right_mono)

lemma on_grid_0 [simp]: "on_grid p 0"
  by (simp add: on_grid_def)

lemma on_grid_add: "on_grid p x \<Longrightarrow> on_grid p y \<Longrightarrow> on_grid p (x + y)"
  unfolding on_grid_iff by (metis add_divide_distrib of_int_add)

lemma on_grid_diff: "on_grid p x \<Longrightarrow> on_grid p y \<Longrightarrow> on_grid p (x - y)"
  unfolding on_grid_iff by (metis diff_divide_distrib of_int_diff)

lemma quantize_error: "\<bar>quantize p x - x\<bar> \<le> 1 / (2 * 10 ^ p)"
proof -
  have "\<bar>quantize p x - x\<bar> = \<bar>of_int (round_even (x * 10 ^ p)) - x * 10 ^ p\<bar> / 10 ^ p"
    by (simp add: quantize_round_even abs_if field_simps)
  also have "\<dots> \<le> (1 / 2) / 10 ^ p"
    by (rule divide_right_mono [OF round_even_near]) simp
  finally show ?thesis by simp
qed

lemma floor_rat_numeral [simp]:
  "\<lfloor>numeral a / numeral b :: rat\<rfloor> = numeral a div numeral b"
  "\<lfloor>1 / numeral b :: rat\<rfloor> = 1 div numeral b"
  "\<lfloor>- (numeral a / numeral b) :: rat\<rfloor> = - numeral a div numeral b"
  using floor_divide_of_int_eq [of "numeral a" "numeral b", where 'a = rat]
    floor_divide_of_int_eq [of 1 "numeral b", where 'a = rat]
    floor_divide_of_int_eq [of "- numeral a" "numeral b", where 'a = rat]
  by simp_all

section \<open>The interface of a quantisation\<close>

locale quantizer =
  fixes q :: "usd \<Rightarrow> usd" and grid :: "usd \<Rightarrow> bool"
  assumes q_grid [simp, intro]: "grid (q x)"
    and q_id [simp]: "grid x \<Longrightarrow> q x = x"
    and q_mono: "x \<le> y \<Longrightarrow> q x \<le> q y"
    and grid_0 [simp]: "grid 0"
    and grid_add: "grid x \<Longrightarrow> grid y \<Longrightarrow> grid (x + y)"
    and grid_diff: "grid x \<Longrightarrow> grid y \<Longrightarrow> grid (x - y)"
begin

lemma q_0 [simp]: "q 0 = 0"
  by simp

lemma q_nonneg: "0 \<le> x \<Longrightarrow> 0 \<le> q x"
  using q_mono [of 0 x] by simp

lemma q_nonpos: "x \<le> 0 \<Longrightarrow> q x \<le> 0"
  using q_mono [of x 0] by simp

lemma grid_min: "grid x \<Longrightarrow> grid y \<Longrightarrow> grid (min x y)"
  by (simp add: min_def)

lemma grid_max: "grid x \<Longrightarrow> grid y \<Longrightarrow> grid (max x y)"
  by (simp add: max_def)

lemma q_idem: "q (q x) = q x"
  by simp

lemma grid_total: "(\<And>x. x \<in> set xs \<Longrightarrow> grid (f x)) \<Longrightarrow> grid (total f xs)"
  by (induction xs) (auto intro: grid_add)

lemma q_le_grid: "x \<le> y \<Longrightarrow> grid y \<Longrightarrow> q x \<le> y"
  using q_mono [of x y] by simp

lemmas closed = grid_add grid_diff grid_min grid_max

end

interpretation q4: quantizer "quantize 4" "on_grid 4"
  by unfold_locales (auto intro: quantize_mono on_grid_add on_grid_diff)

interpretation q6: quantizer "quantize 6" "on_grid 6"
  by unfold_locales (auto intro: quantize_mono on_grid_add on_grid_diff)

end
