(* ===== verification/Types.thy ===== *)
theory Types
  imports Money
begin

text \<open>
  The rows of the enforcement control plane (\<open>app/models/enforcement_*.py\<close>): one record per
  table, one datatype per enumeration, and the database as the record of its tables.  A column
  of type \<open>Numeric(14, 4)\<close> holds money on the four-place grid.  \<open>db_next\<close> supplies the fresh
  identifiers that \<open>uuid4()\<close> draws, and \<open>db_now\<close> is the server clock that fills the
  \<open>created_at\<close> defaults.
\<close>

section \<open>Enumerations\<close>

datatype enf_source = TERRAFORM | K8S_ADMISSION | CLOUD_EVENT

datatype enf_mode = SHADOW | SOFT | HARD

datatype decision_type = ALLOW | DENY | REQUIRE_APPROVAL | ALLOW_WITH_CREDITS

datatype pool_type = RESERVED | EMERGENCY

datatype approval_status = PENDING | APPROVED | DENIED | EXPIRED | APR_CANCELLED

datatype action_status = QUEUED | RUNNING | SUCCEEDED | FAILED | CANCELLED

definition source_value :: "enf_source \<Rightarrow> string" where
  "source_value s = (case s of TERRAFORM \<Rightarrow> ''terraform'' | K8S_ADMISSION \<Rightarrow> ''k8s_admission''
     | CLOUD_EVENT \<Rightarrow> ''cloud_event'')"

definition mode_value :: "enf_mode \<Rightarrow> string" where
  "mode_value m = (case m of SHADOW \<Rightarrow> ''shadow'' | SOFT \<Rightarrow> ''soft'' | HARD \<Rightarrow> ''hard'')"

definition pool_value :: "pool_type \<Rightarrow> string" where
  "pool_value p = (case p of RESERVED \<Rightarrow> ''reserved'' | EMERGENCY \<Rightarrow> ''emergency'')"

definition approval_status_value :: "approval_status \<Rightarrow> string" where
  "approval_status_value s = (case s of PENDING \<Rightarrow> ''pending'' | APPROVED \<Rightarrow> ''approved''
     | DENIED \<Rightarrow> ''denied'' | EXPIRED \<Rightarrow> ''expired'' | APR_CANCELLED \<Rightarrow> ''cancelled'')"

definition source_of_value :: "string \<Rightarrow> enf_source option" where
  \<comment> \<open>\<open>EnforcementSource(value)\<close>; \<open>None\<close> is \<open>ValueError\<close>\<close>
  "source_of_value v = (if v = ''terraform'' then Some TERRAFORM
     else if v = ''k8s_admission'' then Some K8S_ADMISSION
     else if v = ''cloud_event'' then Some CLOUD_EVENT else None)"

section \<open>Rows\<close>

record policy =
  pol_id :: uuid
  pol_tenant :: uuid
  terraform_mode :: enf_mode
  terraform_mode_prod :: enf_mode
  terraform_mode_nonprod :: enf_mode
  k8s_mode :: enf_mode
  k8s_mode_prod :: enf_mode
  k8s_mode_nonprod :: enf_mode
  require_approval_prod :: bool
  require_approval_nonprod :: bool
  separation_prod :: bool
  separation_nonprod :: bool
  routing_rules :: pyval
  pol_schema_version :: string
  pol_sha256 :: string
  pol_document :: pyval
  plan_ceiling :: "usd option"
  enterprise_ceiling :: "usd option"
  auto_approve_below :: usd
  hard_deny_above :: usd
  pol_ttl :: int
  pol_version :: int

record budget =
  bud_id :: uuid
  bud_tenant :: uuid
  bud_scope :: string
  bud_limit :: usd
  bud_active :: bool
  bud_created_by :: "uuid option"

record credit_grant =
  gr_id :: uuid
  gr_tenant :: uuid
  gr_pool :: pool_type
  gr_scope :: string
  gr_total :: usd
  gr_remaining :: usd
  gr_expires :: "time option"
  gr_reason :: "string option"
  gr_active :: bool
  gr_created_by :: "uuid option"
  gr_created :: time

record credit_alloc =
  al_id :: uuid
  al_tenant :: uuid
  al_decision :: uuid
  al_grant :: uuid
  al_pool :: pool_type
  al_reserved :: usd
  al_consumed :: usd
  al_released :: usd
  al_active :: bool
  al_created :: time
  al_settled :: "time option"

record decision =
  dec_id :: uuid
  dec_tenant :: uuid
  dec_source :: enf_source
  dec_environment :: string
  dec_project :: string
  dec_action :: string
  dec_resource :: string
  dec_decision :: decision_type
  dec_reasons :: "string list"
  dec_policy_version :: int
  dec_schema_version :: string
  dec_sha256 :: string
  dec_fingerprint :: string
  dec_idempotency :: string
  dec_request :: pydict
  dec_response :: pydict
  dec_monthly :: usd
  dec_hourly :: usd
  dec_burn_rate :: "usd option"
  dec_forecast :: "usd option"
  dec_risk_class :: "string option"
  dec_risk_score :: "int option"
  dec_anomaly :: "bool option"
  dec_alloc_available :: "usd option"
  dec_credits_available :: "usd option"
  dec_reserved_alloc :: usd
  dec_reserved_credit :: usd
  dec_reservation_active :: bool
  dec_approval_required :: bool
  dec_token_issued :: bool
  dec_token_expires :: "time option"
  dec_created_by :: "uuid option"
  dec_created :: time

record approval =
  apr_id :: uuid
  apr_tenant :: uuid
  apr_decision :: uuid
  apr_status :: approval_status
  apr_requested_by :: "uuid option"
  apr_reviewed_by :: "uuid option"
  apr_notes :: "string option"
  apr_rule_id :: "string option"
  apr_trace :: pydict
  apr_token_hash :: "string option"
  apr_token_expires :: "time option"
  apr_token_consumed :: "time option"
  apr_expires :: time
  apr_approved_at :: "time option"
  apr_denied_at :: "time option"
  apr_created :: time
  apr_updated :: time

record ledger_entry =
  led_id :: uuid
  led_tenant :: uuid
  led_decision_id :: uuid
  led_source :: enf_source
  led_environment :: string
  led_project :: string
  led_action :: string
  led_resource :: string
  led_decision :: decision_type
  led_reasons :: "string list"
  led_policy_version :: int
  led_schema_version :: string
  led_sha256 :: string
  led_fingerprint :: string
  led_idempotency :: string
  led_monthly :: usd
  led_hourly :: usd
  led_burn_rate :: "usd option"
  led_forecast :: "usd option"
  led_risk_class :: "string option"
  led_risk_score :: "int option"
  led_anomaly :: "bool option"
  led_reserved_total :: usd
  led_approval_required :: bool
  led_approval_id :: "uuid option"
  led_approval_status :: "approval_status option"
  led_request_sha :: string
  led_response_sha :: string
  led_created_by :: "uuid option"
  led_decision_created :: time
  led_recorded :: time

record enf_action =
  act_id :: uuid
  act_tenant :: uuid
  act_decision :: uuid
  act_approval :: "uuid option"
  act_type :: string
  act_target :: string
  act_idempotency :: string
  act_request :: pydict
  act_request_sha :: string
  act_status :: action_status
  act_attempts :: int
  act_max_attempts :: int
  act_backoff :: int
  act_lease_ttl :: int
  act_next_retry :: time
  act_worker :: "uuid option"
  act_lease :: "time option"
  act_error_code :: "string option"
  act_error_message :: "string option"
  act_result :: "pydict option"
  act_result_sha :: "string option"
  act_created_by :: "uuid option"
  act_started :: "time option"
  act_completed :: "time option"
  act_created :: time

record cost_record =
  cost_tenant :: uuid
  cost_day :: date
  cost_usd :: usd
  cost_final :: bool

record db =
  policies :: "policy list"
  budgets :: "budget list"
  grants :: "credit_grant list"
  allocs :: "credit_alloc list"
  decisions :: "decision list"
  approvals :: "approval list"
  ledger :: "ledger_entry list"
  actions :: "enf_action list"
  costs :: "cost_record list"
  db_next :: uuid
  db_now :: time

definition empty_db :: "time \<Rightarrow> db" where
  "empty_db t = \<lparr>policies = [], budgets = [], grants = [], allocs = [], decisions = [],
     approvals = [], ledger = [], actions = [], costs = [], db_next = 1, db_now = t\<rparr>"

lemma source_of_value_value [simp]: "source_of_value (source_value s) = Some s"
  by (cases s) (simp_all add: source_value_def source_of_value_def)

section \<open>Inputs\<close>

record gate_input =
  gi_project :: string
  gi_environment :: string
  gi_action :: string
  gi_resource :: string
  gi_monthly :: usd
  gi_hourly :: usd
  gi_metadata :: pydict
  gi_idempotency :: "string option"
  gi_dry_run :: bool

end
