(* ===== verification/Service_Utils.thy ===== *)
theory Service_Utils
  imports Types "HOL-Library.List_Lexorder" "HOL-Library.Char_ord"
begin

text \<open>
  \<open>app/modules/enforcement/domain/service_utils.py\<close> and
  \<open>app/shared/core/approval_permissions.py\<close>: normalisation of environments, roles, reason codes
  and permissions, canonical JSON, CSV cells, the month window and the request fingerprint.

  \<open>hashlib.sha256(text).hexdigest()\<close> is the parameter \<open>sha\<close> of the definitions that use it.
\<close>

section \<open>Normalisation\<close>

definition normalize_environment :: "string \<Rightarrow> string" where
  "normalize_environment value =
     (let env = norm_key value in
      if env \<in> {''prod'', ''production'', ''live''} then ''prod''
      else if env \<in> {''nonprod'', ''non-prod'', ''dev'', ''test'', ''stage'', ''staging''} then ''nonprod''
      else or_default env ''nonprod'')"

definition is_production :: "string \<Rightarrow> bool" where
  "is_production value = (normalize_environment value = ''prod'')"

definition normalize_role_value :: "pyval \<Rightarrow> string" where
  "normalize_role_value v = norm_key (str_or_empty v)"

fun add_new :: "'a \<Rightarrow> 'a list \<Rightarrow> 'a list" where
  \<comment> \<open>\<open>if x not in acc: acc.append(x)\<close>\<close>
  "add_new x acc = (if x \<in> set acc then acc else acc @ [x])"

definition normalize_string_list :: "(string \<Rightarrow> string) option \<Rightarrow> pyval list option \<Rightarrow> string list" where
  "normalize_string_list normalizer values =
     (case values of None \<Rightarrow> []
      | Some vs \<Rightarrow> foldl (\<lambda>acc raw.
          let value = strip (str_or_empty raw) in
          if value = [] then acc
          else add_new (case normalizer of None \<Rightarrow> lower value | Some f \<Rightarrow> f value) acc) [] vs)"

definition supported_reviewer_roles :: "string list" where
  "supported_reviewer_roles = [''owner'', ''admin'', ''member'']"

definition default_allowed_reviewer_roles :: "string list" where
  "default_allowed_reviewer_roles = [''owner'', ''admin'']"

definition normalize_allowed_reviewer_roles :: "pyval list option \<Rightarrow> string list" where
  "normalize_allowed_reviewer_roles values =
     (case values of None \<Rightarrow> default_allowed_reviewer_roles
      | Some vs \<Rightarrow>
         (let roles = foldl (\<lambda>acc raw.
            let role = normalize_role_value raw in
            if role \<notin> set supported_reviewer_roles then acc else add_new role acc) [] vs
          in if roles = [] then default_allowed_reviewer_roles else roles))"

definition perm_nonprod :: string where
  "perm_nonprod = ''remediation.approve.nonprod''"

definition perm_prod :: string where
  "perm_prod = ''remediation.approve.prod''"

definition default_required_permission :: "string \<Rightarrow> string" where
  "default_required_permission environment =
     (if is_production environment then perm_prod else perm_nonprod)"

definition unique_reason_codes :: "string list \<Rightarrow> string list" where
  "unique_reason_codes values =
     foldl (\<lambda>acc value. let key = norm_key value in if key = [] then acc else add_new key acc) [] values"

definition default_schema_version :: string where
  "default_schema_version = ''valdrics.enforcement.policy.v1''"

definition sha256_empty :: string where
  "sha256_empty = replicate 64 CHR ''0''"

definition is_hex :: "char \<Rightarrow> bool" where
  "is_hex c = (c \<in> set ''0123456789abcdef'')"

definition normalize_schema_version :: "string option \<Rightarrow> string" where
  "normalize_schema_version value =
     (let normalized = strip (opt_str value)
      in if normalized = [] then default_schema_version else take 64 normalized)"

definition normalize_sha256 :: "string option \<Rightarrow> string" where
  "normalize_sha256 value =
     (let normalized = norm_key (opt_str value)
      in if length normalized \<noteq> 64 then sha256_empty
         else if \<not> list_all is_hex normalized then sha256_empty else normalized)"

section \<open>Canonical JSON\<close>

definition json_char :: "char \<Rightarrow> string" where
  "json_char c =
     (let n = of_char c :: nat; bs = CHR 0x5C
      in if n = 34 \<or> n = 92 then [bs, c]
         else if n = 10 then [bs, CHR ''n''] else if n = 13 then [bs, CHR ''r'']
         else if n = 9 then [bs, CHR ''t''] else if n = 12 then [bs, CHR ''f'']
         else if n = 8 then [bs, CHR ''b'']
         else if n < 32 \<or> 126 < n then [bs, CHR ''u''] @ hex_digits 4 n else [c])"

definition json_str :: "string \<Rightarrow> string" where
  "json_str s = [CHR 0x22] @ concat (map json_char s) @ [CHR 0x22]"

fun commas :: "string list \<Rightarrow> string" where
  "commas [] = []"
| "commas [s] = s"
| "commas (s # t # ts) = s @ '','' @ commas (t # ts)"

fun json :: "pyval \<Rightarrow> string" where
  \<comment> \<open>\<open>json.dumps(v, sort_keys=True, separators=(",", ":"), default=_json_default)\<close>\<close>
  "json PNone = ''null''"
| "json (PBool b) = (if b then ''true'' else ''false'')"
| "json (PInt n) = int_str n"
| "json (PFloat s) = s"
| "json (PDec c e) = json_str (dec_str c e)"
| "json (PStr s) = json_str s"
| "json (PUuid u) = json_str (uuid_str u)"
| "json (PTime t) = json_str (iso_str t)"
| "json (PList vs) = ''['' @ commas (map json vs) @ '']''"
| "json (PDict kvs) =
     ''{'' @ commas (map (\<lambda>kt. json_str (fst kt) @ '':'' @ snd kt)
       (sort_key fst (map (\<lambda>kv. (fst kv, json (snd kv))) kvs))) @ ''}''"

definition canonical_json :: "pydict \<Rightarrow> string" where
  "canonical_json payload = json (PDict payload)"

definition payload_sha256 :: "(string \<Rightarrow> string) \<Rightarrow> pydict \<Rightarrow> string" where
  "payload_sha256 sha payload = sha (canonical_json payload)"

definition stable_fingerprint :: "(string \<Rightarrow> string) \<Rightarrow> enf_source \<Rightarrow> gate_input \<Rightarrow> string" where
  "stable_fingerprint sha source g =
     sha (json (PDict
       [(''source'', PStr (source_value source)),
        (''project_id'', PStr (gi_project g)),
        (''environment'', PStr (normalize_environment (gi_environment g))),
        (''action'', PStr (gi_action g)),
        (''resource_reference'', PStr (gi_resource g)),
        (''estimated_monthly_delta_usd'', PStr (fixed_str 4 (quantize4 (gi_monthly g)))),
        (''estimated_hourly_delta_usd'', PStr (fixed_str 6 (quantize6 (gi_hourly g)))),
        (''metadata'', PDict (gi_metadata g))]))"

section \<open>CSV cells\<close>

definition no_line_breaks :: "string \<Rightarrow> string" where
  "no_line_breaks s =
     map (\<lambda>c. if c = CHR 0x0D \<or> c = CHR 0x0A then CHR '' '' else c) s"

definition formula_chars :: "char list" where
  "formula_chars = ''=+-@''"

definition sanitize_csv_cell :: "pyval \<Rightarrow> string" where
  "sanitize_csv_cell value =
     (if value = PNone then []
      else let normalized = no_line_breaks (py_str value)
           in if normalized \<noteq> [] \<and> hd normalized \<in> set formula_chars
              then CHR 0x27 # normalized else normalized)"

section \<open>The snapshot of the computed context\<close>

definition valid_int_text :: "string \<Rightarrow> bool" where
  \<comment> \<open>digits with single underscores between them\<close>
  "valid_int_text s =
     (s \<noteq> [] \<and> is_digit (hd s) \<and> is_digit (last s)
      \<and> list_all (\<lambda>c. is_digit c \<or> c = CHR ''_'') s
      \<and> list_all (\<lambda>(c, d). is_digit c \<or> is_digit d) (zip s (tl s)))"

definition int_of_text :: "string \<Rightarrow> int option" where
  \<comment> \<open>\<open>int(s)\<close>; \<open>None\<close> is \<open>ValueError\<close>\<close>
  "int_of_text s0 =
     (let (sg, s) = parse_sign (strip s0)
      in if valid_int_text s
         then Some ((if sg < 0 then - 1 else 1) * int (digits_val (filter is_digit s))) else None)"

definition trunc :: "usd \<Rightarrow> int" where
  "trunc r = (if 0 \<le> r then \<lfloor>r\<rfloor> else - \<lfloor>- r\<rfloor>)"

definition ctx_int :: "pydict \<Rightarrow> string \<Rightarrow> int" where
  "ctx_int ctx key =
     (case dget ctx key of
        PNone \<Rightarrow> 0
      | PBool b \<Rightarrow> (if b then 1 else 0)
      | PInt n \<Rightarrow> n
      | PFloat s \<Rightarrow> (case parse_decimal s of None \<Rightarrow> 0 | Some r \<Rightarrow> trunc r)
      | PDec c e \<Rightarrow> trunc (of_int c * pow10 e)
      | PStr s \<Rightarrow> (case int_of_text s of None \<Rightarrow> 0 | Some n \<Rightarrow> n)
      | _ \<Rightarrow> 0)"

definition ctx_str :: "pydict \<Rightarrow> string \<Rightarrow> string" where
  "ctx_str ctx key = strip (str_or_empty (dget ctx key))"

definition computed_context_snapshot :: "pydict \<Rightarrow> pydict" where
  "computed_context_snapshot response =
     (let ctx = as_dict (dget response ''computed_context'')
      in [(''context_version'', PStr (ctx_str ctx ''context_version'')),
          (''generated_at'', PStr (ctx_str ctx ''generated_at'')),
          (''month_start'', PStr (ctx_str ctx ''month_start'')),
          (''month_end'', PStr (ctx_str ctx ''month_end'')),
          (''month_elapsed_days'', PInt (ctx_int ctx ''month_elapsed_days'')),
          (''month_total_days'', PInt (ctx_int ctx ''month_total_days'')),
          (''observed_cost_days'', PInt (ctx_int ctx ''observed_cost_days'')),
          (''latest_cost_date'', PStr (ctx_str ctx ''latest_cost_date'')),
          (''data_source_mode'', PStr (ctx_str ctx ''data_source_mode''))])"

section \<open>The month window\<close>

definition month_bounds :: "time \<Rightarrow> time \<times> time" where
  "month_bounds now =
     (case date_of now of (y, m, d) \<Rightarrow>
        (midnight y m 1, if m = 12 then midnight (y + 1) 1 1 else midnight y (m + 1) 1))"

section \<open>Approval permissions\<close>

record user =
  usr_id :: uuid
  usr_tenant :: "uuid option"
  usr_role :: string

record scim =
  \<comment> \<open>the rows of \<open>TenantIdentitySettings\<close>, \<open>ScimGroup\<close> and \<open>ScimGroupMember\<close> the query reads\<close>
  scim_settings :: "(uuid \<times> bool \<times> pyval) list"
  scim_groups :: "(uuid \<times> uuid \<times> string) list"
  scim_members :: "(uuid \<times> uuid \<times> uuid) list"

definition normalize_permission :: "pyval \<Rightarrow> string option" where
  "normalize_permission value =
     (let normalized = norm_key (str_or_empty value)
      in if normalized = perm_nonprod \<or> normalized = perm_prod then Some normalized else None)"

definition py_iter :: "pyval \<Rightarrow> pyval list option" where
  \<comment> \<open>\<open>iter(v)\<close>; \<open>None\<close> is \<open>TypeError\<close>\<close>
  "py_iter v = (case v of PList vs \<Rightarrow> Some vs
     | PStr s \<Rightarrow> Some (map (\<lambda>c. PStr [c]) s)
     | PUuid u \<Rightarrow> Some (map (\<lambda>c. PStr [c]) (uuid_str u))
     | PTime t \<Rightarrow> Some (map (\<lambda>c. PStr [c]) (iso_str t))
     | PDict d \<Rightarrow> Some (map (\<lambda>kv. PStr (fst kv)) d)
     | _ \<Rightarrow> None)"

definition normalize_permissions :: "pyval \<Rightarrow> string list option" where
  "normalize_permissions values =
     (if values = PNone then Some []
      else map_option (foldl (\<lambda>acc value.
        case normalize_permission value of None \<Rightarrow> acc | Some p \<Rightarrow> add_new p acc) []) (py_iter values))"

definition role_default_permissions :: "string \<Rightarrow> string list" where
  "role_default_permissions role =
     (let r = norm_key role
      in if r = ''owner'' then [perm_nonprod, perm_prod]
         else if r = ''admin'' then [perm_nonprod] else [])"

definition load_scim_group_mappings :: "scim \<Rightarrow> uuid \<Rightarrow> pydict list" where
  "load_scim_group_mappings s tenant =
     (case first_match (\<lambda>row. fst row = tenant) (scim_settings s) of
        None \<Rightarrow> []
      | Some (_, enabled, raw) \<Rightarrow>
          if \<not> enabled then []
          else case raw of
            PList items \<Rightarrow> List.map_filter (\<lambda>v. case v of PDict d \<Rightarrow> Some d | _ \<Rightarrow> None) items
          | _ \<Rightarrow> [])"

definition load_user_group_names :: "scim \<Rightarrow> uuid \<Rightarrow> uuid \<Rightarrow> string list" where
  "load_user_group_names s tenant user =
     (let rows = [name. (gid, gt, name) \<leftarrow> scim_groups s, (mg, mt, mu) \<leftarrow> scim_members s,
                  mg = gid \<and> mt = tenant \<and> gt = tenant \<and> mu = user]
      in map norm_key (filter (\<lambda>n. n \<noteq> []) rows))"

fun collect_permissions :: "string list \<Rightarrow> pydict list \<Rightarrow> string list option" where
  "collect_permissions groups [] = Some []"
| "collect_permissions groups (mapping # ms) =
     (let group = norm_key (if has_key mapping ''group'' then py_str (dget mapping ''group'') else [])
      in if group = [] \<or> group \<notin> set groups then collect_permissions groups ms
         else case normalize_permissions (dget mapping ''permissions'') of
                None \<Rightarrow> None
              | Some ps \<Rightarrow> map_option (\<lambda>rest. ps @ rest) (collect_permissions groups ms))"

definition load_scim_permissions :: "scim \<Rightarrow> uuid \<Rightarrow> uuid \<Rightarrow> string list option" where
  "load_scim_permissions s tenant user =
     (let mappings = load_scim_group_mappings s tenant; groups = load_user_group_names s tenant user
      in if mappings = [] then Some [] else if groups = [] then Some []
         else collect_permissions groups mappings)"

definition user_has_approval_permission :: "scim \<Rightarrow> user \<Rightarrow> string \<Rightarrow> bool" where
  "user_has_approval_permission s u required =
     (case normalize_permission (PStr required) of
        None \<Rightarrow> False
      | Some req \<Rightarrow>
          if req \<in> set (role_default_permissions (usr_role u)) then True
          else case usr_tenant u of
            None \<Rightarrow> False
          | Some tenant \<Rightarrow>
              (case load_scim_permissions s tenant (usr_id u) of
                 None \<Rightarrow> False
               | Some ps \<Rightarrow> req \<in> set ps))"

section \<open>Lists without duplicates\<close>

lemma set_add_new [simp]: "set (add_new x acc) = insert x (set acc)"
  by auto

lemma distinct_add_new [simp]: "distinct (add_new x acc) = distinct acc"
  by auto

declare add_new.simps [simp del]

lemma foldl_add_new:
  assumes "\<And>acc v. step acc v = (if P v then add_new (f v) acc else acc)"
  shows "distinct (foldl step acc vs) = distinct acc"
    and "set (foldl step acc vs) = set acc \<union> f ` {v \<in> set vs. P v}"
  by (induction vs arbitrary: acc) (auto simp: assms)

lemma foldl_add_new_fresh:
  assumes "\<And>acc v. step acc v = (if P v then add_new (f v) acc else acc)"
    and "\<And>v. v \<in> set vs \<Longrightarrow> P v \<and> f v = v" "distinct vs" "set acc \<inter> set vs = {}"
  shows "foldl step acc vs = acc @ vs"
  using assms(2-) by (induction vs arbitrary: acc) (auto simp: assms(1) add_new.simps)

lemma collect_pos [simp]:
  "distinct (foldl (\<lambda>acc v. if P v then add_new (f v) acc else acc) acc vs) = distinct acc"
  "set (foldl (\<lambda>acc v. if P v then add_new (f v) acc else acc) acc vs) = set acc \<union> f ` {v \<in> set vs. P v}"
  by (induction vs arbitrary: acc) auto

lemma collect_neg [simp]:
  "distinct (foldl (\<lambda>acc v. if P v then acc else add_new (f v) acc) acc vs) = distinct acc"
  "set (foldl (\<lambda>acc v. if P v then acc else add_new (f v) acc) acc vs) = set acc \<union> f ` {v \<in> set vs. \<not> P v}"
  by (induction vs arbitrary: acc) auto

lemma reason_step:
  "(let key = norm_key v in if key = [] then acc else add_new key acc) =
    (if norm_key v \<noteq> [] then add_new (norm_key v) acc else acc)"
  by (simp add: Let_def)

lemmas reason_fold =
  foldl_add_new [where step = "\<lambda>acc v. let key = norm_key v in if key = [] then acc else add_new key acc"
    and P = "\<lambda>v. norm_key v \<noteq> []" and f = norm_key, OF reason_step]

lemma distinct_unique_reason_codes [simp]: "distinct (unique_reason_codes vs)"
  by (simp add: unique_reason_codes_def reason_fold)

lemma set_unique_reason_codes: "set (unique_reason_codes vs) = norm_key ` set vs - {[]}"
  unfolding unique_reason_codes_def reason_fold by auto

lemma unique_reason_codes_fixed:
  assumes "distinct vs" "\<And>v. v \<in> set vs \<Longrightarrow> norm_key v = v \<and> v \<noteq> []"
  shows "unique_reason_codes vs = vs"
  unfolding unique_reason_codes_def
  using foldl_add_new_fresh [where f = norm_key and P = "\<lambda>v. norm_key v \<noteq> []" and acc = "[]" and vs = vs,
      OF reason_step] assms by fastforce

lemma unique_reason_codes_idem [simp]:
  "unique_reason_codes (unique_reason_codes vs) = unique_reason_codes vs"
  by (rule unique_reason_codes_fixed) (auto simp: set_unique_reason_codes)

section \<open>Normal forms\<close>

lemma or_default_Nil [simp]: "or_default [] d = d" "or_default (c # s) d = c # s"
  by (simp_all add: or_default_def)

lemma norm_key_env_literals [simp]:
  "norm_key ''prod'' = ''prod''" "norm_key ''nonprod'' = ''nonprod''"
  by (code_simp, code_simp)

lemma normalize_environment_idem [simp]:
  "normalize_environment (normalize_environment e) = normalize_environment e"
proof -
  have "norm_key (normalize_environment e) = normalize_environment e"
    by (simp add: normalize_environment_def Let_def or_default_def)
  then show ?thesis
    by (simp add: normalize_environment_def [of "normalize_environment e"] Let_def)
       (auto simp: normalize_environment_def Let_def or_default_def)
qed

lemma normalize_environment_nonempty [simp]: "normalize_environment e \<noteq> []"
  by (auto simp: normalize_environment_def Let_def or_default_def)

lemma is_production_normalized [simp]: "is_production (normalize_environment e) = is_production e"
  by (simp add: is_production_def)

lemma normalize_sha256_length [simp]: "length (normalize_sha256 v) = 64"
  by (simp add: normalize_sha256_def sha256_empty_def Let_def)

lemma normalize_sha256_hex: "list_all is_hex (normalize_sha256 v)"
  by (simp add: normalize_sha256_def sha256_empty_def Let_def is_hex_def list_all_iff)

lemma normalize_sha256_idem [simp]: "normalize_sha256 (Some (normalize_sha256 v)) = normalize_sha256 v"
proof -
  have "norm_key sha256_empty = sha256_empty" by code_simp
  then have "norm_key (normalize_sha256 v) = normalize_sha256 v"
    by (simp add: normalize_sha256_def Let_def)
  moreover have "norm_key (opt_str (Some (normalize_sha256 v))) = norm_key (normalize_sha256 v)"
    by (simp add: opt_str_def)
  ultimately show ?thesis
    using normalize_sha256_hex [of v] normalize_sha256_length [of v]
    by (simp add: normalize_sha256_def [of "Some (normalize_sha256 v)"] Let_def)
qed

lemma allowed_reviewer_roles_supported:
  "set (normalize_allowed_reviewer_roles vs) \<subseteq> set supported_reviewer_roles"
proof -
  have "set (foldl (\<lambda>acc raw. let role = normalize_role_value raw in
      if role \<notin> set supported_reviewer_roles then acc else add_new role acc) acc xs)
      \<subseteq> set acc \<union> set supported_reviewer_roles" for acc xs
  proof (induction xs arbitrary: acc)
    case (Cons x xs)
    show ?case
      using Cons.IH [of acc] Cons.IH [of "add_new (normalize_role_value x) acc"]
      by (auto simp: Let_def)
  qed simp
  from this [of "[]"] show ?thesis
    by (auto simp: normalize_allowed_reviewer_roles_def default_allowed_reviewer_roles_def
        supported_reviewer_roles_def Let_def split: option.splits)
qed

lemma allowed_reviewer_roles_nonempty: "normalize_allowed_reviewer_roles vs \<noteq> []"
  by (auto simp: normalize_allowed_reviewer_roles_def default_allowed_reviewer_roles_def Let_def
      split: option.splits)

section \<open>CSV cells and the month window\<close>

lemma sanitize_csv_cell_safe:
  "sanitize_csv_cell v = [] \<or> hd (sanitize_csv_cell v) \<notin> set formula_chars"
  by (auto simp: sanitize_csv_cell_def formula_chars_def Let_def)

lemma sanitize_csv_cell_one_line:
  "CHR 0x0A \<notin> set (sanitize_csv_cell v)" "CHR 0x0D \<notin> set (sanitize_csv_cell v)"
  by (auto simp: sanitize_csv_cell_def no_line_breaks_def Let_def)

lemma month_bounds_contain:
  assumes "month_bounds now = (start, fin)"
  shows "start \<le> now \<and> now < fin"
proof -
  obtain y m d where c: "civil (now div day_us) = (y, m, d)"
    by (metis prod_cases3)
  let ?n = "now div day_us"
  have v: "valid_date (y, m, d)" and n: "day_number y m d = ?n"
    using civil_correct [OF c] by auto
  have us: "?n * day_us \<le> now" "now < (?n + 1) * day_us"
    by (simp_all add: day_us_def)
  have "day_number y m 1 \<le> ?n"
    using v n by (auto simp: day_number_def valid_date_def)
  then have "start \<le> now"
    using assms us c by (auto simp: month_bounds_def date_of_def midnight_def day_us_def)
  moreover have "?n + 1 \<le> (if m = 12 then day_number (y + 1) 1 1 else day_number y (m + 1) 1)"
    using v n days_before_month_Suc [of m y] year_len [of y] days_before_year_Suc [of y]
    by (auto simp: day_number_def valid_date_def)
  then have "now < fin"
    using assms us c by (auto simp: month_bounds_def date_of_def midnight_def day_us_def split: if_splits)
  ultimately show ?thesis ..
qed

section \<open>Permissions\<close>

lemma unsupported_permission [simp]:
  "normalize_permission (PStr p) = None \<Longrightarrow> \<not> user_has_approval_permission s u p"
  by (simp add: user_has_approval_permission_def)

lemma user_permission_sources:
  assumes "user_has_approval_permission s u p"
  shows "\<exists>q. normalize_permission (PStr p) = Some q \<and>
    (q \<in> set (role_default_permissions (usr_role u)) \<or>
     (\<exists>t ps. usr_tenant u = Some t \<and> load_scim_permissions s t (usr_id u) = Some ps \<and> q \<in> set ps))"
  using assms by (auto simp: user_has_approval_permission_def split: option.splits if_splits)

lemma collect_permissions_source:
  "collect_permissions groups ms = Some ps \<Longrightarrow> p \<in> set ps \<Longrightarrow>
    \<exists>mapping\<in>set ms. \<exists>qs. norm_key (py_str (dget mapping ''group'')) \<in> set groups \<and>
      normalize_permissions (dget mapping ''permissions'') = Some qs \<and> p \<in> set qs"
  by (induction ms arbitrary: ps) (fastforce simp: Let_def split: if_splits option.splits)+

end
