(* ===== verification/Ledger.thy ===== *)
theory Ledger
  imports Service_Utils
begin

text \<open>
  \<open>app/modules/enforcement/domain/service_runtime_ledger_ops.py\<close>: the append-only ledger of decisions.
  Each row is a snapshot of a decision and of the approval that goes with it.
\<close>

definition ledger_row :: "(string \<Rightarrow> string) \<Rightarrow> uuid \<Rightarrow> time \<Rightarrow> decision \<Rightarrow> approval option \<Rightarrow> ledger_entry" where
  "ledger_row sha lid now d a =
     \<lparr>led_id = lid, led_tenant = dec_tenant d, led_decision_id = dec_id d, led_source = dec_source d,
      led_environment = dec_environment d, led_project = dec_project d, led_action = dec_action d,
      led_resource = dec_resource d, led_decision = dec_decision d, led_reasons = dec_reasons d,
      led_policy_version = dec_policy_version d,
      led_schema_version = normalize_schema_version (Some (dec_schema_version d)),
      led_sha256 = normalize_sha256 (Some (dec_sha256 d)),
      led_fingerprint = dec_fingerprint d, led_idempotency = dec_idempotency d,
      led_monthly = quantize4 (dec_monthly d), led_hourly = quantize6 (dec_hourly d),
      led_burn_rate = map_option (quantize 4) (dec_burn_rate d),
      led_forecast = map_option (quantize 4) (dec_forecast d),
      led_risk_class = map_option norm_key (dec_risk_class d), led_risk_score = dec_risk_score d,
      led_anomaly = dec_anomaly d,
      led_reserved_total = quantize4 (dec_reserved_alloc d + dec_reserved_credit d),
      led_approval_required = dec_approval_required d,
      led_approval_id = map_option apr_id a, led_approval_status = map_option apr_status a,
      led_request_sha = payload_sha256 sha (dec_request d),
      led_response_sha = payload_sha256 sha (dec_response d),
      led_created_by = dec_created_by d, led_decision_created = dec_created d, led_recorded = now\<rparr>"

definition append_ledger :: "(string \<Rightarrow> string) \<Rightarrow> decision \<Rightarrow> approval option \<Rightarrow> db \<Rightarrow> db" where
  "append_ledger sha d a db =
     db\<lparr>ledger := ledger db @ [ledger_row sha (db_next db) (db_now db) d a], db_next := db_next db + 1\<rparr>"

definition in_window :: "time option \<Rightarrow> time option \<Rightarrow> time \<Rightarrow> bool" where
  "in_window start_at end_at t =
     ((case start_at of None \<Rightarrow> True | Some s \<Rightarrow> s \<le> t) \<and> (case end_at of None \<Rightarrow> True | Some e \<Rightarrow> t \<le> e))"

definition list_decision_ledger ::
  "db \<Rightarrow> uuid \<Rightarrow> int \<Rightarrow> time option \<Rightarrow> time option \<Rightarrow> ledger_entry list" where
  "list_decision_ledger db tenant limit start_at end_at =
     take (nat (clamp 1 1000 limit))
       (order_by [\<lambda>l. - led_recorded l, \<lambda>l. - int (led_id l)]
         (filter (\<lambda>l. led_tenant l = tenant \<and> in_window start_at end_at (led_recorded l)) (ledger db)))"

lemma append_ledger_simps [simp, row_simps]:
  "ledger (append_ledger sha d a db) = ledger db @ [ledger_row sha (db_next db) (db_now db) d a]"
  "policies (append_ledger sha d a db) = policies db" "budgets (append_ledger sha d a db) = budgets db"
  "grants (append_ledger sha d a db) = grants db" "allocs (append_ledger sha d a db) = allocs db"
  "decisions (append_ledger sha d a db) = decisions db" "approvals (append_ledger sha d a db) = approvals db"
  "actions (append_ledger sha d a db) = actions db" "costs (append_ledger sha d a db) = costs db"
  "db_next (append_ledger sha d a db) = db_next db + 1" "db_now (append_ledger sha d a db) = db_now db"
  by (simp_all add: append_ledger_def)

end
