(* ===== verification/Approval_Token.thy ===== *)
theory Approval_Token
  imports Ledger
begin

text \<open>
  \<open>app/modules/enforcement/domain/approval_token_ops.py\<close>: the signed token that an approval hands out.
  The JWT library is a pair of functions of the environment: \<open>te_encode\<close> signs a payload, \<open>te_decode\<close>
  verifies a token at a time and answers a payload, an expired signature or an invalid token.  What the code
  relies on of it is \<open>jwt_accepts\<close>.  \<open>UUID(str)\<close>, \<open>int(str)\<close> and \<open>datetime.fromtimestamp\<close> are modelled.
\<close>

section \<open>Numbers in text\<close>

fun remove_all :: "string \<Rightarrow> string \<Rightarrow> string" where
  \<comment> \<open>\<open>s.replace(c p, "")\<close>; the pattern is not empty\<close>
  "remove_all (c # p) (x # s) =
     (if starts_with (x # s) (c # p) then remove_all (c # p) (drop (length p) s) else x # remove_all (c # p) s)"
| "remove_all p s = s"

definition hex_val :: "char \<Rightarrow> nat option" where
  "hex_val c =
     (let n = of_char c :: nat in
      if 48 \<le> n \<and> n \<le> 57 then Some (n - 48)
      else if 97 \<le> n \<and> n \<le> 102 then Some (n - 87)
      else if 65 \<le> n \<and> n \<le> 70 then Some (n - 55) else None)"

definition dec_digit :: "char \<Rightarrow> nat option" where
  "dec_digit c = (if is_digit c then Some (digit_val c) else None)"

fun scan_digits :: "(char \<Rightarrow> nat option) \<Rightarrow> nat \<Rightarrow> nat \<Rightarrow> string \<Rightarrow> nat option" where
  \<comment> \<open>digits with single underscores between them\<close>
  "scan_digits dv b v [] = Some v"
| "scan_digits dv b v (c # s) =
     (case dv c of
        Some d \<Rightarrow> scan_digits dv b (b * v + d) s
      | None \<Rightarrow> (if c \<noteq> CHR ''_'' then None
                 else case s of [] \<Rightarrow> None
                 | c' # s' \<Rightarrow> (case dv c' of None \<Rightarrow> None | Some d \<Rightarrow> scan_digits dv b (b * v + d) s')))"

definition parse_digits :: "(char \<Rightarrow> nat option) \<Rightarrow> nat \<Rightarrow> string \<Rightarrow> nat option" where
  "parse_digits dv b s =
     (case s of [] \<Rightarrow> None | c # t \<Rightarrow> (case dv c of None \<Rightarrow> None | Some d \<Rightarrow> scan_digits dv b d t))"

fun split_sign :: "string \<Rightarrow> int \<times> string" where
  "split_sign (c # s) = (if c = CHR ''-'' then (- 1, s) else if c = CHR ''+'' then (1, s) else (1, c # s))"
| "split_sign [] = (1, [])"

definition skip_prefix :: "string \<Rightarrow> string" where
  \<comment> \<open>\<open>0x\<close> and one underscore after it\<close>
  "skip_prefix s =
     (if starts_with (lower s) ''0x''
      then (case drop 2 s of c # t \<Rightarrow> if c = CHR ''_'' then t else c # t | [] \<Rightarrow> [])
      else s)"

definition int_of_text :: "string \<Rightarrow> int option" where
  \<comment> \<open>\<open>int(s)\<close>; \<open>None\<close> is \<open>ValueError\<close>\<close>
  "int_of_text s =
     (let (sg, t) = split_sign (strip s)
      in map_option (\<lambda>n. sg * int n) (parse_digits dec_digit 10 t))"

definition int_of_hex :: "string \<Rightarrow> int option" where
  \<comment> \<open>\<open>int(s, 16)\<close>\<close>
  "int_of_hex s =
     (let (sg, t) = split_sign (strip s)
      in map_option (\<lambda>n. sg * int n) (parse_digits hex_val 16 (skip_prefix t)))"

definition is_brace :: "char \<Rightarrow> bool" where
  "is_brace c = (c = CHR ''{'' \<or> c = CHR ''}'')"

definition strip_braces :: "string \<Rightarrow> string" where
  "strip_braces s = rev (dropWhile is_brace (rev (dropWhile is_brace s)))"

definition uuid_of_text :: "string \<Rightarrow> uuid option" where
  \<comment> \<open>\<open>UUID(s)\<close>; \<open>None\<close> is \<open>ValueError\<close>\<close>
  "uuid_of_text s =
     (let h = filter (\<lambda>c. c \<noteq> CHR ''-'') (strip_braces (remove_all ''uuid:'' (remove_all ''urn:'' s)))
      in if length h \<noteq> 32 then None
         else case int_of_hex h of None \<Rightarrow> None
              | Some n \<Rightarrow> if 0 \<le> n \<and> n < 2 ^ 128 then Some (nat n) else None)"

section \<open>Time stamps\<close>

definition unix_epoch :: time where
  \<comment> \<open>1970-01-01T00:00Z\<close>
  "unix_epoch = seconds (719162 * 86400)"

definition timestamp_int :: "time \<Rightarrow> int" where
  \<comment> \<open>\<open>int(t.timestamp())\<close>: truncation towards zero\<close>
  "timestamp_int t =
     (if unix_epoch \<le> t then (t - unix_epoch) div 1000000 else - ((unix_epoch - t) div 1000000))"

definition from_timestamp :: "int \<Rightarrow> time outcome" where
  \<comment> \<open>\<open>datetime.fromtimestamp(n, tz=utc)\<close> on a 64-bit \<open>time_t\<close>\<close>
  "from_timestamp n =
     (if n < - (2 ^ 63) \<or> 2 ^ 63 \<le> n then Inl (RuntimeErr ''OverflowError'')
      else let t = unix_epoch + seconds n
           in if t < 0 \<or> seconds (3652059 * 86400) \<le> t then Inl (ValueErr ''year is out of range'') else Inr t)"

definition truncate_rat :: "rat \<Rightarrow> int" where
  "truncate_rat r = (if 0 \<le> r then \<lfloor>r\<rfloor> else - \<lfloor>- r\<rfloor>)"

definition int_of_value :: "pyval \<Rightarrow> int outcome" where
  \<comment> \<open>\<open>int(v)\<close> of an \<open>int\<close>, \<open>float\<close> or \<open>str\<close>\<close>
  "int_of_value v =
     (case v of
        PInt n \<Rightarrow> Inr n
      | PBool b \<Rightarrow> Inr (if b then 1 else 0)
      | PFloat s \<Rightarrow> (case parse_decimal s of
           Some r \<Rightarrow> Inr (truncate_rat r)
         | None \<Rightarrow> if s = ''nan'' then Inl (ValueErr ''cannot convert float NaN to integer'')
                   else Inl (RuntimeErr ''OverflowError''))
      | _ \<Rightarrow> (case int_of_text (py_str v) of None \<Rightarrow> Inl (ValueErr ''invalid literal for int()'') | Some n \<Rightarrow> Inr n))"

section \<open>The signing environment\<close>

datatype jwt_result = Payload pydict | ExpiredSignature | InvalidToken

record jwt_options =
  jo_audience :: string
  jo_issuer :: string
  jo_require :: "string list"

record token_env =
  te_secret :: string                 \<comment> \<open>\<open>ENFORCEMENT_APPROVAL_TOKEN_SECRET\<close>\<close>
  te_fallbacks :: "string list"       \<comment> \<open>\<open>ENFORCEMENT_APPROVAL_TOKEN_FALLBACK_SECRETS\<close>\<close>
  te_api_url :: string
  te_kid :: string                    \<comment> \<open>\<open>JWT_SIGNING_KID\<close>\<close>
  te_encode :: "pydict \<Rightarrow> string \<Rightarrow> pydict option \<Rightarrow> string"
  te_decode :: "time \<Rightarrow> string \<Rightarrow> string \<Rightarrow> jwt_options \<Rightarrow> jwt_result"

definition approval_token_type :: string where
  "approval_token_type = ''enforcement_approval''"

definition rstrip_slash :: "string \<Rightarrow> string" where
  \<comment> \<open>\<open>s.rstrip("/")\<close>\<close>
  "rstrip_slash s = rev (dropWhile (\<lambda>c. c = CHR ''/'') (rev s))"

definition invalid_token :: exn where
  "invalid_token = DomainError 401 ''Invalid approval token''"

definition signing_key :: "token_env \<Rightarrow> string outcome" where
  "signing_key env =
     (if length (strip (te_secret env)) < 32
      then Inl (DomainError 503 ''Approval token signing key is not configured'')
      else Inr (strip (te_secret env)))"

definition required_claims :: "string list" where
  "required_claims = [''exp'', ''iat'', ''nbf'', ''tenant_id'', ''project_id'', ''decision_id'', ''approval_id'',
     ''source'', ''environment'', ''request_fingerprint'', ''max_monthly_delta_usd'', ''max_hourly_delta_usd'',
     ''resource_reference'', ''token_type'']"

definition decode_options :: "token_env \<Rightarrow> jwt_options" where
  "decode_options env = \<lparr>jo_audience = ''enforcement_gate'', jo_issuer = rstrip_slash (te_api_url env),
     jo_require = required_claims\<rparr>"

section \<open>Decoding\<close>

definition dget_or :: "pydict \<Rightarrow> string \<Rightarrow> pyval \<Rightarrow> pyval" where
  \<comment> \<open>\<open>d.get(k, v)\<close>\<close>
  "dget_or d k v = (case map_of d k of None \<Rightarrow> v | Some x \<Rightarrow> x)"

definition text_claim :: "pydict \<Rightarrow> string \<Rightarrow> string" where
  \<comment> \<open>\<open>str(payload.get(k, "")).strip()\<close>\<close>
  "text_claim p k = strip (py_str (dget_or p k (PStr [])))"

definition candidate_secrets :: "string \<Rightarrow> string list \<Rightarrow> string list" where
  "candidate_secrets primary fallbacks =
     foldl (\<lambda>acc s. add_new s acc) [] (primary # filter (\<lambda>s. 32 \<le> length s) (map strip fallbacks))"

fun try_secrets :: "(string \<Rightarrow> jwt_result) \<Rightarrow> bool \<Rightarrow> string list \<Rightarrow> pydict outcome" where
  \<comment> \<open>the flag is \<open>expired_error is not None\<close>\<close>
  "try_secrets dec expired [] =
     Inl (if expired then DomainError 409 ''Approval token has expired'' else invalid_token)"
| "try_secrets dec expired (s # ss) =
     (case dec s of
        Payload p \<Rightarrow> if text_claim p ''token_type'' \<noteq> approval_token_type then try_secrets dec expired ss else Inr p
      | ExpiredSignature \<Rightarrow> try_secrets dec True ss
      | InvalidToken \<Rightarrow> try_secrets dec expired ss)"

definition decode_approval_token :: "token_env \<Rightarrow> time \<Rightarrow> string \<Rightarrow> pydict outcome" where
  "decode_approval_token env now token =
     and_then (signing_key env) (\<lambda>primary.
       try_secrets (\<lambda>s. te_decode env now token s (decode_options env)) False
         (candidate_secrets primary (te_fallbacks env)))"

record token_context =
  tc_approval :: uuid
  tc_decision :: uuid
  tc_tenant :: uuid
  tc_project :: string
  tc_source :: enf_source
  tc_environment :: string
  tc_fingerprint :: string
  tc_resource :: string
  tc_monthly :: usd
  tc_hourly :: usd
  tc_expires :: time

definition quantize_checked :: "nat \<Rightarrow> usd \<Rightarrow> usd outcome" where
  \<comment> \<open>a result of more than 28 digits is \<open>InvalidOperation\<close>, which the caller turns into a rejection\<close>
  "quantize_checked p x =
     (if 10 ^ 28 \<le> \<bar>round_even (x * 10 ^ p)\<bar> then Inl invalid_token else Inr (quantize p x))"

definition uuid_claim :: "pydict \<Rightarrow> string \<Rightarrow> uuid outcome" where
  "uuid_claim p k = (case uuid_of_text (py_str (dget p k)) of None \<Rightarrow> Inl invalid_token | Some u \<Rightarrow> Inr u)"

definition source_claim :: "pydict \<Rightarrow> enf_source outcome" where
  "source_claim p =
     (case source_of_value (lower (text_claim p ''source'')) of None \<Rightarrow> Inl invalid_token | Some s \<Rightarrow> Inr s)"

definition expiry_claim :: "pydict \<Rightarrow> time outcome" where
  \<comment> \<open>\<open>ValueError\<close> is a rejection, \<open>OverflowError\<close> is not caught\<close>
  "expiry_claim p =
     (let v = dget p ''exp''
      in if \<not> (case v of PInt _ \<Rightarrow> True | PBool _ \<Rightarrow> True | PFloat _ \<Rightarrow> True | PStr _ \<Rightarrow> True
               | PUuid _ \<Rightarrow> True | PTime _ \<Rightarrow> True | _ \<Rightarrow> False)
         then Inl invalid_token
         else case and_then (int_of_value v) from_timestamp of
                Inr t \<Rightarrow> Inr t
              | Inl (RuntimeErr e) \<Rightarrow> Inl (RuntimeErr e)
              | Inl e \<Rightarrow> Inl invalid_token)"

definition present :: "string \<Rightarrow> string outcome" where
  "present s = (if s = [] then Inl invalid_token else Inr s)"

definition extract_token_context :: "pydict \<Rightarrow> token_context outcome" where
  "extract_token_context p =
     and_then (source_claim p) (\<lambda>source.
     and_then (quantize_checked 4 (to_decimal (dget p ''max_monthly_delta_usd''))) (\<lambda>monthly.
     and_then (quantize_checked 6 (to_decimal (dget p ''max_hourly_delta_usd''))) (\<lambda>hourly.
     and_then (expiry_claim p) (\<lambda>expires.
     let fingerprint = text_claim p ''request_fingerprint''
     in if length fingerprint \<noteq> 64 then Inl invalid_token else
     and_then (present (text_claim p ''resource_reference'')) (\<lambda>resource.
     and_then (present (text_claim p ''project_id'')) (\<lambda>project.
     and_then (uuid_claim p ''approval_id'') (\<lambda>approval.
     and_then (uuid_claim p ''decision_id'') (\<lambda>decision.
     and_then (uuid_claim p ''tenant_id'') (\<lambda>tenant.
       Inr \<lparr>tc_approval = approval, tc_decision = decision, tc_tenant = tenant, tc_project = project,
            tc_source = source, tc_environment = text_claim p ''environment'', tc_fingerprint = fingerprint,
            tc_resource = resource, tc_monthly = monthly, tc_hourly = hourly, tc_expires = expires\<rparr>)))))))))"

section \<open>Building\<close>

definition token_payload :: "token_env \<Rightarrow> decision \<Rightarrow> approval \<Rightarrow> time \<Rightarrow> time \<Rightarrow> pydict" where
  "token_payload env d a expires now =
     [(''iss'', PStr (rstrip_slash (te_api_url env))),
      (''aud'', PStr ''enforcement_gate''),
      (''sub'', PStr (''enforcement_approval:'' @ uuid_str (apr_id a))),
      (''iat'', PInt (timestamp_int now)),
      (''nbf'', PInt (timestamp_int now)),
      (''exp'', PInt (timestamp_int expires)),
      (''tenant_id'', PUuid (dec_tenant d)),
      (''project_id'', PStr (dec_project d)),
      (''decision_id'', PUuid (dec_id d)),
      (''approval_id'', PUuid (apr_id a)),
      (''source'', PStr (source_value (dec_source d))),
      (''environment'', PStr (dec_environment d)),
      (''request_fingerprint'', PStr (dec_fingerprint d)),
      (''max_monthly_delta_usd'', PStr (fixed_str 4 (dec_monthly d))),
      (''max_hourly_delta_usd'', PStr (fixed_str 6 (dec_hourly d))),
      (''resource_reference'', PStr (dec_resource d)),
      (''token_type'', PStr approval_token_type)]"

definition build_approval_token :: "token_env \<Rightarrow> decision \<Rightarrow> approval \<Rightarrow> time \<Rightarrow> time \<Rightarrow> string outcome" where
  "build_approval_token env d a expires now =
     and_then (signing_key env) (\<lambda>secret.
       let kid = strip (te_kid env)
       in Inr (te_encode env (token_payload env d a expires now) secret
            (if kid = [] then None else Some [(''kid'', PStr kid)])))"

section \<open>Identifiers survive their text\<close>

lemma of_char_hex: "d < 16 \<Longrightarrow> (of_char (hex_char d) :: nat) = (if d < 10 then 48 + d else 87 + d)"
  by (simp add: hex_char_def)

lemma hex_val_char [simp]: "d < 16 \<Longrightarrow> hex_val (hex_char d) = Some d"
  by (simp add: hex_val_def of_char_hex Let_def)

lemma hex_digits_chars: "c \<in> set (hex_digits k n) \<Longrightarrow> \<exists>d<16. c = hex_char d"
proof (induction k arbitrary: n)
  case (Suc k)
  then show ?case using mod_less_divisor [of 16 n] by (auto simp del: mod_less_divisor)
qed simp

lemma length_hex_digits [simp]: "length (hex_digits k n) = k"
  by (induction k arbitrary: n) auto

lemma hex_char_code: "c \<in> set (hex_digits k n) \<Longrightarrow> (48 \<le> (of_char c :: nat) \<and> (of_char c :: nat) \<le> 57) \<or>
    (97 \<le> (of_char c :: nat) \<and> (of_char c :: nat) \<le> 102)"
  using hex_digits_chars [of c k n] by (auto simp: of_char_hex split: if_splits)

lemma scan_hex: "scan_digits hex_val 16 v (hex_digits k n @ t) = scan_digits hex_val 16 (v * 16 ^ k + n mod 16 ^ k) t"
proof (induction k arbitrary: n t)
  case (Suc k)
  have "n mod 16 ^ Suc k = 16 * (n div 16 mod 16 ^ k) + n mod 16"
    using mod_mult2_eq [of n 16 "16 ^ k"] by simp
  then show ?case using Suc by (simp add: algebra_simps)
qed simp

lemma parse_digits_scan: "s \<noteq> [] \<Longrightarrow> dv (hd s) \<noteq> None \<Longrightarrow> parse_digits dv b s = scan_digits dv b 0 s"
  by (cases s) (auto simp: parse_digits_def)

lemma remove_all_absent: "c \<notin> set s \<Longrightarrow> remove_all (c # p) s = s"
  by (induction s) auto

lemma strip_braces_id: "(\<And>c. c \<in> set s \<Longrightarrow> \<not> is_brace c) \<Longrightarrow> strip_braces s = s"
proof -
  assume a: "\<And>c. c \<in> set s \<Longrightarrow> \<not> is_brace c"
  have d: "dropWhile is_brace t = t" if "set t \<subseteq> set s" for t
    using that a by (cases t) auto
  show ?thesis by (simp add: strip_braces_def d)
qed

lemma uuid_str_chars:
  "c \<in> set (uuid_str n) \<Longrightarrow> c = CHR ''-'' \<or> c \<in> set (hex_digits 32 n)"
  unfolding uuid_str_def Let_def by (auto dest!: in_set_takeD in_set_dropD)

lemma filter_uuid_str: "filter (\<lambda>c. c \<noteq> CHR ''-'') (uuid_str n) = hex_digits 32 n"
proof -
  let ?h = "hex_digits 32 n"
  have no: "filter (\<lambda>c. c \<noteq> CHR ''-'') t = t" if "set t \<subseteq> set ?h" for t
    using that hex_char_code by (fastforce intro!: filter_True)
  have sub: "set (take i (drop j ?h)) \<subseteq> set ?h" "set (take i ?h) \<subseteq> set ?h" "set (drop j ?h) \<subseteq> set ?h" for i j
    by (auto dest: in_set_takeD in_set_dropD)
  have "take 8 ?h @ take 4 (drop 8 ?h) @ take 4 (drop 12 ?h) @ take 4 (drop 16 ?h) @ drop 20 ?h = ?h"
    using append_take_drop_id [of 4 "drop 16 ?h"] append_take_drop_id [of 4 "drop 12 ?h"]
      append_take_drop_id [of 4 "drop 8 ?h"] append_take_drop_id [of 8 ?h] by simp
  then show ?thesis by (simp add: uuid_str_def Let_def no [OF sub(1)] no [OF sub(2)] no [OF sub(3)])
qed

lemma int_of_hex_digits: "0 < k \<Longrightarrow> int_of_hex (hex_digits k n) = Some (int (n mod 16 ^ k))"
proof -
  assume k: "0 < k"
  let ?h = "hex_digits k n"
  have ne: "?h \<noteq> []" using k by (metis length_hex_digits length_greater_0_conv)
  have code: "c \<in> set ?h \<Longrightarrow> (48 \<le> (of_char c :: nat) \<and> (of_char c :: nat) \<le> 57) \<or>
    (97 \<le> (of_char c :: nat) \<and> (of_char c :: nat) \<le> 102)" for c
    by (rule hex_char_code)
  have strip: "strip ?h = ?h"
    by (rule strip_no_space) (use code in \<open>fastforce simp: is_space_def Let_def\<close>)
  obtain c t where h: "?h = c # t" using ne by (cases ?h) auto
  have sign: "split_sign ?h = (1, ?h)" using code [of c] by (auto simp: h)
  have "\<not> starts_with (lower ?h) ''0x''"
  proof
    assume "starts_with (lower ?h) ''0x''"
    then obtain d where "d \<in> set ?h" "lower_char d = CHR ''x''" by (cases t) (auto simp: h lower_def)
    then show False using code [of d] of_char_lower [of d] by (auto simp: Let_def split: if_splits)
  qed
  then have skip: "skip_prefix ?h = ?h" by (simp add: skip_prefix_def)
  have "hex_val (hd ?h) \<noteq> None" using hex_digits_chars [of c k n] by (auto simp: h)
  then have "parse_digits hex_val 16 ?h = Some (n mod 16 ^ k)"
    using scan_hex [of 0 k n "[]"] by (simp add: parse_digits_scan [OF ne])
  then show ?thesis by (simp add: int_of_hex_def strip sign skip)
qed

lemma uuid_of_uuid_str [simp]:
  assumes "u < 2 ^ 128"
  shows "uuid_of_text (uuid_str u) = Some u"
proof -
  have code: "c \<noteq> CHR ''u'' \<and> \<not> is_brace c" if "c \<in> set (uuid_str u)" for c
    using uuid_str_chars [OF that] hex_char_code [of c 32 u] by (auto simp: is_brace_def)
  have "remove_all ''uuid:'' (remove_all ''urn:'' (uuid_str u)) = uuid_str u"
    using code by (metis remove_all_absent)
  moreover have "strip_braces (uuid_str u) = uuid_str u" using code by (intro strip_braces_id) auto
  moreover have "u mod 16 ^ 32 = u" using assms by simp
  ultimately show ?thesis
    using assms int_of_hex_digits [of 32 u] by (simp add: uuid_of_text_def filter_uuid_str)
qed

section \<open>What the code relies on of the JWT library\<close>

definition int_claim :: "pydict \<Rightarrow> string \<Rightarrow> int option" where
  "int_claim p k = (case dget p k of PInt n \<Rightarrow> Some n | _ \<Rightarrow> None)"

definition claims_accepted :: "jwt_options \<Rightarrow> time \<Rightarrow> pydict \<Rightarrow> bool" where
  \<comment> \<open>the required claims are there, audience and issuer are the expected ones, the token is neither early nor late\<close>
  "claims_accepted opt now p =
     (list_all (\<lambda>k. dget p k \<noteq> PNone) (jo_require opt) \<and>
      dget p ''aud'' = PStr (jo_audience opt) \<and> dget p ''iss'' = PStr (jo_issuer opt) \<and>
      (case (int_claim p ''iat'', int_claim p ''nbf'', int_claim p ''exp'') of
         (Some iat, Some nbf, Some ends) \<Rightarrow>
           unix_epoch + seconds iat \<le> now \<and> unix_epoch + seconds nbf \<le> now \<and> now < unix_epoch + seconds ends
       | _ \<Rightarrow> False))"

definition jwt_accepts :: "token_env \<Rightarrow> pydict \<Rightarrow> bool" where
  \<comment> \<open>a token signed with a key verifies under this key to the payload it was made from\<close>
  "jwt_accepts env p = (\<forall>key headers opt now. claims_accepted opt now p \<longrightarrow>
     te_decode env now (te_encode env p key headers) key opt = Payload p)"

definition tokenable :: "decision \<Rightarrow> approval \<Rightarrow> bool" where
  \<comment> \<open>rows a token can carry: identifiers of 128 bits, money within 28 digits, the bound texts not blank\<close>
  "tokenable d a = (apr_id a < 2 ^ 128 \<and> dec_id d < 2 ^ 128 \<and> dec_tenant d < 2 ^ 128 \<and>
     on_grid 4 (dec_monthly d) \<and> \<bar>dec_monthly d\<bar> < 10 ^ 24 \<and> on_grid 6 (dec_hourly d) \<and> \<bar>dec_hourly d\<bar> < 10 ^ 22 \<and>
     length (strip (dec_fingerprint d)) = 64 \<and> strip (dec_resource d) \<noteq> [] \<and> strip (dec_project d) \<noteq> [])"

definition bound_context :: "decision \<Rightarrow> approval \<Rightarrow> time \<Rightarrow> token_context" where
  \<comment> \<open>what a token for these rows is bound to\<close>
  "bound_context d a expires =
     \<lparr>tc_approval = apr_id a, tc_decision = dec_id d, tc_tenant = dec_tenant d, tc_project = strip (dec_project d),
      tc_source = dec_source d, tc_environment = strip (dec_environment d),
      tc_fingerprint = strip (dec_fingerprint d), tc_resource = strip (dec_resource d),
      tc_monthly = dec_monthly d, tc_hourly = dec_hourly d,
      tc_expires = unix_epoch + seconds (timestamp_int expires)\<rparr>"

lemma payload_claims:
  fixes env d a expires now
  defines "p \<equiv> token_payload env d a expires now"
  shows "dget p ''aud'' = PStr ''enforcement_gate''" "dget p ''iss'' = PStr (rstrip_slash (te_api_url env))"
    "int_claim p ''iat'' = Some (timestamp_int now)" "int_claim p ''nbf'' = Some (timestamp_int now)"
    "int_claim p ''exp'' = Some (timestamp_int expires)" "dget p ''exp'' = PInt (timestamp_int expires)"
    "list_all (\<lambda>k. dget p k \<noteq> PNone) required_claims"
    "text_claim p ''token_type'' = approval_token_type" "text_claim p ''source'' = strip (source_value (dec_source d))"
    "text_claim p ''environment'' = strip (dec_environment d)"
    "text_claim p ''request_fingerprint'' = strip (dec_fingerprint d)"
    "text_claim p ''resource_reference'' = strip (dec_resource d)" "text_claim p ''project_id'' = strip (dec_project d)"
    "dget p ''approval_id'' = PUuid (apr_id a)" "dget p ''decision_id'' = PUuid (dec_id d)"
    "dget p ''tenant_id'' = PUuid (dec_tenant d)"
    "dget p ''max_monthly_delta_usd'' = PStr (fixed_str 4 (dec_monthly d))"
    "dget p ''max_hourly_delta_usd'' = PStr (fixed_str 6 (dec_hourly d))"
  by (simp_all add: p_def token_payload_def dget_def dget_or_def text_claim_def int_claim_def required_claims_def
      py_str_def approval_token_type_def strip_def lstrip_def is_space_def Let_def)

lemma source_claim_value: "source_of_value (lower (strip (source_value s))) = Some s"
  by (cases s) (simp_all add: source_value_def source_of_value_def lower_def lower_char_def strip_def lstrip_def
      is_space_def Let_def)

lemma quantize_checked_grid:
  assumes "on_grid p x" "\<bar>x\<bar> < 10 ^ (28 - p)" "p \<le> 28"
  shows "quantize_checked p x = Inr x"
proof -
  obtain n where n: "x = of_int n / 10 ^ p" using assms(1) by (auto simp: on_grid_iff)
  have "\<bar>of_int n :: rat\<bar> < 10 ^ (28 - p) * 10 ^ p"
    using assms(2) by (simp add: n field_simps)
  also have "\<dots> = 10 ^ 28" using assms(3) by (simp flip: power_add)
  finally have "\<bar>n\<bar> < 10 ^ 28"
    by (metis of_int_abs of_int_less_iff of_int_numeral of_int_power)
  then show ?thesis using assms(1) by (simp add: quantize_checked_def n)
qed

lemma timestamp_bounds:
  assumes "unix_epoch \<le> t" "t < seconds (3652059 * 86400)"
  shows "unix_epoch + seconds (timestamp_int t) \<le> t" "0 \<le> timestamp_int t"
    "from_timestamp (timestamp_int t) = Inr (unix_epoch + seconds (timestamp_int t))"
proof -
  let ?n = "(t - unix_epoch) div 1000000"
  have n: "?n * 1000000 \<le> t - unix_epoch" "0 \<le> ?n" using assms(1) by (auto simp: pos_imp_zdiv_nonneg_iff)
  then show "unix_epoch + seconds (timestamp_int t) \<le> t" "0 \<le> timestamp_int t"
    using assms(1) by (simp_all add: timestamp_int_def seconds_def)
  have "?n < 2 ^ 63" "unix_epoch + seconds ?n < seconds (3652059 * 86400)" "0 \<le> unix_epoch + seconds ?n"
    using n assms(2) by (auto simp: seconds_def unix_epoch_def)
  then show "from_timestamp (timestamp_int t) = Inr (unix_epoch + seconds (timestamp_int t))"
    using n assms(1) by (simp add: from_timestamp_def timestamp_int_def Let_def)
qed

lemma extract_payload:
  assumes "tokenable d a" "unix_epoch \<le> expires" "expires < seconds (3652059 * 86400)"
  shows "extract_token_context (token_payload env d a expires now) = Inr (bound_context d a expires)"
proof -
  note row = assms(1) [unfolded tokenable_def]
  have "expiry_claim (token_payload env d a expires now) = Inr (unix_epoch + seconds (timestamp_int expires))"
    using timestamp_bounds(3) [OF assms(2,3)] by (simp add: expiry_claim_def payload_claims int_of_value_def Let_def)
  moreover have "source_claim (token_payload env d a expires now) = Inr (dec_source d)"
    by (simp add: source_claim_def payload_claims source_claim_value)
  moreover have "quantize_checked 4 (dec_monthly d) = Inr (dec_monthly d)" "quantize_checked 6 (dec_hourly d) = Inr (dec_hourly d)"
    using row by (simp_all add: quantize_checked_grid)
  ultimately show ?thesis
    using row by (simp add: extract_token_context_def payload_claims uuid_claim_def py_str_def present_def
        bound_context_def Let_def)
qed

lemma decode_own_token:
  assumes law: "jwt_accepts env (token_payload env d a expires issued)"
    and tok: "build_approval_token env d a expires issued = Inr token"
    and now: "unix_epoch \<le> issued" "issued < seconds (3652059 * 86400)" "issued \<le> now"
      "now < unix_epoch + seconds (timestamp_int expires)"
  shows "decode_approval_token env now token = Inr (token_payload env d a expires issued)"
proof -
  let ?p = "token_payload env d a expires issued"
  obtain secret where secret: "signing_key env = Inr secret"
    and enc: "token = te_encode env ?p secret (if strip (te_kid env) = [] then None else Some [(''kid'', PStr (strip (te_kid env)))])"
    using tok by (auto simp: build_approval_token_def and_then_Inr Let_def)
  have "claims_accepted (decode_options env) now ?p"
    using now timestamp_bounds(1) [OF now(1,2)]
    by (simp add: claims_accepted_def payload_claims decode_options_def)
  then have "te_decode env now token secret (decode_options env) = Payload ?p"
    using law enc by (simp add: jwt_accepts_def)
  moreover obtain rest where "candidate_secrets secret (te_fallbacks env) = secret # rest"
  proof -
    have "\<exists>rest. foldl (\<lambda>acc s. add_new s acc) (secret # r) ss = secret # rest" for r ss
    proof (induction ss arbitrary: r)
      case (Cons s ss)
      have "add_new s (secret # r) = secret # (if s \<in> set (secret # r) then r else r @ [s])"
        by (simp add: add_new.simps)
      then show ?case using Cons by (simp only: foldl_Cons)
    qed simp
    from this [of "[]" "filter (\<lambda>s. 32 \<le> length s) (map strip (te_fallbacks env))"] that
    show thesis by (auto simp: candidate_secrets_def add_new.simps)
  qed
  ultimately show ?thesis by (simp add: decode_approval_token_def secret payload_claims)
qed

end
