(* ===== verification/Waterfall.thy ===== *)
theory Waterfall
  imports Service_Utils
begin

text \<open>
  \<open>app/modules/enforcement/domain/waterfall_ops.py\<close> with the bindings of
  \<open>service_private_credit_token_ops.py\<close>: how a requested monthly cost is charged to the plan
  limit, the project allocation, the reserved credits, the organisation's emergency credits and
  the enterprise ceiling, in that order, and what the enforcement mode makes of a violation.
\<close>

section \<open>The code\<close>

definition mode_violation_decision :: "enf_mode \<Rightarrow> decision_type" where
  "mode_violation_decision mode =
     (if mode = SHADOW then ALLOW else if mode = SOFT then REQUIRE_APPROVAL else DENY)"

definition mode_violation_reason_suffix :: "enf_mode \<Rightarrow> string \<Rightarrow> string" where
  "mode_violation_reason_suffix mode subject =
     (if mode = SHADOW then ''shadow_mode_'' @ subject @ ''_override''
      else if mode = SOFT then ''soft_mode_'' @ subject @ ''_escalation''
      else ''hard_mode_'' @ subject @ ''_closed'')"

record stage_row =
  st_stage :: string
  st_status :: string
  st_available :: string
  st_consumed :: string
  st_remaining :: string

record waterfall =
  wf_decision :: decision_type
  wf_alloc :: usd
  wf_reserved :: usd
  wf_emergency :: usd
  wf_reason :: "string option"
  wf_stages :: "stage_row list"

definition wf_credit :: "waterfall \<Rightarrow> usd" where
  \<comment> \<open>the property \<open>reserve_credit_usd\<close>\<close>
  "wf_credit w = quantize4 (wf_reserved w + wf_emergency w)"

definition make_stage :: "string \<Rightarrow> string \<Rightarrow> usd option \<Rightarrow> usd \<Rightarrow> usd \<Rightarrow> stage_row" where
  "make_stage stage status available consumed remaining_after =
     \<lparr>st_stage = stage, st_status = status,
      st_available = (case available of Some a \<Rightarrow> fixed_str 4 (quantize4 a) | None \<Rightarrow> ''unbounded''),
      st_consumed = fixed_str 4 (quantize4 consumed),
      st_remaining = fixed_str 4 (quantize4 remaining_after)\<rparr>"

definition norm_headroom :: "usd \<Rightarrow> usd" where
  \<comment> \<open>\<open>max(Decimal("0.0000"), quantize_fn(h, "0.0001"))\<close>\<close>
  "norm_headroom h = max 0 (quantize4 h)"

definition take_pool :: "usd \<Rightarrow> usd \<Rightarrow> usd \<times> usd" where
  \<comment> \<open>what a pool with \<open>available\<close> covers of \<open>remaining\<close>, and what is then left\<close>
  "take_pool remaining available =
     (let taken = quantize4 (min remaining available) in (taken, quantize4 (remaining - taken)))"

definition take_allocation :: "usd \<Rightarrow> usd option \<Rightarrow> usd \<times> usd" where
  \<comment> \<open>without a project limit everything is covered and nothing reserved\<close>
  "take_allocation funding_target headroom =
     (case headroom of None \<Rightarrow> (0, 0) | Some h \<Rightarrow> take_pool funding_target (norm_headroom h))"

definition pool_status :: "usd \<Rightarrow> string" where
  "pool_status remaining = (if remaining = 0 then ''pass'' else ''partial'')"

definition plan_stage :: "usd \<Rightarrow> usd option \<Rightarrow> stage_row" where
  "plan_stage requested plan = (case plan of
     Some p \<Rightarrow> make_stage ''plan_limit'' ''pass'' (Some p) requested requested
   | None \<Rightarrow> make_stage ''plan_limit'' ''skipped'' None requested requested)"

definition allocation_stage :: "usd \<Rightarrow> usd option \<Rightarrow> usd \<Rightarrow> usd \<Rightarrow> stage_row" where
  "allocation_stage funding_target headroom taken remaining = (case headroom of
     None \<Rightarrow> make_stage ''project_allocation'' ''skipped'' None (quantize4 funding_target) remaining
   | Some h \<Rightarrow> make_stage ''project_allocation'' (pool_status remaining) (Some (norm_headroom h)) taken remaining)"

definition credit_stage :: "string \<Rightarrow> usd \<Rightarrow> usd \<Rightarrow> usd \<Rightarrow> stage_row" where
  "credit_stage name available taken remaining =
     make_stage name (if 0 < available then pool_status remaining else ''skipped'')
       (Some available) taken remaining"

definition enterprise_stage :: "usd \<Rightarrow> usd option \<Rightarrow> usd \<Rightarrow> stage_row" where
  "enterprise_stage requested enterprise remaining =
     (let consumable = (case enterprise of None \<Rightarrow> requested | Some e \<Rightarrow> min requested e);
          failed = (case enterprise of None \<Rightarrow> False | Some e \<Rightarrow> e < requested)
      in make_stage ''enterprise_ceiling''
           (if failed \<and> remaining = 0 then ''fail'' else if enterprise \<noteq> None then ''pass'' else ''skipped'')
           enterprise consumable (quantize4 (requested - consumable)))"

definition waterfall_violation ::
  "enf_mode \<Rightarrow> string \<Rightarrow> usd \<Rightarrow> usd \<Rightarrow> usd \<Rightarrow> stage_row list \<Rightarrow> waterfall" where
  "waterfall_violation mode code alloc reserved emergency stages =
     \<lparr>wf_decision = mode_violation_decision mode,
      wf_alloc = (if mode = SOFT then alloc else 0),
      wf_reserved = (if mode = SOFT then reserved else 0),
      wf_emergency = (if mode = SOFT then emergency else 0),
      wf_reason = Some code, wf_stages = stages\<rparr>"

definition evaluate_entitlement_waterfall ::
  "enf_mode \<Rightarrow> usd \<Rightarrow> usd option \<Rightarrow> usd option \<Rightarrow> usd \<Rightarrow> usd \<Rightarrow> usd option \<Rightarrow> waterfall" where
  "evaluate_entitlement_waterfall mode monthly_delta plan_headroom allocation_headroom
     reserved_credit_headroom emergency_credit_headroom enterprise_headroom =
     (let requested = quantize4 monthly_delta; plan = map_option norm_headroom plan_headroom
      in if (case plan of None \<Rightarrow> False | Some p \<Rightarrow> p < requested)
         then \<lparr>wf_decision = mode_violation_decision mode, wf_alloc = 0, wf_reserved = 0,
               wf_emergency = 0, wf_reason = Some ''plan_limit_exceeded'',
               wf_stages = [make_stage ''plan_limit'' ''fail'' plan 0 requested]\<rparr>
         else
      let enterprise = map_option norm_headroom enterprise_headroom;
          funding_target = (case enterprise of None \<Rightarrow> requested | Some e \<Rightarrow> min requested e);
          (reserved_alloc, remaining1) = take_allocation funding_target allocation_headroom;
          reserved_available = norm_headroom reserved_credit_headroom;
          (reserved_credit, remaining2) = take_pool remaining1 reserved_available;
          emergency_available = norm_headroom emergency_credit_headroom;
          (emergency_credit, remaining) = take_pool remaining2 emergency_available;
          stages =
            [plan_stage requested plan,
             allocation_stage funding_target allocation_headroom reserved_alloc remaining1,
             credit_stage ''reserved_credits'' reserved_available reserved_credit remaining2,
             credit_stage ''org_emergency_credits'' emergency_available emergency_credit remaining,
             enterprise_stage requested enterprise remaining];
          enterprise_failed = (case enterprise of None \<Rightarrow> False | Some e \<Rightarrow> e < requested)
      in if 0 < remaining
         then waterfall_violation mode ''budget_exceeded'' reserved_alloc reserved_credit emergency_credit stages
         else if enterprise_failed
         then waterfall_violation mode ''enterprise_ceiling_exceeded'' reserved_alloc reserved_credit
                emergency_credit stages
         else \<lparr>wf_decision = (if reserved_credit + emergency_credit = 0 then ALLOW else ALLOW_WITH_CREDITS),
               wf_alloc = reserved_alloc, wf_reserved = reserved_credit,
               wf_emergency = emergency_credit, wf_reason = None, wf_stages = stages\<rparr>)"

definition evaluate_budget_waterfall ::
  "enf_mode \<Rightarrow> usd \<Rightarrow> usd option \<Rightarrow> usd \<Rightarrow> string list \<Rightarrow> decision_type \<times> usd \<times> usd \<times> string list" where
  \<comment> \<open>the list \<open>reasons\<close>, mutated by the source, is returned last\<close>
  "evaluate_budget_waterfall mode monthly_delta allocation_headroom credits_headroom reasons =
     (let result = evaluate_entitlement_waterfall mode monthly_delta None allocation_headroom
            credits_headroom 0 None;
          reasons = (if wf_reason result = Some ''budget_exceeded''
            then reasons @ [''budget_exceeded'']
                 @ (if mode = SHADOW then [''shadow_mode_budget_override'']
                    else if mode = SOFT then [''soft_mode_budget_escalation''] else [])
            else reasons);
          reasons = (if 0 < wf_reserved result + wf_emergency result
            then reasons @ [''credit_waterfall_used''] else reasons)
      in (wf_decision result, wf_alloc result, wf_reserved result, reasons))"

section \<open>The contract\<close>

text \<open>
  What a charge promises, without quantisation and without bookkeeping: the target is the
  request capped by the enterprise ceiling; each pool is drawn greedily in order; the verdict is
  a violation when the plan limit is exceeded, when some of the target is left uncovered, or
  when the ceiling cut the request.
\<close>

record charge =
  ch_alloc :: usd
  ch_reserved :: usd
  ch_emergency :: usd
  ch_left :: usd

definition draw :: "usd \<Rightarrow> usd \<Rightarrow> usd \<times> usd" where
  \<comment> \<open>take as much of \<open>need\<close> as the pool has\<close>
  "draw need pool = (min need pool, need - min need pool)"

definition greedy_charge :: "usd \<Rightarrow> usd option \<Rightarrow> usd \<Rightarrow> usd \<Rightarrow> charge" where
  "greedy_charge need alloc reserved emergency =
     (case alloc of
        None \<Rightarrow> \<lparr>ch_alloc = 0, ch_reserved = 0, ch_emergency = 0, ch_left = 0\<rparr>
      | Some a \<Rightarrow>
          let (x, r1) = draw need a; (y, r2) = draw r1 reserved; (z, r3) = draw r2 emergency
          in \<lparr>ch_alloc = x, ch_reserved = y, ch_emergency = z, ch_left = r3\<rparr>)"

definition waterfall_verdict :: "usd \<Rightarrow> usd option \<Rightarrow> usd option \<Rightarrow> charge \<Rightarrow> string option" where
  "waterfall_verdict requested plan cap c =
     (if (case plan of None \<Rightarrow> False | Some p \<Rightarrow> p < requested) then Some ''plan_limit_exceeded''
      else if 0 < ch_left c then Some ''budget_exceeded''
      else if (case cap of None \<Rightarrow> False | Some e \<Rightarrow> e < requested) then Some ''enterprise_ceiling_exceeded''
      else None)"

definition waterfall_spec ::
  "enf_mode \<Rightarrow> usd \<Rightarrow> usd option \<Rightarrow> usd option \<Rightarrow> usd \<Rightarrow> usd \<Rightarrow> usd option
    \<Rightarrow> decision_type \<times> usd \<times> usd \<times> usd \<times> string option" where
  "waterfall_spec mode requested plan alloc reserved emergency cap =
     (let need = (case cap of None \<Rightarrow> requested | Some e \<Rightarrow> min requested e);
          c = greedy_charge need alloc reserved emergency
      in case waterfall_verdict requested plan cap c of
           None \<Rightarrow> (if ch_reserved c = 0 \<and> ch_emergency c = 0 then ALLOW else ALLOW_WITH_CREDITS,
                    ch_alloc c, ch_reserved c, ch_emergency c, None)
         | Some code \<Rightarrow>
             (case mode of SHADOW \<Rightarrow> (ALLOW, 0, 0, 0, Some code)
              | HARD \<Rightarrow> (DENY, 0, 0, 0, Some code)
              | SOFT \<Rightarrow> if code = ''plan_limit_exceeded'' then (REQUIRE_APPROVAL, 0, 0, 0, Some code)
                  else (REQUIRE_APPROVAL, ch_alloc c, ch_reserved c, ch_emergency c, Some code)))"

definition wf_result :: "waterfall \<Rightarrow> decision_type \<times> usd \<times> usd \<times> usd \<times> string option" where
  "wf_result w = (wf_decision w, wf_alloc w, wf_reserved w, wf_emergency w, wf_reason w)"

section \<open>Facts about charges\<close>

lemma norm_headroom_grid [simp]: "on_grid 4 (norm_headroom h)"
  by (simp add: norm_headroom_def q4.grid_max)

lemma norm_headroom_nonneg [simp]: "0 \<le> norm_headroom h"
  by (simp add: norm_headroom_def)

lemma norm_headroom_id: "on_grid 4 h \<Longrightarrow> 0 \<le> h \<Longrightarrow> norm_headroom h = h"
  by (simp add: norm_headroom_def)

lemma grid4_min [simp]: "on_grid 4 x \<Longrightarrow> on_grid 4 y \<Longrightarrow> on_grid 4 (min x y)"
  by (rule q4.grid_min)

lemma grid4_diff [simp]: "on_grid 4 x \<Longrightarrow> on_grid 4 y \<Longrightarrow> on_grid 4 (x - y)"
  by (rule q4.grid_diff)

lemma grid4_add [simp]: "on_grid 4 x \<Longrightarrow> on_grid 4 y \<Longrightarrow> on_grid 4 (x + y)"
  by (rule q4.grid_add)

lemma draw_simps [simp]: "fst (draw n p) = min n p" "snd (draw n p) = n - min n p"
  by (simp_all add: draw_def)

lemma take_pool_draw [simp]: "on_grid 4 n \<Longrightarrow> on_grid 4 p \<Longrightarrow> take_pool n p = draw n p"
  by (simp add: take_pool_def draw_def Let_def)

lemma greedy_charge_bounds:
  fixes need a r e :: usd
  assumes "0 \<le> a" "0 \<le> r" "0 \<le> e"
  defines "c \<equiv> greedy_charge need (Some a) r e"
  shows "ch_alloc c \<le> a" "0 \<le> ch_reserved c" "ch_reserved c \<le> r"
    "0 \<le> ch_emergency c" "ch_emergency c \<le> e" "0 \<le> ch_left c" "0 \<le> need \<Longrightarrow> 0 \<le> ch_alloc c"
  using assms by (auto simp: greedy_charge_def draw_def min_def)

lemma greedy_charge_sum:
  "ch_alloc c + ch_reserved c + ch_emergency c + ch_left c = need"
  if "c = greedy_charge need (Some a) r e"
  using that by (simp add: greedy_charge_def draw_def)

lemma greedy_charge_order:
  assumes "c = greedy_charge need (Some a) r e" "0 \<le> a" "0 \<le> r" "0 \<le> e"
  shows "0 < ch_reserved c \<Longrightarrow> ch_alloc c = a"
    and "0 < ch_emergency c \<Longrightarrow> ch_reserved c = r"
    and "0 < ch_left c \<Longrightarrow> ch_emergency c = e"
  using assms by (auto simp: greedy_charge_def draw_def min_def split: if_splits)

section \<open>The code meets the contract\<close>

lemma violation_result:
  "wf_result (waterfall_violation mode code x y z stages) =
    (case mode of SHADOW \<Rightarrow> (ALLOW, 0, 0, 0, Some code) | HARD \<Rightarrow> (DENY, 0, 0, 0, Some code)
     | SOFT \<Rightarrow> (REQUIRE_APPROVAL, x, y, z, Some code))"
  by (cases mode) (simp_all add: wf_result_def waterfall_violation_def mode_violation_decision_def)

lemma take_allocation_greedy:
  assumes "on_grid 4 need" "take_allocation need alloc = (x, r1)"
    "take_pool r1 (norm_headroom res) = (y, r2)" "take_pool r2 (norm_headroom em) = (z, r3)"
  shows "greedy_charge need (map_option norm_headroom alloc) (norm_headroom res) (norm_headroom em) =
    \<lparr>ch_alloc = x, ch_reserved = y, ch_emergency = z, ch_left = r3\<rparr>" "0 \<le> y" "0 \<le> z"
  using assms
  by (auto simp: take_allocation_def greedy_charge_def draw_def split: option.splits)

lemma result_make [simp]:
  "wf_result \<lparr>wf_decision = d, wf_alloc = x, wf_reserved = y, wf_emergency = z, wf_reason = r, wf_stages = s\<rparr> =
    (d, x, y, z, r)"
  by (simp add: wf_result_def)

text \<open>The refinement as an equation between functions, for the proofs below.\<close>

lemma waterfall_is_spec:
  "wf_result (evaluate_entitlement_waterfall mode delta plan alloc res em cap) =
    waterfall_spec mode (quantize4 delta) (map_option norm_headroom plan) (map_option norm_headroom alloc)
      (norm_headroom res) (norm_headroom em) (map_option norm_headroom cap)"
proof -
  let ?cap = "map_option norm_headroom cap"
  define need where "need = (case ?cap of None \<Rightarrow> quantize4 delta | Some e \<Rightarrow> min (quantize4 delta) e)"
  have grid: "on_grid 4 need"
    by (auto simp: need_def split: option.split)
  obtain x r1 where a: "take_allocation need alloc = (x, r1)" by force
  obtain y r2 where r: "take_pool r1 (norm_headroom res) = (y, r2)" by force
  obtain z r3 where e: "take_pool r2 (norm_headroom em) = (z, r3)" by force
  note g = take_allocation_greedy [OF grid a r e]
  have yz: "y + z = 0 \<longleftrightarrow> y = 0 \<and> z = 0"
    using g(2,3) by (rule add_nonneg_eq_0_iff)
  show ?thesis
    unfolding evaluate_entitlement_waterfall_def waterfall_spec_def waterfall_verdict_def Let_def
      need_def [symmetric] g(1) a r e prod.case
    by (cases mode) (simp_all add: if_distrib [where f = wf_result] violation_result result_make
        mode_violation_decision_def yz)
qed

lemma waterfall_need_nonneg:
  "0 \<le> requested \<Longrightarrow> 0 \<le> (case map_option norm_headroom cap of None \<Rightarrow> requested | Some e \<Rightarrow> min requested e)"
  by (auto split: option.split)

lemma wf_result_eqD:
  "wf_result w = (d, x, y, z, r) \<Longrightarrow>
    wf_decision w = d \<and> wf_alloc w = x \<and> wf_reserved w = y \<and> wf_emergency w = z \<and> wf_reason w = r"
  by (simp add: wf_result_def)

text \<open>The four shapes of a result: plan violation, violation with and without reservation, grant.\<close>

lemma waterfall_cases:
  fixes mode delta plan alloc res em cap
  defines "w \<equiv> evaluate_entitlement_waterfall mode delta plan alloc res em cap"
    and "need \<equiv> (case map_option norm_headroom cap of
      None \<Rightarrow> quantize4 delta | Some e \<Rightarrow> min (quantize4 delta) e)"
  defines "c \<equiv> greedy_charge need (map_option norm_headroom alloc) (norm_headroom res) (norm_headroom em)"
  obtains (granted) "wf_reason w = None" "need = quantize4 delta" "\<not> 0 < ch_left c"
      "wf_decision w = (if ch_reserved c = 0 \<and> ch_emergency c = 0 then ALLOW else ALLOW_WITH_CREDITS)"
      "wf_alloc w = ch_alloc c" "wf_reserved w = ch_reserved c" "wf_emergency w = ch_emergency c"
  | (reserved) code where "mode = SOFT" "wf_reason w = Some code" "wf_decision w = REQUIRE_APPROVAL"
      "wf_alloc w = ch_alloc c" "wf_reserved w = ch_reserved c" "wf_emergency w = ch_emergency c"
  | (violated) code where "wf_reason w = Some code" "wf_decision w = mode_violation_decision mode"
      "wf_alloc w = 0" "wf_reserved w = 0" "wf_emergency w = 0"
proof -
  let ?v = "waterfall_verdict (quantize4 delta) (map_option norm_headroom plan) (map_option norm_headroom cap) c"
  have spec: "wf_result w = waterfall_spec mode (quantize4 delta) (map_option norm_headroom plan)
      (map_option norm_headroom alloc) (norm_headroom res) (norm_headroom em) (map_option norm_headroom cap)"
    unfolding w_def by (rule waterfall_is_spec)
  show thesis
  proof (cases ?v)
    case None
    then have "need = quantize4 delta" "\<not> 0 < ch_left c"
      by (auto simp: waterfall_verdict_def need_def split: if_splits option.splits)
    moreover note wf_result_eqD [OF spec [unfolded waterfall_spec_def Let_def, folded need_def, folded c_def,
          unfolded None option.case]]
    ultimately show thesis by (intro granted) auto
  next
    case (Some code)
    note eq = spec [unfolded waterfall_spec_def Let_def, folded need_def, folded c_def, unfolded Some option.case]
    show thesis
    proof (cases mode)
      case SOFT
      show thesis
      proof (cases "code = ''plan_limit_exceeded''")
        case True
        with eq SOFT have "wf_result w = (REQUIRE_APPROVAL, 0, 0, 0, Some code)" by simp
        from wf_result_eqD [OF this] SOFT show thesis
          by (intro violated [of code]) (auto simp: mode_violation_decision_def)
      next
        case False
        with eq SOFT have "wf_result w = (REQUIRE_APPROVAL, ch_alloc c, ch_reserved c, ch_emergency c, Some code)"
          by simp
        from wf_result_eqD [OF this] SOFT show thesis by (intro reserved [of code]) auto
      qed
    qed (use eq in \<open>auto dest!: wf_result_eqD intro!: violated [of code] simp: mode_violation_decision_def\<close>)
  qed
qed

section \<open>Properties\<close>

lemma waterfall_sample_granted:
  "wf_result (evaluate_entitlement_waterfall HARD 100 None (Some 60) 30 20 None) =
    (ALLOW_WITH_CREDITS, 60, 30, 10, None)"
  unfolding waterfall_is_spec by code_simp

lemma waterfall_sample_denied:
  "wf_result (evaluate_entitlement_waterfall HARD 100 None (Some 60) 30 5 None) =
    (DENY, 0, 0, 0, Some ''budget_exceeded'')"
  unfolding waterfall_is_spec by code_simp

text \<open>C38: The evaluated waterfall is the greedy charge of the contract on the quantized inputs:
  same decision, same three reservations, same reason code, in every mode and for every
  combination of bounded and unbounded headrooms.\<close>

theorem entitlement_waterfall_refines:
  "wf_result (evaluate_entitlement_waterfall mode delta plan alloc res em cap) =
    waterfall_spec mode (quantize4 delta) (map_option norm_headroom plan) (map_option norm_headroom alloc)
      (norm_headroom res) (norm_headroom em) (map_option norm_headroom cap)"
  by (rule waterfall_is_spec)

text \<open>No money is lost: when a request with a bounded project allocation is granted without
  a reason code, what is reserved from the allocation, the reserved credits and the emergency
  credits is exactly the requested amount.\<close>

theorem waterfall_conservation:
  assumes "w = evaluate_entitlement_waterfall mode delta plan (Some h) res em cap"
    and "wf_reason w = None"
  shows "wf_alloc w + wf_reserved w + wf_emergency w = quantize4 delta"
proof -
  let ?need = "case map_option norm_headroom cap of None \<Rightarrow> quantize4 delta | Some e \<Rightarrow> min (quantize4 delta) e"
  let ?c = "greedy_charge ?need (map_option norm_headroom (Some h)) (norm_headroom res) (norm_headroom em)"
  have "ch_left ?c = 0" if "\<not> 0 < ch_left ?c"
    using that greedy_charge_bounds(6) [of "norm_headroom h" "norm_headroom res" "norm_headroom em" ?need] by simp
  then show ?thesis
    using assms greedy_charge_sum [of ?c ?need "norm_headroom h" "norm_headroom res" "norm_headroom em"]
    by (cases rule: waterfall_cases [of mode delta plan "Some h" res em cap]) auto
qed

theorem waterfall_conservation_witness:
  "wf_alloc (evaluate_entitlement_waterfall HARD 100 None (Some 60) 30 20 None)
    + wf_reserved (evaluate_entitlement_waterfall HARD 100 None (Some 60) 30 20 None)
    + wf_emergency (evaluate_entitlement_waterfall HARD 100 None (Some 60) 30 20 None) = quantize4 100"
proof (rule waterfall_conservation [OF refl])
  show "wf_reason (evaluate_entitlement_waterfall HARD 100 None (Some 60) 30 20 None) = None"
    using wf_result_eqD [OF waterfall_sample_granted] by blast
qed

text \<open>No pool is overdrawn: for a non-negative request the three reservations are
  non-negative and at most the headroom of their pool.\<close>

theorem waterfall_within_headrooms:
  assumes "w = evaluate_entitlement_waterfall mode delta plan alloc res em cap"
    and "0 \<le> quantize4 delta"
  shows "0 \<le> wf_alloc w \<and> wf_alloc w \<le> (case alloc of None \<Rightarrow> 0 | Some h \<Rightarrow> norm_headroom h)
    \<and> 0 \<le> wf_reserved w \<and> wf_reserved w \<le> norm_headroom res
    \<and> 0 \<le> wf_emergency w \<and> wf_emergency w \<le> norm_headroom em"
proof -
  let ?need = "case map_option norm_headroom cap of None \<Rightarrow> quantize4 delta | Some e \<Rightarrow> min (quantize4 delta) e"
  let ?c = "greedy_charge ?need (map_option norm_headroom alloc) (norm_headroom res) (norm_headroom em)"
  have c: "0 \<le> ch_alloc ?c \<and> ch_alloc ?c \<le> (case alloc of None \<Rightarrow> 0 | Some h \<Rightarrow> norm_headroom h)
      \<and> 0 \<le> ch_reserved ?c \<and> ch_reserved ?c \<le> norm_headroom res
      \<and> 0 \<le> ch_emergency ?c \<and> ch_emergency ?c \<le> norm_headroom em"
    using waterfall_need_nonneg [OF assms(2), of cap]
    by (cases alloc) (simp_all add: greedy_charge_bounds, simp add: greedy_charge_def)
  show ?thesis
    using c assms(1) by (cases rule: waterfall_cases [of mode delta plan alloc res em cap])
      (auto split: option.split)
qed

theorem waterfall_within_headrooms_witness:
  "0 \<le> wf_alloc (evaluate_entitlement_waterfall SOFT 100 None (Some 60) 30 5 None)
    \<and> wf_alloc (evaluate_entitlement_waterfall SOFT 100 None (Some 60) 30 5 None) \<le> norm_headroom 60
    \<and> wf_reserved (evaluate_entitlement_waterfall SOFT 100 None (Some 60) 30 5 None) \<le> norm_headroom 30
    \<and> wf_emergency (evaluate_entitlement_waterfall SOFT 100 None (Some 60) 30 5 None) \<le> norm_headroom 5"
  using waterfall_within_headrooms [OF refl, of 100 SOFT None "Some 60" 30 5 None]
  by (simp add: q4.q_nonneg)

text \<open>The pools are drawn in order: reserved credits only once the project allocation is
  exhausted, emergency credits only once the reserved credits are.\<close>

theorem waterfall_pool_order:
  assumes "w = evaluate_entitlement_waterfall mode delta plan (Some h) res em cap"
  shows "(0 < wf_reserved w \<longrightarrow> wf_alloc w = norm_headroom h)
    \<and> (0 < wf_emergency w \<longrightarrow> wf_reserved w = norm_headroom res)"
proof -
  let ?need = "case map_option norm_headroom cap of None \<Rightarrow> quantize4 delta | Some e \<Rightarrow> min (quantize4 delta) e"
  let ?c = "greedy_charge ?need (map_option norm_headroom (Some h)) (norm_headroom res) (norm_headroom em)"
  have "(0 < ch_reserved ?c \<longrightarrow> ch_alloc ?c = norm_headroom h)
      \<and> (0 < ch_emergency ?c \<longrightarrow> ch_reserved ?c = norm_headroom res)"
    using greedy_charge_order [of ?c ?need "norm_headroom h"] by simp
  then show ?thesis
    using assms(1) by (cases rule: waterfall_cases [of mode delta plan "Some h" res em cap]) auto
qed

theorem waterfall_pool_order_witness:
  "wf_alloc (evaluate_entitlement_waterfall HARD 100 None (Some 60) 30 20 None) = norm_headroom 60
    \<and> wf_reserved (evaluate_entitlement_waterfall HARD 100 None (Some 60) 30 20 None) = norm_headroom 30"
  using waterfall_pool_order [OF refl, of HARD 100 None 60 30 20 None]
    wf_result_eqD [OF waterfall_sample_granted] by simp

text \<open>Outside soft mode a violation reserves nothing: the shadow mode lets the request pass
  and the hard mode denies it.\<close>

theorem waterfall_violation_reserves_nothing:
  assumes "w = evaluate_entitlement_waterfall mode delta plan alloc res em cap"
    and "wf_reason w \<noteq> None" "mode \<noteq> SOFT"
  shows "wf_decision w = (if mode = SHADOW then ALLOW else DENY)
    \<and> wf_alloc w = 0 \<and> wf_reserved w = 0 \<and> wf_emergency w = 0"
  using assms by (cases rule: waterfall_cases [of mode delta plan alloc res em cap])
    (auto simp: mode_violation_decision_def)

theorem waterfall_violation_reserves_nothing_witness:
  "wf_decision (evaluate_entitlement_waterfall HARD 100 None (Some 60) 30 5 None) = DENY
    \<and> wf_alloc (evaluate_entitlement_waterfall HARD 100 None (Some 60) 30 5 None) = 0"
  using waterfall_violation_reserves_nothing [OF refl, of HARD 100 None "Some 60" 30 5 None]
    wf_result_eqD [OF waterfall_sample_denied] by simp

text \<open>The budget waterfall, on a non-negative request, is a violation exactly when the
  request exceeds what the project allocation and the credits together can cover: then, and only
  then, the reason \<open>budget_exceeded\<close> is appended.\<close>

theorem budget_waterfall_violation:
  assumes "0 \<le> quantize4 delta" "''budget_exceeded'' \<notin> set reasons"
  shows "''budget_exceeded'' \<in> set (snd (snd (snd
      (evaluate_budget_waterfall mode delta (Some h) credits reasons)))) \<longleftrightarrow>
    norm_headroom h + norm_headroom credits < quantize4 delta"
proof -
  let ?w = "evaluate_entitlement_waterfall mode delta None (Some h) credits 0 None"
  have "''budget_exceeded'' \<in> set (snd (snd (snd
      (evaluate_budget_waterfall mode delta (Some h) credits reasons)))) \<longleftrightarrow>
      wf_reason ?w = Some ''budget_exceeded''"
    using assms(2) by (simp add: evaluate_budget_waterfall_def Let_def)
  also have "\<dots> \<longleftrightarrow> norm_headroom h + norm_headroom credits < quantize4 delta"
  proof -
    let ?c = "greedy_charge (quantize4 delta) (Some (norm_headroom h)) (norm_headroom credits) (norm_headroom 0)"
    have "0 < ch_left ?c \<longleftrightarrow> norm_headroom h + norm_headroom credits < quantize4 delta"
    proof (cases "quantize4 delta \<le> norm_headroom h")
      case True
      then show ?thesis
        using add_increasing2 [OF norm_headroom_nonneg [of credits] True]
        by (simp add: greedy_charge_def draw_def norm_headroom_def [of 0] not_less)
    qed (auto simp: greedy_charge_def draw_def norm_headroom_def [of 0] min_def)
    moreover have "snd (snd (snd (snd (wf_result ?w)))) = (if 0 < ch_left ?c then Some ''budget_exceeded'' else None)"
      unfolding waterfall_is_spec
      by (cases mode) (simp_all add: waterfall_spec_def waterfall_verdict_def Let_def)
    ultimately show ?thesis by (simp add: wf_result_def)
  qed
  finally show ?thesis .
qed

theorem budget_waterfall_violation_witness:
  "''budget_exceeded'' \<in> set (snd (snd (snd (evaluate_budget_waterfall SOFT 100 (Some 60) 30 []))))"
proof -
  have "norm_headroom 60 + norm_headroom 30 < quantize4 100" by code_simp
  then show ?thesis
    using budget_waterfall_violation [of 100 "[]" SOFT 60 30] by (simp add: q4.q_nonneg)
qed

end
