(* ===== verification/Pricing_Catalog.thy ===== *)
theory Pricing_Catalog
  imports Service_Utils
begin

text \<open>
  \<open>app/shared/core/pricing_types.py\<close> and \<open>app/shared/core/pricing_catalog.py\<close>: the tiers, the
  feature flags, and the catalogue of what each tier offers and how far.
\<close>

section \<open>The catalogue\<close>

datatype pricing_tier = FREE | STARTER | GROWTH | PRO | ENTERPRISE

datatype (plugins only: code size) feature_flag =
    DASHBOARDS | COST_TRACKING | ALERTS | SLACK_INTEGRATION | JIRA_INTEGRATION | ZOMBIE_SCAN
    | LLM_ANALYSIS | AI_INSIGHTS | MULTI_CLOUD | MULTI_REGION | GREENOPS | CARBON_TRACKING
    | AUTO_REMEDIATION | API_ACCESS | FORECASTING | SSO | SCIM | DEDICATED_SUPPORT
    | AUDIT_LOGS | HOURLY_SCANS | AI_ANALYSIS_DETAILED | DOMAIN_DISCOVERY | IDP_DEEP_SCAN
    | PRECISION_DISCOVERY | OWNER_ATTRIBUTION | GITOPS_REMEDIATION | UNIT_ECONOMICS
    | INGESTION_SLA | INGESTION_BACKFILL | ANOMALY_DETECTION | CHARGEBACK | RECONCILIATION
    | CLOSE_WORKFLOW | CARBON_ASSURANCE | CLOUD_PLUS_CONNECTORS | COMPLIANCE_EXPORTS
    | SAVINGS_PROOF | COMMITMENT_OPTIMIZATION | POLICY_PREVIEW | POLICY_CONFIGURATION
    | ESCALATION_WORKFLOW | INCIDENT_INTEGRATIONS

datatype feature_maturity = GA | BETA | PREVIEW

definition all_tiers :: "pricing_tier list" where
  "all_tiers = [FREE, STARTER, GROWTH, PRO, ENTERPRISE]"

definition all_features :: "feature_flag list" where
  "all_features =
    [DASHBOARDS, COST_TRACKING, ALERTS, SLACK_INTEGRATION, JIRA_INTEGRATION, ZOMBIE_SCAN,
     LLM_ANALYSIS, AI_INSIGHTS, MULTI_CLOUD, MULTI_REGION, GREENOPS, CARBON_TRACKING,
     AUTO_REMEDIATION, API_ACCESS, FORECASTING, SSO, SCIM, DEDICATED_SUPPORT, AUDIT_LOGS,
     HOURLY_SCANS, AI_ANALYSIS_DETAILED, DOMAIN_DISCOVERY, IDP_DEEP_SCAN, PRECISION_DISCOVERY,
     OWNER_ATTRIBUTION, GITOPS_REMEDIATION, UNIT_ECONOMICS, INGESTION_SLA, INGESTION_BACKFILL,
     ANOMALY_DETECTION, CHARGEBACK, RECONCILIATION, CLOSE_WORKFLOW, CARBON_ASSURANCE,
     CLOUD_PLUS_CONNECTORS, COMPLIANCE_EXPORTS, SAVINGS_PROOF, COMMITMENT_OPTIMIZATION,
     POLICY_PREVIEW, POLICY_CONFIGURATION, ESCALATION_WORKFLOW, INCIDENT_INTEGRATIONS]"

primrec tier_value :: "pricing_tier \<Rightarrow> string" where
  "tier_value FREE = ''free''"
| "tier_value STARTER = ''starter''"
| "tier_value GROWTH = ''growth''"
| "tier_value PRO = ''pro''"
| "tier_value ENTERPRISE = ''enterprise''"

primrec feature_value :: "feature_flag \<Rightarrow> string" where
  "feature_value DASHBOARDS = ''dashboards''"
| "feature_value COST_TRACKING = ''cost_tracking''"
| "feature_value ALERTS = ''alerts''"
| "feature_value SLACK_INTEGRATION = ''slack_integration''"
| "feature_value JIRA_INTEGRATION = ''jira_integration''"
| "feature_value ZOMBIE_SCAN = ''zombie_scan''"
| "feature_value LLM_ANALYSIS = ''llm_analysis''"
| "feature_value AI_INSIGHTS = ''ai_insights''"
| "feature_value MULTI_CLOUD = ''multi_cloud''"
| "feature_value MULTI_REGION = ''multi_region''"
| "feature_value GREENOPS = ''greenops''"
| "feature_value CARBON_TRACKING = ''carbon_tracking''"
| "feature_value AUTO_REMEDIATION = ''auto_remediation''"
| "feature_value API_ACCESS = ''api_access''"
| "feature_value FORECASTING = ''forecasting''"
| "feature_value SSO = ''sso''"
| "feature_value SCIM = ''scim''"
| "feature_value DEDICATED_SUPPORT = ''dedicated_support''"
| "feature_value AUDIT_LOGS = ''audit_logs''"
| "feature_value HOURLY_SCANS = ''hourly_scans''"
| "feature_value AI_ANALYSIS_DETAILED = ''ai_analysis_detailed''"
| "feature_value DOMAIN_DISCOVERY = ''domain_discovery''"
| "feature_value IDP_DEEP_SCAN = ''idp_deep_scan''"
| "feature_value PRECISION_DISCOVERY = ''precision_discovery''"
| "feature_value OWNER_ATTRIBUTION = ''owner_attribution''"
| "feature_value GITOPS_REMEDIATION = ''gitops_remediation''"
| "feature_value UNIT_ECONOMICS = ''unit_economics''"
| "feature_value INGESTION_SLA = ''ingestion_sla''"
| "feature_value INGESTION_BACKFILL = ''ingestion_backfill''"
| "feature_value ANOMALY_DETECTION = ''anomaly_detection''"
| "feature_value CHARGEBACK = ''chargeback''"
| "feature_value RECONCILIATION = ''reconciliation''"
| "feature_value CLOSE_WORKFLOW = ''close_workflow''"
| "feature_value CARBON_ASSURANCE = ''carbon_assurance''"
| "feature_value CLOUD_PLUS_CONNECTORS = ''cloud_plus_connectors''"
| "feature_value COMPLIANCE_EXPORTS = ''compliance_exports''"
| "feature_value SAVINGS_PROOF = ''savings_proof''"
| "feature_value COMMITMENT_OPTIMIZATION = ''commitment_optimization''"
| "feature_value POLICY_PREVIEW = ''policy_preview''"
| "feature_value POLICY_CONFIGURATION = ''policy_configuration''"
| "feature_value ESCALATION_WORKFLOW = ''escalation_workflow''"
| "feature_value INCIDENT_INTEGRATIONS = ''incident_integrations''"

primrec maturity_value :: "feature_maturity \<Rightarrow> string" where
  "maturity_value GA = ''GA''"
| "maturity_value BETA = ''Beta''"
| "maturity_value PREVIEW = ''Preview''"

record tier_config =
  tc_name :: string
  tc_price :: pyval
  tc_features :: "feature_flag list"
  tc_limits :: pydict
  tc_description :: string
  tc_cta :: string
  tc_display :: "string list"

definition enterprise_features :: "feature_flag list" where
  "enterprise_features =
    [DASHBOARDS, COST_TRACKING, ALERTS, SLACK_INTEGRATION, JIRA_INTEGRATION, ZOMBIE_SCAN,
     LLM_ANALYSIS, AI_INSIGHTS, MULTI_CLOUD, MULTI_REGION, GREENOPS, CARBON_TRACKING,
     AUTO_REMEDIATION, API_ACCESS, FORECASTING, SSO, SCIM, DEDICATED_SUPPORT, AUDIT_LOGS,
     HOURLY_SCANS, AI_ANALYSIS_DETAILED, DOMAIN_DISCOVERY, IDP_DEEP_SCAN, PRECISION_DISCOVERY,
     OWNER_ATTRIBUTION, GITOPS_REMEDIATION, UNIT_ECONOMICS, INGESTION_SLA, INGESTION_BACKFILL,
     ANOMALY_DETECTION, CHARGEBACK, RECONCILIATION, CLOSE_WORKFLOW, CARBON_ASSURANCE,
     CLOUD_PLUS_CONNECTORS, COMPLIANCE_EXPORTS, SAVINGS_PROOF, COMMITMENT_OPTIMIZATION,
     POLICY_PREVIEW, POLICY_CONFIGURATION, ESCALATION_WORKFLOW, INCIDENT_INTEGRATIONS]"

definition runtime_gated_features :: "feature_flag list" where
  "runtime_gated_features =
    [COST_TRACKING, SLACK_INTEGRATION, JIRA_INTEGRATION, LLM_ANALYSIS, GREENOPS, AUTO_REMEDIATION,
     SSO, SCIM, AUDIT_LOGS, IDP_DEEP_SCAN, PRECISION_DISCOVERY, OWNER_ATTRIBUTION,
     GITOPS_REMEDIATION, UNIT_ECONOMICS, INGESTION_SLA, INGESTION_BACKFILL, ANOMALY_DETECTION,
     CHARGEBACK, RECONCILIATION, CLOSE_WORKFLOW, CARBON_ASSURANCE, CLOUD_PLUS_CONNECTORS,
     COMPLIANCE_EXPORTS, SAVINGS_PROOF, COMMITMENT_OPTIMIZATION, POLICY_PREVIEW,
     ESCALATION_WORKFLOW, INCIDENT_INTEGRATIONS]"

definition preview_maturity_features :: "feature_flag list" where
  "preview_maturity_features =
    [DASHBOARDS, ALERTS, ZOMBIE_SCAN, AI_INSIGHTS, DOMAIN_DISCOVERY, MULTI_CLOUD, MULTI_REGION,
     CARBON_TRACKING, API_ACCESS, DEDICATED_SUPPORT, HOURLY_SCANS, AI_ANALYSIS_DETAILED,
     FORECASTING, POLICY_CONFIGURATION]"

definition free_config :: tier_config where
  "free_config =
    \<lparr>tc_name = ''Free'', tc_price = PInt 0,
     tc_features =
     [DASHBOARDS, COST_TRACKING, ALERTS, ZOMBIE_SCAN, LLM_ANALYSIS, DOMAIN_DISCOVERY, GREENOPS,
     CARBON_TRACKING, UNIT_ECONOMICS],
     tc_limits =
      [(''max_aws_accounts'', PInt 1), (''max_azure_tenants'', PInt 0),
       (''max_gcp_projects'', PInt 0), (''max_saas_connections'', PInt 0),
       (''max_license_connections'', PInt 0), (''max_platform_connections'', PInt 0),
       (''max_hybrid_connections'', PInt 0), (''byok_enabled'', PBool True),
       (''ai_insights_per_month'', PInt 0), (''scan_frequency_hours'', PInt 168),
       (''zombie_scans_per_day'', PInt 1), (''llm_analyses_per_day'', PInt 1),
       (''llm_analyses_per_user_per_day'', PInt 1), (''llm_system_analyses_per_day'', PInt 1),
       (''llm_analysis_max_records'', PInt 128), (''llm_analysis_max_window_days'', PInt 31),
       (''llm_prompt_max_input_tokens'', PInt 2048), (''llm_output_max_tokens'', PInt 512),
       (''max_backfill_days'', PInt 0), (''retention_days'', PInt 30)],
     tc_description = ''Permanent free plan with core FinOps visibility and capped AI usage.'',
     tc_cta = ''Start Free'',
     tc_display =
      [''Single cloud provider (AWS) + core dashboards'', ''Weekly zombie scans + basic alerts'',
       ''1 AI analysis/day'', ''BYOK supported (no platform surcharge)'',
       ''30-day data retention'', ''Entry-tier limits with no credit card'']\<rparr>"

definition starter_config :: tier_config where
  "starter_config =
    \<lparr>tc_name = ''Starter'', tc_price = PDict [(''monthly'', PInt 49), (''annual'', PInt 490)],
     tc_features =
     [DASHBOARDS, COST_TRACKING, ALERTS, ZOMBIE_SCAN, AI_INSIGHTS, LLM_ANALYSIS, DOMAIN_DISCOVERY,
     MULTI_CLOUD, MULTI_REGION, CARBON_TRACKING, GREENOPS, UNIT_ECONOMICS, INGESTION_SLA],
     tc_limits =
      [(''max_aws_accounts'', PInt 5), (''max_azure_tenants'', PInt 1),
       (''max_gcp_projects'', PInt 1), (''max_saas_connections'', PInt 0),
       (''max_license_connections'', PInt 0), (''max_platform_connections'', PInt 0),
       (''max_hybrid_connections'', PInt 0), (''byok_enabled'', PBool True),
       (''ai_insights_per_month'', PInt 10), (''llm_analyses_per_day'', PInt 5),
       (''llm_analyses_per_user_per_day'', PInt 2), (''llm_system_analyses_per_day'', PInt 2),
       (''llm_analysis_max_records'', PInt 256), (''llm_analysis_max_window_days'', PInt 90),
       (''llm_prompt_max_input_tokens'', PInt 4096), (''llm_output_max_tokens'', PInt 1024),
       (''max_backfill_days'', PInt 0), (''scan_frequency_hours'', PInt 24),
       (''retention_days'', PInt 90)],
     tc_description = ''For small teams moving from one workflow into a limited cross-cloud operating scope.'',
     tc_cta = ''Start with Starter'',
     tc_display =
      [''Includes all Free features'',
       ''Up to 5 AWS accounts plus limited Azure and GCP visibility'',
       ''AI insights + stronger budget alerting'', ''5 AI analyses/day'',
       ''BYOK supported (no platform surcharge)'', ''Unit economics KPIs + ingestion SLA monitor'',
       ''Multi-region analysis'', ''90-day data retention'']\<rparr>"

definition growth_config :: tier_config where
  "growth_config =
    \<lparr>tc_name = ''Growth'', tc_price = PDict [(''monthly'', PInt 149), (''annual'', PInt 1490)],
     tc_features =
     [DASHBOARDS, COST_TRACKING, ALERTS, ZOMBIE_SCAN, AI_INSIGHTS, LLM_ANALYSIS, DOMAIN_DISCOVERY,
     MULTI_CLOUD, MULTI_REGION, CARBON_TRACKING, GREENOPS, AUTO_REMEDIATION, SLACK_INTEGRATION,
     JIRA_INTEGRATION, SSO, PRECISION_DISCOVERY, OWNER_ATTRIBUTION, CHARGEBACK, INGESTION_SLA,
     INGESTION_BACKFILL, ANOMALY_DETECTION, UNIT_ECONOMICS, POLICY_PREVIEW, ESCALATION_WORKFLOW,
     COMMITMENT_OPTIMIZATION],
     tc_limits =
      [(''max_aws_accounts'', PInt 20), (''max_azure_tenants'', PInt 10),
       (''max_gcp_projects'', PInt 15), (''max_saas_connections'', PInt 0),
       (''max_license_connections'', PInt 0), (''max_platform_connections'', PInt 0),
       (''max_hybrid_connections'', PInt 0), (''byok_enabled'', PBool True),
       (''llm_analyses_per_day'', PInt 20), (''llm_analyses_per_user_per_day'', PInt 8),
       (''llm_system_analyses_per_day'', PInt 5), (''llm_analysis_max_records'', PInt 1024),
       (''llm_analysis_max_window_days'', PInt 365), (''llm_prompt_max_input_tokens'', PInt 12288),
       (''llm_output_max_tokens'', PInt 2048), (''max_backfill_days'', PInt 180),
       (''retention_days'', PInt 365)],
     tc_description = ''For growing teams that need cross-cloud controls, identity rollout readiness, and guided execution.'',
     tc_cta = ''Start with Growth'',
     tc_display =
      [''Includes all Starter features'', ''AI-driven savings analyses'',
       ''Chargeback/showback workflows'', ''Historical ingestion backfill'',
       ''Non-production auto-remediation workflows'',
       ''Slack + Jira collaboration hooks with SSO rollout'',
       ''BYOK supported (no platform surcharge)'', ''Full multi-cloud support'',
       ''1-year data retention'']\<rparr>"

definition pro_config :: tier_config where
  "pro_config =
    \<lparr>tc_name = ''Pro'', tc_price = PDict [(''monthly'', PInt 299), (''annual'', PInt 2990)],
     tc_features =
     [DASHBOARDS, COST_TRACKING, ALERTS, ZOMBIE_SCAN, AI_INSIGHTS, LLM_ANALYSIS, DOMAIN_DISCOVERY,
     IDP_DEEP_SCAN, MULTI_CLOUD, MULTI_REGION, CARBON_TRACKING, GREENOPS, AUTO_REMEDIATION, SSO,
     API_ACCESS, DEDICATED_SUPPORT, HOURLY_SCANS, AI_ANALYSIS_DETAILED, SLACK_INTEGRATION,
     JIRA_INTEGRATION, AUDIT_LOGS, GITOPS_REMEDIATION, PRECISION_DISCOVERY, OWNER_ATTRIBUTION,
     CHARGEBACK, INGESTION_SLA, INGESTION_BACKFILL, ANOMALY_DETECTION, UNIT_ECONOMICS,
     RECONCILIATION, CLOSE_WORKFLOW, CARBON_ASSURANCE, CLOUD_PLUS_CONNECTORS, COMPLIANCE_EXPORTS,
     SAVINGS_PROOF, COMMITMENT_OPTIMIZATION, POLICY_PREVIEW, POLICY_CONFIGURATION,
     ESCALATION_WORKFLOW, INCIDENT_INTEGRATIONS],
     tc_limits =
      [(''max_aws_accounts'', PInt 25), (''max_azure_tenants'', PInt 25),
       (''max_gcp_projects'', PInt 25), (''max_saas_connections'', PInt 10),
       (''max_license_connections'', PInt 10), (''max_platform_connections'', PInt 10),
       (''max_hybrid_connections'', PInt 10), (''byok_enabled'', PBool True),
       (''ai_insights_per_month'', PInt 100), (''llm_analyses_per_day'', PInt 100),
       (''llm_analyses_per_user_per_day'', PInt 25), (''llm_system_analyses_per_day'', PInt 30),
       (''llm_analysis_max_records'', PInt 5000), (''llm_analysis_max_window_days'', PInt 730),
       (''llm_prompt_max_input_tokens'', PInt 32768), (''llm_output_max_tokens'', PInt 4096),
       (''max_backfill_days'', PInt 730), (''scan_frequency_hours'', PInt 1),
       (''retention_days'', PInt 730)],
     tc_description = ''For enterprises requiring high-scale cloud governance.'',
     tc_cta = ''Contact Sales'',
     tc_display =
      [''Includes all Growth features'', ''Hourly zombie scanning'', ''API access + audit logs'',
       ''Finance-grade reconciliation + close workflow'',
       ''Compliance exports, savings proof, and audit evidence'',
       ''Cloud+ connectors + incident integrations'', ''Dedicated support engineer'',
       ''BYOK supported (no platform surcharge)'']\<rparr>"

definition enterprise_config :: tier_config where
  "enterprise_config =
    \<lparr>tc_name = ''Enterprise'', tc_price = PNone,
     tc_features =
     enterprise_features,
     tc_limits =
      [(''max_aws_accounts'', PInt 999), (''max_azure_tenants'', PInt 999),
       (''max_gcp_projects'', PInt 999), (''max_saas_connections'', PInt 999),
       (''max_license_connections'', PInt 999), (''max_platform_connections'', PInt 999),
       (''max_hybrid_connections'', PInt 999), (''byok_enabled'', PBool True),
       (''ai_insights_per_month'', PInt 999), (''llm_analyses_per_day'', PInt 2000),
       (''llm_analyses_per_user_per_day'', PInt 500), (''llm_system_analyses_per_day'', PInt 400),
       (''llm_analysis_max_records'', PInt 20000), (''llm_analysis_max_window_days'', PInt 3650),
       (''llm_prompt_max_input_tokens'', PInt 65536), (''llm_output_max_tokens'', PInt 8192),
       (''scan_frequency_hours'', PInt 1), (''retention_days'', PNone)],
     tc_description = ''Custom solutions for global-scale infrastructure.'',
     tc_cta = ''Talk to Expert'',
     tc_display =
      [''Unlimited accounts & users'', ''Cloud+ connectors (SaaS/license/custom sources)'',
       ''Savings-proof exports for procurement cycles'', ''Custom feature development'',
       ''On-premise deployment options'', ''White-labeling support'',
       ''24/7/365 multi-region support'']\<rparr>"

primrec tier_config_of :: "pricing_tier \<Rightarrow> tier_config" where
  "tier_config_of FREE = free_config"
| "tier_config_of STARTER = starter_config"
| "tier_config_of GROWTH = growth_config"
| "tier_config_of PRO = pro_config"
| "tier_config_of ENTERPRISE = enterprise_config"

definition feature_maturity_of :: "feature_flag \<Rightarrow> feature_maturity" where
  \<comment> \<open>\<open>FEATURE_MATURITY[flag]\<close>\<close>
  "feature_maturity_of flag = (if flag \<in> set runtime_gated_features then GA else PREVIEW)"

end
