(* ===== verification/Pricing.thy ===== *)
theory Pricing
  imports Pricing_Catalog "HOL-Library.AList"
begin

text \<open>
  \<open>app/shared/core/pricing.py\<close> and \<open>app/shared/core/pricing_cache.py\<close>: lookup of features and
  limits, the tier guards of the endpoints, and the process-wide cache of tenant tiers with its expiry and
  its bound.

  The clock of the cache is \<open>time.monotonic()\<close>, an argument here.
\<close>

section \<open>Lookup\<close>

definition tier_of_value :: "string \<Rightarrow> pricing_tier option" where
  \<comment> \<open>\<open>PricingTier(value)\<close>; \<open>None\<close> is \<open>ValueError\<close>\<close>
  "tier_of_value s = List.find (\<lambda>t. tier_value t = s) all_tiers"

definition feature_of_value :: "string \<Rightarrow> feature_flag option" where
  "feature_of_value s = List.find (\<lambda>f. feature_value f = s) all_features"

datatype tier_arg = Tier pricing_tier | TierText string | TierOther
  \<comment> \<open>the values \<open>normalize_tier\<close> tells apart: a tier, a string, anything else\<close>

definition normalize_tier :: "tier_arg \<Rightarrow> pricing_tier" where
  "normalize_tier tier = (case tier of
     Tier t \<Rightarrow> t
   | TierText s \<Rightarrow> (case tier_of_value (norm_key s) of Some t \<Rightarrow> t | None \<Rightarrow> FREE)
   | TierOther \<Rightarrow> FREE)"

definition get_tier_config :: "tier_arg \<Rightarrow> tier_config" where
  "get_tier_config tier = tier_config_of (normalize_tier tier)"

definition get_feature_maturity :: "string \<Rightarrow> feature_maturity" where
  "get_feature_maturity feature = (case feature_of_value feature of
     None \<Rightarrow> PREVIEW | Some f \<Rightarrow> feature_maturity_of f)"

definition get_tier_feature_maturity :: "tier_arg \<Rightarrow> (string \<times> string) list" where
  "get_tier_feature_maturity tier =
     map (\<lambda>f. (feature_value f, maturity_value (feature_maturity_of f)))
       (sort_key feature_value (tc_features (get_tier_config tier)))"

definition is_feature_enabled :: "tier_arg \<Rightarrow> string \<Rightarrow> bool" where
  "is_feature_enabled tier feature = (case feature_of_value feature of
     None \<Rightarrow> False | Some f \<Rightarrow> f \<in> set (tc_features (get_tier_config tier)))"

definition get_tier_limit :: "tier_arg \<Rightarrow> string \<Rightarrow> pyval" where
  "get_tier_limit tier limit_name =
     (let limits = tc_limits (get_tier_config tier);
          raw_limit = (if has_key limits limit_name then dget limits limit_name else PInt 0)
      in case raw_limit of
           PNone \<Rightarrow> PNone
         | PBool b \<Rightarrow> PInt (if b then 1 else 0)
         | PFloat s \<Rightarrow> PInt (case parse_decimal s of None \<Rightarrow> 0 | Some r \<Rightarrow> trunc r)
         | v \<Rightarrow> v)"

section \<open>Guards\<close>

fun join_or :: "string list \<Rightarrow> string" where
  \<comment> \<open>\<open>' or '.join(names)\<close>\<close>
  "join_or [] = []"
| "join_or [s] = s"
| "join_or (s # t # ts) = s @ '' or '' @ join_or (t # ts)"

definition requires_tier :: "pricing_tier list \<Rightarrow> tier_arg option \<Rightarrow> unit outcome" where
  \<comment> \<open>the check the decorator makes before it calls the endpoint; \<open>None\<close>: no user\<close>
  "requires_tier allowed user = (case user of
     None \<Rightarrow> Inl (DomainError 401 ''Authentication required'')
   | Some tier \<Rightarrow>
       if normalize_tier tier \<notin> set allowed
       then Inl (DomainError 403 (''This feature requires '' @ join_or (map tier_value allowed)
              @ '' tier. Please upgrade.''))
       else Inr ())"

definition requires_feature :: "string \<Rightarrow> tier_arg option \<Rightarrow> unit outcome" where
  "requires_feature feature user = (case user of
     None \<Rightarrow> Inl (DomainError 401 ''Authentication required'')
   | Some tier \<Rightarrow>
       if \<not> is_feature_enabled (Tier (normalize_tier tier)) feature
       then Inl (DomainError 403 (''Feature '' @ [CHR 0x27] @ feature @ [CHR 0x27]
              @ '' is not available on your current plan. Please upgrade.''))
       else Inr ())"

section \<open>The tenant tier cache\<close>

type_synonym tier_cache = "(string \<times> time \<times> pricing_tier) list"

definition cache_ttl :: time where
  "cache_ttl = seconds 60"

definition cache_max :: nat where
  "cache_max = 4096"

definition runtime_cache_get :: "tier_cache \<Rightarrow> string \<Rightarrow> time \<Rightarrow> pricing_tier option \<times> tier_cache" where
  "runtime_cache_get cache tenant_key now = (case map_of cache tenant_key of
     None \<Rightarrow> (None, cache)
   | Some (cached_at, cached_tier) \<Rightarrow>
       if cache_ttl < now - cached_at then (None, AList.delete tenant_key cache)
       else (Some cached_tier, cache))"

fun oldest_entry :: "(string \<times> time \<times> pricing_tier) \<Rightarrow> tier_cache \<Rightarrow> string \<times> time \<times> pricing_tier" where
  \<comment> \<open>\<open>min(cache, key=...)\<close>: the first entry of least time\<close>
  "oldest_entry e [] = e"
| "oldest_entry e (f # c) = oldest_entry (if fst (snd f) < fst (snd e) then f else e) c"

lemma oldest_in: "oldest_entry e c \<in> set (e # c)"
  by (induction e c rule: oldest_entry.induct) auto

lemma length_delete_less:
  assumes "k \<in> fst ` set c"
  shows "length (AList.delete k c) < length c"
proof -
  obtain e where "e \<in> set c" "fst e = k" using assms by auto
  then show ?thesis
    unfolding AList.delete_eq by (intro length_filter_less [where x = e]) auto
qed

lemma delete_oldest_less: "length (AList.delete (fst (oldest_entry e c)) (e # c)) < length (e # c)"
  using oldest_in [of e c] by (intro length_delete_less) (rule imageI)

function evict :: "nat \<Rightarrow> tier_cache \<Rightarrow> tier_cache" where
  \<comment> \<open>the loop \<open>while len(cache) > max_entries\<close>\<close>
  "evict bound cache = (case cache of
     [] \<Rightarrow> []
   | e # c \<Rightarrow> if length cache \<le> bound then cache
             else evict bound (AList.delete (fst (oldest_entry e c)) cache))"
  by pat_completeness auto

termination
proof (relation "measure (length \<circ> snd)")
  show "((bound, AList.delete (fst (oldest_entry e c)) cache), bound, cache) \<in> measure (length \<circ> snd)"
    if "cache = e # c" for bound cache e c
    using delete_oldest_less [of e c] that by (simp del: delete_simps)
qed simp

declare evict.simps [simp del]

definition runtime_cache_set :: "tier_cache \<Rightarrow> string \<Rightarrow> pricing_tier \<Rightarrow> time \<Rightarrow> tier_cache" where
  "runtime_cache_set cache tenant_key tier now =
     (let cache1 = AList.update tenant_key (now, tier) cache
      in if length cache1 \<le> cache_max then cache1
         else evict cache_max (filter (\<lambda>e. \<not> fst (snd e) \<le> now - cache_ttl) cache1))"

definition clear_tenant_tier_cache :: "tier_cache \<Rightarrow> string option \<Rightarrow> tier_cache" where
  "clear_tenant_tier_cache cache tenant =
     (case tenant of None \<Rightarrow> [] | Some key \<Rightarrow> AList.delete key cache)"

definition get_tenant_tier ::
  "(uuid \<Rightarrow> string option outcome) \<Rightarrow> uuid \<Rightarrow> time \<Rightarrow> (string \<times> pricing_tier) list \<times> tier_cache
    \<Rightarrow> pricing_tier \<times> (string \<times> pricing_tier) list \<times> tier_cache" where
  \<comment> \<open>\<open>tenants\<close>: the plan of the tenant's row, \<open>None\<close> without a row, \<open>Inl\<close> when the query fails\<close>
  "get_tenant_tier tenants tenant_id now caches =
     (case caches of (session, runtime) \<Rightarrow>
        let tenant_key = uuid_str tenant_id
        in case map_of session tenant_key of
             Some tier \<Rightarrow> (tier, session, runtime)
           | None \<Rightarrow>
         (case runtime_cache_get runtime tenant_key now of
            (Some tier, runtime1) \<Rightarrow> (tier, AList.update tenant_key tier session, runtime1)
          | (None, runtime1) \<Rightarrow>
         (case tenants tenant_id of
            Inl e \<Rightarrow> (FREE, AList.update tenant_key FREE session, runtime1)
          | Inr plan \<Rightarrow>
              let tier = (case plan of None \<Rightarrow> FREE
                    | Some p \<Rightarrow> (case tier_of_value p of None \<Rightarrow> FREE | Some t \<Rightarrow> t))
              in (tier, AList.update tenant_key tier session,
                  runtime_cache_set runtime1 tenant_key tier now))))"

section \<open>Values and catalogue\<close>

lemma tier_of_value_value [simp]: "tier_of_value (tier_value t) = Some t"
  by (cases t) (simp_all add: tier_of_value_def all_tiers_def)

lemma feature_of_value_value [simp]: "feature_of_value (feature_value f) = Some f"
  by (cases f) (simp_all add: feature_of_value_def all_features_def)

lemma all_features_complete: "f \<in> set all_features"
  by (cases f) (simp_all add: all_features_def)

lemmas tier_configs = free_config_def starter_config_def growth_config_def pro_config_def
  enterprise_config_def enterprise_features_def

fun tier_rank :: "pricing_tier \<Rightarrow> nat" where
  "tier_rank FREE = 0"
| "tier_rank STARTER = 1"
| "tier_rank GROWTH = 2"
| "tier_rank PRO = 3"
| "tier_rank ENTERPRISE = 4"

lemma features_step:
  "set (tc_features (tier_config_of FREE)) \<subseteq> set (tc_features (tier_config_of STARTER))"
  "set (tc_features (tier_config_of STARTER)) \<subseteq> set (tc_features (tier_config_of GROWTH))"
  "set (tc_features (tier_config_of GROWTH)) \<subseteq> set (tc_features (tier_config_of PRO))"
  "set (tc_features (tier_config_of PRO)) \<subseteq> set (tc_features (tier_config_of ENTERPRISE))"
  by (simp_all add: tier_configs)

lemma features_mono:
  "tier_rank a \<le> tier_rank b \<Longrightarrow> set (tc_features (tier_config_of a)) \<subseteq> set (tc_features (tier_config_of b))"
  using features_step by (cases a; cases b; simp; blast)

section \<open>The cache stays small and keeps what was set\<close>

lemma evict_small: "length cache \<le> bound \<Longrightarrow> evict bound cache = cache"
  by (cases cache) (simp_all add: evict.simps)

lemma evict_step:
  "\<not> length (e # c) \<le> bound \<Longrightarrow>
    evict bound (e # c) = evict bound (AList.delete (fst (oldest_entry e c)) (e # c))"
  by (subst evict.simps) simp

lemma evict_cases [case_names small step]:
  assumes "length cache \<le> bound \<Longrightarrow> thesis"
    and "\<And>e c. cache = e # c \<Longrightarrow> \<not> length (e # c) \<le> bound \<Longrightarrow> thesis"
  shows thesis
  using assms by (cases cache) auto

lemma evict_length: "length (evict bound cache) \<le> bound"
proof (induction bound cache rule: evict.induct)
  case (1 bound cache)
  show ?case
  proof (cases rule: evict_cases [of cache bound])
    case (step e c)
    then show ?thesis using 1 [OF step(1)] evict_step [OF step(2)] step by simp
  qed (simp add: evict_small)
qed

lemma oldest_of_others:
  "\<forall>f\<in>set (e # c). fst (snd f) \<le> fst (snd x) \<Longrightarrow> oldest_entry e (c @ [x]) = oldest_entry e c"
proof (induction e c rule: oldest_entry.induct)
  case (2 e f c)
  have "\<forall>g\<in>set ((if fst (snd f) < fst (snd e) then f else e) # c). fst (snd g) \<le> fst (snd x)"
    using 2(2) by auto
  from 2(1) [OF this] show ?case by simp
qed auto

lemma evict_keeps_newest:
  assumes "\<forall>f\<in>set c. fst (snd f) \<le> fst (snd x)" "fst x \<notin> fst ` set c" "1 \<le> bound"
  shows "\<exists>c'. evict bound (c @ [x]) = c' @ [x]"
  using assms
proof (induction "length c" arbitrary: c rule: less_induct)
  case less
  show ?case
  proof (cases "length (c @ [x]) \<le> bound")
    case True
    then show ?thesis by (auto simp: evict_small)
  next
    case False
    with less.prems obtain e d where c: "c = e # d" by (cases c) auto
    let ?k = "fst (oldest_entry e d)"
    have k: "?k \<in> fst ` set c" using oldest_in [of e d] c by auto
    with less.prems(2) have "fst x \<noteq> ?k" by metis
    then have del: "AList.delete ?k (c @ [x]) = AList.delete ?k c @ [x]"
      by (cases x) (simp add: AList.delete_eq)
    have sub: "set (AList.delete ?k c) \<subseteq> set c" by (auto simp: AList.delete_eq)
    have "\<exists>c'. evict bound (AList.delete ?k c @ [x]) = c' @ [x]"
      by (rule less.hyps [OF length_delete_less [OF k]]) (use less.prems sub in auto)
    moreover have "evict bound (c @ [x]) = evict bound (AList.delete ?k (c @ [x]))"
      using evict_step [of e "d @ [x]" bound] oldest_of_others [of e d x] False c less.prems(1) by simp
    ultimately show ?thesis by (simp only: del)
  qed
qed

definition cache_ok :: "time \<Rightarrow> tier_cache \<Rightarrow> bool" where
  \<comment> \<open>a dict of at most \<open>cache_max\<close> entries, none from the future of a monotonic clock\<close>
  "cache_ok now cache \<longleftrightarrow> distinct (map fst cache) \<and> length cache \<le> cache_max
     \<and> (\<forall>e\<in>set cache. fst (snd e) \<le> now)"

lemma set_update_sub: "set (AList.update k v c) \<subseteq> insert (k, v) (set c)"
  by (induction c) auto

lemma update_new: "k \<notin> fst ` set c \<Longrightarrow> AList.update k v c = c @ [(k, v)]"
  by (induction c) auto

lemma update_old: "k \<in> fst ` set c \<Longrightarrow> length (AList.update k v c) = length c"
  by (induction c) auto

lemma evict_parts:
  "distinct (map fst cache) \<Longrightarrow> distinct (map fst (evict bound cache)) \<and> set (evict bound cache) \<subseteq> set cache"
proof (induction bound cache rule: evict.induct)
  case (1 bound cache)
  show ?case
  proof (cases rule: evict_cases [of cache bound])
    case small
    then show ?thesis using 1(2) by (simp add: evict_small)
  next
    case (step e c)
    let ?d = "AList.delete (fst (oldest_entry e c)) cache"
    have "set ?d \<subseteq> set cache" by (auto simp: AList.delete_eq)
    moreover have "distinct (map fst ?d)" using 1(2) by (rule distinct_delete)
    ultimately show ?thesis
      using 1(1) [OF step(1)] evict_step [OF step(2)] step by auto
  qed
qed

lemma runtime_cache_set_ok:
  assumes "cache_ok now cache"
  shows "cache_ok now (runtime_cache_set cache k t now)
    \<and> map_of (runtime_cache_set cache k t now) k = Some (now, t)"
proof -
  let ?c = "AList.update k (now, t) cache"
  have d: "distinct (map fst ?c)" and times: "\<forall>e\<in>set ?c. fst (snd e) \<le> now"
    using assms set_update_sub [of k "(now, t)" cache]
    by (auto simp: cache_ok_def intro!: distinct_update)
  show ?thesis
  proof (cases "length ?c \<le> cache_max")
    case True
    then show ?thesis using d times by (simp add: runtime_cache_set_def cache_ok_def update_conv')
  next
    case False
    then have fresh: "k \<notin> fst ` set cache"
      using assms update_old [of k cache "(now, t)"] unfolding cache_ok_def by metis
    let ?keep = "filter (\<lambda>e. \<not> fst (snd e) \<le> now - cache_ttl)"
    have keep: "?keep ?c = ?keep cache @ [(k, now, t)]"
      by (simp add: update_new [OF fresh] cache_ttl_def seconds_def)
    obtain c' where c': "evict cache_max (?keep ?c) = c' @ [(k, now, t)]"
      unfolding keep
    proof (atomize_elim, rule evict_keeps_newest)
      show "\<forall>f\<in>set (?keep cache). fst (snd f) \<le> fst (snd (k, now, t))"
        using assms by (simp add: cache_ok_def)
      show "fst (k, now, t) \<notin> fst ` set (?keep cache)" using fresh by auto
    qed (simp add: cache_max_def)
    let ?e = "evict cache_max (?keep ?c)"
    have e: "distinct (map fst ?e)" "set ?e \<subseteq> set ?c"
      using evict_parts [OF distinct_map_filter [OF d]] by auto
    moreover have "map_of ?e k = Some (now, t)"
      using e(1) by (simp only: map_of_eq_Some_iff) (simp add: c')
    ultimately show ?thesis
      using False times evict_length [of cache_max "?keep ?c"]
      by (auto simp: runtime_cache_set_def cache_ok_def)
  qed
qed

lemma cache_ok_later: "cache_ok now c \<Longrightarrow> now \<le> later \<Longrightarrow> cache_ok later c"
  by (auto simp: cache_ok_def)

lemma delete_ok: "cache_ok now c \<Longrightarrow> cache_ok now (AList.delete k c)"
  using length_delete_le [of k c] distinct_delete [of c k] by (auto simp: cache_ok_def) (auto simp: AList.delete_eq)

lemma runtime_cache_get_ok: "cache_ok now c \<Longrightarrow> cache_ok now (snd (runtime_cache_get c k later))"
  by (auto simp: runtime_cache_get_def delete_ok split: option.split)

lemma get_tenant_tier_ok:
  "cache_ok now c \<Longrightarrow> cache_ok now (snd (snd (get_tenant_tier tenants u now (session, c))))"
  using runtime_cache_get_ok [of now c "uuid_str u" now] runtime_cache_set_ok [of now]
  by (auto simp: get_tenant_tier_def Let_def split: option.split sum.split prod.split)

section \<open>Properties\<close>

text \<open>The runtime cache of tenant tiers is a dict of at most 4096 entries after every write, and what was
  written is read back for sixty seconds and never later, whatever the write had to evict.\<close>

theorem tier_cache_roundtrip:
  assumes "cache_ok now cache"
  shows "cache_ok now (runtime_cache_set cache k t now) \<and>
    fst (runtime_cache_get (runtime_cache_set cache k t now) k later) =
      (if later - now \<le> cache_ttl then Some t else None)"
  using runtime_cache_set_ok [OF assms, of k t] by (simp add: runtime_cache_get_def)

theorem tier_cache_roundtrip_witness:
  "cache_ok 5 (runtime_cache_set [(''a'', 1, PRO)] ''b'' FREE 5) \<and>
    fst (runtime_cache_get (runtime_cache_set [(''a'', 1, PRO)] ''b'' FREE 5) ''b'' 9) = Some FREE"
  using tier_cache_roundtrip [of 5 "[(''a'', 1, PRO)]" "''b''" FREE 9]
  by (simp add: cache_ok_def cache_max_def cache_ttl_def seconds_def)

text \<open>A feature guard that lets a tier pass lets every higher tier pass: no upgrade loses a feature.\<close>

theorem feature_guard_monotone:
  assumes "requires_feature f (Some (Tier a)) = Inr ()" "tier_rank a \<le> tier_rank b"
  shows "requires_feature f (Some (Tier b)) = Inr ()"
  using assms features_mono [OF assms(2)]
  by (auto simp: requires_feature_def is_feature_enabled_def get_tier_config_def normalize_tier_def
      split: if_splits option.splits)

theorem feature_guard_monotone_witness:
  "requires_feature ''greenops'' (Some (Tier ENTERPRISE)) = Inr ()"
  by (rule feature_guard_monotone [of _ FREE])
    (simp_all add: requires_feature_def is_feature_enabled_def get_tier_config_def normalize_tier_def
      feature_of_value_def all_features_def tier_configs)

end
