(* ===== verification/Samples.thy ===== *)
theory Samples
  imports Service_Utils
begin

text \<open>
  Concrete rows and a concrete database, on which the theorems of the other theories are applied.
\<close>

definition sample_grant :: credit_grant where
  "sample_grant = \<lparr>gr_id = 1, gr_tenant = 7, gr_pool = RESERVED, gr_scope = ''default'', gr_total = 100,
     gr_remaining = 100, gr_expires = None, gr_reason = None, gr_active = True, gr_created_by = None,
     gr_created = 0\<rparr>"

definition sample_db :: db where
  "sample_db = (empty_db 0)\<lparr>grants := [sample_grant], db_next := 2\<rparr>"

definition sample_alloc :: credit_alloc where
  "sample_alloc = \<lparr>al_id = 2, al_tenant = 7, al_decision = 5, al_grant = 1, al_pool = RESERVED,
     al_reserved = 40, al_consumed = 0, al_released = 0, al_active = True, al_created = 0, al_settled = None\<rparr>"

definition sample_held :: db where
  "sample_held = (empty_db 0)\<lparr>grants := [sample_grant\<lparr>gr_remaining := 60\<rparr>], allocs := [sample_alloc], db_next := 6\<rparr>"

definition sample_decision :: decision where
  "sample_decision = \<lparr>dec_id = 5, dec_tenant = 7, dec_source = TERRAFORM, dec_environment = ''prod'',
     dec_project = ''p'', dec_action = ''apply'', dec_resource = ''r'', dec_decision = ALLOW_WITH_CREDITS,
     dec_reasons = [], dec_policy_version = 1, dec_schema_version = default_schema_version,
     dec_sha256 = sha256_empty, dec_fingerprint = [], dec_idempotency = ''k'', dec_request = [],
     dec_response = [], dec_monthly = 40, dec_hourly = 0, dec_burn_rate = None, dec_forecast = None,
     dec_risk_class = None, dec_risk_score = None, dec_anomaly = None, dec_alloc_available = None,
     dec_credits_available = None, dec_reserved_alloc = 0, dec_reserved_credit = 40,
     dec_reservation_active = True, dec_approval_required = False, dec_token_issued = False,
     dec_token_expires = None, dec_created_by = None, dec_created = 0\<rparr>"

lemmas sample_defs = sample_grant_def sample_db_def sample_alloc_def sample_held_def sample_decision_def empty_db_def

definition sample_policy :: policy where
  "sample_policy = \<lparr>pol_id = 20, pol_tenant = 7, terraform_mode = SOFT, terraform_mode_prod = HARD,
     terraform_mode_nonprod = SOFT, k8s_mode = SOFT, k8s_mode_prod = SOFT, k8s_mode_nonprod = SHADOW,
     require_approval_prod = True, require_approval_nonprod = False, separation_prod = True,
     separation_nonprod = False, routing_rules = PList [], pol_schema_version = default_schema_version,
     pol_sha256 = sha256_empty, pol_document = PDict [], plan_ceiling = None, enterprise_ceiling = None,
     auto_approve_below = 25, hard_deny_above = 5000, pol_ttl = 900, pol_version = 1\<rparr>"

definition sample_owner :: user where
  "sample_owner = \<lparr>usr_id = 30, usr_tenant = Some 7, usr_role = ''owner''\<rparr>"

definition empty_scim :: scim where
  "empty_scim = \<lparr>scim_settings = [], scim_groups = [], scim_members = []\<rparr>"

definition sample_approval :: approval where
  "sample_approval = \<lparr>apr_id = 40, apr_tenant = 7, apr_decision = 5, apr_status = PENDING,
     apr_requested_by = Some 31, apr_reviewed_by = None, apr_notes = None, apr_rule_id = None,
     apr_trace = [], apr_token_hash = None, apr_token_expires = None, apr_token_consumed = None,
     apr_expires = 1000000000, apr_approved_at = None, apr_denied_at = None, apr_created = 0,
     apr_updated = 0\<rparr>"

end
