(* ===== verification/Computed_Context.thy ===== *)
theory Computed_Context
  imports Waterfall Pricing Samples
begin

text \<open>
  \<open>app/modules/enforcement/domain/computed_context_ops.py\<close> and \<open>DecisionComputedContext\<close>: the
  monthly ceilings of a tenant, the daily cost totals, the burn rate and the forecast, the spend anomaly and
  the risk of a request.

  Whether the two cost queries succeed is the argument \<open>query_ok\<close>, by \<open>final_only\<close>.
\<close>

section \<open>Ceilings\<close>

definition resolve_ceiling :: "usd option \<Rightarrow> pricing_tier \<Rightarrow> string \<Rightarrow> usd option" where
  \<comment> \<open>the common body of the two resolvers\<close>
  "resolve_ceiling configured tier limit_name =
     (case configured of
        Some c \<Rightarrow> let normalized = quantize4 c in if 0 < normalized then Some normalized else None
      | None \<Rightarrow>
          (case get_tier_limit (Tier tier) limit_name of
             PNone \<Rightarrow> None
           | raw \<Rightarrow> let ceiling = quantize4 (to_decimal raw) in if ceiling \<le> 0 then None else Some ceiling))"

definition resolve_plan_ceiling :: "policy \<Rightarrow> pricing_tier \<Rightarrow> usd option" where
  "resolve_plan_ceiling p tier = resolve_ceiling (plan_ceiling p) tier ''enforcement_plan_monthly_ceiling_usd''"

definition resolve_enterprise_ceiling :: "policy \<Rightarrow> pricing_tier \<Rightarrow> usd option" where
  "resolve_enterprise_ceiling p tier =
     resolve_ceiling (enterprise_ceiling p) tier ''enforcement_enterprise_monthly_ceiling_usd''"

section \<open>Daily costs\<close>

definition month_total_days :: "date \<Rightarrow> int" where
  "month_total_days value = (case value of (y, m, d) \<Rightarrow> month_len y m)"

definition load_daily_cost_totals :: "db \<Rightarrow> uuid \<Rightarrow> date \<Rightarrow> date \<Rightarrow> bool \<Rightarrow> (date \<times> usd) list" where
  "load_daily_cost_totals db tenant start_date end_date final_only =
     (let rows = filter (\<lambda>c. cost_tenant c = tenant \<and> dt_le start_date (cost_day c) \<and> dt_le (cost_day c) end_date
            \<and> (\<not> final_only \<or> cost_final c)) (costs db)
      in map (\<lambda>day. (day, quantize4 (total cost_usd (filter (\<lambda>c. cost_day c = day) rows))))
           (remdups (map cost_day rows)))"

definition day_total :: "(date \<times> usd) list \<Rightarrow> date \<Rightarrow> usd" where
  \<comment> \<open>\<open>daily_totals.get(day, Decimal("0.0000"))\<close>\<close>
  "day_total totals day = (case map_of totals day of None \<Rightarrow> 0 | Some x \<Rightarrow> x)"

fun latest_day :: "date \<Rightarrow> date list \<Rightarrow> date" where
  "latest_day d [] = d"
| "latest_day d (e # es) = latest_day (if dt_le e d then d else e) es"

section \<open>Risk\<close>

definition first_truthy :: "pyval list \<Rightarrow> string" where
  \<comment> \<open>\<open>str(a or b or ... or "")\<close>\<close>
  "first_truthy vs = (case List.find truthy vs of None \<Rightarrow> [] | Some v \<Rightarrow> py_str v)"

definition destructive_markers :: "string list" where
  "destructive_markers = [''destroy'', ''delete'', ''terminate'', ''remove'', ''revoke'', ''detach'',
     ''scale_down'', ''downscale'']"

definition high_criticality :: "string list" where
  "high_criticality = [''critical'', ''high'', ''tier0'', ''tier1'', ''p0'', ''sev0'']"

definition medium_criticality :: "string list" where
  "medium_criticality = [''medium'', ''tier2'', ''p1'', ''sev1'']"

definition high_impact_markers :: "string list" where
  "high_impact_markers = [''gpu'', ''db'', ''database'', ''cluster'', ''k8s'', ''kubernetes'', ''warehouse'',
     ''redshift'', ''bigquery'', ''rds'', ''postgres'', ''mysql'', ''elasticsearch'']"

definition risk_contributions :: "gate_input \<Rightarrow> bool \<Rightarrow> bool \<Rightarrow> (int \<times> string) list" where
  \<comment> \<open>each \<open>score += w; factors.append(f)\<close> that is executed\<close>
  "risk_contributions g is_prod anomaly_signal =
     (let metadata = gi_metadata g;
          action = norm_key (gi_action g);
          resource_reference = norm_key (gi_resource g);
          resource_type = norm_key (str_or_empty (dget metadata ''resource_type''));
          resource_class = norm_key (or_default (str_or_empty (dget metadata ''resource_class'')) resource_type);
          criticality = norm_key (first_truthy [dget metadata ''criticality'',
            dget metadata ''business_criticality'', dget metadata ''service_criticality'']);
          monthly_delta = quantize4 (gi_monthly g);
          impact_text = resource_class @ '' '' @ resource_type @ '' '' @ resource_reference
      in (if is_prod then [(3, ''production_environment'')] else [])
         @ (if list_ex (contains action) destructive_markers then [(2, ''destructive_action'')] else [])
         @ (if criticality \<in> set high_criticality then [(2, ''criticality_high'')]
            else if criticality \<in> set medium_criticality then [(1, ''criticality_medium'')] else [])
         @ (if list_ex (contains impact_text) high_impact_markers then [(1, ''high_impact_resource_class'')] else [])
         @ (if 5000 \<le> monthly_delta then [(2, ''large_monthly_delta'')]
            else if 1000 \<le> monthly_delta then [(1, ''moderate_monthly_delta'')] else [])
         @ (if anomaly_signal then [(1, ''anomaly_spike_signal'')] else []))"

definition risk_class_of :: "int \<Rightarrow> string" where
  "risk_class_of score = (if 6 \<le> score then ''high'' else if 3 \<le> score then ''medium'' else ''low'')"

definition derive_risk_assessment :: "gate_input \<Rightarrow> bool \<Rightarrow> bool \<Rightarrow> string \<times> int \<times> string list" where
  "derive_risk_assessment g is_prod anomaly_signal =
     (let parts = risk_contributions g is_prod anomaly_signal; score = sum_list (map fst parts)
      in (risk_class_of score, score, map snd parts))"

section \<open>The context\<close>

record computed_context =
  cc_version :: string
  cc_generated :: time
  cc_policy_version :: int
  cc_month_start :: date
  cc_month_end :: date
  cc_elapsed :: int
  cc_total_days :: int
  cc_observed :: int
  cc_latest :: "date option"
  cc_mtd :: usd
  cc_burn :: usd
  cc_forecast :: usd
  cc_anomaly :: bool
  cc_anomaly_kind :: "string option"
  cc_anomaly_delta :: usd
  cc_anomaly_percent :: "usd option"
  cc_source :: string
  cc_risk_class :: string
  cc_risk_score :: int
  cc_risk_factors :: "string list"

definition context_payload :: "computed_context \<Rightarrow> pydict" where
  \<comment> \<open>\<open>to_payload\<close>\<close>
  "context_payload c =
     [(''context_version'', PStr (cc_version c)),
      (''generated_at'', PTime (cc_generated c)),
      (''policy_version'', PInt (cc_policy_version c)),
      (''month_start'', PStr (date_str (cc_month_start c))),
      (''month_end'', PStr (date_str (cc_month_end c))),
      (''month_elapsed_days'', PInt (cc_elapsed c)),
      (''month_total_days'', PInt (cc_total_days c)),
      (''observed_cost_days'', PInt (cc_observed c)),
      (''latest_cost_date'', opt_val (PStr \<circ> date_str) (cc_latest c)),
      (''mtd_spend_usd'', PStr (fixed_str 4 (cc_mtd c))),
      (''burn_rate_daily_usd'', PStr (fixed_str 4 (cc_burn c))),
      (''forecast_eom_usd'', PStr (fixed_str 4 (cc_forecast c))),
      (''anomaly_signal'', PBool (cc_anomaly c)),
      (''anomaly_kind'', opt_val PStr (cc_anomaly_kind c)),
      (''anomaly_delta_usd'', PStr (fixed_str 4 (cc_anomaly_delta c))),
      (''anomaly_percent'', opt_val (PStr \<circ> fixed_str 2) (cc_anomaly_percent c)),
      (''data_source_mode'', PStr (cc_source c)),
      (''risk_class'', PStr (cc_risk_class c)),
      (''risk_score'', PInt (cc_risk_score c)),
      (''risk_factors'', PList (map PStr (cc_risk_factors c)))]"

definition daily_totals :: "(bool \<Rightarrow> bool) \<Rightarrow> db \<Rightarrow> uuid \<Rightarrow> date \<Rightarrow> (date \<times> usd) list \<times> string" where
  \<comment> \<open>the \<open>try\<close> block: the totals and \<open>data_source_mode\<close>\<close>
  "daily_totals query_ok db tenant today =
     (let lookback_start = days_back 35 today
      in if \<not> query_ok True then ([], ''unavailable'')
         else let finals = load_daily_cost_totals db tenant lookback_start today True
         in if finals \<noteq> [] then (finals, ''final'')
            else if \<not> query_ok False then ([], ''unavailable'')
            else let rows = load_daily_cost_totals db tenant lookback_start today False
                 in (rows, if rows \<noteq> [] then ''all_status'' else ''none''))"

definition month_rows :: "date \<Rightarrow> date \<Rightarrow> (date \<times> usd) list \<Rightarrow> (date \<times> usd) list" where
  "month_rows month_start today totals =
     filter (\<lambda>(day, amount). dt_le month_start day \<and> dt_le day today) totals"

record anomaly =
  an_signal :: bool
  an_kind :: "string option"
  an_delta :: usd
  an_percent :: "usd option"

definition baseline_average :: "(date \<times> usd) list \<Rightarrow> date \<Rightarrow> usd" where
  \<comment> \<open>the seven days before today\<close>
  "baseline_average totals today =
     quantize4 (quantize4 (total (\<lambda>offset. day_total totals (days_back offset today)) [1, 2, 3, 4, 5, 6, 7]) / 7)"

definition detect_anomaly :: "(date \<times> usd) list \<Rightarrow> date \<Rightarrow> anomaly" where
  "detect_anomaly totals today =
     (let today_total = quantize4 (day_total totals today);
          baseline_avg = baseline_average totals today;
          delta = quantize4 (today_total - baseline_avg);
          percent = (if 0 < baseline_avg then Some (quantize 2 (delta / baseline_avg * 100)) else None);
          new_spend = (baseline_avg \<le> 0 \<and> 100 \<le> today_total);
          spike = (100 \<le> delta \<and> (case percent of None \<Rightarrow> False | Some p \<Rightarrow> 30 \<le> p))
      in \<lparr>an_signal = (new_spend \<or> spike),
          an_kind = (if new_spend then Some ''new_spend'' else if spike then Some ''spike'' else None),
          an_delta = delta, an_percent = percent\<rparr>)"

definition no_anomaly :: anomaly where
  "no_anomaly = \<lparr>an_signal = False, an_kind = None, an_delta = 0, an_percent = None\<rparr>"

definition build_computed_context ::
  "(bool \<Rightarrow> bool) \<Rightarrow> db \<Rightarrow> uuid \<Rightarrow> int \<Rightarrow> gate_input \<Rightarrow> time \<Rightarrow> bool \<Rightarrow> computed_context" where
  "build_computed_context query_ok db tenant version g now is_prod =
     (let today = date_of now; y = fst today; m = fst (snd today);
          month_start = (y, m, 1);
          month_total = month_total_days today;
          month_end = (y, m, month_total);
          elapsed = max 1 (day_number y m (snd (snd today)) - day_number y m 1 + 1);
          (totals, source) = daily_totals query_ok db tenant today;
          in_month = month_rows month_start today totals;
          mtd = (if totals \<noteq> [] then quantize4 (total snd in_month) else 0);
          observed = (if totals \<noteq> [] then length (filter (\<lambda>(day, amount). 0 < amount) in_month) else 0);
          burn = (if totals \<noteq> [] then quantize4 (mtd / of_int elapsed) else 0);
          forecast = (if totals \<noteq> [] then quantize4 (burn * of_int month_total) else 0);
          an = (if totals \<noteq> [] then detect_anomaly totals today else no_anomaly);
          (risk_class, risk_score, risk_factors) = derive_risk_assessment g is_prod (an_signal an)
      in \<lparr>cc_version = ''enforcement_computed_context_v1'', cc_generated = now, cc_policy_version = version,
          cc_month_start = month_start, cc_month_end = month_end, cc_elapsed = elapsed,
          cc_total_days = month_total, cc_observed = int observed,
          cc_latest = (case map fst totals of [] \<Rightarrow> None | d # ds \<Rightarrow> Some (latest_day d ds)),
          cc_mtd = mtd, cc_burn = burn, cc_forecast = forecast,
          cc_anomaly = an_signal an, cc_anomaly_kind = an_kind an, cc_anomaly_delta = an_delta an,
          cc_anomaly_percent = an_percent an, cc_source = source, cc_risk_class = risk_class,
          cc_risk_score = risk_score, cc_risk_factors = risk_factors\<rparr>)"

section \<open>Risk is bounded and grows with its signals\<close>

lemma weight_one: "sum_list (map fst (if b then [(w, f)] else [])) = (if b then w else 0 :: int)"
  by simp

lemma weight_two:
  "sum_list (map fst (if b then [(w, f)] else if c then [(v, h)] else [])) =
    (if b then w else if c then v else 0 :: int)"
  by simp

lemma weights_bounded:
  "0 \<le> (if b then 3 else 0) + ((if c then 2 else 0) + ((if d then 2 else if e then 1 else 0)
      + ((if f then 1 else 0) + ((if g then 2 else if h then 1 else 0) + (if i then 1 else 0 :: int)))))"
  "(if b then 3 else 0) + ((if c then 2 else 0) + ((if d then 2 else if e then 1 else 0)
      + ((if f then 1 else 0) + ((if g then 2 else if h then 1 else 0) + (if i then 1 else 0 :: int))))) \<le> 11"
  by simp_all

lemma weights_split: "x + (b + (c + (d + (e + z)))) = 0 + (b + (c + (d + (e + 0)))) + x + (z :: int)"
  by simp

lemma risk_score_range:
  "0 \<le> sum_list (map fst (risk_contributions g p a))" "sum_list (map fst (risk_contributions g p a)) \<le> 11"
  unfolding risk_contributions_def Let_def map_append sum_list_append weight_one weight_two
  by (rule weights_bounded)+

lemma risk_score_signals:
  "sum_list (map fst (risk_contributions g p a)) =
    sum_list (map fst (risk_contributions g False False)) + (if p then 3 else 0) + (if a then 1 else 0)"
  unfolding risk_contributions_def Let_def map_append sum_list_append weight_one weight_two if_False list.map(1) sum_list.Nil
  by (rule weights_split)

section \<open>The month and its numbers\<close>

lemma date_of_valid: "valid_date (date_of t)"
  by (metis civil_correct date_of_def prod_cases3)

lemma total_month_rows_nonneg:
  assumes "\<forall>r\<in>set totals. 0 \<le> snd r"
  shows "0 \<le> total snd (month_rows s e totals)"
  using assms by (intro total_nonneg) (auto simp: month_rows_def)

lemma load_totals_nonneg:
  assumes "\<forall>c\<in>set (costs db). 0 \<le> cost_usd c"
  shows "\<forall>r\<in>set (load_daily_cost_totals db t s e f). 0 \<le> snd r"
  using assms by (auto simp: load_daily_cost_totals_def Let_def intro!: q4.q_nonneg total_nonneg)

lemma daily_totals_nonneg:
  assumes "\<forall>c\<in>set (costs db). 0 \<le> cost_usd c"
  shows "\<forall>r\<in>set (fst (daily_totals qok db t d)). 0 \<le> snd r"
  using load_totals_nonneg [OF assms] by (simp add: daily_totals_def Let_def)

lemma daily_totals_unavailable:
  "snd (daily_totals qok db t d) = ''unavailable'' \<longleftrightarrow>
    \<not> qok True \<or> (load_daily_cost_totals db t (days_back 35 d) d True = [] \<and> \<not> qok False)"
  by (simp add: daily_totals_def Let_def)

lemma unavailable_empty: "snd (daily_totals qok db t d) = ''unavailable'' \<Longrightarrow> fst (daily_totals qok db t d) = []"
  by (auto simp: daily_totals_def Let_def split: if_splits)

lemmas context_defs = build_computed_context_def derive_risk_assessment_def Let_def

lemma context_simps:
  "cc_source (build_computed_context qok db t v g now p) = snd (daily_totals qok db t (date_of now))"
  "cc_generated (build_computed_context qok db t v g now p) = now"
  "cc_total_days (build_computed_context qok db t v g now p) = month_total_days (date_of now)"
  "cc_risk_class (build_computed_context qok db t v g now p) =
     risk_class_of (cc_risk_score (build_computed_context qok db t v g now p))"
  by (simp_all add: context_defs split: prod.split)

lemma context_month:
  assumes "date_of now = (y, m, d)"
  shows "cc_elapsed (build_computed_context qok db t v g now p) = d"
    "cc_month_start (build_computed_context qok db t v g now p) = (y, m, 1)"
    "cc_month_end (build_computed_context qok db t v g now p) = (y, m, month_len y m)"
    "cc_total_days (build_computed_context qok db t v g now p) = month_len y m"
    "1 \<le> d" "d \<le> month_len y m"
  using date_of_valid [of now]
  by (simp_all add: assms context_defs month_total_days_def day_number_def valid_date_def split: prod.split)

lemma context_money:
  fixes qok db t v g now p
  defines "c \<equiv> build_computed_context qok db t v g now p"
  shows "cc_burn c = quantize4 (cc_mtd c / of_int (cc_elapsed c))"
    "cc_forecast c = quantize4 (cc_burn c * of_int (cc_total_days c))"
    "(\<forall>r\<in>set (costs db). 0 \<le> cost_usd r) \<Longrightarrow> 0 \<le> cc_mtd c"
  using daily_totals_nonneg [of db qok t "date_of now"]
  by (auto simp: c_def context_defs intro!: q4.q_nonneg total_month_rows_nonneg split: prod.split)

lemma context_no_data:
  assumes "fst (daily_totals qok db t (date_of now)) = []"
  shows "let c = build_computed_context qok db t v g now p
    in cc_mtd c = 0 \<and> cc_burn c = 0 \<and> cc_forecast c = 0 \<and> \<not> cc_anomaly c \<and> cc_latest c = None"
  using assms by (cases "daily_totals qok db t (date_of now)") (simp add: context_defs no_anomaly_def split: prod.split)

lemma context_anomaly:
  "cc_anomaly (build_computed_context qok db t v g now p) \<longleftrightarrow>
    cc_anomaly_kind (build_computed_context qok db t v g now p) \<noteq> None"
  by (simp add: context_defs no_anomaly_def detect_anomaly_def split: prod.split)

lemma spike_lower_bound:
  assumes "an_kind (detect_anomaly totals today) = Some ''spike''"
  shows "0 < baseline_average totals today \<and>
    13 / 10 * baseline_average totals today - baseline_average totals today / 20000
      \<le> quantize4 (day_total totals today)"
proof -
  let ?b = "baseline_average totals today" and ?t = "quantize4 (day_total totals today)"
  have "on_grid 4 (?t - ?b)" by (simp add: baseline_average_def on_grid_diff)
  then have delta: "quantize4 (?t - ?b) = ?t - ?b" by simp
  from assms have b: "0 < ?b" and p: "30 \<le> quantize 2 ((?t - ?b) / ?b * 100)"
    by (auto simp: detect_anomaly_def Let_def delta split: if_splits)
  have "\<bar>quantize 2 ((?t - ?b) / ?b * 100) - (?t - ?b) / ?b * 100\<bar> \<le> 1 / 200"
    using quantize_error [of 2] by simp
  with p have "30 - 1 / 200 \<le> (?t - ?b) / ?b * 100" by linarith
  with b show ?thesis by (simp add: field_simps)
qed

section \<open>Properties\<close>

text \<open>The forecast of the month is the spend so far scaled to the whole month, up to the rounding of the two
  quantisations: it is off by at most half a unit of the fourth place per day of the month and one more.\<close>

theorem forecast_accuracy:
  fixes qok db t v g now p
  defines "c \<equiv> build_computed_context qok db t v g now p"
  shows "1 \<le> cc_elapsed c \<and> cc_elapsed c \<le> cc_total_days c \<and> cc_total_days c \<le> 31 \<and>
    \<bar>cc_forecast c - cc_mtd c / of_int (cc_elapsed c) * of_int (cc_total_days c)\<bar>
      \<le> (of_int (cc_total_days c) + 1) / 20000"
proof -
  obtain y m d where ymd: "date_of now = (y, m, d)" by (metis prod_cases3)
  note month = context_month(1,4) [OF ymd, of qok db t v g p, folded c_def] context_month(5,6) [OF ymd]
  let ?x = "cc_mtd c / of_int (cc_elapsed c)" and ?T = "of_int (cc_total_days c) :: rat"
  have T: "1 \<le> cc_total_days c" "cc_total_days c \<le> 31" using month by (auto intro: order_trans)
  note money = context_money(1,2) [of qok db t v g now p, folded c_def]
  have burn: "\<bar>cc_burn c - ?x\<bar> \<le> 1 / 20000" using quantize_error [of 4 ?x] by (simp add: money(1))
  have fc: "\<bar>cc_forecast c - cc_burn c * ?T\<bar> \<le> 1 / 20000"
    using quantize_error [of 4 "cc_burn c * ?T"] by (simp add: money(2))
  have "\<bar>cc_burn c * ?T - ?x * ?T\<bar> = \<bar>cc_burn c - ?x\<bar> * ?T"
    using T by (simp add: left_diff_distrib [symmetric] abs_mult del: times_divide_eq_left times_divide_eq_right)
  also have "\<dots> \<le> 1 / 20000 * ?T" using burn T by (intro mult_right_mono) auto
  finally have "\<bar>cc_forecast c - ?x * ?T\<bar> \<le> 1 / 20000 + 1 / 20000 * ?T" using fc by linarith
  then show ?thesis using month T by (simp add: add_divide_distrib)
qed

text \<open>The risk of a request is scored between 0 and 11; a production target adds exactly three points and an
  anomalous spend exactly one, and the class is read off the score.\<close>

theorem risk_assessment_sound:
  "\<exists>score. derive_risk_assessment g is_prod anomalous = (risk_class_of score, score, map snd (risk_contributions g is_prod anomalous))
     \<and> 0 \<le> score \<and> score \<le> 11 \<and>
     score = fst (snd (derive_risk_assessment g False False)) + (if is_prod then 3 else 0) + (if anomalous then 1 else 0)"
  using risk_score_range [of g is_prod anomalous] risk_score_signals [of g is_prod anomalous]
  by (simp add: derive_risk_assessment_def Let_def)

end
