(* ===== verification/Approval_Routing.thy ===== *)
theory Approval_Routing
  imports Samples
begin

text \<open>
  \<open>approval_routing_ops.py\<close> and the routing part of \<open>service_runtime_ops.py\<close>: normalisation of
  a policy's routing rules, the routing trace of a decision (the first rule that matches, or the
  default route), and the authority check of a reviewer.

  Rules and traces are payload dictionaries, as in the code.  Iterating over a value that is not
  iterable is \<open>TypeErr\<close>.  \<open>py_eq\<close> is \<open>==\<close> on payloads: dictionaries are compared without regard
  to the order of their keys.
\<close>

section \<open>Payload helpers\<close>

fun py_eq :: "pyval \<Rightarrow> pyval \<Rightarrow> bool" where
  "py_eq (PDict d) w = (case w of
     PDict e \<Rightarrow> length d = length e
       \<and> list_all (\<lambda>kv. case map_of e (fst kv) of None \<Rightarrow> False | Some v \<Rightarrow> py_eq (snd kv) v) d
   | _ \<Rightarrow> False)"
| "py_eq (PList vs) w = (case w of PList ws \<Rightarrow> length vs = length ws \<and> list_all (\<lambda>(v, w). v w) (zip (map py_eq vs) ws)
   | _ \<Rightarrow> False)"
| "py_eq v w = (v = w)"

definition string_list_of :: "(string \<Rightarrow> string) option \<Rightarrow> pyval \<Rightarrow> string list outcome" where
  "string_list_of normalizer v =
     (if v = PNone then Inr []
      else case py_iter v of None \<Rightarrow> Inl TypeErr | Some vs \<Rightarrow> Inr (normalize_string_list normalizer (Some vs)))"

definition reviewer_roles_of :: "pyval \<Rightarrow> string list outcome" where
  "reviewer_roles_of v =
     (if v = PNone then Inr (normalize_allowed_reviewer_roles None)
      else case py_iter v of None \<Rightarrow> Inl TypeErr | Some vs \<Rightarrow> Inr (normalize_allowed_reviewer_roles (Some vs)))"

definition strs :: "string list \<Rightarrow> pyval" where
  "strs ss = PList (map PStr ss)"

definition enabled_flag :: "pydict \<Rightarrow> bool" where
  \<comment> \<open>\<open>bool(raw_rule.get("enabled", True))\<close>\<close>
  "enabled_flag d = (if has_key d ''enabled'' then truthy (dget d ''enabled'') else True)"

definition delta_bound :: "pyval \<Rightarrow> usd option" where
  "delta_bound raw = (if raw = PNone then None else Some (quantize4 (to_decimal raw)))"

definition money_text :: "usd option \<Rightarrow> pyval" where
  "money_text x = opt_val (\<lambda>v. PStr (fixed_str 4 v)) x"

section \<open>Normalisation of the rules\<close>

definition is_bool :: "pyval \<Rightarrow> bool" where
  "is_bool v = (case v of PBool _ \<Rightarrow> True | _ \<Rightarrow> False)"

definition rule_error :: "int \<Rightarrow> string \<Rightarrow> 'a outcome" where
  "rule_error index msg = Inl (DomainError 422 (''approval_routing_rules['' @ int_str index @ '']'' @ msg))"

definition make_rule ::
  "string \<Rightarrow> bool \<Rightarrow> string list \<Rightarrow> string list \<Rightarrow> usd option \<Rightarrow> usd option \<Rightarrow> string list
    \<Rightarrow> string option \<Rightarrow> string list \<Rightarrow> pyval \<Rightarrow> pydict" where
  "make_rule rule_id enabled envs prefixes lo hi risks perm roles sep =
     [(''rule_id'', PStr rule_id), (''enabled'', PBool enabled), (''environments'', strs envs),
      (''action_prefixes'', strs prefixes), (''min_monthly_delta_usd'', money_text lo),
      (''max_monthly_delta_usd'', money_text hi), (''risk_levels'', strs risks),
      (''required_permission'', opt_val PStr perm), (''allowed_reviewer_roles'', strs roles),
      (''require_requester_reviewer_separation'', sep)]"

definition normalize_rule :: "int \<Rightarrow> string list \<Rightarrow> pyval \<Rightarrow> (string \<times> pydict) outcome" where
  \<comment> \<open>one iteration of the loop: the key to remember and the normalized rule\<close>
  "normalize_rule index seen raw =
     (case raw of
        PDict rule \<Rightarrow>
          let rule_id = strip (str_or_empty (dget rule ''rule_id''));
              lo = delta_bound (dget rule ''min_monthly_delta_usd'');
              hi = delta_bound (dget rule ''max_monthly_delta_usd'');
              raw_perm = dget rule ''required_permission'';
              raw_sep = dget rule ''require_requester_reviewer_separation''
          in if rule_id = [] then rule_error index ''.rule_id is required''
             else if 64 < length rule_id then rule_error index ''.rule_id exceeds 64 chars''
             else if lower rule_id \<in> set seen
             then Inl (DomainError 422 (''Duplicate approval routing rule_id: '' @ rule_id))
             else if (case lo of None \<Rightarrow> False | Some x \<Rightarrow> x < 0)
             then rule_error index ''.min_monthly_delta_usd must be >= 0''
             else if (case hi of None \<Rightarrow> False | Some x \<Rightarrow> x < 0)
             then rule_error index ''.max_monthly_delta_usd must be >= 0''
             else if (case (lo, hi) of (Some x, Some y) \<Rightarrow> y < x | _ \<Rightarrow> False)
             then rule_error index '' min_monthly_delta_usd cannot exceed max_monthly_delta_usd''
             else if raw_perm \<noteq> PNone \<and> normalize_permission raw_perm = None
             then rule_error index (''.required_permission must be one of '' @ perm_nonprod @ '', '' @ perm_prod)
             else if raw_sep \<noteq> PNone \<and> \<not> is_bool raw_sep
             then rule_error index ''.require_requester_reviewer_separation must be a boolean when provided''
             else and_then (string_list_of (Some normalize_environment) (dget rule ''environments'')) (\<lambda>envs.
                  and_then (string_list_of None (dget rule ''action_prefixes'')) (\<lambda>prefixes.
                  and_then (string_list_of None (dget rule ''risk_levels'')) (\<lambda>risks.
                  and_then (reviewer_roles_of (dget rule ''allowed_reviewer_roles'')) (\<lambda>roles.
                  Inr (lower rule_id,
                    make_rule rule_id (enabled_flag rule) envs prefixes lo hi risks
                      (if raw_perm = PNone then None else normalize_permission raw_perm) roles raw_sep)))))
      | _ \<Rightarrow> rule_error index '' must be an object'')"

fun normalize_rules_loop :: "int \<Rightarrow> string list \<Rightarrow> pyval list \<Rightarrow> pydict list outcome" where
  "normalize_rules_loop index seen [] = Inr []"
| "normalize_rules_loop index seen (raw # raws) =
     and_then (normalize_rule index seen raw) (\<lambda>(key, rule).
     and_then (normalize_rules_loop (index + 1) (key # seen) raws) (\<lambda>rules. Inr (rule # rules)))"

definition normalize_routing_rules :: "pyval list \<Rightarrow> pydict list outcome" where
  "normalize_routing_rules rules =
     (if rules = [] then Inr []
      else if 64 < length rules
      then Inl (DomainError 422 ''approval_routing_rules cannot exceed 64 rules'')
      else normalize_rules_loop 1 [] rules)"

section \<open>The mode of a source and environment\<close>

definition resolve_policy_mode :: "policy \<Rightarrow> enf_source \<Rightarrow> string \<Rightarrow> enf_mode \<times> string" where
  "resolve_policy_mode p source environment =
     (let env = normalize_environment environment
      in case source of
        TERRAFORM \<Rightarrow>
          (if env = ''prod'' then (terraform_mode_prod p, ''terraform:prod'')
           else if env = ''nonprod'' then (terraform_mode_nonprod p, ''terraform:nonprod'')
           else (terraform_mode p, ''terraform:default''))
      | K8S_ADMISSION \<Rightarrow>
          (if env = ''prod'' then (k8s_mode_prod p, ''k8s_admission:prod'')
           else if env = ''nonprod'' then (k8s_mode_nonprod p, ''k8s_admission:nonprod'')
           else (k8s_mode p, ''k8s_admission:default''))
      | CLOUD_EVENT \<Rightarrow> (k8s_mode p, ''fallback:k8s_admission_default''))"

section \<open>The routing trace\<close>

definition default_routing_trace :: "policy \<Rightarrow> decision \<Rightarrow> pydict" where
  "default_routing_trace p d =
     (let env = normalize_environment (dec_environment d)
      in [(''rule_id'', PStr (''default-'' @ env)),
          (''matched_rule'', PStr ''default''),
          (''required_permission'', PStr (default_required_permission env)),
          (''allowed_reviewer_roles'', strs default_allowed_reviewer_roles),
          (''require_requester_reviewer_separation'',
            PBool (if is_production env then separation_prod p else separation_nonprod p)),
          (''routing_conditions'', PDict [(''environment'', PStr env)])])"

fun first_nonempty :: "string list \<Rightarrow> string option" where
  "first_nonempty [] = None"
| "first_nonempty (s # ss) = (if s \<noteq> [] then Some s else first_nonempty ss)"

definition decision_risk_level :: "decision \<Rightarrow> string option" where
  "decision_risk_level d =
     (case dget (dec_request d) ''metadata'' of
        PDict metadata \<Rightarrow>
          first_nonempty (map (\<lambda>key. norm_key (str_or_empty (dget metadata key)))
            [''risk_level'', ''risk'', ''criticality''])
      | _ \<Rightarrow> None)"

definition rule_permission :: "pydict \<Rightarrow> pydict \<Rightarrow> string" where
  "rule_permission default_trace rule =
     (case normalize_permission (dget rule ''required_permission'') of
        Some p \<Rightarrow> p | None \<Rightarrow> py_str (dget default_trace ''required_permission''))"

definition rule_separation :: "pydict \<Rightarrow> pydict \<Rightarrow> bool" where
  "rule_separation default_trace rule =
     (case dget rule ''require_requester_reviewer_separation'' of
        PBool b \<Rightarrow> b | _ \<Rightarrow> truthy (dget default_trace ''require_requester_reviewer_separation''))"

definition rule_name :: "int \<Rightarrow> pydict \<Rightarrow> string" where
  "rule_name index rule =
     take 64 (or_default (strip (str_or_empty (dget rule ''rule_id''))) (''rule-'' @ int_str index))"

definition matched_trace ::
  "string \<Rightarrow> string \<Rightarrow> string list \<Rightarrow> bool \<Rightarrow> string \<Rightarrow> string list \<Rightarrow> usd option \<Rightarrow> usd option
    \<Rightarrow> string list \<Rightarrow> string option \<Rightarrow> pydict" where
  "matched_trace rule_id perm roles separation env prefixes lo hi risks risk =
     [(''rule_id'', PStr rule_id),
      (''matched_rule'', PStr ''policy_rule''),
      (''required_permission'', PStr perm),
      (''allowed_reviewer_roles'', strs roles),
      (''require_requester_reviewer_separation'', PBool separation),
      (''routing_conditions'', PDict
         [(''environment'', PStr env),
          (''action_prefixes'', strs prefixes),
          (''min_monthly_delta_usd'', money_text lo),
          (''max_monthly_delta_usd'', money_text hi),
          (''risk_levels'', strs risks),
          (''risk_level'', opt_val PStr risk)])]"

definition rule_trace ::
  "pydict \<Rightarrow> string \<Rightarrow> string \<Rightarrow> usd \<Rightarrow> string option \<Rightarrow> int \<Rightarrow> pyval \<Rightarrow> pydict option outcome" where
  \<comment> \<open>one iteration of the loop over the rules; \<open>None\<close> is \<open>continue\<close>\<close>
  "rule_trace default_trace env action delta risk index raw =
     (case raw of
        PDict rule \<Rightarrow>
          if \<not> enabled_flag rule then Inr None
          else and_then (string_list_of (Some normalize_environment) (dget rule ''environments'')) (\<lambda>envs.
            if envs \<noteq> [] \<and> env \<notin> set envs then Inr None
            else and_then (string_list_of None (dget rule ''action_prefixes'')) (\<lambda>prefixes.
            if prefixes \<noteq> [] \<and> \<not> list_ex (starts_with action) prefixes then Inr None
            else let lo = delta_bound (dget rule ''min_monthly_delta_usd'');
                     hi = delta_bound (dget rule ''max_monthly_delta_usd'')
            in if (case lo of None \<Rightarrow> False | Some x \<Rightarrow> delta < x) then Inr None
            else if (case hi of None \<Rightarrow> False | Some x \<Rightarrow> x < delta) then Inr None
            else and_then (string_list_of None (dget rule ''risk_levels'')) (\<lambda>risks.
            if risks \<noteq> [] \<and> (case risk of None \<Rightarrow> True | Some r \<Rightarrow> r \<notin> set risks) then Inr None
            else and_then (reviewer_roles_of (dget rule ''allowed_reviewer_roles'')) (\<lambda>roles.
              Inr (Some (matched_trace (rule_name index rule) (rule_permission default_trace rule) roles
                (rule_separation default_trace rule) env prefixes lo hi risks risk))))))
      | _ \<Rightarrow> Inr None)"

fun route_rules :: "(int \<Rightarrow> pyval \<Rightarrow> pydict option outcome) \<Rightarrow> int \<Rightarrow> pydict \<Rightarrow> pyval list \<Rightarrow> pydict outcome" where
  "route_rules try index default_trace [] = Inr default_trace"
| "route_rules try index default_trace (raw # raws) =
     (case try index raw of
        Inl e \<Rightarrow> Inl e
      | Inr (Some trace) \<Rightarrow> Inr trace
      | Inr None \<Rightarrow> route_rules try (index + 1) default_trace raws)"

definition rules_of_policy :: "policy \<Rightarrow> pyval list" where
  "rules_of_policy p = (case routing_rules p of PList rules \<Rightarrow> rules | _ \<Rightarrow> [])"

definition resolve_routing_trace :: "policy \<Rightarrow> decision \<Rightarrow> pydict outcome" where
  "resolve_routing_trace p d =
     (let default_trace = default_routing_trace p d
      in route_rules (rule_trace default_trace (normalize_environment (dec_environment d))
           (norm_key (dec_action d)) (quantize4 (dec_monthly d)) (decision_risk_level d))
         1 default_trace (rules_of_policy p))"

definition list_or_none :: "pyval \<Rightarrow> pyval list option" where
  \<comment> \<open>\<open>v if isinstance(v, list) else None\<close>\<close>
  "list_or_none v = (case v of PList vs \<Rightarrow> Some vs | _ \<Rightarrow> None)"

definition routing_trace_or_default :: "policy \<Rightarrow> decision \<Rightarrow> approval \<Rightarrow> pydict outcome" where
  "routing_trace_or_default p d a =
     (let trace = apr_trace a;
          roles = normalize_allowed_reviewer_roles (list_or_none (dget trace ''allowed_reviewer_roles''));
          has_rule_id = (strip (str_or_empty (dget trace ''rule_id'')) \<noteq> []);
          sep = dget trace ''require_requester_reviewer_separation''
      in case normalize_permission (dget trace ''required_permission'') of
           None \<Rightarrow> resolve_routing_trace p d
         | Some perm \<Rightarrow>
             if \<not> has_rule_id \<or> \<not> is_bool sep then resolve_routing_trace p d
             else Inr (dmerge trace
               [(''required_permission'', PStr perm),
                (''allowed_reviewer_roles'', strs roles),
                (''rule_id'', PStr (take 64 (strip (py_str (dget trace ''rule_id''))))),
                (''require_requester_reviewer_separation'', PBool (truthy sep))]))"

section \<open>The authority of a reviewer\<close>

definition adopt_trace :: "pydict \<Rightarrow> approval \<Rightarrow> approval" where
  \<comment> \<open>a trace that differs from the stored one replaces it\<close>
  "adopt_trace trace a =
     (if py_eq (PDict trace) (PDict (apr_trace a)) then a
      else a\<lparr>apr_rule_id := or_none (strip (str_or_empty (dget trace ''rule_id''))), apr_trace := trace\<rparr>)"

definition quoted :: "string \<Rightarrow> string" where
  "quoted s = [CHR 0x27] @ s @ [CHR 0x27]"

definition enforce_reviewer_authority ::
  "scim \<Rightarrow> policy \<Rightarrow> approval \<Rightarrow> decision \<Rightarrow> user \<Rightarrow> bool \<Rightarrow> (pydict \<times> approval) outcome" where
  "enforce_reviewer_authority sc p a d reviewer enforce_separation =
     and_then (routing_trace_or_default p d a) (\<lambda>trace.
       let role = normalize_role_value (PStr (usr_role reviewer));
           roles = normalize_allowed_reviewer_roles (list_or_none (dget trace ''allowed_reviewer_roles''))
       in if role \<notin> set roles
          then Inl (DomainError 403 (''Reviewer role '' @ quoted role @ '' is not allowed for routing rule ''
                 @ quoted (py_str (dget trace ''rule_id''))))
          else case normalize_permission (dget trace ''required_permission'') of
            None \<Rightarrow> Inl (DomainError 409 ''Approval routing trace is missing required_permission'')
          | Some perm \<Rightarrow>
              if \<not> user_has_approval_permission sc reviewer perm
              then Inl (DomainError 403 (''Insufficient approval permission: '' @ perm))
              else if enforce_separation \<and> truthy (dget trace ''require_requester_reviewer_separation'')
                \<and> apr_requested_by a = Some (usr_id reviewer)
              then Inl (DomainError 403 ''Requester/reviewer separation is enforced for this approval route'')
              else Inr (trace, adopt_trace trace a))"

section \<open>Normalised lists\<close>

lemma str_or_empty_PStr [simp]: "str_or_empty (PStr s) = s"
  by (simp add: str_or_empty_def truthy_def py_str_def)

lemma py_iter_strs [simp]: "py_iter (strs ss) = Some (map PStr ss)"
  by (simp add: py_iter_def strs_def)

lemma strs_not_None [simp]: "strs ss \<noteq> PNone" "strs ss = PNone \<longleftrightarrow> False" "strs ss = PList (map PStr ss)"
  by (simp_all add: strs_def)

declare strs_not_None(3) [simp del]

definition list_normalizer :: "(string \<Rightarrow> string) option \<Rightarrow> string \<Rightarrow> string" where
  "list_normalizer n = (case n of None \<Rightarrow> lower | Some f \<Rightarrow> f)"

lemma normalize_string_list_fold:
  "normalize_string_list n (Some vs) = foldl (\<lambda>acc raw. let value = strip (str_or_empty raw) in
     if value = [] then acc else add_new (list_normalizer n value) acc) [] vs"
proof (cases n)
  case None
  show ?thesis unfolding None normalize_string_list_def list_normalizer_def option.case ..
next
  case (Some f)
  show ?thesis unfolding Some normalize_string_list_def list_normalizer_def option.case ..
qed

lemma distinct_normalize_string_list [simp]: "distinct (normalize_string_list n (Some vs))"
  by (simp add: normalize_string_list_fold Let_def)

lemma set_normalize_string_list:
  "set (normalize_string_list n (Some vs)) =
    {list_normalizer n (strip (str_or_empty v)) |v. v \<in> set vs \<and> strip (str_or_empty v) \<noteq> []}"
  by (auto simp: normalize_string_list_fold Let_def)

lemma normalize_string_list_fixed:
  assumes "distinct ss" "\<And>s. s \<in> set ss \<Longrightarrow> strip s = s \<and> s \<noteq> [] \<and> list_normalizer n s = s"
  shows "normalize_string_list n (Some (map PStr ss)) = ss"
proof -
  have "foldl (\<lambda>acc s. let value = strip s in if value = [] then acc
      else add_new (list_normalizer n value) acc) [] ss = [] @ ss"
    by (rule foldl_add_new_fresh [where f = "\<lambda>s. list_normalizer n (strip s)" and P = "\<lambda>s. strip s \<noteq> []"])
       (use assms in \<open>auto simp: Let_def\<close>)
  then show ?thesis
    by (simp add: normalize_string_list_fold foldl_map)
qed

lemma strip_normalize_environment [simp]: "strip (normalize_environment e) = normalize_environment e"
proof -
  have "strip ''prod'' = ''prod''" "strip ''nonprod'' = ''nonprod''" by (code_simp, code_simp)
  then show ?thesis by (simp add: normalize_environment_def Let_def or_default_def)
qed

lemma string_list_of_idem:
  assumes "string_list_of n v = Inr ss" "n = None \<or> n = Some normalize_environment"
  shows "string_list_of n (strs ss) = Inr ss"
proof (cases "v = PNone")
  case True
  with assms show ?thesis by (simp add: string_list_of_def normalize_string_list_fold)
next
  case False
  with assms(1) obtain vs where ss: "ss = normalize_string_list n (Some vs)"
    by (auto simp: string_list_of_def split: option.splits)
  have "strip s = s \<and> s \<noteq> [] \<and> list_normalizer n s = s" if "s \<in> set ss" for s
    using that assms(2) unfolding ss set_normalize_string_list
    by (auto simp: list_normalizer_def strip_lower)
  with distinct_normalize_string_list [of n vs] normalize_string_list_fixed [of ss n]
  show ?thesis by (simp add: string_list_of_def ss)
qed

lemma supported_role_normal: "r \<in> set supported_reviewer_roles \<Longrightarrow> normalize_role_value (PStr r) = r"
proof -
  have "norm_key ''owner'' = ''owner''" "norm_key ''admin'' = ''admin''" "norm_key ''member'' = ''member''"
    by (code_simp, code_simp, code_simp)
  then show "r \<in> set supported_reviewer_roles \<Longrightarrow> normalize_role_value (PStr r) = r"
    by (auto simp: supported_reviewer_roles_def normalize_role_value_def)
qed

lemma distinct_allowed_roles: "distinct (normalize_allowed_reviewer_roles vs)"
  by (auto simp: normalize_allowed_reviewer_roles_def default_allowed_reviewer_roles_def Let_def
      split: option.split)

lemma allowed_roles_fixed:
  assumes "distinct rs" "set rs \<subseteq> set supported_reviewer_roles" "rs \<noteq> []"
  shows "normalize_allowed_reviewer_roles (Some (map PStr rs)) = rs"
proof -
  have "foldl (\<lambda>acc r. let role = normalize_role_value (PStr r) in
      if role \<notin> set supported_reviewer_roles then acc else add_new role acc) [] rs = [] @ rs"
    by (rule foldl_add_new_fresh [where f = "\<lambda>r. normalize_role_value (PStr r)"
          and P = "\<lambda>r. normalize_role_value (PStr r) \<in> set supported_reviewer_roles"])
       (use assms supported_role_normal in \<open>auto simp: Let_def\<close>)
  with assms(3) show ?thesis
    by (simp add: normalize_allowed_reviewer_roles_def foldl_map)
qed

lemma reviewer_roles_of_idem:
  assumes "reviewer_roles_of v = Inr rs"
  shows "reviewer_roles_of (strs rs) = Inr rs"
proof -
  obtain vs where "rs = normalize_allowed_reviewer_roles vs"
    using assms by (auto simp: reviewer_roles_of_def split: if_splits option.splits)
  then show ?thesis
    using allowed_roles_fixed [of rs] distinct_allowed_roles allowed_reviewer_roles_supported
      allowed_reviewer_roles_nonempty by (simp add: reviewer_roles_of_def)
qed

lemma normalize_permission_Some:
  "normalize_permission v = Some p \<Longrightarrow> p \<in> {perm_nonprod, perm_prod} \<and> normalize_permission (PStr p) = Some p"
proof -
  have "norm_key perm_nonprod = perm_nonprod" "norm_key perm_prod = perm_prod" by (code_simp, code_simp)
  then show "normalize_permission v = Some p \<Longrightarrow> p \<in> {perm_nonprod, perm_prod} \<and> normalize_permission (PStr p) = Some p"
    by (auto simp: normalize_permission_def Let_def split: if_splits)
qed

section \<open>Normalised rules\<close>

lemma delta_bound_text:
  assumes "delta_bound v = x"
  shows "delta_bound (money_text x) = x"
proof (cases x)
  case None
  then show ?thesis by (simp add: money_text_def opt_val_def delta_bound_def)
next
  case (Some y)
  with assms have "on_grid 4 y" by (auto simp: delta_bound_def split: if_splits)
  with Some show ?thesis by (simp add: money_text_def opt_val_def delta_bound_def)
qed

lemma make_rule_dget [simp]:
  "dget (make_rule i en es ps lo hi ri pe ro se) ''rule_id'' = PStr i"
  "dget (make_rule i en es ps lo hi ri pe ro se) ''environments'' = strs es"
  "dget (make_rule i en es ps lo hi ri pe ro se) ''action_prefixes'' = strs ps"
  "dget (make_rule i en es ps lo hi ri pe ro se) ''min_monthly_delta_usd'' = money_text lo"
  "dget (make_rule i en es ps lo hi ri pe ro se) ''max_monthly_delta_usd'' = money_text hi"
  "dget (make_rule i en es ps lo hi ri pe ro se) ''risk_levels'' = strs ri"
  "dget (make_rule i en es ps lo hi ri pe ro se) ''required_permission'' = opt_val PStr pe"
  "dget (make_rule i en es ps lo hi ri pe ro se) ''allowed_reviewer_roles'' = strs ro"
  "dget (make_rule i en es ps lo hi ri pe ro se) ''require_requester_reviewer_separation'' = se"
  "enabled_flag (make_rule i en es ps lo hi ri pe ro se) = en"
  by (simp_all add: make_rule_def dget_def enabled_flag_def has_key_def truthy_def)

definition rule_ok :: "pydict \<Rightarrow> bool" where
  \<comment> \<open>what normalisation guarantees of a rule\<close>
  "rule_ok rule =
     (let i = dget rule ''rule_id'';
          lo = delta_bound (dget rule ''min_monthly_delta_usd'');
          hi = delta_bound (dget rule ''max_monthly_delta_usd'');
          perm = dget rule ''required_permission'';
          sep = dget rule ''require_requester_reviewer_separation''
      in (case i of PStr s \<Rightarrow> s \<noteq> [] \<and> length s \<le> 64 | _ \<Rightarrow> False)
       \<and> (case lo of None \<Rightarrow> True | Some x \<Rightarrow> 0 \<le> x) \<and> (case hi of None \<Rightarrow> True | Some y \<Rightarrow> 0 \<le> y)
       \<and> (case (lo, hi) of (Some x, Some y) \<Rightarrow> x \<le> y | _ \<Rightarrow> True)
       \<and> (perm = PNone \<or> normalize_permission perm \<noteq> None)
       \<and> (sep = PNone \<or> is_bool sep))"

definition rule_key :: "pydict \<Rightarrow> string" where
  "rule_key rule = lower (str_or_empty (dget rule ''rule_id''))"

lemma normalize_rule_shape:
  assumes "normalize_rule index seen raw = Inr (key, rule)"
  obtains d i es ps lo hi ri pe ro se where "raw = PDict d"
    "rule = make_rule i (enabled_flag d) es ps lo hi ri pe ro se" "key = lower i" "key \<notin> set seen"
    "i \<noteq> []" "length i \<le> 64" "strip i = i"
    "delta_bound (dget d ''min_monthly_delta_usd'') = lo" "delta_bound (dget d ''max_monthly_delta_usd'') = hi"
    "\<not> (case lo of None \<Rightarrow> False | Some x \<Rightarrow> x < 0)" "\<not> (case hi of None \<Rightarrow> False | Some y \<Rightarrow> y < 0)"
    "\<not> (case (lo, hi) of (Some x, Some y) \<Rightarrow> y < x | _ \<Rightarrow> False)"
    "pe = None \<or> normalize_permission (dget d ''required_permission'') = pe"
    "se = PNone \<or> is_bool se"
    "string_list_of (Some normalize_environment) (dget d ''environments'') = Inr es"
    "string_list_of None (dget d ''action_prefixes'') = Inr ps"
    "string_list_of None (dget d ''risk_levels'') = Inr ri"
    "reviewer_roles_of (dget d ''allowed_reviewer_roles'') = Inr ro"
proof -
  obtain d where d: "raw = PDict d"
    using assms by (cases raw) (simp_all add: normalize_rule_def rule_error_def)
  show thesis
    using assms unfolding d normalize_rule_def pyval.case Let_def rule_error_def
    by (simp split: if_split_asm add: and_then_Inr) (elim exE conjE, rule that [OF d], erule sym, erule sym, (simp add: not_less)+)+
qed

lemma normalize_rule_fixed:
  assumes "normalize_rule index seen raw = Inr (key, rule)" "key \<notin> set seen'"
  shows "normalize_rule index' seen' (PDict rule) = Inr (key, rule)"
  using assms(1)
proof (cases rule: normalize_rule_shape)
  case (1 d i es ps lo hi ri pe ro se)
  note lists = string_list_of_idem [OF 1(15)] string_list_of_idem [OF 1(16)] string_list_of_idem [OF 1(17)]
    reviewer_roles_of_idem [OF 1(18)]
  have pe: "opt_val PStr pe = PNone \<longleftrightarrow> pe = None" "normalize_permission (opt_val PStr pe) = pe"
  proof -
    have "norm_key [] \<noteq> perm_nonprod" "norm_key [] \<noteq> perm_prod"
      by (simp_all add: perm_nonprod_def perm_prod_def)
    then have "normalize_permission PNone = None"
      by (simp add: normalize_permission_def str_or_empty_def truthy_def)
    then show "normalize_permission (opt_val PStr pe) = pe"
      using 1(13) normalize_permission_Some by (cases pe) (auto simp: opt_val_def)
  qed (simp add: opt_val_def split: option.split)
  have deltas: "delta_bound (money_text lo) = lo" "delta_bound (money_text hi) = hi"
    using 1(8,9) by (simp_all add: delta_bound_text)
  show ?thesis
    unfolding 1(2) normalize_rule_def pyval.case Let_def make_rule_dget str_or_empty_PStr 1(7) deltas pe lists
    using 1(3,5,6,10-12,14) assms(2) by (cases pe) (auto simp: lists deltas)
qed

lemma normalize_rule_ok:
  assumes "normalize_rule index seen raw = Inr (key, rule)"
  shows "rule_ok rule \<and> rule_key rule = key \<and> key \<notin> set seen"
  using assms
proof (cases rule: normalize_rule_shape)
  case (1 d i es ps lo hi ri pe ro se)
  have "rule_key rule = key" "key \<notin> set seen"
    using 1 by (simp_all add: rule_key_def)
  moreover have "delta_bound (money_text lo) = lo" "delta_bound (money_text hi) = hi"
    using 1(8,9) by (simp_all add: delta_bound_text)
  then have "rule_ok rule"
    using 1(5,6,10-14) unfolding 1(2)
    by (auto simp: rule_ok_def opt_val_def not_less dest: normalize_permission_Some split: option.splits)
  ultimately show ?thesis by blast
qed

lemma normalize_rules_loop_ok:
  "normalize_rules_loop index seen raws = Inr rules \<Longrightarrow>
    length rules = length raws \<and> list_all rule_ok rules \<and> distinct (map rule_key rules)
    \<and> set (map rule_key rules) \<inter> set seen = {}"
proof (induction raws arbitrary: index seen rules)
  case (Cons raw raws)
  then obtain key rule rest where 1: "normalize_rule index seen raw = Inr (key, rule)"
    and 2: "normalize_rules_loop (index + 1) (key # seen) raws = Inr rest" and 3: "rules = rule # rest"
    by (auto simp: and_then_Inr)
  from normalize_rule_ok [OF 1] Cons.IH [OF 2] 3 show ?case by auto
qed simp

lemma normalize_rules_loop_fixed:
  "normalize_rules_loop index seen raws = Inr rules \<Longrightarrow> set (map rule_key rules) \<inter> set seen' = {} \<Longrightarrow>
    normalize_rules_loop index' seen' (map PDict rules) = Inr rules"
proof (induction raws arbitrary: index seen rules index' seen')
  case (Cons raw raws)
  then obtain key rule rest where 1: "normalize_rule index seen raw = Inr (key, rule)"
    and 2: "normalize_rules_loop (index + 1) (key # seen) raws = Inr rest" and 3: "rules = rule # rest"
    by (auto simp: and_then_Inr)
  have k: "rule_key rule = key" using normalize_rule_ok [OF 1] by blast
  have "key \<notin> set seen'" using Cons.prems(2) 3 k by auto
  moreover have "set (map rule_key rest) \<inter> set (key # seen') = {}"
    using Cons.prems(2) normalize_rules_loop_ok [OF 2] 3 by auto
  ultimately show ?case
    using normalize_rule_fixed [OF 1] Cons.IH [OF 2] 3 by simp
qed simp

section \<open>Routing takes the first match\<close>

lemma route_rules_first:
  assumes "route_rules try i def raws = Inr trace"
  shows "(trace = def \<and> (\<forall>k<length raws. try (i + int k) (raws ! k) = Inr None)) \<or>
    (\<exists>k<length raws. try (i + int k) (raws ! k) = Inr (Some trace) \<and>
      (\<forall>j<k. try (i + int j) (raws ! j) = Inr None))"
  using assms
proof (induction raws arbitrary: i)
  case (Cons raw raws)
  show ?case
  proof (cases "try i raw")
    case (Inr r)
    show ?thesis
    proof (cases r)
      case None
      with Inr Cons.prems have "route_rules try (i + 1) def raws = Inr trace" by simp
      from Cons.IH [OF this] show ?thesis
      proof
        assume "trace = def \<and> (\<forall>k<length raws. try (i + 1 + int k) (raws ! k) = Inr None)"
        then have "\<forall>k<length (raw # raws). try (i + int k) ((raw # raws) ! k) = Inr None"
          using Inr None by (auto simp: nth_Cons algebra_simps split: nat.split)
        with \<open>trace = def \<and> _\<close> show ?thesis by blast
      next
        assume "\<exists>k<length raws. try (i + 1 + int k) (raws ! k) = Inr (Some trace) \<and>
          (\<forall>j<k. try (i + 1 + int j) (raws ! j) = Inr None)"
        then obtain k where k: "k < length raws" "try (i + 1 + int k) (raws ! k) = Inr (Some trace)"
          "\<forall>j<k. try (i + 1 + int j) (raws ! j) = Inr None" by blast
        have "\<forall>j<Suc k. try (i + int j) ((raw # raws) ! j) = Inr None"
          using k(3) Inr None by (auto simp: nth_Cons algebra_simps split: nat.split)
        with k(1,2) show ?thesis
          by (intro disjI2 exI [of _ "Suc k"]) (simp add: algebra_simps)
      qed
    next
      case (Some t)
      with Inr Cons.prems show ?thesis by (intro disjI2 exI [of _ 0]) simp
    qed
  qed (use Cons.prems in simp)
qed simp

definition trace_ok :: "pydict \<Rightarrow> bool" where
  \<comment> \<open>a route always names a supported permission, supported roles and a separation flag\<close>
  "trace_ok trace =
     ((case dget trace ''required_permission'' of PStr p \<Rightarrow> normalize_permission (PStr p) = Some p | _ \<Rightarrow> False)
      \<and> (case dget trace ''allowed_reviewer_roles'' of
           PList rs \<Rightarrow> rs \<noteq> [] \<and> list_all (\<lambda>r. r \<in> set (map PStr supported_reviewer_roles)) rs | _ \<Rightarrow> False)
      \<and> is_bool (dget trace ''require_requester_reviewer_separation''))"

lemma default_permission_ok [simp]:
  "normalize_permission (PStr (default_required_permission env)) = Some (default_required_permission env)"
proof -
  have "norm_key perm_nonprod = perm_nonprod" "norm_key perm_prod = perm_prod" by (code_simp, code_simp)
  then show ?thesis by (simp add: default_required_permission_def normalize_permission_def Let_def)
qed

lemma default_trace_ok: "trace_ok (default_routing_trace p d)"
  by (simp add: default_routing_trace_def trace_ok_def dget_def Let_def strs_def is_bool_def
      default_allowed_reviewer_roles_def supported_reviewer_roles_def)

lemma default_trace_permission:
  "dget (default_routing_trace p d) ''required_permission'' =
    PStr (default_required_permission (normalize_environment (dec_environment d)))"
  by (simp add: default_routing_trace_def dget_def Let_def)

lemma roles_listed_ok:
  "reviewer_roles_of v = Inr rs \<Longrightarrow>
    rs \<noteq> [] \<and> list_all (\<lambda>r. r \<in> set (map PStr supported_reviewer_roles)) (map PStr rs)"
  using allowed_reviewer_roles_nonempty allowed_reviewer_roles_supported
  by (auto simp: reviewer_roles_of_def list_all_iff split: if_splits option.splits)

lemma py_str_PStr [simp]: "py_str (PStr s) = s"
  by (simp add: py_str_def)

lemma matched_trace_dget [simp]:
  "dget (matched_trace i p rs sep env ps lo hi ri r) ''required_permission'' = PStr p"
  "dget (matched_trace i p rs sep env ps lo hi ri r) ''allowed_reviewer_roles'' = strs rs"
  "dget (matched_trace i p rs sep env ps lo hi ri r) ''require_requester_reviewer_separation'' = PBool sep"
  by (simp_all add: matched_trace_def dget_def)

lemma rule_permission_ok:
  "normalize_permission (PStr (rule_permission (default_routing_trace p d) rule)) =
    Some (rule_permission (default_routing_trace p d) rule)"
  by (auto simp: rule_permission_def default_trace_permission dest: normalize_permission_Some split: option.split)

lemma skip_iff:
  "(if c then Inr None else r) = Inr (Some t) \<longleftrightarrow> \<not> c \<and> r = Inr (Some t)"
  by simp

lemma rule_trace_Some:
  assumes "rule_trace def env action delta risk i raw = Inr (Some trace)"
  obtains rule roles sep ps lo hi ri where "reviewer_roles_of (dget rule ''allowed_reviewer_roles'') = Inr roles"
    "trace = matched_trace (rule_name i rule) (rule_permission def rule) roles sep env ps lo hi ri risk"
proof -
  obtain rule where raw: "raw = PDict rule"
    using assms by (cases raw) (simp_all add: rule_trace_def)
  show thesis
    using assms unfolding raw rule_trace_def pyval.case Let_def
    by (simp only: and_then_Inr skip_iff sum.inject option.inject) (elim exE conjE, rule that, assumption, erule sym)
qed

lemma rule_trace_ok:
  assumes "rule_trace (default_routing_trace p d) env action delta risk i raw = Inr (Some trace)"
  shows "trace_ok trace"
  using assms
proof (cases rule: rule_trace_Some)
  case (1 rule roles sep ps lo hi ri)
  with roles_listed_ok [OF 1(1)] rule_permission_ok [of p d rule] show ?thesis
    by (simp add: trace_ok_def strs_def is_bool_def)
qed

lemma resolve_trace_ok: "resolve_routing_trace p d = Inr trace \<Longrightarrow> trace_ok trace"
  unfolding resolve_routing_trace_def Let_def
  using route_rules_first rule_trace_ok default_trace_ok by blast

section \<open>What authority means\<close>

lemma routing_trace_known:
  assumes "routing_trace_or_default p d a = Inr trace"
  shows "is_bool (dget trace ''require_requester_reviewer_separation'')"
proof (cases "resolve_routing_trace p d = Inr trace")
  case True
  from resolve_trace_ok [OF this] show ?thesis by (simp add: trace_ok_def)
next
  case False
  then show ?thesis
    using assms by (auto simp: routing_trace_or_default_def Let_def is_bool_def split: option.splits if_splits)
qed

lemma allowed_roles_listed:
  assumes "rs \<noteq> []" "set rs \<subseteq> set supported_reviewer_roles"
  shows "set (normalize_allowed_reviewer_roles (Some (map PStr rs))) = set rs"
proof -
  define step where "step acc r = (let role = normalize_role_value (PStr r) in
      if role \<notin> set supported_reviewer_roles then acc else add_new role acc)" for acc r
  have "set (foldl step acc xs) = set acc \<union> set xs" if "set xs \<subseteq> set supported_reviewer_roles" for acc xs
    using that by (induction xs arbitrary: acc) (auto simp: supported_role_normal step_def)
  from this [OF assms(2), of "[]"] have all: "set (foldl step [] rs) = set rs" by simp
  then have "foldl step [] rs \<noteq> []" using assms(1) by auto
  moreover have "normalize_allowed_reviewer_roles (Some (map PStr rs)) =
      (if foldl step [] rs = [] then default_allowed_reviewer_roles else foldl step [] rs)"
    unfolding normalize_allowed_reviewer_roles_def option.case foldl_map step_def Let_def ..
  ultimately show ?thesis using all by simp
qed

lemma route_roles:
  assumes "routing_trace_or_default p d a = Inr trace"
  obtains rs where "dget trace ''allowed_reviewer_roles'' = strs rs" "rs \<noteq> []" "set rs \<subseteq> set supported_reviewer_roles"
proof (cases "resolve_routing_trace p d = Inr trace")
  case True
  from resolve_trace_ok [OF this] obtain vs where vs: "dget trace ''allowed_reviewer_roles'' = PList vs" "vs \<noteq> []"
      "list_all (\<lambda>r. r \<in> set (map PStr supported_reviewer_roles)) vs"
    by (auto simp: trace_ok_def split: pyval.splits)
  have "\<exists>rs. vs = map PStr rs \<and> set rs \<subseteq> set supported_reviewer_roles"
    using vs(3)
  proof (induction vs)
    case (Cons v vs)
    then obtain x rs where "v = PStr x" "x \<in> set supported_reviewer_roles" "vs = map PStr rs" "set rs \<subseteq> set supported_reviewer_roles"
      by auto
    then show ?case by (intro exI [of _ "x # rs"]) simp
  qed simp
  then show ?thesis using vs(1,2) that by (auto simp: strs_def)
next
  case False
  then have "dget trace ''allowed_reviewer_roles'' =
      strs (normalize_allowed_reviewer_roles (list_or_none (dget (apr_trace a) ''allowed_reviewer_roles'')))"
    using assms by (auto simp: routing_trace_or_default_def Let_def split: option.splits if_splits)
  then show ?thesis by (rule that) (simp_all add: allowed_reviewer_roles_nonempty allowed_reviewer_roles_supported)
qed

lemma enforce_authority_Inr:
  assumes "enforce_reviewer_authority sc p a d u sep = Inr (trace, a')"
  obtains perm where "routing_trace_or_default p d a = Inr trace" "a' = adopt_trace trace a"
    "norm_key (usr_role u) \<in> set (normalize_allowed_reviewer_roles (list_or_none (dget trace ''allowed_reviewer_roles'')))"
    "normalize_permission (dget trace ''required_permission'') = Some perm"
    "user_has_approval_permission sc u perm"
    "\<not> (sep \<and> truthy (dget trace ''require_requester_reviewer_separation'') \<and> apr_requested_by a = Some (usr_id u))"
  using assms
  by (auto simp: enforce_reviewer_authority_def and_then_Inr Let_def normalize_role_value_def
      split: if_splits option.splits)

lemma adopt_trace_simps [simp]:
  "apr_id (adopt_trace t a) = apr_id a" "apr_status (adopt_trace t a) = apr_status a"
  "apr_tenant (adopt_trace t a) = apr_tenant a" "apr_decision (adopt_trace t a) = apr_decision a"
  "apr_requested_by (adopt_trace t a) = apr_requested_by a" "apr_expires (adopt_trace t a) = apr_expires a"
  "apr_token_hash (adopt_trace t a) = apr_token_hash a" "apr_token_consumed (adopt_trace t a) = apr_token_consumed a"
  "apr_token_expires (adopt_trace t a) = apr_token_expires a"
  by (simp_all add: adopt_trace_def)

section \<open>Properties\<close>

text \<open>A list of routing rules that normalises has at most 64 rules, no two with the same name up
  to case, each with a usable name, consistent non-negative cost bounds and a supported permission;
  and normalising the result again gives the same rules.\<close>

theorem routing_rules_normal_form:
  assumes "normalize_routing_rules raws = Inr rules"
  shows "length rules \<le> 64 \<and> list_all rule_ok rules \<and> distinct (map rule_key rules)
    \<and> normalize_routing_rules (map PDict rules) = Inr rules"
proof (cases "raws = []")
  case True
  with assms show ?thesis by (simp add: normalize_routing_rules_def)
next
  case False
  with assms have len: "length raws \<le> 64" and run: "normalize_rules_loop 1 [] raws = Inr rules"
    by (auto simp: normalize_routing_rules_def not_less split: if_splits)
  from normalize_rules_loop_ok [OF run] normalize_rules_loop_fixed [OF run, of "[]" 1] len False
  show ?thesis by (auto simp: normalize_routing_rules_def)
qed

definition sample_rule :: pyval where
  "sample_rule = PDict [(''rule_id'', PStr '' Big '')]"

theorem routing_rules_normal_form_witness:
  "\<exists>rules. normalize_routing_rules [sample_rule] = Inr rules \<and> length rules = 1
    \<and> normalize_routing_rules (map PDict rules) = Inr rules"
proof -
  have "ok (normalize_routing_rules [sample_rule])" by code_simp
  then obtain rules where r: "normalize_routing_rules [sample_rule] = Inr rules"
    by (cases "normalize_routing_rules [sample_rule]") auto
  then have "length rules = 1"
    by (auto simp: normalize_routing_rules_def and_then_Inr split: if_splits)
  with r routing_rules_normal_form [OF r] show ?thesis by blast
qed

text \<open>Routing takes the first rule of the policy that matches: the trace of a decision is that
  of some rule all of whose predecessors were passed over, or the default route when every rule was
  passed over; either way it names a supported permission and at least one supported role.\<close>

theorem routing_first_match:
  assumes "resolve_routing_trace p d = Inr trace"
    and "try = rule_trace (default_routing_trace p d) (normalize_environment (dec_environment d))
      (norm_key (dec_action d)) (quantize4 (dec_monthly d)) (decision_risk_level d)"
  shows "((trace = default_routing_trace p d
        \<and> (\<forall>k<length (rules_of_policy p). try (1 + int k) (rules_of_policy p ! k) = Inr None)) \<or>
      (\<exists>k<length (rules_of_policy p). try (1 + int k) (rules_of_policy p ! k) = Inr (Some trace)
        \<and> (\<forall>j<k. try (1 + int j) (rules_of_policy p ! j) = Inr None)))
    \<and> trace_ok trace"
  using route_rules_first [OF assms(1) [unfolded resolve_routing_trace_def Let_def, folded assms(2)]]
    resolve_trace_ok [OF assms(1)] by blast

lemma sample_default_route: "resolve_routing_trace sample_policy sample_decision = Inr (default_routing_trace sample_policy sample_decision)"
  by (simp add: resolve_routing_trace_def rules_of_policy_def sample_policy_def)

theorem routing_first_match_witness:
  "trace_ok (default_routing_trace sample_policy sample_decision)"
  using routing_first_match [OF sample_default_route refl] by blast

text \<open>C40: A reviewer passes the authority check of a route only with a role in the list of roles that the route
  allows, with the permission that the route requires (from the role, or from a SCIM group of the reviewer's own
  tenant), and, where the route separates requester and reviewer, only on another user's request.  The route is the
  one stored with the request if that is usable, else the one that the policy gives for the decision.\<close>

theorem authority_enforced:
  assumes "enforce_reviewer_authority sc p a d u True = Inr (trace, a')"
  shows "routing_trace_or_default p d a = Inr trace
    \<and> (\<exists>roles. dget trace ''allowed_reviewer_roles'' = PList (map PStr roles) \<and> norm_key (usr_role u) \<in> set roles
        \<and> set roles \<subseteq> set supported_reviewer_roles)
    \<and> (\<exists>perm. normalize_permission (dget trace ''required_permission'') = Some perm
        \<and> (perm \<in> set (role_default_permissions (usr_role u)) \<or>
           (\<exists>t ps. usr_tenant u = Some t \<and> load_scim_permissions sc t (usr_id u) = Some ps \<and> perm \<in> set ps)))
    \<and> (dget trace ''require_requester_reviewer_separation'' = PBool True \<longrightarrow> apr_requested_by a \<noteq> Some (usr_id u))"
  using assms
proof (cases rule: enforce_authority_Inr)
  case (1 perm)
  obtain q where "normalize_permission (PStr perm) = Some q"
    and src: "q \<in> set (role_default_permissions (usr_role u)) \<or>
      (\<exists>t ps. usr_tenant u = Some t \<and> load_scim_permissions sc t (usr_id u) = Some ps \<and> q \<in> set ps)"
    using user_permission_sources [OF 1(5)] by blast
  then have "q = perm"
    using normalize_permission_Some [OF 1(4)] by simp
  moreover obtain rs where rs: "dget trace ''allowed_reviewer_roles'' = strs rs" "rs \<noteq> []"
      "set rs \<subseteq> set supported_reviewer_roles"
    by (rule route_roles [OF 1(1)])
  then have "norm_key (usr_role u) \<in> set rs"
    using 1(3) allowed_roles_listed by (simp add: list_or_none_def strs_def)
  ultimately show ?thesis using src 1(1,4,6) rs by (auto simp: truthy_def strs_def)
qed

theorem authority_enforced_witness:
  "\<exists>trace a' roles. enforce_reviewer_authority empty_scim sample_policy sample_approval sample_decision sample_owner True
      = Inr (trace, a') \<and> dget trace ''allowed_reviewer_roles'' = PList (map PStr roles) \<and> norm_key (usr_role sample_owner) \<in> set roles
      \<and> apr_requested_by sample_approval \<noteq> Some (usr_id sample_owner)"
proof -
  have "ok (enforce_reviewer_authority empty_scim sample_policy sample_approval sample_decision sample_owner True)"
    by code_simp
  then obtain trace a' where run: "enforce_reviewer_authority empty_scim sample_policy sample_approval
      sample_decision sample_owner True = Inr (trace, a')"
    by (cases "enforce_reviewer_authority empty_scim sample_policy sample_approval sample_decision sample_owner True")
      auto
  moreover have "apr_requested_by sample_approval \<noteq> Some (usr_id sample_owner)"
    by (simp add: sample_approval_def sample_owner_def)
  ultimately show ?thesis using authority_enforced [OF run] by blast
qed

end
