(* ===== verification/Credits.thy ===== *)
theory Credits
  imports Waterfall
begin

text \<open>
  \<open>credit_ops.py\<close>, \<open>budget_credit_ops.py\<close> and the queries of \<open>runtime_query_ops.py\<close>: budgets,
  credit grants, the headroom they leave, reserving credit for a decision and settling it.

  A loop of the source over rows it mutates is a recursive function on the list of selected rows
  that carries the database.  An exception discards the database of the call, because the
  transaction is never committed.
\<close>

section \<open>Budgets and grants\<close>

definition normalize_scope :: "string \<Rightarrow> string" where
  \<comment> \<open>\<open>str(scope_key or "default").strip().lower() or "default"\<close>\<close>
  "normalize_scope s = or_default (norm_key (or_default s ''default'')) ''default''"

definition list_budgets :: "db \<Rightarrow> uuid \<Rightarrow> budget list" where
  "list_budgets db tenant = sort_key bud_scope (filter (\<lambda>b. bud_tenant b = tenant) (budgets db))"

definition upsert_budget :: "db \<Rightarrow> uuid \<Rightarrow> uuid \<Rightarrow> string \<Rightarrow> usd \<Rightarrow> bool \<Rightarrow> budget outcome \<times> db" where
  "upsert_budget db tenant actor scope_key limit is_active =
     (let scope = normalize_scope scope_key
      in if limit < 0 then (Inl (DomainError 422 ''monthly_limit_usd must be >= 0''), db)
         else case first_match (\<lambda>b. bud_tenant b = tenant \<and> bud_scope b = scope) (budgets db) of
           None \<Rightarrow>
             let b = \<lparr>bud_id = db_next db, bud_tenant = tenant, bud_scope = scope,
                      bud_limit = quantize4 limit, bud_active = is_active, bud_created_by = Some actor\<rparr>
             in (Inr b, db\<lparr>budgets := budgets db @ [b], db_next := db_next db + 1\<rparr>)
         | Some b \<Rightarrow>
             let b' = b\<lparr>bud_limit := quantize4 limit, bud_active := is_active\<rparr>
             in (Inr b', db\<lparr>budgets := update_rows (\<lambda>r. bud_id r = bud_id b) (\<lambda>_. b') (budgets db)\<rparr>))"

definition list_credits :: "db \<Rightarrow> uuid \<Rightarrow> credit_grant list" where
  "list_credits db tenant =
     sort_key (\<lambda>g. - gr_created g) (filter (\<lambda>g. gr_tenant g = tenant) (grants db))"

definition create_credit_grant ::
  "db \<Rightarrow> uuid \<Rightarrow> uuid \<Rightarrow> pool_type \<Rightarrow> string \<Rightarrow> usd \<Rightarrow> time option \<Rightarrow> string option
    \<Rightarrow> credit_grant outcome \<times> db" where
  "create_credit_grant db tenant actor pool scope_key total_amount expires reason =
     (let scope = normalize_scope scope_key; amount = quantize4 total_amount
      in if amount \<le> 0 then (Inl (DomainError 422 ''total_amount_usd must be > 0''), db)
         else if (case expires of None \<Rightarrow> False | Some e \<Rightarrow> e \<le> db_now db)
         then (Inl (DomainError 422 ''expires_at must be in the future''), db)
         else
           let g = \<lparr>gr_id = db_next db, gr_tenant = tenant, gr_pool = pool, gr_scope = scope,
                    gr_total = amount, gr_remaining = amount, gr_expires = expires,
                    gr_reason = (case reason of None \<Rightarrow> None
                                 | Some r \<Rightarrow> if r = [] then None else Some (strip r)),
                    gr_active = True, gr_created_by = Some actor, gr_created = db_now db\<rparr>
           in (Inr g, db\<lparr>grants := grants db @ [g], db_next := db_next db + 1\<rparr>))"

section \<open>Queries\<close>

definition get_decision_by_idempotency :: "db \<Rightarrow> uuid \<Rightarrow> enf_source \<Rightarrow> string \<Rightarrow> decision option" where
  "get_decision_by_idempotency db tenant source key =
     first_match (\<lambda>d. dec_tenant d = tenant \<and> dec_source d = source \<and> dec_idempotency d = key) (decisions db)"

definition get_approval_by_decision :: "db \<Rightarrow> uuid \<Rightarrow> approval option" where
  "get_approval_by_decision db dec = first_match (\<lambda>a. apr_decision a = dec) (approvals db)"

definition get_reserved_totals :: "db \<Rightarrow> uuid \<Rightarrow> time \<Rightarrow> time \<Rightarrow> usd \<times> usd" where
  "get_reserved_totals db tenant month_start month_end =
     (let rows = filter (\<lambda>d. dec_tenant d = tenant \<and> dec_reservation_active d
            \<and> month_start \<le> dec_created d \<and> dec_created d < month_end) (decisions db)
      in (total dec_reserved_alloc rows, total dec_reserved_credit rows))"

definition get_effective_budget :: "db \<Rightarrow> uuid \<Rightarrow> string \<Rightarrow> budget option" where
  "get_effective_budget db tenant scope_key =
     (case first_match (\<lambda>b. bud_tenant b = tenant \<and> bud_scope b = normalize_scope scope_key \<and> bud_active b)
             (budgets db) of
        Some b \<Rightarrow> Some b
      | None \<Rightarrow> first_match (\<lambda>b. bud_tenant b = tenant \<and> bud_scope b = ''default'' \<and> bud_active b) (budgets db))"

definition load_approval_with_decision :: "db \<Rightarrow> uuid \<Rightarrow> uuid \<Rightarrow> (approval \<times> decision) outcome" where
  "load_approval_with_decision db tenant approval_id =
     (case first_match (\<lambda>a. apr_id a = approval_id \<and> apr_tenant a = tenant) (approvals db) of
        None \<Rightarrow> Inl (DomainError 404 ''Approval request not found'')
      | Some a \<Rightarrow>
          (case first_match (\<lambda>d. dec_id d = apr_decision a \<and> dec_tenant d = tenant) (decisions db) of
             None \<Rightarrow> Inl (DomainError 404 ''Approval decision not found'')
           | Some d \<Rightarrow> Inr (a, d)))"

definition assert_pending :: "approval \<Rightarrow> unit outcome" where
  "assert_pending a =
     (if apr_status a \<noteq> PENDING
      then Inl (DomainError 409 (''Approval request is already '' @ approval_status_value (apr_status a)))
      else Inr ())"

section \<open>Headrooms\<close>

definition grant_live :: "time \<Rightarrow> credit_grant \<Rightarrow> bool" where
  "grant_live now g = (case gr_expires g of None \<Rightarrow> True | Some e \<Rightarrow> now < e)"

definition get_credit_headrooms :: "db \<Rightarrow> uuid \<Rightarrow> string \<Rightarrow> time \<Rightarrow> usd \<times> usd" where
  "get_credit_headrooms db tenant scope_key now =
     (let scope = normalize_scope scope_key;
          reserved_remaining = total gr_remaining (filter (\<lambda>g. gr_tenant g = tenant \<and> gr_pool g = RESERVED
            \<and> gr_active g \<and> gr_scope g \<in> {scope, ''default''} \<and> grant_live now g) (grants db));
          emergency_remaining = total gr_remaining (filter (\<lambda>g. gr_tenant g = tenant \<and> gr_pool g = EMERGENCY
            \<and> gr_active g \<and> grant_live now g) (grants db));
          decisions_reserved_total = total dec_reserved_credit
            (filter (\<lambda>d. dec_tenant d = tenant \<and> dec_reservation_active d) (decisions db));
          mapped_active_total = total al_reserved
            (filter (\<lambda>a. al_tenant a = tenant \<and> al_active a) (allocs db));
          uncovered = max 0 (decisions_reserved_total - mapped_active_total);
          reserved_headroom = max 0 reserved_remaining;
          emergency_headroom = max 0 emergency_remaining;
          reduction = min uncovered reserved_headroom;
          rest = quantize4 (uncovered - reduction)
      in (quantize4 (if 0 < uncovered then quantize4 (max 0 (reserved_headroom - reduction))
                     else reserved_headroom),
          quantize4 (if 0 < uncovered \<and> 0 < rest then quantize4 (max 0 (emergency_headroom - rest))
                     else emergency_headroom)))"

definition get_active_credit_headroom :: "db \<Rightarrow> uuid \<Rightarrow> string \<Rightarrow> time \<Rightarrow> usd" where
  "get_active_credit_headroom db tenant scope_key now =
     (case get_credit_headrooms db tenant scope_key now of (r, e) \<Rightarrow> quantize4 (r + e))"

section \<open>Reserving credit\<close>

definition expires_key :: "credit_grant \<Rightarrow> int" where
  "expires_key g = (case gr_expires g of None \<Rightarrow> 0 | Some e \<Rightarrow> e)"

definition scope_priority :: "string \<Rightarrow> credit_grant \<Rightarrow> int" where
  "scope_priority scope g = (if gr_scope g = scope then 0 else if gr_scope g = ''default'' then 1 else 2)"

definition eligible_grants :: "db \<Rightarrow> uuid \<Rightarrow> string \<Rightarrow> pool_type \<Rightarrow> time \<Rightarrow> credit_grant list" where
  \<comment> \<open>the query of \<open>reserve_credit_from_grants\<close>\<close>
  "eligible_grants db tenant scope pool now =
     (let rows = filter (\<lambda>g. gr_tenant g = tenant \<and> gr_active g \<and> gr_pool g = pool \<and> grant_live now g) (grants db);
          keys = [none_last \<circ> gr_expires, expires_key, gr_created, int \<circ> gr_id]
      in if pool = RESERVED
         then order_by (scope_priority scope # keys) (filter (\<lambda>g. gr_scope g \<in> {scope, ''default''}) rows)
         else order_by keys rows)"

definition reserve_diag :: "credit_grant \<Rightarrow> pool_type \<Rightarrow> usd \<Rightarrow> pydict" where
  "reserve_diag g pool amount =
     [(''credit_grant_id'', PUuid (gr_id g)), (''credit_pool_type'', PStr (pool_value pool)),
      (''scope_key'', PStr (gr_scope g)), (''reserved_amount_usd'', PStr (fixed_str 4 amount))]"

definition draw_grant :: "usd \<Rightarrow> credit_grant \<Rightarrow> credit_grant" where
  \<comment> \<open>the assignments to \<open>grant.remaining_amount_usd\<close> and \<open>grant.active\<close>\<close>
  "draw_grant amount g =
     (let left = quantize4 (quantize4 (gr_remaining g) - amount)
      in g\<lparr>gr_remaining := left, gr_active := (if left \<le> 0 then False else gr_active g)\<rparr>)"

definition hold_amount :: "uuid \<Rightarrow> uuid \<Rightarrow> pool_type \<Rightarrow> credit_grant \<Rightarrow> usd \<Rightarrow> db \<Rightarrow> db" where
  \<comment> \<open>the body of the loop: draw from the grant and add the allocation row\<close>
  "hold_amount tenant dec pool g amount db =
     db\<lparr>grants := update_rows (\<lambda>r. gr_id r = gr_id g) (draw_grant amount) (grants db),
        allocs := allocs db @ [\<lparr>al_id = db_next db, al_tenant = tenant, al_decision = dec, al_grant = gr_id g,
          al_pool = pool, al_reserved = amount, al_consumed = 0, al_released = 0, al_active = True,
          al_created = db_now db, al_settled = None\<rparr>],
        db_next := db_next db + 1\<rparr>"

fun reserve_loop ::
  "uuid \<Rightarrow> uuid \<Rightarrow> pool_type \<Rightarrow> credit_grant list \<Rightarrow> usd \<Rightarrow> db \<Rightarrow> pydict list \<times> usd \<times> db" where
  "reserve_loop tenant dec pool [] remaining db = ([], remaining, db)"
| "reserve_loop tenant dec pool (g # gs) remaining db =
     (if remaining \<le> 0 then ([], remaining, db)
      else let grant_remaining = quantize4 (gr_remaining g);
               amount = quantize4 (min remaining grant_remaining)
        in if grant_remaining \<le> 0 then reserve_loop tenant dec pool gs remaining db
           else if amount \<le> 0 then reserve_loop tenant dec pool gs remaining db
           else let (diags, rest, db') = reserve_loop tenant dec pool gs (quantize4 (remaining - amount))
                      (hold_amount tenant dec pool g amount db)
                in (reserve_diag g pool amount # diags, rest, db'))"

definition reserve_credit_from_grants ::
  "db \<Rightarrow> uuid \<Rightarrow> uuid \<Rightarrow> string \<Rightarrow> pool_type \<Rightarrow> usd \<Rightarrow> time \<Rightarrow> (pydict list \<times> db) outcome" where
  "reserve_credit_from_grants db tenant dec scope pool target_usd now =
     (let target = quantize4 target_usd
      in if target \<le> 0 then Inr ([], db)
         else case reserve_loop tenant dec pool (eligible_grants db tenant scope pool now) target db of
           (diags, remaining, db') \<Rightarrow>
             if 0 < remaining
             then Inl (DomainError 409
               (''Insufficient credit grant headroom during reservation allocation (pool='' @ pool_value pool
                @ '', missing='' @ fixed_str 4 remaining @ '')''))
             else Inr (diags, db'))"

definition reserve_credit_for_decision ::
  "db \<Rightarrow> uuid \<Rightarrow> uuid \<Rightarrow> string \<Rightarrow> usd \<Rightarrow> usd \<Rightarrow> time \<Rightarrow> (pydict list \<times> db) outcome" where
  "reserve_credit_for_decision db tenant dec scope_key reserved_usd emergency_usd now =
     (let reserved_target = quantize4 reserved_usd; emergency_target = quantize4 emergency_usd;
          scope = normalize_scope scope_key
      in and_then
           (if 0 < reserved_target
            then reserve_credit_from_grants db tenant dec scope RESERVED reserved_target now
            else Inr ([], db))
           (\<lambda>(diags, db1).
              if 0 < emergency_target
              then and_then (reserve_credit_from_grants db1 tenant dec scope EMERGENCY emergency_target now)
                     (\<lambda>(diags', db2). Inr (diags @ diags', db2))
              else Inr (diags, db1)))"

section \<open>Settling credit\<close>

definition release_grant :: "time \<Rightarrow> usd \<Rightarrow> credit_grant \<Rightarrow> credit_grant" where
  "release_grant now release g =
     (let left = (if 0 < release
                  then min (quantize4 (gr_remaining g + release)) (quantize4 (gr_total g))
                  else gr_remaining g)
      in g\<lparr>gr_remaining := left, gr_active := (0 < left \<and> grant_live now g)\<rparr>)"

definition settle_alloc :: "time \<Rightarrow> usd \<Rightarrow> usd \<Rightarrow> credit_alloc \<Rightarrow> credit_alloc" where
  "settle_alloc now consume release a =
     a\<lparr>al_consumed := quantize4 (al_consumed a + consume),
       al_released := quantize4 (al_released a + release),
       al_active := False, al_settled := Some now\<rparr>"

definition settle_diag :: "credit_grant \<Rightarrow> credit_alloc \<Rightarrow> usd \<Rightarrow> usd \<Rightarrow> usd \<Rightarrow> usd \<Rightarrow> pydict" where
  "settle_diag g a reserved consume release left =
     [(''credit_grant_id'', PUuid (gr_id g)), (''credit_pool_type'', PStr (pool_value (al_pool a))),
      (''scope_key'', PStr (gr_scope g)), (''reserved_amount_usd'', PStr (fixed_str 4 reserved)),
      (''consumed_amount_usd'', PStr (fixed_str 4 consume)),
      (''released_amount_usd'', PStr (fixed_str 4 release)),
      (''grant_remaining_amount_usd_after'', PStr (fixed_str 4 (quantize4 left)))]"

fun settle_loop ::
  "uuid \<Rightarrow> time \<Rightarrow> credit_alloc list \<Rightarrow> usd \<Rightarrow> usd \<Rightarrow> db \<Rightarrow> (pydict list \<times> usd \<times> usd \<times> db) outcome" where
  "settle_loop tenant now [] to_consume to_release db = Inr ([], to_consume, to_release, db)"
| "settle_loop tenant now (a # rows) to_consume to_release db =
     (case first_match (\<lambda>g. gr_id g = al_grant a \<and> gr_tenant g = tenant) (grants db) of
        None \<Rightarrow> Inl (DomainError 409 (''Missing credit grant row for reservation allocation '' @ uuid_str (al_id a)))
      | Some g \<Rightarrow>
          let reserved = quantize4 (al_reserved a);
              consume = quantize4 (min reserved to_consume);
              to_consume' = quantize4 (to_consume - consume);
              release = min (quantize4 (reserved - consume)) to_release;
              to_release' = quantize4 (to_release - release);
              db' = db\<lparr>grants := update_rows (\<lambda>r. gr_id r = gr_id g) (release_grant now release) (grants db),
                       allocs := update_rows (\<lambda>r. al_id r = al_id a) (settle_alloc now consume release) (allocs db)\<rparr>
          in and_then (settle_loop tenant now rows to_consume' to_release' db')
               (\<lambda>(diags, c, r, db''). Inr
                  (settle_diag g a reserved consume release (gr_remaining (release_grant now release g)) # diags,
                   c, r, db'')))"

definition settle_credit_reservations ::
  "db \<Rightarrow> uuid \<Rightarrow> decision \<Rightarrow> usd \<Rightarrow> time \<Rightarrow> (pydict list \<times> db) outcome" where
  "settle_credit_reservations db tenant d consumed_usd now =
     (let reserved_credit = quantize4 (dec_reserved_credit d)
      in if reserved_credit \<le> 0 then Inr ([], db)
         else
      let bounded = quantize4 (min (max 0 consumed_usd) reserved_credit);
          rows = order_by [al_created] (filter (\<lambda>a. al_tenant a = tenant \<and> al_decision a = dec_id d \<and> al_active a)
            (allocs db))
      in if rows = []
         then Inl (DomainError 409 ''Missing credit reservation allocation rows for decision settlement'')
         else and_then (settle_loop tenant now rows bounded (quantize4 (reserved_credit - bounded)) db)
           (\<lambda>(diags, c, r, db').
              if 0 < c \<or> 0 < r
              then Inl (DomainError 409 (''Credit reservation settlement drift detected (remaining_consume=''
                     @ fixed_str 4 c @ '', remaining_release='' @ fixed_str 4 r @ '')''))
              else Inr (diags, db')))"

end
