(* ===== verification/Credit_Books.thy ===== *)
theory Credit_Books
  imports Credits Samples
begin

text \<open>
  The books of the credit grants: what every grant has left, what decisions hold of it and what
  they have spent always add up to its total.  Reserving moves money from the grants to the
  allocations, settling moves it back or spends it; neither creates or loses any.  The interface
  \<open>reservation_store\<close> states this for any store of reservations; it is interpreted on the
  credit tables, and its conservation theorem holds for every sequence of operations.
\<close>

section \<open>The balance of the books\<close>

definition held_on :: "uuid \<Rightarrow> credit_alloc \<Rightarrow> usd" where
  "held_on gid a = (if al_grant a = gid \<and> al_active a then al_reserved a else 0)"

definition spent_on :: "uuid \<Rightarrow> credit_alloc \<Rightarrow> usd" where
  "spent_on gid a = (if al_grant a = gid \<and> \<not> al_active a then al_consumed a else 0)"

definition grant_ok :: "db \<Rightarrow> credit_grant \<Rightarrow> bool" where
  "grant_ok db g = (on_grid 4 (gr_remaining g) \<and> on_grid 4 (gr_total g) \<and> 0 \<le> gr_remaining g \<and>
     gr_remaining g + total (held_on (gr_id g)) (allocs db) + total (spent_on (gr_id g)) (allocs db) = gr_total g)"

definition alloc_ok :: "credit_alloc \<Rightarrow> bool" where
  "alloc_ok a = (on_grid 4 (al_reserved a) \<and> on_grid 4 (al_consumed a) \<and> on_grid 4 (al_released a) \<and>
     0 < al_reserved a \<and> 0 \<le> al_consumed a \<and> 0 \<le> al_released a \<and>
     (if al_active a then al_consumed a = 0 \<and> al_released a = 0
      else al_consumed a + al_released a = al_reserved a))"

definition books :: "db \<Rightarrow> bool" where
  "books db = (distinct (map gr_id (grants db)) \<and> distinct (map al_id (allocs db)) \<and>
     (\<forall>a\<in>set (allocs db). alloc_ok a \<and> al_id a < db_next db) \<and>
     (\<forall>g\<in>set (grants db). grant_ok db g))"

definition held :: "credit_alloc \<Rightarrow> usd" where
  "held a = (if al_active a then al_reserved a else 0)"

definition spent :: "credit_alloc \<Rightarrow> usd" where
  "spent a = (if al_active a then 0 else al_consumed a)"

definition held_for :: "uuid \<Rightarrow> uuid \<Rightarrow> credit_alloc \<Rightarrow> usd" where
  "held_for tenant dec a = (if al_tenant a = tenant \<and> al_decision a = dec \<and> al_active a then al_reserved a else 0)"

definition available :: "db \<Rightarrow> usd" where
  "available db = total gr_remaining (grants db)"

definition on_hold :: "db \<Rightarrow> usd" where
  "on_hold db = total held (allocs db)"

definition used_up :: "db \<Rightarrow> usd" where
  "used_up db = total spent (allocs db)"

lemma alloc_held_nonneg: "alloc_ok a \<Longrightarrow> 0 \<le> held_on gid a \<and> 0 \<le> spent_on gid a \<and> 0 \<le> held a \<and> 0 \<le> spent a"
  by (simp add: alloc_ok_def held_on_def spent_on_def held_def spent_def)

lemma booksD:
  assumes "books db"
  shows "distinct (map gr_id (grants db))" "distinct (map al_id (allocs db))"
    "a \<in> set (allocs db) \<Longrightarrow> alloc_ok a" "a \<in> set (allocs db) \<Longrightarrow> al_id a < db_next db"
    "g \<in> set (grants db) \<Longrightarrow> grant_ok db g"
  using assms by (auto simp: books_def)

lemma grant_left_le_total:
  assumes "books db" "g \<in> set (grants db)"
  shows "gr_remaining g \<le> gr_total g"
proof -
  have "0 \<le> total (held_on (gr_id g)) (allocs db)" "0 \<le> total (spent_on (gr_id g)) (allocs db)"
    using booksD(3) [OF assms(1)] by (auto intro!: total_nonneg dest: alloc_held_nonneg)
  then show ?thesis
    using booksD(5) [OF assms] by (simp add: grant_ok_def)
qed

lemma grant_room:
  assumes "books db" "g \<in> set (grants db)" "a \<in> set (allocs db)" "al_active a" "al_grant a = gr_id g"
  shows "gr_remaining g + al_reserved a \<le> gr_total g"
proof -
  have "al_reserved a \<le> total (held_on (gr_id g)) (allocs db)"
    using total_ge_member [OF assms(3), of "held_on (gr_id g)"] alloc_held_nonneg [OF booksD(3) [OF assms(1)]]
      assms(4,5) by (simp add: held_on_def [of _ a])
  moreover have "0 \<le> total (spent_on (gr_id g)) (allocs db)"
    using booksD(3) [OF assms(1)] by (auto intro!: total_nonneg dest: alloc_held_nonneg)
  ultimately show ?thesis
    using booksD(5) [OF assms(1,2)] by (simp add: grant_ok_def)
qed

section \<open>Reserving\<close>

lemma draw_grant_simps [simp]:
  "gr_id (draw_grant x g) = gr_id g" "gr_tenant (draw_grant x g) = gr_tenant g"
  "gr_total (draw_grant x g) = gr_total g"
  by (simp_all add: draw_grant_def Let_def)

lemma draw_grant_left:
  "on_grid 4 (gr_remaining g) \<Longrightarrow> on_grid 4 x \<Longrightarrow> gr_remaining (draw_grant x g) = gr_remaining g - x"
  by (simp add: draw_grant_def Let_def)

lemma hold_amount_simps [simp]:
  "grants (hold_amount t d p g x db) = update_rows (\<lambda>r. gr_id r = gr_id g) (draw_grant x) (grants db)"
  "decisions (hold_amount t d p g x db) = decisions db"
  "approvals (hold_amount t d p g x db) = approvals db"
  "ledger (hold_amount t d p g x db) = ledger db"
  "policies (hold_amount t d p g x db) = policies db"
  "budgets (hold_amount t d p g x db) = budgets db"
  "actions (hold_amount t d p g x db) = actions db"
  "costs (hold_amount t d p g x db) = costs db"
  "db_now (hold_amount t d p g x db) = db_now db"
  "db_next (hold_amount t d p g x db) = db_next db + 1"
  by (simp_all add: hold_amount_def)

lemma allocs_hold_amount:
  "allocs (hold_amount t d p g x db) = allocs db @ [\<lparr>al_id = db_next db, al_tenant = t, al_decision = d,
    al_grant = gr_id g, al_pool = p, al_reserved = x, al_consumed = 0, al_released = 0, al_active = True,
    al_created = db_now db, al_settled = None\<rparr>]"
  by (simp add: hold_amount_def)

lemma hold_amount_books:
  assumes "books db" "g \<in> set (grants db)" "on_grid 4 x" "0 < x" "x \<le> gr_remaining g"
  shows "books (hold_amount t d p g x db)"
proof -
  let ?db = "hold_amount t d p g x db"
  note b = booksD [OF assms(1)]
  have "grant_ok ?db h" if h: "h \<in> set (grants ?db)" for h
  proof -
    obtain h0 where h0: "h0 \<in> set (grants db)" "h = (if gr_id h0 = gr_id g then draw_grant x h0 else h0)"
      using h by (auto simp: in_update_rows)
    show ?thesis
    proof (cases "gr_id h0 = gr_id g")
      case True
      then have "h0 = g" using b(1) h0(1) assms(2) by (meson distinct_map inj_onD)
      then show ?thesis
        using b(5) [OF assms(2)] h0(2) assms(3-5)
        by (simp add: grant_ok_def draw_grant_left allocs_hold_amount held_on_def spent_on_def)
    next
      case False
      then show ?thesis
        using b(5) [OF h0(1)] h0(2) by (simp add: grant_ok_def allocs_hold_amount held_on_def spent_on_def)
    qed
  qed
  moreover have "alloc_ok a \<and> al_id a < db_next ?db" if "a \<in> set (allocs ?db)" for a
    using that b(3,4) [of a] assms(3,4) by (auto simp: allocs_hold_amount alloc_ok_def)
  moreover have "distinct (map gr_id (grants ?db))"
    using b(1) by (simp add: distinct_map_update_rows)
  moreover have "distinct (map al_id (allocs ?db))"
  proof -
    have "db_next db \<notin> al_id ` set (allocs db)" using b(4) by force
    then show ?thesis using b(2) by (simp add: allocs_hold_amount)
  qed
  ultimately show ?thesis by (simp add: books_def)
qed

lemma hold_amount_totals:
  assumes "books db" "g \<in> set (grants db)" "on_grid 4 x"
  shows "available (hold_amount t d p g x db) = available db - x"
    and "on_hold (hold_amount t d p g x db) = on_hold db + x"
    and "used_up (hold_amount t d p g x db) = used_up db"
    and "total (held_for t' d') (allocs (hold_amount t d p g x db)) =
      total (held_for t' d') (allocs db) + (if t' = t \<and> d' = d then x else 0)"
    and "total gr_total (grants (hold_amount t d p g x db)) = total gr_total (grants db)"
proof -
  have "on_grid 4 (gr_remaining g)"
    using booksD(5) [OF assms(1,2)] by (simp add: grant_ok_def)
  then show "available (hold_amount t d p g x db) = available db - x"
    using total_update_unique [OF booksD(1) [OF assms(1)] assms(2), of gr_remaining "draw_grant x"] assms(3)
    by (simp add: available_def draw_grant_left)
qed (simp_all add: on_hold_def used_up_def allocs_hold_amount held_def spent_def held_for_def total_update_rows)

text \<open>What an operation of the credit store leaves alone: every other table, the identity of
  grants, and the allocations of other decisions.\<close>

definition credit_frame :: "db \<Rightarrow> db \<Rightarrow> bool" where
  "credit_frame db db' = (policies db' = policies db \<and> budgets db' = budgets db \<and>
     decisions db' = decisions db \<and> approvals db' = approvals db \<and> ledger db' = ledger db \<and>
     actions db' = actions db \<and> costs db' = costs db \<and> db_now db' = db_now db \<and>
     map gr_id (grants db') = map gr_id (grants db) \<and> map gr_tenant (grants db') = map gr_tenant (grants db) \<and>
     map gr_total (grants db') = map gr_total (grants db) \<and> db_next db \<le> db_next db')"

lemma credit_frame_refl [simp, intro]: "credit_frame db db"
  by (simp add: credit_frame_def)

lemma credit_frame_trans [trans]: "credit_frame a b \<Longrightarrow> credit_frame b c \<Longrightarrow> credit_frame a c"
  by (auto simp: credit_frame_def)

lemma credit_frame_capital: "credit_frame db db' \<Longrightarrow> total gr_total (grants db') = total gr_total (grants db)"
  by (simp add: credit_frame_def total_def)

lemma hold_amount_frame [simp]: "credit_frame db (hold_amount t d p g x db)"
  by (simp add: credit_frame_def map_update_rows)

text \<open>\<open>moved db db' t d x\<close>: the amount \<open>x\<close> has moved from the grants to allocations of
  decision \<open>d\<close>.\<close>

definition moved :: "db \<Rightarrow> db \<Rightarrow> uuid \<Rightarrow> uuid \<Rightarrow> usd \<Rightarrow> bool" where
  "moved db db' t d x = (books db' \<and> credit_frame db db' \<and>
     available db' = available db - x \<and> on_hold db' = on_hold db + x \<and> used_up db' = used_up db \<and>
     (\<forall>t' d'. total (held_for t' d') (allocs db') =
        total (held_for t' d') (allocs db) + (if t' = t \<and> d' = d then x else 0)) \<and>
     set (allocs db) \<subseteq> set (allocs db'))"

lemma moved_refl [simp]: "books db \<Longrightarrow> moved db db t d 0"
  by (simp add: moved_def)

lemma moved_trans: "moved a b t d x \<Longrightarrow> moved b c t d y \<Longrightarrow> moved a c t d (x + y)"
  unfolding moved_def by (intro conjI) (auto intro: credit_frame_trans)

lemma moved_books: "moved db db' t d x \<Longrightarrow> books db'"
  by (simp add: moved_def)

lemma hold_amount_moved:
  assumes "books db" "g \<in> set (grants db)" "on_grid 4 x" "0 < x" "x \<le> gr_remaining g"
  shows "moved db (hold_amount t d p g x db) t d x"
  using hold_amount_books [OF assms] hold_amount_totals [OF assms(1-3), where t = t and d = d and p = p]
  by (auto simp: moved_def allocs_hold_amount)

text \<open>The loop: with every selected grant's row current, it draws the target as far as the
  grants go.\<close>

lemma reserve_loop_correct:
  assumes "books db" "set gs \<subseteq> set (grants db)" "distinct (map gr_id gs)" "on_grid 4 need" "0 \<le> need"
    and "reserve_loop t d p gs need db = (diags, rest, db')"
  shows "moved db db' t d (need - rest) \<and> rest = need - min need (total gr_remaining gs)"
  using assms
proof (induction gs arbitrary: need db diags)
  case Nil
  then show ?case by (simp add: min_def)
next
  case (Cons g gs)
  have g: "g \<in> set (grants db)" "set gs \<subseteq> set (grants db)" "distinct (map gr_id gs)"
    using Cons.prems(2,3) by auto
  have gok: "on_grid 4 (gr_remaining g)" "0 \<le> gr_remaining g"
    using booksD(5) [OF Cons.prems(1) g(1)] by (simp_all add: grant_ok_def)
  have tot: "0 \<le> total gr_remaining gs"
    using booksD(5) [OF Cons.prems(1)] g(2) by (auto intro!: total_nonneg simp: grant_ok_def)
  consider "need = 0" | "need \<noteq> 0" "gr_remaining g = 0" | "0 < need" "0 < gr_remaining g"
    using gok(2) Cons.prems(5) by force
  then show ?case
  proof cases
    case 1
    with Cons.prems(1,6) tot gok show ?thesis by auto
  next
    case 2
    with Cons.prems gok have run: "reserve_loop t d p gs need db = (diags, rest, db')"
      by (simp add: Let_def)
    show ?thesis
      unfolding total_simps 2(2) add_0 by (rule Cons.IH [OF Cons.prems(1) g(2,3) Cons.prems(4,5) run])
  next
    case 3
    let ?x = "min need (gr_remaining g)"
    let ?db = "hold_amount t d p g ?x db"
    have x: "on_grid 4 ?x" "0 < ?x" "?x \<le> gr_remaining g" "on_grid 4 (need - ?x)" "0 \<le> need - ?x"
      using gok 3 Cons.prems(4) by simp_all
    obtain diags' where run: "reserve_loop t d p gs (need - ?x) ?db = (diags', rest, db')"
      using Cons.prems(4,6) gok 3 x by (auto simp: Let_def split: prod.splits)
    have rows: "set gs \<subseteq> set (grants ?db)"
    proof
      fix h assume h: "h \<in> set gs"
      then have "gr_id h \<noteq> gr_id g" using Cons.prems(3) by (auto simp: image_iff)
      then show "h \<in> set (grants ?db)"
        using h g(2) by (auto simp: in_update_rows intro!: bexI [of _ h])
    qed
    note first = hold_amount_moved [OF Cons.prems(1) g(1) x(1-3), of t d p]
    note ih = Cons.IH [OF moved_books [OF first] rows g(3) x(4,5) run]
    have "moved db db' t d (?x + (need - ?x - rest))"
      using moved_trans [OF first] ih by blast
    moreover have "rest = need - min need (gr_remaining g + total gr_remaining gs)"
      using ih tot by (auto simp: min_def)
    moreover have "?x + (need - ?x - rest) = need - rest" by simp
    ultimately show ?thesis by (simp only: total_simps)
  qed
qed

lemma eligible_rows:
  "set (eligible_grants db t sc p now) \<subseteq> {g \<in> set (grants db). gr_pool g = p}"
  by (auto simp: eligible_grants_def Let_def)

lemma eligible_distinct:
  "books db \<Longrightarrow> distinct (map gr_id (eligible_grants db t sc p now))"
  by (auto simp: eligible_grants_def Let_def distinct_map_filter dest: booksD(1))

lemma eligible_total_nonneg: "books db \<Longrightarrow> 0 \<le> total gr_remaining (eligible_grants db t sc p now)"
  using eligible_rows [of db t sc p now] by (auto intro!: total_nonneg dest!: booksD(5) simp: grant_ok_def)

lemma reserve_from_grants_Inr:
  assumes "books db" "reserve_credit_from_grants db t d sc p target now = Inr (diags, db')"
  shows "moved db db' t d (max 0 (quantize4 target))"
    and "quantize4 target \<le> total gr_remaining (eligible_grants db t sc p now)"
proof -
  let ?gs = "eligible_grants db t sc p now"
  have gs: "set ?gs \<subseteq> set (grants db)" "distinct (map gr_id ?gs)" "0 \<le> total gr_remaining ?gs"
    using eligible_rows [of db t sc p now] eligible_distinct [OF assms(1)] eligible_total_nonneg [OF assms(1)]
    by auto
  have "moved db db' t d (max 0 (quantize4 target)) \<and> quantize4 target \<le> total gr_remaining ?gs"
  proof (cases "quantize4 target \<le> 0")
    case True
    with assms gs show ?thesis
      by (auto simp: reserve_credit_from_grants_def Let_def max_def)
  next
    case False
    with assms(2) obtain rest where run: "reserve_loop t d p ?gs (quantize4 target) db = (diags, rest, db')"
      and "\<not> 0 < rest"
      by (auto simp: reserve_credit_from_grants_def Let_def split: prod.splits if_splits)
    with reserve_loop_correct [OF assms(1) gs(1,2) _ _ run] False
    show ?thesis by (auto simp: max_def min_def split: if_splits)
  qed
  then show "moved db db' t d (max 0 (quantize4 target))"
    and "quantize4 target \<le> total gr_remaining ?gs" by simp_all
qed

lemma reserve_from_grants_ok:
  assumes "books db" "quantize4 target \<le> total gr_remaining (eligible_grants db t sc p now)"
  shows "\<exists>diags db'. reserve_credit_from_grants db t d sc p target now = Inr (diags, db')"
proof (cases "quantize4 target \<le> 0")
  case True
  then show ?thesis by (simp add: reserve_credit_from_grants_def Let_def)
next
  case False
  let ?gs = "eligible_grants db t sc p now"
  obtain diags rest db' where run: "reserve_loop t d p ?gs (quantize4 target) db = (diags, rest, db')"
    by (metis prod_cases3)
  have "set ?gs \<subseteq> set (grants db)" using eligible_rows [of db t sc p now] by auto
  from reserve_loop_correct [OF assms(1) this eligible_distinct [OF assms(1)] _ _ run] False assms(2)
  have "rest = 0" by simp
  with False run show ?thesis by (simp add: reserve_credit_from_grants_def Let_def)
qed

lemma reserve_loop_Cons:
  assumes "reserve_loop t d p (g # gs) need db = (diags, rest, db')"
  obtains (stop) "db' = db" | (skip) "reserve_loop t d p gs need db = (diags, rest, db')"
  | (hold) x need' diags' where "reserve_loop t d p gs need' (hold_amount t d p g x db) = (diags', rest, db')"
  using assms by (simp add: Let_def split: if_splits prod.splits)

text \<open>Reserving from one pool leaves the rows of the other pool alone.\<close>

lemma reserve_loop_rows:
  assumes "reserve_loop t d p gs need db = (diags, rest, db')" "gr_id ` set gs \<subseteq> I"
  shows "filter (\<lambda>g. gr_id g \<notin> I) (grants db') = filter (\<lambda>g. gr_id g \<notin> I) (grants db)"
    and "map (\<lambda>g. (gr_id g, gr_pool g)) (grants db') = map (\<lambda>g. (gr_id g, gr_pool g)) (grants db)"
proof -
  have "filter (\<lambda>g. gr_id g \<notin> I) (grants db') = filter (\<lambda>g. gr_id g \<notin> I) (grants db)
    \<and> map (\<lambda>g. (gr_id g, gr_pool g)) (grants db') = map (\<lambda>g. (gr_id g, gr_pool g)) (grants db)"
    using assms
  proof (induction gs arbitrary: need db diags)
    case (Cons g gs)
    have step: "filter (\<lambda>g. gr_id g \<notin> I) (grants (hold_amount t d p g x db)) = filter (\<lambda>g. gr_id g \<notin> I) (grants db)"
      "map (\<lambda>g. (gr_id g, gr_pool g)) (grants (hold_amount t d p g x db)) = map (\<lambda>g. (gr_id g, gr_pool g)) (grants db)"
      for x
    proof -
      have I: "gr_id g \<in> I" using Cons.prems(2) by auto
      show "filter (\<lambda>g. gr_id g \<notin> I) (grants (hold_amount t d p g x db)) = filter (\<lambda>g. gr_id g \<notin> I) (grants db)"
        unfolding hold_amount_simps by (rule filter_update_rows) (use I in auto)
      show "map (\<lambda>g. (gr_id g, gr_pool g)) (grants (hold_amount t d p g x db)) =
          map (\<lambda>g. (gr_id g, gr_pool g)) (grants db)"
        unfolding hold_amount_simps by (rule map_update_rows) (simp add: draw_grant_def Let_def)
    qed
    have I: "gr_id ` set gs \<subseteq> I" using Cons.prems(2) by auto
    from Cons.prems(1) show ?case
    proof (cases rule: reserve_loop_Cons)
      case hold
      from Cons.IH [OF this I] show ?thesis unfolding step .
    qed (use Cons.IH [OF _ I] in blast)+
  qed simp
  then show "filter (\<lambda>g. gr_id g \<notin> I) (grants db') = filter (\<lambda>g. gr_id g \<notin> I) (grants db)"
    and "map (\<lambda>g. (gr_id g, gr_pool g)) (grants db') = map (\<lambda>g. (gr_id g, gr_pool g)) (grants db)"
    by simp_all
qed

lemma reserve_other_pool:
  assumes "books db" "reserve_credit_from_grants db t d sc p target now = Inr (diags, db')" "p' \<noteq> p"
  shows "eligible_grants db' t' sc' p' now' = eligible_grants db t' sc' p' now'"
proof -
  define I where "I = gr_id ` {g \<in> set (grants db). gr_pool g = p}"
  have "filter (\<lambda>g. gr_id g \<notin> I) (grants db') = filter (\<lambda>g. gr_id g \<notin> I) (grants db)
      \<and> map (\<lambda>g. (gr_id g, gr_pool g)) (grants db') = map (\<lambda>g. (gr_id g, gr_pool g)) (grants db)"
  proof (cases "quantize4 target \<le> 0")
    case True
    with assms(2) show ?thesis by (simp add: reserve_credit_from_grants_def Let_def)
  next
    case False
    with assms(2) obtain rest where run: "reserve_loop t d p (eligible_grants db t sc p now) (quantize4 target) db
        = (diags, rest, db')"
      by (auto simp: reserve_credit_from_grants_def Let_def split: prod.splits if_splits)
    have "gr_id ` set (eligible_grants db t sc p now) \<subseteq> I"
      using eligible_rows [of db t sc p now] by (auto simp: I_def)
    from reserve_loop_rows [OF run this] show ?thesis by blast
  qed
  note same = this
  have pool: "gr_pool g = p" if "g \<in> set (grants e)" "gr_id g \<in> I"
    "map (\<lambda>g. (gr_id g, gr_pool g)) (grants e) = map (\<lambda>g. (gr_id g, gr_pool g)) (grants db)" for g e
  proof -
    note pr = that
    have "(gr_id g, gr_pool g) \<in> set (map (\<lambda>g. (gr_id g, gr_pool g)) (grants e))"
      using pr(1) by auto
    then obtain h where h: "h \<in> set (grants db)" "gr_id h = gr_id g" "gr_pool h = gr_pool g"
      unfolding pr(3) by auto
    moreover obtain k where "k \<in> set (grants db)" "gr_pool k = p" "gr_id k = gr_id g"
      using pr(2) by (auto simp: I_def)
    ultimately show ?thesis
      using booksD(1) [OF assms(1)] by (metis distinct_map inj_onD)
  qed
  have via: "filter (\<lambda>g. gr_pool g = p' \<and> R g) (grants e) = filter (\<lambda>g. gr_pool g = p' \<and> R g) (filter (\<lambda>g. gr_id g \<notin> I) (grants e))"
    if "map (\<lambda>g. (gr_id g, gr_pool g)) (grants e) = map (\<lambda>g. (gr_id g, gr_pool g)) (grants db)" for R e
    unfolding filter_filter using pool [OF _ _ that] assms(3) by (intro filter_cong) auto
  have rows: "filter (\<lambda>g. gr_pool g = p' \<and> R g) (grants db') = filter (\<lambda>g. gr_pool g = p' \<and> R g) (grants db)" for R
    unfolding via [OF conjunct2 [OF same]] conjunct1 [OF same] via [OF refl, symmetric] ..
  have "filter (\<lambda>g. gr_tenant g = t' \<and> gr_active g \<and> gr_pool g = p' \<and> grant_live now' g) (grants db') =
      filter (\<lambda>g. gr_tenant g = t' \<and> gr_active g \<and> gr_pool g = p' \<and> grant_live now' g) (grants db)"
    using rows [of "\<lambda>g. gr_tenant g = t' \<and> gr_active g \<and> grant_live now' g"] by (simp add: conj_ac)
  then show ?thesis by (simp add: eligible_grants_def)
qed

section \<open>Reserving for a decision\<close>

lemma normalize_scope_idem [simp]: "normalize_scope (normalize_scope s) = normalize_scope s"
proof -
  have "norm_key ''default'' = ''default''" by code_simp
  then show ?thesis by (auto simp: normalize_scope_def or_default_def)
qed

lemma reserve_for_decision_Inr:
  assumes "books db" "reserve_credit_for_decision db t d sc r e now = Inr (diags, db')"
  shows "moved db db' t d (max 0 (quantize4 r) + max 0 (quantize4 e))"
proof -
  let ?sc = "normalize_scope sc"
  obtain ds1 db1 where 1: "moved db db1 t d (max 0 (quantize4 r))"
    and 2: "if 0 < quantize4 e
      then \<exists>ds2. reserve_credit_from_grants db1 t d ?sc EMERGENCY (quantize4 e) now = Inr (ds2, db')
      else db' = db1"
  proof (cases "0 < quantize4 r")
    case True
    with assms(2) obtain ds1 db1 where
      run: "reserve_credit_from_grants db t d ?sc RESERVED (quantize4 r) now = Inr (ds1, db1)" and
      "if 0 < quantize4 e then \<exists>ds2. reserve_credit_from_grants db1 t d ?sc EMERGENCY (quantize4 e) now = Inr (ds2, db')
       else db' = db1"
      by (auto simp: reserve_credit_for_decision_def Let_def and_then_Inr split: if_splits)
    with reserve_from_grants_Inr(1) [OF assms(1) run] show thesis by (intro that) auto
  next
    case False
    with assms show thesis
      by (intro that [of db]) (auto simp: reserve_credit_for_decision_def Let_def and_then_Inr max_def not_less split: if_splits)
  qed
  show ?thesis
  proof (cases "0 < quantize4 e")
    case True
    with 2 obtain ds2 where
      run: "reserve_credit_from_grants db1 t d ?sc EMERGENCY (quantize4 e) now = Inr (ds2, db')" by auto
    from moved_trans [OF 1] reserve_from_grants_Inr(1) [OF moved_books [OF 1] run] show ?thesis by auto
  next
    case False
    with 1 2 show ?thesis by (simp add: max_def not_less)
  qed
qed

lemma reserve_for_decision_ok:
  assumes "books db"
    and "quantize4 r \<le> total gr_remaining (eligible_grants db t (normalize_scope sc) RESERVED now)"
    and "quantize4 e \<le> total gr_remaining (eligible_grants db t (normalize_scope sc) EMERGENCY now)"
  shows "ok (reserve_credit_for_decision db t d sc r e now)"
proof -
  let ?sc = "normalize_scope sc"
  obtain ds db1 where 1: "reserve_credit_from_grants db t d ?sc RESERVED (quantize4 r) now = Inr (ds, db1)"
    using reserve_from_grants_ok [OF assms(1), where target = "quantize4 r" and t = t and d = d and p = RESERVED
        and sc = ?sc and now = now] assms(2) by auto
  have 2: "\<exists>ds' db2. reserve_credit_from_grants db0 t d ?sc EMERGENCY (quantize4 e) now = Inr (ds', db2)"
    if "db0 = db \<or> db0 = db1" for db0
  proof -
    have "books db0" "eligible_grants db0 t ?sc EMERGENCY now = eligible_grants db t ?sc EMERGENCY now"
      using that assms(1) moved_books [OF reserve_from_grants_Inr(1) [OF assms(1) 1]]
        reserve_other_pool [OF assms(1) 1, of EMERGENCY] by auto
    with assms(3) reserve_from_grants_ok [of db0 "quantize4 e"] show ?thesis by simp
  qed
  show ?thesis
    using 1 2 [of db] 2 [of db1] by (auto simp: reserve_credit_for_decision_def Let_def)
qed

text \<open>The headrooms never promise more than the eligible grants hold.\<close>

lemma credit_headrooms_bound:
  assumes "books db" "get_credit_headrooms db t sc now = (r, e)"
  shows "r \<le> total gr_remaining (eligible_grants db t (normalize_scope sc) RESERVED now)"
    and "e \<le> total gr_remaining (eligible_grants db t (normalize_scope sc) EMERGENCY now)"
    and "0 \<le> r" "0 \<le> e" "on_grid 4 r" "on_grid 4 e"
proof -
  let ?R = "total gr_remaining (eligible_grants db t (normalize_scope sc) RESERVED now)"
  let ?E = "total gr_remaining (eligible_grants db t (normalize_scope sc) EMERGENCY now)"
  have R: "total gr_remaining (filter (\<lambda>g. gr_tenant g = t \<and> gr_pool g = RESERVED \<and> gr_active g
      \<and> gr_scope g \<in> {normalize_scope sc, ''default''} \<and> grant_live now g) (grants db)) = ?R"
    by (simp add: eligible_grants_def Let_def conj_ac)
  have E: "total gr_remaining (filter (\<lambda>g. gr_tenant g = t \<and> gr_pool g = EMERGENCY \<and> gr_active g
      \<and> grant_live now g) (grants db)) = ?E"
    by (simp add: eligible_grants_def Let_def conj_ac)
  have nn: "0 \<le> ?R" "0 \<le> ?E" using eligible_total_nonneg [OF assms(1)] by auto
  have grid: "on_grid 4 ?R" "on_grid 4 ?E"
    using eligible_rows [of db t "normalize_scope sc"] booksD(5) [OF assms(1)]
    by (auto intro!: q4.grid_total simp: grant_ok_def)
  have le: "x \<le> y \<Longrightarrow> on_grid 4 y \<Longrightarrow> quantize4 x \<le> y" for x y by (rule q4.q_le_grid)
  define u where "u = max 0 (total dec_reserved_credit (filter (\<lambda>d. dec_tenant d = t \<and> dec_reservation_active d)
      (decisions db)) - total al_reserved (filter (\<lambda>a. al_tenant a = t \<and> al_active a) (allocs db)))"
  define red where "red = min u ?R"
  have u: "0 \<le> u" "0 \<le> red" "red \<le> ?R"
    using nn by (auto simp: u_def red_def)
  have re: "r = quantize4 (if 0 < u then quantize4 (max 0 (?R - red)) else ?R)"
    "e = quantize4 (if 0 < u \<and> 0 < quantize4 (u - red) then quantize4 (max 0 (?E - quantize4 (u - red))) else ?E)"
    using assms(2) [unfolded get_credit_headrooms_def Let_def R E, folded u_def]
    by (auto simp only: max_absorb2 [OF nn(1)] max_absorb2 [OF nn(2)] red_def prod.inject)
  show "on_grid 4 r" "on_grid 4 e"
    by (simp_all add: re)
  show "r \<le> ?R" "0 \<le> r"
    unfolding re using u nn grid by (auto intro!: le q4.q_nonneg)
  show "e \<le> ?E" "0 \<le> e"
    unfolding re using u nn grid by (auto intro!: le q4.q_nonneg)
qed

section \<open>Settling\<close>

definition settle_one :: "time \<Rightarrow> credit_grant \<Rightarrow> credit_alloc \<Rightarrow> usd \<Rightarrow> usd \<Rightarrow> db \<Rightarrow> db" where
  \<comment> \<open>the assignments of one iteration of the settlement loop\<close>
  "settle_one now g a consume release db =
     db\<lparr>grants := update_rows (\<lambda>r. gr_id r = gr_id g) (release_grant now release) (grants db),
        allocs := update_rows (\<lambda>r. al_id r = al_id a) (settle_alloc now consume release) (allocs db)\<rparr>"

definition settled :: "db \<Rightarrow> db \<Rightarrow> uuid \<Rightarrow> uuid \<Rightarrow> usd \<Rightarrow> usd \<Rightarrow> bool" where
  \<comment> \<open>\<open>c\<close> of the holds of decision \<open>d\<close> was spent and \<open>r\<close> went back to the grants\<close>
  "settled db db' t d c r = (books db' \<and> credit_frame db db' \<and>
     available db' = available db + r \<and> on_hold db' = on_hold db - (c + r) \<and> used_up db' = used_up db + c \<and>
     (\<forall>t' d'. total (held_for t' d') (allocs db') =
        total (held_for t' d') (allocs db) - (if t' = t \<and> d' = d then c + r else 0)))"

lemma settled_refl [simp]: "books db \<Longrightarrow> settled db db t d 0 0"
  by (simp add: settled_def)

lemma settled_trans:
  "settled a b t d c r \<Longrightarrow> settled b e t d c' r' \<Longrightarrow> settled a e t d (c + c') (r + r')"
  unfolding settled_def by (intro conjI) (auto intro: credit_frame_trans)

lemma settled_books: "settled db db' t d c r \<Longrightarrow> books db'"
  by (simp add: settled_def)

lemma release_grant_simps [simp]:
  "gr_id (release_grant now r g) = gr_id g" "gr_tenant (release_grant now r g) = gr_tenant g"
  "gr_total (release_grant now r g) = gr_total g"
  by (simp_all add: release_grant_def Let_def)

lemma settle_alloc_simps [simp]:
  "al_id (settle_alloc now c r a) = al_id a" "al_tenant (settle_alloc now c r a) = al_tenant a"
  "al_decision (settle_alloc now c r a) = al_decision a" "al_grant (settle_alloc now c r a) = al_grant a"
  "al_reserved (settle_alloc now c r a) = al_reserved a" "al_active (settle_alloc now c r a) = False"
  "al_consumed (settle_alloc now c r a) = quantize4 (al_consumed a + c)"
  "al_released (settle_alloc now c r a) = quantize4 (al_released a + r)"
  by (simp_all add: settle_alloc_def)

lemma settle_one_simps [simp]:
  "grants (settle_one now g a c r db) = update_rows (\<lambda>x. gr_id x = gr_id g) (release_grant now r) (grants db)"
  "allocs (settle_one now g a c r db) = update_rows (\<lambda>x. al_id x = al_id a) (settle_alloc now c r) (allocs db)"
  "db_next (settle_one now g a c r db) = db_next db"
  by (simp_all add: settle_one_def)

lemma settle_one_frame: "credit_frame db (settle_one now g a c r db)"
  by (simp add: credit_frame_def map_update_rows) (simp add: settle_one_def)

definition settle_pre :: "db \<Rightarrow> credit_grant \<Rightarrow> credit_alloc \<Rightarrow> usd \<Rightarrow> usd \<Rightarrow> bool" where
  \<comment> \<open>what the loop guarantees before an iteration\<close>
  "settle_pre db g a c r = (books db \<and> g \<in> set (grants db) \<and> a \<in> set (allocs db) \<and> al_active a \<and>
     gr_id g = al_grant a \<and> on_grid 4 c \<and> on_grid 4 r \<and> 0 \<le> c \<and> 0 \<le> r \<and> c + r = al_reserved a)"

lemma settle_preD:
  assumes "settle_pre db g a c r"
  shows "books db" "g \<in> set (grants db)" "a \<in> set (allocs db)" "al_active a" "gr_id g = al_grant a"
    "on_grid 4 c" "on_grid 4 r" "0 \<le> c" "0 \<le> r" "c + r = al_reserved a"
    "on_grid 4 (al_reserved a)" "al_consumed a = 0" "al_released a = 0" "0 < al_reserved a"
    "on_grid 4 (gr_remaining g)" "on_grid 4 (gr_total g)" "0 \<le> gr_remaining g"
  using assms booksD(3) [of db a] booksD(5) [of db g]
  by (simp_all add: settle_pre_def alloc_ok_def grant_ok_def)

lemma released_left:
  assumes "settle_pre db g a c r"
  shows "gr_remaining (release_grant now r g) = gr_remaining g + r"
proof (cases "0 < r")
  case True
  note pre = settle_preD [OF assms]
  have "gr_remaining g + r \<le> gr_total g"
    using grant_room [OF pre(1-4)] pre(5,8,10) by simp
  with True pre(7,15,16) show ?thesis by (simp add: release_grant_def Let_def min_absorb1)
next
  case False
  with settle_preD(9) [OF assms] show ?thesis by (simp add: release_grant_def Let_def)
qed

lemma settle_alloc_total:
  assumes "settle_pre db g a c r"
  shows "total f (update_rows (\<lambda>x. al_id x = al_id a) (settle_alloc now c r) (allocs db)) =
    total f (allocs db) - f a + f (settle_alloc now c r a)"
  by (rule total_update_unique [OF booksD(2) [OF settle_preD(1) [OF assms]] settle_preD(3) [OF assms]])

lemma settle_alloc_weights:
  assumes "settle_pre db g a c r"
  shows "held_on i a = (if i = gr_id g then c + r else 0)" "spent_on i a = 0" "held a = c + r" "spent a = 0"
    "held_for t d a = (if t = al_tenant a \<and> d = al_decision a then c + r else 0)"
    "held_on i (settle_alloc now c r a) = 0" "spent_on i (settle_alloc now c r a) = (if i = gr_id g then c else 0)"
    "held (settle_alloc now c r a) = 0" "spent (settle_alloc now c r a) = c"
    "held_for t d (settle_alloc now c r a) = 0" "alloc_ok (settle_alloc now c r a)"
  using settle_preD [OF assms]
  by (auto simp: held_on_def spent_on_def held_def spent_def held_for_def alloc_ok_def)

lemma settle_one_books:
  assumes "settle_pre db g a c r"
  shows "books (settle_one now g a c r db)"
proof -
  let ?db = "settle_one now g a c r db"
  note pre = settle_preD [OF assms] and totals = settle_alloc_total [OF assms] settle_alloc_weights [OF assms]
  have "grant_ok ?db h" if h: "h \<in> set (grants ?db)" for h
  proof -
    obtain h0 where h0: "h0 \<in> set (grants db)" "h = (if gr_id h0 = gr_id g then release_grant now r h0 else h0)"
      using h by (auto simp: in_update_rows)
    show ?thesis
    proof (cases "gr_id h0 = gr_id g")
      case True
      then have "h0 = g" using booksD(1) [OF pre(1)] h0(1) pre(2) by (meson distinct_map inj_onD)
      then show ?thesis
        using booksD(5) [OF pre(1,2)] h0(2) pre(6-9)
        by (simp add: grant_ok_def totals released_left [OF assms])
    next
      case False
      then show ?thesis
        using booksD(5) [OF pre(1) h0(1)] h0(2) by (simp add: grant_ok_def totals)
    qed
  qed
  moreover have "alloc_ok x \<and> al_id x < db_next ?db" if x: "x \<in> set (allocs ?db)" for x
  proof -
    obtain y where y: "y \<in> set (allocs db)" "x = (if al_id y = al_id a then settle_alloc now c r y else y)"
      using x by (auto simp: in_update_rows)
    have "al_id y = al_id a \<Longrightarrow> y = a"
      using booksD(2) [OF pre(1)] y(1) pre(3) by (meson distinct_map inj_onD)
    with y booksD(3,4) [OF pre(1) y(1)] settle_alloc_weights(11) [OF assms] show ?thesis by auto
  qed
  moreover have "distinct (map gr_id (grants ?db))" "distinct (map al_id (allocs ?db))"
    using booksD(1,2) [OF pre(1)] by (simp_all add: distinct_map_update_rows)
  ultimately show ?thesis by (simp add: books_def)
qed

lemma settle_one_settled:
  assumes "settle_pre db g a c r"
  shows "settled db (settle_one now g a c r db) (al_tenant a) (al_decision a) c r"
proof -
  have "available (settle_one now g a c r db) = available db + r"
    unfolding available_def settle_one_simps
    using total_update_unique [OF booksD(1) [OF settle_preD(1) [OF assms]] settle_preD(2) [OF assms],
        of gr_remaining "release_grant now r"] released_left [OF assms] by simp
  then show ?thesis
    by (simp add: settled_def settle_one_books [OF assms] settle_one_frame on_hold_def used_up_def
        settle_alloc_total [OF assms] settle_alloc_weights [OF assms])
qed

lemma settle_loop_correct:
  assumes "books db" "set rows \<subseteq> set (allocs db)" "distinct (map al_id rows)"
    and "\<And>a. a \<in> set rows \<Longrightarrow> al_active a \<and> al_tenant a = t \<and> al_decision a = d"
    and "\<And>a. a \<in> set rows \<Longrightarrow> \<exists>g\<in>set (grants db). gr_id g = al_grant a \<and> gr_tenant g = t"
    and "on_grid 4 c" "0 \<le> c" "on_grid 4 r" "0 \<le> r" "total al_reserved rows = c + r"
  shows "\<exists>diags db'. settle_loop t now rows c r db = Inr (diags, 0, 0, db') \<and> settled db db' t d c r"
  using assms
proof (induction rows arbitrary: c r db)
  case Nil
  then have "c = 0 \<and> r = 0" by (simp add: add_nonneg_eq_0_iff eq_commute [of 0])
  with Nil show ?case by simp
next
  case (Cons a rows)
  have a: "a \<in> set (allocs db)" "al_active a" "al_tenant a = t" "al_decision a = d"
    using Cons.prems(2,4) by auto
  have aok: "on_grid 4 (al_reserved a)" "0 < al_reserved a"
    using booksD(3) [OF Cons.prems(1) a(1)] by (simp_all add: alloc_ok_def)
  obtain g where g: "g \<in> set (grants db)" "gr_id g = al_grant a" "gr_tenant g = t"
    using Cons.prems(5) by auto
  have match: "first_match (\<lambda>g. gr_id g = al_grant a \<and> gr_tenant g = t) (grants db) = Some g"
    by (rule first_match_unique [OF booksD(1) [OF Cons.prems(1)] g(1)]) (use g in auto)
  have rest: "0 \<le> total al_reserved rows"
  proof (rule total_nonneg)
    fix x assume "x \<in> set rows"
    then have "alloc_ok x" using booksD(3) [OF Cons.prems(1)] Cons.prems(2) by auto
    then show "0 \<le> al_reserved x" by (simp add: alloc_ok_def)
  qed
  let ?x = "min (al_reserved a) c"
  let ?y = "al_reserved a - ?x"
  have xy: "on_grid 4 ?x" "on_grid 4 ?y" "0 \<le> ?x" "0 \<le> ?y" "?x \<le> c" "?y \<le> r"
    using aok Cons.prems(6-10) rest by (auto simp: min_def)
  let ?db = "settle_one now g a ?x ?y db"
  have one: "settled db ?db t d ?x ?y"
    using settle_one_settled [of db g a ?x ?y now] Cons.prems(1) g a xy by (simp add: settle_pre_def)
  have rows: "set rows \<subseteq> set (allocs ?db)"
  proof
    fix b assume b: "b \<in> set rows"
    then have "al_id b \<noteq> al_id a" using Cons.prems(3) by (auto simp: image_iff)
    then show "b \<in> set (allocs ?db)"
      using b Cons.prems(2) by (auto simp: in_update_rows intro!: bexI [of _ b])
  qed
  have gs: "\<exists>h\<in>set (grants ?db). gr_id h = al_grant b \<and> gr_tenant h = t" if "b \<in> set rows" for b
  proof -
    obtain h where h: "h \<in> set (grants db)" "gr_id h = al_grant b" "gr_tenant h = t"
      using Cons.prems(5) \<open>b \<in> set rows\<close> by (meson list.set_intros(2))
    show ?thesis
      unfolding settle_one_simps by (rule bexI [OF _ update_rowsI [OF h(1)]]) (use h in simp)
  qed
  have "\<exists>diags db'. settle_loop t now rows (c - ?x) (r - ?y) ?db = Inr (diags, 0, 0, db')
      \<and> settled ?db db' t d (c - ?x) (r - ?y)"
    by (rule Cons.IH [OF settled_books [OF one] rows _ _ gs])
       (use Cons.prems(3,4,6,8,10) xy in auto)
  then obtain diags db' where run: "settle_loop t now rows (c - ?x) (r - ?y) ?db = Inr (diags, 0, 0, db')"
    and two: "settled ?db db' t d (c - ?x) (r - ?y)" by blast
  have "settled db db' t d c r"
    using settled_trans [OF one two] by simp
  moreover have "min ?y r = ?y" using xy by (simp add: min_absorb1)
  ultimately show ?case
    using run xy aok Cons.prems(6,8) match by (simp add: Let_def settle_one_def)
qed

definition backed :: "db \<Rightarrow> uuid \<Rightarrow> decision \<Rightarrow> bool" where
  \<comment> \<open>the active allocations of the decision carry exactly its reserved credit\<close>
  "backed db t d = (on_grid 4 (dec_reserved_credit d) \<and>
     total (held_for t (dec_id d)) (allocs db) = dec_reserved_credit d \<and>
     (\<forall>a\<in>set (allocs db). al_tenant a = t \<and> al_decision a = dec_id d \<and> al_active a \<longrightarrow>
        (\<exists>g\<in>set (grants db). gr_id g = al_grant a \<and> gr_tenant g = t)))"

definition bounded_consumption :: "decision \<Rightarrow> usd \<Rightarrow> usd" where
  "bounded_consumption d consumed = quantize4 (min (max 0 consumed) (dec_reserved_credit d))"

lemma bounded_consumption_bounds:
  "on_grid 4 (dec_reserved_credit d) \<Longrightarrow> 0 \<le> dec_reserved_credit d \<Longrightarrow>
    0 \<le> bounded_consumption d c \<and> bounded_consumption d c \<le> dec_reserved_credit d
    \<and> on_grid 4 (bounded_consumption d c)"
  unfolding bounded_consumption_def by (auto intro!: q4.q_nonneg q4.q_le_grid)

lemma settle_ok:
  assumes "books db" "backed db t d" "0 < dec_reserved_credit d"
  shows "\<exists>diags db'. settle_credit_reservations db t d consumed now = Inr (diags, db')
    \<and> settled db db' t (dec_id d) (bounded_consumption d consumed)
        (dec_reserved_credit d - bounded_consumption d consumed)"
proof -
  let ?P = "\<lambda>a. al_tenant a = t \<and> al_decision a = dec_id d \<and> al_active a"
  let ?rows = "order_by [al_created] (filter ?P (allocs db))"
  let ?c = "bounded_consumption d consumed"
  have grid: "on_grid 4 (dec_reserved_credit d)" using assms(2) by (simp add: backed_def)
  have c: "0 \<le> ?c" "?c \<le> dec_reserved_credit d" "on_grid 4 ?c"
    using bounded_consumption_bounds [OF grid] assms(3) by (auto simp: less_imp_le)
  have tot: "total al_reserved ?rows = dec_reserved_credit d"
    using assms(2) by (simp add: total_filter backed_def held_for_def [abs_def])
  have ne: "?rows \<noteq> []"
    using tot assms(3) by (metis less_irrefl total_simps(1))
  have "\<exists>diags db'. settle_loop t now ?rows ?c (dec_reserved_credit d - ?c) db = Inr (diags, 0, 0, db')
      \<and> settled db db' t (dec_id d) ?c (dec_reserved_credit d - ?c)"
  proof (rule settle_loop_correct [OF assms(1)])
    show "distinct (map al_id ?rows)"
      using booksD(2) [OF assms(1)] by (simp add: distinct_map_filter)
    show "\<exists>g\<in>set (grants db). gr_id g = al_grant a \<and> gr_tenant g = t" if "a \<in> set ?rows" for a
      using that assms(2) by (auto simp: backed_def)
  qed (use c grid tot in auto)
  then show ?thesis
    using ne c(3) grid assms(3)
    by (auto simp: settle_credit_reservations_def bounded_consumption_def [symmetric] Let_def)
qed

section \<open>The interface of a store of reservations\<close>

inductive store_step ::
  "('k \<Rightarrow> usd \<Rightarrow> 's \<Rightarrow> 's outcome) \<Rightarrow> ('l \<Rightarrow> usd \<Rightarrow> 's \<Rightarrow> 's outcome) \<Rightarrow> ('l \<Rightarrow> 's \<Rightarrow> bool) \<Rightarrow> 's \<Rightarrow> 's \<Rightarrow> bool"
  for reserve settle covered where
  reserve_step: "reserve k x s = Inr s' \<Longrightarrow> store_step reserve settle covered s s'"
| settle_step: "covered l s \<Longrightarrow> settle l c s = Inr s' \<Longrightarrow> store_step reserve settle covered s s'"

inductive_simps store_step_iff: "store_step reserve settle covered s s'"

locale reservation_store =
  fixes inv :: "'s \<Rightarrow> bool" and free held_back spent_up :: "'s \<Rightarrow> usd"
    and reserve :: "'k \<Rightarrow> usd \<Rightarrow> 's \<Rightarrow> 's outcome" and settle :: "'l \<Rightarrow> usd \<Rightarrow> 's \<Rightarrow> 's outcome"
    and covered :: "'l \<Rightarrow> 's \<Rightarrow> bool"
  assumes free_nonneg: "inv s \<Longrightarrow> 0 \<le> free s"
    and held_nonneg: "inv s \<Longrightarrow> 0 \<le> held_back s"
    and reserve_law: "inv s \<Longrightarrow> reserve k x s = Inr s' \<Longrightarrow> inv s' \<and>
      (\<exists>y\<ge>0. free s' = free s - y \<and> held_back s' = held_back s + y \<and> spent_up s' = spent_up s)"
    and settle_law: "inv s \<Longrightarrow> covered l s \<Longrightarrow> settle l c s = Inr s' \<Longrightarrow> inv s' \<and>
      (\<exists>u\<ge>0. \<exists>r\<ge>0. free s' = free s + r \<and> held_back s' = held_back s - (u + r) \<and> spent_up s' = spent_up s + u)"
begin

definition capital :: "'s \<Rightarrow> usd" where
  "capital s = free s + held_back s + spent_up s"

lemma step_conserves:
  assumes "inv s" "store_step reserve settle covered s s'"
  shows "inv s' \<and> capital s' = capital s \<and> spent_up s \<le> spent_up s'"
  using assms(2)
proof cases
  case (reserve_step k x)
  with reserve_law [OF assms(1)] show ?thesis by (force simp: capital_def)
next
  case (settle_step l c)
  with settle_law [OF assms(1)] show ?thesis by (force simp: capital_def)
qed

lemma run_conserves:
  assumes "(store_step reserve settle covered)\<^sup>*\<^sup>* s s'" "inv s"
  shows "inv s' \<and> capital s' = capital s \<and> spent_up s \<le> spent_up s'"
  using assms
proof (induction rule: rtranclp_induct)
  case (step s1 s2)
  with step_conserves [of s1 s2] show ?case by auto
qed simp

lemma never_overspent:
  assumes "(store_step reserve settle covered)\<^sup>*\<^sup>* s s'" "inv s"
  shows "spent_up s' \<le> capital s"
proof -
  have "inv s'" "capital s' = capital s" using run_conserves [OF assms] by auto
  with free_nonneg [of s'] held_nonneg [of s'] show ?thesis by (simp add: capital_def)
qed

end

definition reserve_op :: "uuid \<times> uuid \<times> string \<times> pool_type \<times> time \<Rightarrow> usd \<Rightarrow> db \<Rightarrow> db outcome" where
  "reserve_op k x db = (case k of (t, d, sc, p, now) \<Rightarrow>
     and_then (reserve_credit_from_grants db t d sc p x now) (\<lambda>r. Inr (snd r)))"

definition settle_op :: "uuid \<times> decision \<times> time \<Rightarrow> usd \<Rightarrow> db \<Rightarrow> db outcome" where
  "settle_op k c db = (case k of (t, d, now) \<Rightarrow>
     and_then (settle_credit_reservations db t d c now) (\<lambda>r. Inr (snd r)))"

definition settle_covered :: "uuid \<times> decision \<times> time \<Rightarrow> db \<Rightarrow> bool" where
  "settle_covered k db = (case k of (t, d, now) \<Rightarrow> backed db t d)"

lemma available_nonneg: "books db \<Longrightarrow> 0 \<le> available db"
  unfolding available_def by (rule total_nonneg) (auto dest: booksD(5) simp: grant_ok_def)

lemma on_hold_nonneg: "books db \<Longrightarrow> 0 \<le> on_hold db"
  unfolding on_hold_def by (rule total_nonneg) (auto dest: booksD(3) alloc_held_nonneg)

lemma backed_nonneg: "books db \<Longrightarrow> backed db t d \<Longrightarrow> 0 \<le> dec_reserved_credit d"
  unfolding backed_def
  by (metis (mono_tags, lifting) alloc_ok_def booksD(3) held_for_def less_imp_le order_refl total_nonneg)

interpretation credit_store: reservation_store books available on_hold used_up reserve_op settle_op settle_covered
proof
  fix db k x db'
  assume b: "books db"
  then show "0 \<le> available db" "0 \<le> on_hold db"
    by (rule available_nonneg, intro on_hold_nonneg)
  show "books db' \<and> (\<exists>y\<ge>0. available db' = available db - y \<and> on_hold db' = on_hold db + y \<and> used_up db' = used_up db)"
    if "reserve_op k x db = Inr db'"
  proof -
    obtain t d sc p now where k: "k = (t, d, sc, p, now)" by (metis prod_cases5)
    with that obtain diags where "reserve_credit_from_grants db t d sc p x now = Inr (diags, db')"
      by (auto simp: reserve_op_def and_then_Inr)
    from reserve_from_grants_Inr(1) [OF b this] show ?thesis
      unfolding moved_def by (intro conjI exI [of _ "max 0 (quantize4 x)"]) auto
  qed
next
  fix db l c db'
  assume b: "books db" and cov: "settle_covered l db" and run: "settle_op l c db = Inr db'"
  obtain t d now where l: "l = (t, d, now)" by (metis prod_cases3)
  with run obtain diags where s: "settle_credit_reservations db t d c now = Inr (diags, db')"
    by (auto simp: settle_op_def and_then_Inr)
  have bk: "backed db t d" using cov l by (simp add: settle_covered_def)
  show "books db' \<and> (\<exists>u\<ge>0. \<exists>r\<ge>0. available db' = available db + r \<and> on_hold db' = on_hold db - (u + r)
      \<and> used_up db' = used_up db + u)"
  proof (cases "0 < dec_reserved_credit d")
    case True
    from settle_ok [OF b bk True] s
    have "settled db db' t (dec_id d) (bounded_consumption d c) (dec_reserved_credit d - bounded_consumption d c)"
      by (metis Inr_inject prod.inject)
    moreover have "0 \<le> bounded_consumption d c \<and> bounded_consumption d c \<le> dec_reserved_credit d"
      using bounded_consumption_bounds [of d c] bk backed_nonneg [OF b bk] by (simp add: backed_def)
    ultimately show ?thesis
      unfolding settled_def by (metis diff_ge_0_iff_ge)
  next
    case False
    with s bk have "db' = db" by (simp add: settle_credit_reservations_def backed_def Let_def)
    with b show ?thesis by (intro conjI exI [of _ 0]) auto
  qed
qed

section \<open>Properties\<close>

lemma sample_books: "books sample_db"
  by (simp add: books_def sample_db_def sample_grant_def empty_db_def grant_ok_def on_grid_def)

lemma sample_held_books: "books sample_held"
  by (simp add: books_def sample_defs grant_ok_def alloc_ok_def held_on_def spent_on_def on_grid_def)

lemma sample_backed: "backed sample_held 7 sample_decision"
  by (simp add: backed_def sample_defs held_for_def on_grid_def)

text \<open>Reserving credit from a pool succeeds exactly when the live grants of the tenant in that
  pool and scope hold the target; otherwise the call raises and the database is untouched.\<close>

theorem reserve_succeeds_iff:
  assumes "books db"
  shows "ok (reserve_credit_from_grants db t d sc p target now) \<longleftrightarrow>
    quantize4 target \<le> total gr_remaining (eligible_grants db t sc p now)"
proof
  assume "ok (reserve_credit_from_grants db t d sc p target now)"
  then obtain diags db' where "reserve_credit_from_grants db t d sc p target now = Inr (diags, db')"
    by (cases "reserve_credit_from_grants db t d sc p target now") auto
  then show "quantize4 target \<le> total gr_remaining (eligible_grants db t sc p now)"
    by (rule reserve_from_grants_Inr(2) [OF assms])
next
  assume "quantize4 target \<le> total gr_remaining (eligible_grants db t sc p now)"
  from reserve_from_grants_ok [OF assms this, where d = d] show "ok (reserve_credit_from_grants db t d sc p target now)"
    by auto
qed

theorem reserve_succeeds_iff_witness:
  "ok (reserve_credit_from_grants sample_db 7 5 ''default'' RESERVED 40 0)
    \<and> \<not> ok (reserve_credit_from_grants sample_db 7 5 ''default'' RESERVED 140 0)"
proof -
  have "total gr_remaining (eligible_grants sample_db 7 ''default'' RESERVED 0) = 100"
    by (simp add: eligible_grants_def sample_db_def sample_grant_def empty_db_def grant_live_def order_by_def)
  moreover have "quantize4 40 = 40" "quantize4 140 = 140" by (code_simp, code_simp)
  ultimately show ?thesis
    using reserve_succeeds_iff [OF sample_books, of 7 5 "''default''" RESERVED 40 0]
      reserve_succeeds_iff [OF sample_books, of 7 5 "''default''" RESERVED 140 0] by simp
qed

text \<open>A successful reservation for a decision moves exactly the two targets out of the grants and
  onto allocations of that decision: nothing else is held or spent, the books stay balanced, and no
  other table changes.\<close>

theorem reserve_for_decision_exact:
  assumes "books db" "reserve_credit_for_decision db t d sc r e now = Inr (diags, db')"
    and "x = max 0 (quantize4 r) + max 0 (quantize4 e)"
  shows "books db' \<and> credit_frame db db' \<and> available db' = available db - x
    \<and> total (held_for t d) (allocs db') = total (held_for t d) (allocs db) + x
    \<and> used_up db' = used_up db"
  using reserve_for_decision_Inr [OF assms(1,2)] assms(3) by (simp add: moved_def)

theorem reserve_for_decision_exact_witness:
  "\<exists>diags db'. reserve_credit_for_decision sample_db 7 5 ''default'' 40 0 0 = Inr (diags, db')
    \<and> available db' = 60"
proof -
  have el: "total gr_remaining (eligible_grants sample_db 7 (normalize_scope ''default'') RESERVED 0) = 100"
    "0 \<le> total gr_remaining (eligible_grants sample_db 7 (normalize_scope ''default'') EMERGENCY 0)"
    using sample_books eligible_total_nonneg
    by (simp_all add: eligible_grants_def sample_db_def sample_grant_def empty_db_def grant_live_def order_by_def)
  have q: "quantize4 40 = 40" by code_simp
  have "ok (reserve_credit_for_decision sample_db 7 5 ''default'' 40 0 0)"
    by (rule reserve_for_decision_ok [OF sample_books]) (use el q in simp_all)
  then obtain diags db' where run: "reserve_credit_for_decision sample_db 7 5 ''default'' 40 0 0 = Inr (diags, db')"
    by (cases "reserve_credit_for_decision sample_db 7 5 ''default'' 40 0 0") auto
  moreover have "available sample_db = 100"
    by (simp add: available_def sample_db_def sample_grant_def)
  ultimately show ?thesis
    using reserve_for_decision_exact [OF sample_books run refl] q by auto
qed

text \<open>Settling a decision whose allocations carry its reserved credit always succeeds: of the
  reserved credit, the consumption (cut to what is reserved) is spent and all the rest goes back to
  the grants; nothing of the decision stays on hold, and no grant exceeds its total.\<close>

theorem settle_exact:
  assumes "books db" "backed db t d" "0 < dec_reserved_credit d"
    and "c = quantize4 (min (max 0 consumed) (dec_reserved_credit d))"
  shows "\<exists>diags db'. settle_credit_reservations db t d consumed now = Inr (diags, db')
    \<and> books db' \<and> credit_frame db db'
    \<and> available db' = available db + (dec_reserved_credit d - c) \<and> used_up db' = used_up db + c
    \<and> total (held_for t (dec_id d)) (allocs db') = 0
    \<and> (\<forall>g\<in>set (grants db'). 0 \<le> gr_remaining g \<and> gr_remaining g \<le> gr_total g)"
proof -
  obtain diags db' where run: "settle_credit_reservations db t d consumed now = Inr (diags, db')"
    and s: "settled db db' t (dec_id d) c (dec_reserved_credit d - c)"
    using settle_ok [OF assms(1-3), of consumed now] assms(4) by (auto simp: bounded_consumption_def)
  have "books db'" by (rule settled_books [OF s])
  then have "\<forall>g\<in>set (grants db'). 0 \<le> gr_remaining g \<and> gr_remaining g \<le> gr_total g"
    using grant_left_le_total [of db'] booksD(5) [of db'] by (auto simp: grant_ok_def)
  with run s assms(2) show ?thesis by (auto simp: settled_def backed_def)
qed

theorem settle_exact_witness:
  "\<exists>diags db'. settle_credit_reservations sample_held 7 sample_decision 15 0 = Inr (diags, db')
    \<and> available db' = 85 \<and> used_up db' = 15"
proof -
  have "dec_reserved_credit sample_decision = 40" "available sample_held = 60" "used_up sample_held = 0"
    by (simp_all add: sample_defs available_def used_up_def spent_def)
  moreover have "15 = quantize4 (min (max 0 15) 40)" by code_simp
  ultimately show ?thesis
    using settle_exact [OF sample_held_books sample_backed, of 15 15 0] by auto
qed

text \<open>C39: Over any sequence of reservations and covered settlements, in any order and for any
  tenants, what is available, on hold and used up adds up to the same capital, and no more than
  that capital is ever used up.\<close>

theorem credit_money_conserved:
  assumes "(store_step reserve_op settle_op settle_covered)\<^sup>*\<^sup>* db db'" "books db"
  shows "books db' \<and> available db' + on_hold db' + used_up db' = available db + on_hold db + used_up db
    \<and> used_up db' \<le> available db + on_hold db + used_up db"
  using credit_store.run_conserves [OF assms] credit_store.never_overspent [OF assms]
  by (simp add: credit_store.capital_def)

theorem credit_money_conserved_witness:
  "\<exists>db'. (store_step reserve_op settle_op settle_covered)\<^sup>*\<^sup>* sample_held db' \<and> sample_held \<noteq> db'
    \<and> available db' + on_hold db' + used_up db' = 100"
proof -
  obtain diags db' where run: "settle_credit_reservations sample_held 7 sample_decision 15 0 = Inr (diags, db')"
    and s: "settled sample_held db' 7 5 (bounded_consumption sample_decision 15) (40 - bounded_consumption sample_decision 15)"
    using settle_ok [OF sample_held_books sample_backed, of 15 0] by (auto simp: sample_decision_def)
  have "settle_op (7, sample_decision, 0) 15 sample_held = Inr db'"
    using run by (simp add: settle_op_def)
  then have step: "(store_step reserve_op settle_op settle_covered)\<^sup>*\<^sup>* sample_held db'"
    by (intro r_into_rtranclp settle_step [of settle_covered "(7, sample_decision, 0)"])
       (simp_all add: settle_covered_def sample_backed)
  have total: "available sample_held = 60" "on_hold sample_held = 40" "used_up sample_held = 0"
    by (simp_all add: sample_defs available_def used_up_def on_hold_def spent_def held_def)
  have "on_hold db' \<noteq> on_hold sample_held"
    using s by (simp add: settled_def)
  then show ?thesis
    using step total credit_money_conserved [OF step sample_held_books] by auto
qed

text \<open>A waterfall draw within the headrooms can always be reserved: the headrooms that the gate
  computes never exceed what the eligible grants hold, legacy reservations included.\<close>

theorem headroom_can_be_reserved:
  assumes "books db" "get_credit_headrooms db t sc now = (hr, he)" "quantize4 r \<le> hr" "quantize4 e \<le> he"
  shows "ok (reserve_credit_for_decision db t d sc r e now)"
  using credit_headrooms_bound [OF assms(1,2)] assms(3,4)
  by (intro reserve_for_decision_ok [OF assms(1)]) (auto intro: order_trans)

theorem headroom_can_be_reserved_witness:
  "ok (reserve_credit_for_decision sample_db 7 5 ''default'' 40 0 0)"
proof (rule headroom_can_be_reserved [OF sample_books])
  have "norm_key ''default'' = ''default''" by code_simp
  then show "get_credit_headrooms sample_db 7 ''default'' 0 = (quantize4 100, quantize4 0)"
    by (simp add: get_credit_headrooms_def sample_defs Let_def grant_live_def normalize_scope_def)
qed (simp_all add: quantize_mono)

end
