(* ===== verification/Policy_Contract.thy ===== *)
theory Policy_Contract
  imports Approval_Routing
begin

text \<open>
  \<open>policy_document.py\<close> and \<open>policy_contract_ops.py\<close>: the policy document of a tenant, its
  canonical form and hash, the materialisation of a policy row from a document or from separate
  fields, and the operations that read, create and update the row.

  pydantic is not part of the source: \<open>pe_validate\<close> and \<open>pe_validate_rule\<close> stand for
  \<open>PolicyDocument.model_validate\<close> and \<open>ApprovalRoutingRule.model_validate\<close> (\<open>None\<close> is
  \<open>ValidationError\<close>).  The field constraints that the source declares (\<open>ge=0\<close>, \<open>gt=0\<close>) are
  checked by the constructors below.  A \<open>Decimal\<close> is a pair of coefficient and exponent.
\<close>

section \<open>The document\<close>

type_synonym dec = "int \<times> int"

definition dec_val :: "dec \<Rightarrow> usd" where
  "dec_val d = of_int (fst d) * pow10 (snd d)"

definition quantize_dec :: "usd \<Rightarrow> dec" where
  \<comment> \<open>\<open>x.quantize(Decimal("0.0001"))\<close>\<close>
  "quantize_dec x = (round_even (x * 10 ^ 4), - 4)"

record routing_rule =
  rr_id :: string
  rr_enabled :: bool
  rr_environments :: "string list"
  rr_prefixes :: "string list"
  rr_min :: "dec option"
  rr_max :: "dec option"
  rr_risks :: "string list"
  rr_permission :: "string option"
  rr_roles :: "string list"
  rr_separation :: "bool option"

record mode_matrix =
  tf_default :: enf_mode
  tf_prod :: enf_mode
  tf_nonprod :: enf_mode
  ks_default :: enf_mode
  ks_prod :: enf_mode
  ks_nonprod :: enf_mode

record approval_matrix =
  am_require_prod :: bool
  am_require_nonprod :: bool
  am_separation_prod :: bool
  am_separation_nonprod :: bool
  am_rules :: "routing_rule list"

record entitlement_matrix =
  em_plan :: "dec option"
  em_enterprise :: "dec option"
  em_auto :: dec
  em_hard :: dec

record execution_matrix =
  ex_ttl :: int
  ex_attempts :: int
  ex_backoff :: int
  ex_lease :: int

record policy_document =
  pd_modes :: mode_matrix
  pd_approval :: approval_matrix
  pd_entitlements :: entitlement_matrix
  pd_execution :: execution_matrix

record policy_env =
  pe_validate :: "pydict \<Rightarrow> policy_document option"
  pe_validate_rule :: "pydict \<Rightarrow> routing_rule option"
  pe_sha :: "string \<Rightarrow> string"

definition entitlements_valid :: "entitlement_matrix \<Rightarrow> bool" where
  \<comment> \<open>the constraints \<open>ge=0\<close>, \<open>ge=0\<close>, \<open>ge=0\<close>, \<open>gt=0\<close> of the fields\<close>
  "entitlements_valid e =
     ((case em_plan e of None \<Rightarrow> True | Some x \<Rightarrow> 0 \<le> dec_val x)
      \<and> (case em_enterprise e of None \<Rightarrow> True | Some x \<Rightarrow> 0 \<le> dec_val x)
      \<and> 0 \<le> dec_val (em_auto e) \<and> 0 < dec_val (em_hard e))"

definition execution_valid :: "execution_matrix \<Rightarrow> bool" where
  "execution_valid x = (60 \<le> ex_ttl x \<and> ex_ttl x \<le> 86400 \<and> 1 \<le> ex_attempts x \<and> ex_attempts x \<le> 10
     \<and> 1 \<le> ex_backoff x \<and> ex_backoff x \<le> 86400 \<and> 30 \<le> ex_lease x \<and> ex_lease x \<le> 3600)"

definition default_execution :: execution_matrix where
  "default_execution = \<lparr>ex_ttl = 900, ex_attempts = 3, ex_backoff = 60, ex_lease = 300\<rparr>"

section \<open>The canonical payload\<close>

definition dec_text :: "dec \<Rightarrow> pyval" where
  "dec_text d = PStr (dec_str (fst d) (snd d))"

definition dump_rule :: "routing_rule \<Rightarrow> pydict" where
  \<comment> \<open>\<open>rule.model_dump(mode="json")\<close>\<close>
  "dump_rule r =
     [(''rule_id'', PStr (rr_id r)), (''enabled'', PBool (rr_enabled r)),
      (''environments'', strs (rr_environments r)), (''action_prefixes'', strs (rr_prefixes r)),
      (''min_monthly_delta_usd'', opt_val dec_text (rr_min r)),
      (''max_monthly_delta_usd'', opt_val dec_text (rr_max r)),
      (''risk_levels'', strs (rr_risks r)), (''required_permission'', opt_val PStr (rr_permission r)),
      (''allowed_reviewer_roles'', strs (rr_roles r)),
      (''require_requester_reviewer_separation'', opt_val PBool (rr_separation r))]"

definition dump_modes :: "mode_matrix \<Rightarrow> pydict" where
  "dump_modes m =
     [(''terraform_default'', PStr (mode_value (tf_default m))), (''terraform_prod'', PStr (mode_value (tf_prod m))),
      (''terraform_nonprod'', PStr (mode_value (tf_nonprod m))),
      (''k8s_admission_default'', PStr (mode_value (ks_default m))),
      (''k8s_admission_prod'', PStr (mode_value (ks_prod m))),
      (''k8s_admission_nonprod'', PStr (mode_value (ks_nonprod m)))]"

definition dump_approval :: "approval_matrix \<Rightarrow> pydict" where
  "dump_approval a =
     [(''require_approval_prod'', PBool (am_require_prod a)),
      (''require_approval_nonprod'', PBool (am_require_nonprod a)),
      (''enforce_prod_requester_reviewer_separation'', PBool (am_separation_prod a)),
      (''enforce_nonprod_requester_reviewer_separation'', PBool (am_separation_nonprod a)),
      (''routing_rules'', PList (map (\<lambda>r. PDict (dump_rule r)) (am_rules a)))]"

definition dump_entitlements :: "entitlement_matrix \<Rightarrow> pydict" where
  "dump_entitlements e =
     [(''plan_monthly_ceiling_usd'', opt_val dec_text (em_plan e)),
      (''enterprise_monthly_ceiling_usd'', opt_val dec_text (em_enterprise e)),
      (''auto_approve_below_monthly_usd'', dec_text (em_auto e)),
      (''hard_deny_above_monthly_usd'', dec_text (em_hard e))]"

definition dump_execution :: "execution_matrix \<Rightarrow> pydict" where
  "dump_execution x =
     [(''default_ttl_seconds'', PInt (ex_ttl x)), (''action_max_attempts'', PInt (ex_attempts x)),
      (''action_retry_backoff_seconds'', PInt (ex_backoff x)),
      (''action_lease_ttl_seconds'', PInt (ex_lease x))]"

definition dump_document :: "policy_document \<Rightarrow> pydict" where
  "dump_document d =
     [(''schema_version'', PStr default_schema_version), (''mode_matrix'', PDict (dump_modes (pd_modes d))),
      (''approval'', PDict (dump_approval (pd_approval d))),
      (''entitlements'', PDict (dump_entitlements (pd_entitlements d))),
      (''execution'', PDict (dump_execution (pd_execution d)))]"

fun normalize_json_value :: "pyval \<Rightarrow> pyval" where
  "normalize_json_value (PDict kvs) = PDict (sort_key fst (map (\<lambda>kv. (fst kv, normalize_json_value (snd kv))) kvs))"
| "normalize_json_value (PList vs) = PList (map normalize_json_value vs)"
| "normalize_json_value (PDec c e) = PStr (dec_str c e)"
| "normalize_json_value v = v"

definition canonical_document :: "policy_document \<Rightarrow> pydict" where
  "canonical_document d = as_dict (normalize_json_value (PDict (dump_document d)))"

definition document_sha256 :: "policy_env \<Rightarrow> pydict \<Rightarrow> string" where
  "document_sha256 env payload = pe_sha env (json (PDict payload))"

section \<open>Materialisation\<close>

record policy_input =
  in_terraform :: enf_mode
  in_terraform_prod :: "enf_mode option"
  in_terraform_nonprod :: "enf_mode option"
  in_k8s :: enf_mode
  in_k8s_prod :: "enf_mode option"
  in_k8s_nonprod :: "enf_mode option"
  in_require_prod :: bool
  in_require_nonprod :: bool
  in_plan :: "dec option"
  in_enterprise :: "dec option"
  in_auto :: dec
  in_hard :: dec
  in_ttl :: int
  in_separation_prod :: bool
  in_separation_nonprod :: bool
  in_rules :: "pyval list"
  in_document :: "pydict option"

record materialization =
  mt_modes :: mode_matrix
  mt_approval :: approval_matrix
  mt_plan :: "usd option"
  mt_enterprise :: "usd option"
  mt_auto :: usd
  mt_hard :: usd
  mt_ttl :: int
  mt_rules :: "pydict list"
  mt_sha :: string
  mt_document :: pydict

fun validate_rules :: "(pydict \<Rightarrow> routing_rule option) \<Rightarrow> pydict list \<Rightarrow> routing_rule list outcome" where
  "validate_rules validate [] = Inr []"
| "validate_rules validate (r # rs) =
     (case validate r of None \<Rightarrow> Inl (ValueErr ''ValidationError'')
      | Some v \<Rightarrow> and_then (validate_rules validate rs) (\<lambda>vs. Inr (v # vs)))"

definition make_entitlements :: "dec option \<Rightarrow> dec option \<Rightarrow> dec \<Rightarrow> dec \<Rightarrow> entitlement_matrix outcome" where
  "make_entitlements plan enterprise auto hard =
     (let e = \<lparr>em_plan = plan, em_enterprise = enterprise, em_auto = auto, em_hard = hard\<rparr>
      in if entitlements_valid e then Inr e else Inl (ValueErr ''ValidationError''))"

definition fields_document :: "policy_env \<Rightarrow> policy_input \<Rightarrow> (policy_document \<times> pydict list) outcome" where
  \<comment> \<open>the branch without a policy document\<close>
  "fields_document env i =
     and_then (normalize_routing_rules (in_rules i)) (\<lambda>rules.
     and_then (validate_rules (pe_validate_rule env) rules) (\<lambda>vs.
     and_then (make_entitlements (in_plan i) (in_enterprise i) (in_auto i) (in_hard i)) (\<lambda>ents.
       Inr (\<lparr>pd_modes = \<lparr>tf_default = in_terraform i,
               tf_prod = (case in_terraform_prod i of Some m \<Rightarrow> m | None \<Rightarrow> in_terraform i),
               tf_nonprod = (case in_terraform_nonprod i of Some m \<Rightarrow> m | None \<Rightarrow> in_terraform i),
               ks_default = in_k8s i,
               ks_prod = (case in_k8s_prod i of Some m \<Rightarrow> m | None \<Rightarrow> in_k8s i),
               ks_nonprod = (case in_k8s_nonprod i of Some m \<Rightarrow> m | None \<Rightarrow> in_k8s i)\<rparr>,
             pd_approval = \<lparr>am_require_prod = in_require_prod i, am_require_nonprod = in_require_nonprod i,
               am_separation_prod = in_separation_prod i, am_separation_nonprod = in_separation_nonprod i,
               am_rules = vs\<rparr>,
             pd_entitlements = ents,
             pd_execution = default_execution\<lparr>ex_ttl := clamp 60 86400 (in_ttl i)\<rparr>\<rparr>, rules))))"

definition given_document :: "policy_env \<Rightarrow> pydict \<Rightarrow> (policy_document \<times> pydict list) outcome" where
  \<comment> \<open>the branch with a policy document\<close>
  "given_document env doc =
     (case pe_validate env doc of
        None \<Rightarrow> Inl (DomainError 422 ''policy_document is invalid'')
      | Some d \<Rightarrow>
          and_then (normalize_routing_rules (map (\<lambda>r. PDict (dump_rule r)) (am_rules (pd_approval d))))
            (\<lambda>rules. Inr (d, rules)))"

definition quantize_opt :: "dec option \<Rightarrow> dec option" where
  "quantize_opt = map_option (\<lambda>d. quantize_dec (dec_val d))"

definition clamp_execution :: "execution_matrix \<Rightarrow> execution_matrix" where
  "clamp_execution x =
     \<lparr>ex_ttl = clamp 60 86400 (ex_ttl x), ex_attempts = clamp 1 10 (ex_attempts x),
      ex_backoff = clamp 1 86400 (ex_backoff x), ex_lease = clamp 30 3600 (ex_lease x)\<rparr>"

definition materialize_document ::
  "policy_env \<Rightarrow> policy_document \<Rightarrow> pydict list \<Rightarrow> materialization outcome" where
  \<comment> \<open>thresholds, ceilings, the materialised document, its canonical form and hash\<close>
  "materialize_document env d rules =
     (let e = pd_entitlements d;
          auto = quantize_dec (dec_val (em_auto e)); hard = quantize_dec (dec_val (em_hard e));
          plan = quantize_opt (em_plan e); enterprise = quantize_opt (em_enterprise e)
      in if dec_val hard \<le> 0
         then Inl (DomainError 422 ''hard_deny_above_monthly_usd must be greater than 0'')
         else if dec_val auto < 0
         then Inl (DomainError 422 ''auto_approve_below_monthly_usd must be >= 0'')
         else if dec_val hard < dec_val auto
         then Inl (DomainError 422 ''auto_approve_below_monthly_usd cannot exceed hard_deny_above_monthly_usd'')
         else if (case plan of None \<Rightarrow> False | Some x \<Rightarrow> dec_val x < 0)
         then Inl (DomainError 422 ''plan_monthly_ceiling_usd must be >= 0 when provided'')
         else if (case enterprise of None \<Rightarrow> False | Some x \<Rightarrow> dec_val x < 0)
         then Inl (DomainError 422 ''enterprise_monthly_ceiling_usd must be >= 0 when provided'')
         else and_then (validate_rules (pe_validate_rule env) rules) (\<lambda>vs.
              and_then (make_entitlements plan enterprise auto hard) (\<lambda>ents.
              let doc = \<lparr>pd_modes = pd_modes d, pd_approval = (pd_approval d)\<lparr>am_rules := vs\<rparr>,
                         pd_entitlements = ents, pd_execution = clamp_execution (pd_execution d)\<rparr>;
                  payload = canonical_document doc
              in Inr \<lparr>mt_modes = pd_modes doc, mt_approval = pd_approval doc,
                      mt_plan = map_option dec_val plan, mt_enterprise = map_option dec_val enterprise,
                      mt_auto = dec_val auto, mt_hard = dec_val hard,
                      mt_ttl = clamp 60 86400 (ex_ttl (pd_execution doc)), mt_rules = rules,
                      mt_sha = document_sha256 env payload, mt_document = payload\<rparr>)))"

definition materialize_policy_contract :: "policy_env \<Rightarrow> policy_input \<Rightarrow> materialization outcome" where
  "materialize_policy_contract env i =
     and_then (case in_document i of Some doc \<Rightarrow> given_document env doc | None \<Rightarrow> fields_document env i)
       (\<lambda>(d, rules). materialize_document env d rules)"

definition apply_materialization :: "materialization \<Rightarrow> bool \<Rightarrow> policy \<Rightarrow> policy" where
  "apply_materialization m increment p =
     p\<lparr>terraform_mode := tf_default (mt_modes m), terraform_mode_prod := tf_prod (mt_modes m),
       terraform_mode_nonprod := tf_nonprod (mt_modes m), k8s_mode := ks_default (mt_modes m),
       k8s_mode_prod := ks_prod (mt_modes m), k8s_mode_nonprod := ks_nonprod (mt_modes m),
       require_approval_prod := am_require_prod (mt_approval m),
       require_approval_nonprod := am_require_nonprod (mt_approval m),
       separation_prod := am_separation_prod (mt_approval m),
       separation_nonprod := am_separation_nonprod (mt_approval m),
       plan_ceiling := mt_plan m, enterprise_ceiling := mt_enterprise m,
       auto_approve_below := mt_auto m, hard_deny_above := mt_hard m, pol_ttl := mt_ttl m,
       routing_rules := PList (map PDict (mt_rules m)), pol_schema_version := default_schema_version,
       pol_sha256 := mt_sha m, pol_document := PDict (mt_document m),
       pol_version := (if increment then pol_version p + 1 else pol_version p)\<rparr>"

section \<open>The row\<close>

definition backfill_required :: "policy_env \<Rightarrow> policy \<Rightarrow> bool" where
  "backfill_required env p =
     (if strip (pol_schema_version p) \<noteq> default_schema_version then True
      else case pol_document p of
        PDict doc \<Rightarrow>
          (case pe_validate env doc of
             None \<Rightarrow> True
           | Some d \<Rightarrow>
               let raw = norm_key (pol_sha256 p)
               in if length raw \<noteq> 64 \<or> \<not> list_all is_hex raw then True
                  else raw \<noteq> document_sha256 env (canonical_document d))
      | _ \<Rightarrow> True)"

definition new_policy :: "uuid \<Rightarrow> uuid \<Rightarrow> policy" where
  \<comment> \<open>the column defaults of \<open>EnforcementPolicy\<close>\<close>
  "new_policy pid tenant =
     \<lparr>pol_id = pid, pol_tenant = tenant, terraform_mode = SOFT, terraform_mode_prod = SOFT,
      terraform_mode_nonprod = SOFT, k8s_mode = SOFT, k8s_mode_prod = SOFT, k8s_mode_nonprod = SOFT,
      require_approval_prod = True, require_approval_nonprod = False, separation_prod = True,
      separation_nonprod = False, routing_rules = PList [], pol_schema_version = default_schema_version,
      pol_sha256 = sha256_empty, pol_document = PDict [], plan_ceiling = None, enterprise_ceiling = None,
      auto_approve_below = 25, hard_deny_above = 5000, pol_ttl = 900, pol_version = 1\<rparr>"

definition row_input :: "policy \<Rightarrow> policy_input" where
  \<comment> \<open>the arguments that \<open>get_or_create_policy\<close> and \<open>get_policy_snapshot\<close> take from a row\<close>
  "row_input p =
     \<lparr>in_terraform = terraform_mode p, in_terraform_prod = Some (terraform_mode_prod p),
      in_terraform_nonprod = Some (terraform_mode_nonprod p), in_k8s = k8s_mode p,
      in_k8s_prod = Some (k8s_mode_prod p), in_k8s_nonprod = Some (k8s_mode_nonprod p),
      in_require_prod = require_approval_prod p, in_require_nonprod = require_approval_nonprod p,
      in_plan = map_option quantize_dec (plan_ceiling p),
      in_enterprise = map_option quantize_dec (enterprise_ceiling p),
      in_auto = quantize_dec (auto_approve_below p), in_hard = quantize_dec (hard_deny_above p),
      in_ttl = (if pol_ttl p = 0 then 900 else pol_ttl p),
      in_separation_prod = separation_prod p, in_separation_nonprod = separation_nonprod p,
      in_rules = rules_of_policy p,
      in_document = (case pol_document p of PDict d \<Rightarrow> Some d | _ \<Rightarrow> None)\<rparr>"

definition find_policy :: "db \<Rightarrow> uuid \<Rightarrow> policy option" where
  "find_policy db tenant = first_match (\<lambda>p. pol_tenant p = tenant) (policies db)"

definition put_policy :: "policy \<Rightarrow> db \<Rightarrow> db" where
  "put_policy p db = db\<lparr>policies := update_rows (\<lambda>r. pol_id r = pol_id p) (\<lambda>_. p) (policies db)\<rparr>"

definition get_or_create_policy :: "policy_env \<Rightarrow> db \<Rightarrow> uuid \<Rightarrow> (policy \<times> db) outcome" where
  "get_or_create_policy env db tenant =
     (let (p, db1) = (case find_policy db tenant of
            Some p \<Rightarrow> (p, db)
          | None \<Rightarrow> let p = new_policy (db_next db) tenant
                    in (p, db\<lparr>policies := policies db @ [p], db_next := db_next db + 1\<rparr>))
      in if backfill_required env p
         then and_then (materialize_policy_contract env (row_input p)) (\<lambda>m.
                let p' = apply_materialization m False p in Inr (p', put_policy p' db1))
         else Inr (p, db1))"

definition absent_input :: policy_input where
  \<comment> \<open>what \<open>get_policy_snapshot\<close> passes for an unsaved row, whose attributes are all \<open>None\<close>\<close>
  "absent_input =
     \<lparr>in_terraform = SOFT, in_terraform_prod = Some SOFT, in_terraform_nonprod = Some SOFT, in_k8s = SOFT,
      in_k8s_prod = Some SOFT, in_k8s_nonprod = Some SOFT, in_require_prod = True, in_require_nonprod = False,
      in_plan = None, in_enterprise = None, in_auto = (25, 0), in_hard = (5000, 0), in_ttl = 900,
      in_separation_prod = True, in_separation_nonprod = False, in_rules = [], in_document = None\<rparr>"

definition get_policy_snapshot :: "policy_env \<Rightarrow> db \<Rightarrow> uuid \<Rightarrow> policy outcome" where
  \<comment> \<open>the namespace that stands for an absent row has no id; it is 0 here\<close>
  "get_policy_snapshot env db tenant =
     (case find_policy db tenant of
        None \<Rightarrow> and_then (materialize_policy_contract env absent_input) (\<lambda>m.
                  Inr (apply_materialization m False (new_policy 0 tenant)))
      | Some p \<Rightarrow>
          if \<not> backfill_required env p then Inr p
          else and_then (materialize_policy_contract env (row_input p)) (\<lambda>m.
                 Inr (apply_materialization m False
                   (p\<lparr>pol_version := (if pol_version p = 0 then 1 else pol_version p)\<rparr>))))"

definition update_policy :: "policy_env \<Rightarrow> db \<Rightarrow> uuid \<Rightarrow> policy_input \<Rightarrow> policy outcome \<times> db" where
  "update_policy env db tenant i =
     (case materialize_policy_contract env i of
        Inl e \<Rightarrow> (Inl e, db)
      | Inr m \<Rightarrow>
          (case get_or_create_policy env db tenant of
             Inl e \<Rightarrow> (Inl e, db)
           | Inr (p, db1) \<Rightarrow>
               let p' = apply_materialization m True p in (Inr p', put_policy p' db1)))"

section \<open>What materialisation guarantees\<close>

lemma dec_val_quantize_dec [simp]: "dec_val (quantize_dec x) = quantize4 x"
  by (simp add: dec_val_def quantize_dec_def quantize_round_even pow10_def)

definition contract_ok :: "policy_env \<Rightarrow> materialization \<Rightarrow> bool" where
  "contract_ok env m =
     (0 \<le> mt_auto m \<and> mt_auto m \<le> mt_hard m \<and> 0 < mt_hard m \<and> on_grid 4 (mt_auto m) \<and> on_grid 4 (mt_hard m)
      \<and> (case mt_plan m of None \<Rightarrow> True | Some x \<Rightarrow> 0 \<le> x) \<and> (case mt_enterprise m of None \<Rightarrow> True | Some x \<Rightarrow> 0 \<le> x)
      \<and> 60 \<le> mt_ttl m \<and> mt_ttl m \<le> 86400 \<and> mt_sha m = document_sha256 env (mt_document m))"

lemma materialize_document_ok:
  assumes "materialize_document env d rules = Inr m"
  shows "contract_ok env m" "mt_rules m = rules" "\<exists>doc. mt_document m = canonical_document doc"
proof -
  let ?e = "pd_entitlements d"
  let ?plan = "quantize_opt (em_plan ?e)" and ?ent = "quantize_opt (em_enterprise ?e)"
  have ttl: "60 \<le> clamp 60 86400 (k::int) \<and> clamp 60 86400 k \<le> 86400" for k
    using clamp_bounds [of "60::int" 86400 k] by simp
  have "contract_ok env m \<and> mt_rules m = rules \<and> (\<exists>doc. mt_document m = canonical_document doc)"
    using assms ttl
    by (auto simp: materialize_document_def Let_def and_then_Inr contract_ok_def not_less not_le clamp_execution_def
        split: if_splits option.splits)
  then show "contract_ok env m" "mt_rules m = rules" "\<exists>doc. mt_document m = canonical_document doc" by auto
qed

lemma materialize_Inr:
  assumes "materialize_policy_contract env i = Inr m"
  shows "contract_ok env m" "\<exists>raws. normalize_routing_rules raws = Inr (mt_rules m)"
proof -
  obtain d rules where "materialize_document env d rules = Inr m" "\<exists>raws. normalize_routing_rules raws = Inr rules"
    using assms by (auto simp: materialize_policy_contract_def given_document_def fields_document_def and_then_Inr
        split: option.splits)
  with materialize_document_ok show "contract_ok env m" "\<exists>raws. normalize_routing_rules raws = Inr (mt_rules m)"
    by auto
qed

lemma hex_norm_key: "list_all is_hex s \<Longrightarrow> norm_key s = s"
proof -
  have hex: "\<forall>c\<in>set ''0123456789abcdef''. \<not> is_space c \<and> lower_char c = c"
    by (simp add: is_space_def lower_char_def Let_def)
  assume "list_all is_hex s"
  then have s: "\<And>c. c \<in> set s \<Longrightarrow> \<not> is_space c \<and> lower_char c = c"
    using hex unfolding list_all_iff is_hex_def by blast
  have "strip s = s"
    by (rule strip_no_space) (use s in blast)
  moreover have "lower s = s"
    unfolding lower_def by (rule map_idI) (use s in blast)
  ultimately show ?thesis by (simp add: norm_key_def)
qed

definition sha_ok :: "policy_env \<Rightarrow> bool" where
  \<comment> \<open>\<open>hexdigest()\<close> is 64 lower-case hexadecimal digits\<close>
  "sha_ok env = (\<forall>text. length (pe_sha env text) = 64 \<and> list_all is_hex (pe_sha env text))"

definition revalidates :: "policy_env \<Rightarrow> pyval \<Rightarrow> bool" where
  \<comment> \<open>validating a canonical payload gives back a document with that payload\<close>
  "revalidates env v = (case v of
     PDict doc \<Rightarrow> (case pe_validate env doc of Some d \<Rightarrow> canonical_document d = doc | None \<Rightarrow> False) | _ \<Rightarrow> False)"

lemma strip_schema_version [simp]: "strip default_schema_version = default_schema_version"
  by code_simp

lemma applied_is_current:
  assumes "sha_ok env" "contract_ok env m" "revalidates env (PDict (mt_document m))"
  shows "\<not> backfill_required env (apply_materialization m inc p)"
proof -
  have hex: "list_all is_hex (mt_sha m)" "length (mt_sha m) = 64"
    using assms(1,2) by (simp_all add: contract_ok_def sha_ok_def document_sha256_def)
  show ?thesis
    using assms(2,3) hex hex_norm_key [OF hex(1)]
    by (auto simp: backfill_required_def apply_materialization_def contract_ok_def revalidates_def Let_def
        split: option.splits)
qed

definition policies_ok :: "db \<Rightarrow> bool" where
  \<comment> \<open>primary key and the unique constraint on the tenant\<close>
  "policies_ok db = (distinct (map pol_id (policies db)) \<and> distinct (map pol_tenant (policies db))
     \<and> (\<forall>p\<in>set (policies db). pol_id p < db_next db))"

lemma apply_materialization_key [simp]:
  "pol_id (apply_materialization m inc p) = pol_id p" "pol_tenant (apply_materialization m inc p) = pol_tenant p"
  "pol_version (apply_materialization m inc p) = (if inc then pol_version p + 1 else pol_version p)"
  "pol_document (apply_materialization m inc p) = PDict (mt_document m)"
  by (simp_all add: apply_materialization_def)

lemma policies_put: "policies (put_policy p db) = update_rows (\<lambda>r. pol_id r = pol_id p) (\<lambda>_. p) (policies db)"
  by (simp add: put_policy_def)

lemma find_policy_put:
  assumes "policies_ok db" "find_policy db t = Some p" "pol_id p' = pol_id p" "pol_tenant p' = pol_tenant p"
  shows "find_policy (put_policy p' db) t = Some p'" "policies_ok (put_policy p' db)"
    "filter (\<lambda>r. pol_tenant r \<noteq> t) (policies (put_policy p' db)) = filter (\<lambda>r. pol_tenant r \<noteq> t) (policies db)"
    "find_policy db t' = None \<Longrightarrow> find_policy (put_policy p' db) t' = None"
proof -
  have p: "p \<in> set (policies db)" "pol_tenant p = t"
    using assms(2) by (auto simp: find_policy_def dest: first_match_SomeD)
  have same: "r = p" if "r \<in> set (policies db)" "pol_id r = pol_id p" for r
    using assms(1) p(1) that unfolding policies_ok_def by (metis distinct_map inj_onD)
  have keys: "map pol_id (policies (put_policy p' db)) = map pol_id (policies db)"
    "map pol_tenant (policies (put_policy p' db)) = map pol_tenant (policies db)"
    unfolding policies_put update_rows_def map_map
    using same assms(3,4) by (auto simp: comp_def)
  show ok: "policies_ok (put_policy p' db)"
  proof -
    have "pol_id r < db_next db" if "r \<in> set (policies (put_policy p' db))" for r
    proof -
      have "pol_id r \<in> set (map pol_id (policies (put_policy p' db)))" using that by simp
      then show ?thesis unfolding keys using assms(1) by (auto simp: policies_ok_def)
    qed
    then show ?thesis
      using assms(1) unfolding policies_ok_def keys by (simp add: put_policy_def)
  qed
  have "p' \<in> set (policies (put_policy p' db))"
    unfolding policies_put using update_rowsI [OF p(1), of "\<lambda>r. pol_id r = pol_id p'" "\<lambda>_. p'"] assms(3) by simp
  with ok p(2) assms(4) show "find_policy (put_policy p' db) t = Some p'"
    unfolding find_policy_def by (intro first_match_unique [of pol_tenant]) (auto simp: policies_ok_def)
  show "filter (\<lambda>r. pol_tenant r \<noteq> t) (policies (put_policy p' db)) = filter (\<lambda>r. pol_tenant r \<noteq> t) (policies db)"
  proof -
    have eq: "update_rows (\<lambda>r. pol_id r = pol_id p') (\<lambda>_. p') (policies db) =
        update_rows (\<lambda>r. r = p) (\<lambda>_. p') (policies db)"
      using same assms(3) by (auto simp: update_rows_def)
    show ?thesis
      unfolding policies_put eq by (rule filter_update_rows) (use p(2) assms(4) in auto)
  qed
  show "find_policy (put_policy p' db) t' = None" if "find_policy db t' = None"
  proof -
    have "t' \<notin> set (map pol_tenant (policies db))"
      using that by (auto simp: find_policy_def first_match_None)
    then show ?thesis unfolding find_policy_def first_match_None keys(2) [symmetric] by auto
  qed
qed

lemma get_or_create_found:
  assumes "policies_ok db" "get_or_create_policy env db t = Inr (p, db1)"
  shows "find_policy db1 t = Some p \<and> policies_ok db1 \<and> pol_tenant p = t
    \<and> filter (\<lambda>r. pol_tenant r \<noteq> t) (policies db1) = filter (\<lambda>r. pol_tenant r \<noteq> t) (policies db)"
proof -
  obtain p0 db0 where start: "(case find_policy db t of Some p \<Rightarrow> (p, db)
      | None \<Rightarrow> let p = new_policy (db_next db) t in (p, db\<lparr>policies := policies db @ [p], db_next := db_next db + 1\<rparr>))
      = (p0, db0)" by force
  have 0: "find_policy db0 t = Some p0 \<and> policies_ok db0 \<and> pol_tenant p0 = t
      \<and> filter (\<lambda>r. pol_tenant r \<noteq> t) (policies db0) = filter (\<lambda>r. pol_tenant r \<noteq> t) (policies db)"
  proof (cases "find_policy db t")
    case None
    then have "t \<notin> pol_tenant ` set (policies db)"
      by (auto simp: find_policy_def first_match_None)
    with start None assms(1) show ?thesis
      by (force simp: find_policy_def first_match_append policies_ok_def new_policy_def Let_def)
  next
    case (Some q)
    with start assms(1) show ?thesis by (auto simp: find_policy_def dest: first_match_SomeD)
  qed
  show ?thesis
  proof (cases "backfill_required env p0")
    case False
    with assms(2) start 0 show ?thesis by (simp add: get_or_create_policy_def Let_def)
  next
    case True
    then obtain m where "p = apply_materialization m False p0" "db1 = put_policy p db0"
      using assms(2) start by (auto simp: get_or_create_policy_def Let_def and_then_Inr)
    with 0 find_policy_put [of db0 t p0 p] show ?thesis by simp
  qed
qed

section \<open>Properties\<close>

definition plain_document :: "dec \<Rightarrow> dec \<Rightarrow> policy_document" where
  "plain_document auto hard =
     \<lparr>pd_modes = \<lparr>tf_default = SOFT, tf_prod = SOFT, tf_nonprod = SOFT, ks_default = SOFT, ks_prod = SOFT,
        ks_nonprod = SOFT\<rparr>,
      pd_approval = \<lparr>am_require_prod = True, am_require_nonprod = False, am_separation_prod = True,
        am_separation_nonprod = False, am_rules = []\<rparr>,
      pd_entitlements = \<lparr>em_plan = None, em_enterprise = None, em_auto = auto, em_hard = hard\<rparr>,
      pd_execution = default_execution\<rparr>"

definition sample_env :: policy_env where
  "sample_env =
     \<lparr>pe_validate = (\<lambda>doc.
        if doc = canonical_document (plain_document (quantize_dec 25) (quantize_dec 5000))
        then Some (plain_document (quantize_dec 25) (quantize_dec 5000))
        else if doc = [] then Some (plain_document (25, 0) (5000, 0)) else None),
      pe_validate_rule = (\<lambda>_. None), pe_sha = (\<lambda>_. replicate 64 CHR ''a'')\<rparr>"

lemma sample_quantize: "quantize4 25 = 25" "quantize4 5000 = 5000" "quantize4 100 = 100" "quantize4 40 = 40"
  by (code_simp, code_simp, code_simp, code_simp)

lemma sample_sha_ok: "sha_ok sample_env"
  by (simp add: sha_ok_def sample_env_def is_hex_def list_all_iff)

lemma canonical_nonempty [simp]: "canonical_document d \<noteq> []" "[] \<noteq> canonical_document d"
proof -
  have "length (canonical_document d) = 5"
    by (simp add: canonical_document_def as_dict_def dump_document_def)
  then show "canonical_document d \<noteq> []" "[] \<noteq> canonical_document d" by auto
qed

lemma sample_validate_empty: "pe_validate sample_env [] = Some (plain_document (25, 0) (5000, 0))"
  by (simp add: sample_env_def)

lemma sample_materialized:
  "\<exists>m. materialize_policy_contract sample_env (row_input (new_policy k t)) = Inr m
    \<and> mt_document m = canonical_document (plain_document (quantize_dec 25) (quantize_dec 5000)) \<and> mt_auto m = 25
    \<and> mt_rules m = []"
proof -
  note v = sample_validate_empty
  have d: "dec_val (25, 0) = 25" "dec_val (5000, 0) = 5000"
    by (simp_all add: dec_val_def pow10_def)
  show ?thesis
    by (simp add: materialize_policy_contract_def row_input_def new_policy_def given_document_def v
        materialize_document_def plain_document_def d sample_quantize normalize_routing_rules_def quantize_opt_def
        make_entitlements_def entitlements_valid_def clamp_execution_def default_execution_def clamp_def Let_def)
qed

text \<open>Whatever fields or document it is given, a materialised policy is consistent: thresholds on
  the cent grid with \<open>0 <= auto approve <= hard deny\<close> and a positive hard limit, non-negative
  ceilings, a time to live between a minute and a day, normalised routing rules, and the hash of
  exactly the document that is stored.\<close>

theorem materialized_contract_ok:
  assumes "materialize_policy_contract env i = Inr m"
  shows "contract_ok env m \<and> list_all rule_ok (mt_rules m) \<and> distinct (map rule_key (mt_rules m))"
proof -
  obtain raws where r: "normalize_routing_rules raws = Inr (mt_rules m)"
    using materialize_Inr(2) [OF assms] by blast
  have "list_all rule_ok (mt_rules m) \<and> distinct (map rule_key (mt_rules m))"
  proof (cases "raws = []")
    case True
    with r show ?thesis by (simp add: normalize_routing_rules_def)
  next
    case False
    with r have "normalize_rules_loop 1 [] raws = Inr (mt_rules m)"
      by (auto simp: normalize_routing_rules_def split: if_splits)
    from normalize_rules_loop_ok [OF this] show ?thesis by blast
  qed
  with materialize_Inr(1) [OF assms] show ?thesis by blast
qed

theorem materialized_contract_ok_witness:
  "\<exists>m. materialize_policy_contract sample_env (row_input (new_policy 1 7)) = Inr m
    \<and> mt_auto m \<le> mt_hard m \<and> mt_ttl m \<le> 86400"
proof -
  obtain m where m: "materialize_policy_contract sample_env (row_input (new_policy 1 7)) = Inr m"
    using sample_materialized by blast
  with materialized_contract_ok [OF m] show ?thesis by (auto simp: contract_ok_def)
qed

text \<open>Reading a policy converges: once \<open>get_or_create_policy\<close> has returned a row whose document
  validates to itself, it returns the same row again and leaves the database as it is.\<close>

theorem get_or_create_converges:
  assumes "policies_ok db" "sha_ok env" "get_or_create_policy env db t = Inr (p, db1)"
    and "revalidates env (pol_document p)"
  shows "get_or_create_policy env db1 t = Inr (p, db1)"
proof -
  have "\<not> backfill_required env p"
  proof -
    obtain p0 db0 where "(if backfill_required env p0
        then and_then (materialize_policy_contract env (row_input p0))
          (\<lambda>m. let p' = apply_materialization m False p0 in Inr (p', put_policy p' db0))
        else Inr (p0, db0)) = Inr (p, db1)"
      using assms(3) by (auto simp: get_or_create_policy_def Let_def split: prod.splits)
    then show ?thesis
      using applied_is_current [OF assms(2)] assms(4) materialize_Inr(1)
      by (force simp: and_then_Inr Let_def split: if_splits)
  qed
  with get_or_create_found [OF assms(1,3)] show ?thesis
    by (simp add: get_or_create_policy_def)
qed

lemma new_policy_stale: "backfill_required sample_env (new_policy k t)"
proof -
  note sample_validate_empty
  moreover have "norm_key sha256_empty = sha256_empty"
    by (rule hex_norm_key) (simp add: sha256_empty_def is_hex_def list_all_iff)
  moreover have "sha256_empty \<noteq> replicate 64 CHR ''a''"
    by (simp add: sha256_empty_def replicate_eq_replicate)
  ultimately show ?thesis
    by (simp add: backfill_required_def new_policy_def document_sha256_def Let_def)
       (simp add: sample_env_def)
qed

lemma empty_policies_ok: "policies_ok (empty_db t)"
  by (simp add: policies_ok_def empty_db_def)

lemma sample_creates:
  assumes "policies db = []"
  shows "\<exists>p db1. get_or_create_policy sample_env db 7 = Inr (p, db1)
    \<and> pol_document p = PDict (canonical_document (plain_document (quantize_dec 25) (quantize_dec 5000)))
    \<and> routing_rules p = PList [] \<and> pol_tenant p = 7 \<and> p \<in> set (policies db1)"
proof -
  obtain m where "materialize_policy_contract sample_env (row_input (new_policy (db_next db) 7)) = Inr m"
    "mt_document m = canonical_document (plain_document (quantize_dec 25) (quantize_dec 5000))" "mt_rules m = []"
    using sample_materialized by blast
  moreover have "pol_tenant (new_policy (db_next db) 7) = 7" by (simp add: new_policy_def)
  ultimately show ?thesis
    using assms by (simp add: get_or_create_policy_def find_policy_def new_policy_stale Let_def put_policy_def)
      (simp add: apply_materialization_def)
qed

lemma sample_created:
  "\<exists>p db1. get_or_create_policy sample_env (empty_db 0) 7 = Inr (p, db1)
    \<and> pol_document p = PDict (canonical_document (plain_document (quantize_dec 25) (quantize_dec 5000)))"
  using sample_creates [of "empty_db 0"] by (auto simp: empty_db_def)

theorem get_or_create_converges_witness:
  "\<exists>p db1. get_or_create_policy sample_env (empty_db 0) 7 = Inr (p, db1)
    \<and> get_or_create_policy sample_env db1 7 = Inr (p, db1)"
proof -
  obtain p db1 where 1: "get_or_create_policy sample_env (empty_db 0) 7 = Inr (p, db1)"
    and doc: "pol_document p = PDict (canonical_document (plain_document (quantize_dec 25) (quantize_dec 5000)))"
    using sample_created by blast
  have "revalidates sample_env (pol_document p)"
    unfolding doc by (simp add: revalidates_def sample_env_def)
  from 1 get_or_create_converges [OF empty_policies_ok sample_sha_ok 1 this] show ?thesis by blast
qed

text \<open>An accepted policy update writes the materialised contract to the tenant's own row, raises
  its version by exactly one and leaves the rows of the other tenants alone; a rejected update
  changes nothing.\<close>

theorem update_policy_effect:
  assumes "policies_ok db" "update_policy env db t i = (r, db')"
  shows "case r of
      Inl e \<Rightarrow> db' = db
    | Inr p \<Rightarrow> find_policy db' t = Some p \<and> policies_ok db'
        \<and> 0 \<le> auto_approve_below p \<and> auto_approve_below p \<le> hard_deny_above p \<and> 0 < hard_deny_above p
        \<and> pol_version p = (case find_policy db t of Some q \<Rightarrow> pol_version q | None \<Rightarrow> 1) + 1
        \<and> filter (\<lambda>q. pol_tenant q \<noteq> t) (policies db') = filter (\<lambda>q. pol_tenant q \<noteq> t) (policies db)"
proof (cases "materialize_policy_contract env i")
  case (Inl e)
  with assms(2) show ?thesis by (auto simp: update_policy_def)
next
  case m: (Inr m)
  show ?thesis
  proof (cases "get_or_create_policy env db t")
    case (Inl e)
    with assms(2) m show ?thesis by (auto simp: update_policy_def)
  next
    case (Inr q)
    then obtain p db1 where g: "get_or_create_policy env db t = Inr (p, db1)" by (cases q) auto
    note f = get_or_create_found [OF assms(1) g]
    let ?p = "apply_materialization m True p"
    have res: "r = Inr ?p" "db' = put_policy ?p db1"
      using assms(2) m g by (auto simp: update_policy_def Let_def)
    have version: "pol_version p = (case find_policy db t of Some q \<Rightarrow> pol_version q | None \<Rightarrow> 1)"
      using g by (auto simp: get_or_create_policy_def Let_def and_then_Inr new_policy_def
          split: option.splits if_splits)
    have "contract_ok env m" by (rule materialize_Inr(1) [OF m])
    then have "0 \<le> auto_approve_below ?p \<and> auto_approve_below ?p \<le> hard_deny_above ?p \<and> 0 < hard_deny_above ?p"
      by (simp add: contract_ok_def apply_materialization_def)
    with f res version find_policy_put [of db1 t p ?p] show ?thesis by simp
  qed
qed

theorem update_policy_effect_witness:
  "\<exists>p db'. update_policy sample_env (empty_db 0) 7 (row_input (new_policy 1 7)) = (Inr p, db')
    \<and> find_policy db' 7 = Some p \<and> pol_version p = 2"
proof -
  obtain m where "materialize_policy_contract sample_env (row_input (new_policy 1 7)) = Inr m"
    using sample_materialized by blast
  moreover obtain q db1 where "get_or_create_policy sample_env (empty_db 0) 7 = Inr (q, db1)"
    using sample_created by blast
  ultimately obtain p db' where run: "update_policy sample_env (empty_db 0) 7 (row_input (new_policy 1 7)) = (Inr p, db')"
    by (simp add: update_policy_def Let_def)
  with update_policy_effect [OF empty_policies_ok run] show ?thesis
    by (simp add: find_policy_def empty_db_def)
qed

end
