(* ===== verification/World.thy ===== *)
theory World
  imports Credit_Books Policy_Contract
begin

text \<open>
  The invariant of the whole enforcement database, which every operation of the control plane keeps: the
  tables respect their keys, the credit books balance, and the credit on hold for a decision is exactly
  what the decision says it reserves while its reservation is active, and nothing afterwards.
\<close>

definition key_of :: "decision \<Rightarrow> uuid \<times> enf_source \<times> string" where
  \<comment> \<open>the unique constraint \<open>uq_enforcement_decision_idempotency\<close>\<close>
  "key_of d = (dec_tenant d, dec_source d, dec_idempotency d)"

definition alloc_refs :: "db \<Rightarrow> bool" where
  \<comment> \<open>the foreign keys of the allocations\<close>
  "alloc_refs db = (\<forall>a\<in>set (allocs db).
     (\<exists>d\<in>set (decisions db). dec_id d = al_decision a \<and> dec_tenant d = al_tenant a) \<and>
     (\<exists>g\<in>set (grants db). gr_id g = al_grant a \<and> gr_tenant g = al_tenant a))"

definition money_ok :: "decision \<Rightarrow> bool" where
  "money_ok d = (on_grid 4 (dec_reserved_alloc d) \<and> on_grid 4 (dec_reserved_credit d) \<and>
     (dec_reservation_active d \<longrightarrow> 0 \<le> dec_reserved_alloc d) \<and> 0 \<le> dec_reserved_credit d)"

definition due_hold :: "decision \<Rightarrow> usd" where
  "due_hold d = (if dec_reservation_active d then dec_reserved_credit d else 0)"

definition holds_ok :: "db \<Rightarrow> decision \<Rightarrow> bool" where
  "holds_ok db d = (total (held_for (dec_tenant d) (dec_id d)) (allocs db) = due_hold d)"

definition decisions_ok :: "db \<Rightarrow> bool" where
  "decisions_ok db = (distinct (map dec_id (decisions db)) \<and> distinct (map key_of (decisions db)) \<and>
     (\<forall>d\<in>set (decisions db). dec_id d < db_next db \<and> money_ok d \<and> holds_ok db d))"

definition approvals_ok :: "db \<Rightarrow> bool" where
  "approvals_ok db = (distinct (map apr_id (approvals db)) \<and> distinct (map apr_decision (approvals db)) \<and>
     (\<forall>a\<in>set (approvals db). apr_id a < db_next db \<and>
        (\<exists>d\<in>set (decisions db). dec_id d = apr_decision a \<and> dec_tenant d = apr_tenant a)))"

definition world :: "db \<Rightarrow> bool" where
  "world db = (policies_ok db \<and> books db \<and> alloc_refs db \<and> decisions_ok db \<and> approvals_ok db)"

lemma worldD:
  assumes "world db"
  shows "policies_ok db" "books db" "alloc_refs db" "decisions_ok db" "approvals_ok db"
  using assms by (simp_all add: world_def)

lemma decisions_okD:
  assumes "decisions_ok db" "d \<in> set (decisions db)"
  shows "dec_id d < db_next db" "money_ok d" "holds_ok db d"
  using assms by (simp_all add: decisions_ok_def)

lemma world_backed:
  assumes "world db" "d \<in> set (decisions db)" "dec_reservation_active d"
  shows "backed db (dec_tenant d) d"
proof -
  have "\<exists>g\<in>set (grants db). gr_id g = al_grant a \<and> gr_tenant g = dec_tenant d"
    if "a \<in> set (allocs db)" "al_tenant a = dec_tenant d" for a
    using worldD(3) [OF assms(1)] that unfolding alloc_refs_def by metis
  then show ?thesis
    using assms decisions_okD [OF worldD(4) [OF assms(1)] assms(2)]
    by (simp add: backed_def money_ok_def holds_ok_def due_hold_def)
qed

lemma decision_unique:
  "decisions_ok db \<Longrightarrow> d \<in> set (decisions db) \<Longrightarrow> e \<in> set (decisions db) \<Longrightarrow> dec_id d = dec_id e \<Longrightarrow> d = e"
  by (metis decisions_ok_def distinct_map inj_onD)

lemma find_decision:
  assumes "decisions_ok db" "d \<in> set (decisions db)"
  shows "first_match (\<lambda>e. dec_id e = dec_id d \<and> dec_tenant e = dec_tenant d) (decisions db) = Some d"
  using assms by (intro first_match_unique [where k = dec_id]) (auto simp: decisions_ok_def)

section \<open>What does not matter to the invariant\<close>

lemma alloc_ok_next: "books db \<Longrightarrow> db_next db \<le> n \<Longrightarrow> a \<in> set (allocs db) \<Longrightarrow> alloc_ok a \<and> al_id a < n"
  by (auto simp: books_def)

lemma books_cong:
  assumes "books db" "grants db' = grants db" "allocs db' = allocs db" "db_next db \<le> db_next db'"
  shows "books db'"
  using assms by (auto simp: books_def grant_ok_def)

lemma decisions_ok_cong:
  assumes "decisions_ok db" "decisions db' = decisions db" "allocs db' = allocs db" "db_next db \<le> db_next db'"
  shows "decisions_ok db'"
  using assms by (auto simp: decisions_ok_def holds_ok_def)

lemma approvals_ok_cong:
  assumes "approvals_ok db" "approvals db' = approvals db" "decisions db' = decisions db" "db_next db \<le> db_next db'"
  shows "approvals_ok db'"
  using assms by (auto simp: approvals_ok_def)

lemma policies_ok_cong:
  assumes "policies_ok db" "policies db' = policies db" "db_next db \<le> db_next db'"
  shows "policies_ok db'"
  using assms by (auto simp: policies_ok_def)

lemma alloc_refs_cong:
  assumes "alloc_refs db" "grants db' = grants db" "allocs db' = allocs db" "decisions db' = decisions db"
  shows "alloc_refs db'"
  using assms by (auto simp: alloc_refs_def)

lemma world_cong:
  assumes "world db" "policies_ok db'" "grants db' = grants db" "allocs db' = allocs db"
    "decisions db' = decisions db" "approvals db' = approvals db" "db_next db \<le> db_next db'"
  shows "world db'"
  using assms books_cong [of db db'] decisions_ok_cong [of db db'] approvals_ok_cong [of db db']
    alloc_refs_cong [of db db']
  by (simp add: world_def)

definition same_tables :: "db \<Rightarrow> db \<Rightarrow> bool" where
  \<comment> \<open>only the policies and the supply of identifiers may differ\<close>
  "same_tables db db' = (budgets db' = budgets db \<and> grants db' = grants db \<and> allocs db' = allocs db \<and>
     decisions db' = decisions db \<and> approvals db' = approvals db \<and> ledger db' = ledger db \<and>
     actions db' = actions db \<and> costs db' = costs db \<and> db_now db' = db_now db \<and> db_next db \<le> db_next db')"

lemma get_or_create_tables: "get_or_create_policy env db t = Inr (p, db1) \<Longrightarrow> same_tables db db1"
  by (auto simp: get_or_create_policy_def Let_def and_then_Inr same_tables_def put_policy_def
      split: option.splits if_splits)

lemma world_policy:
  assumes "world db" "get_or_create_policy env db t = Inr (p, db1)"
  shows "world db1"
  using assms get_or_create_tables [OF assms(2)] get_or_create_found [OF worldD(1) [OF assms(1)] assms(2)]
  by (auto intro: world_cong simp: same_tables_def)

section \<open>Reservations keep the references\<close>

lemma grant_keys:
  assumes "credit_frame db db'"
  shows "(\<exists>g\<in>set (grants db'). gr_id g = i \<and> gr_tenant g = t) = (\<exists>g\<in>set (grants db). gr_id g = i \<and> gr_tenant g = t)"
proof -
  have pairs: "set (map (\<lambda>g. (gr_id g, gr_tenant g)) gs) = set (zip (map gr_id gs) (map gr_tenant gs))" for gs
    by (simp add: zip_map_map zip_same_conv_map comp_def)
  have A: "set (map (\<lambda>g. (gr_id g, gr_tenant g)) (grants db')) = set (map (\<lambda>g. (gr_id g, gr_tenant g)) (grants db))"
    using assms unfolding pairs by (simp add: credit_frame_def)
  have B: "(\<exists>g\<in>set gs. gr_id g = i \<and> gr_tenant g = t) = ((i, t) \<in> set (map (\<lambda>g. (gr_id g, gr_tenant g)) gs))" for gs
    by auto
  show ?thesis unfolding B A ..
qed

lemma hold_amount_refs:
  assumes "alloc_refs db" "\<exists>d'\<in>set (decisions db). dec_id d' = d \<and> dec_tenant d' = t"
    "\<exists>g'\<in>set (grants db). gr_id g' = gr_id g \<and> gr_tenant g' = t"
  shows "alloc_refs (hold_amount t d p g x db)"
proof -
  have "decisions (hold_amount t d p g x db) = decisions db" by simp
  then show ?thesis
    using assms
    unfolding alloc_refs_def grant_keys [OF hold_amount_frame] allocs_hold_amount by auto
qed

lemma reserve_loop_refs:
  assumes "reserve_loop t d p gs need db = (diags, rest, db')" "alloc_refs db"
    "\<exists>d'\<in>set (decisions db). dec_id d' = d \<and> dec_tenant d' = t"
    "\<forall>g\<in>set gs. \<exists>g'\<in>set (grants db). gr_id g' = gr_id g \<and> gr_tenant g' = t"
  shows "alloc_refs db' \<and> credit_frame db db'"
  using assms
proof (induction gs arbitrary: need db diags)
  case (Cons g gs)
  from Cons.prems(1) show ?case
  proof (cases rule: reserve_loop_Cons)
    case stop
    with Cons.prems show ?thesis by simp
  next
    case skip
    from Cons.IH [OF skip] Cons.prems show ?thesis by simp
  next
    case (hold x need' diags')
    have "alloc_refs (hold_amount t d p g x db)"
      by (rule hold_amount_refs) (use Cons.prems in auto)
    moreover have "\<forall>g'\<in>set gs. \<exists>h\<in>set (grants (hold_amount t d p g x db)). gr_id h = gr_id g' \<and> gr_tenant h = t"
      using Cons.prems(4) by (subst grant_keys [OF hold_amount_frame]) auto
    ultimately have "alloc_refs db' \<and> credit_frame (hold_amount t d p g x db) db'"
      using Cons.IH [OF hold] Cons.prems(3) by simp
    then show ?thesis using credit_frame_trans [OF hold_amount_frame] by blast
  qed
qed simp

lemma eligible_keys:
  "g \<in> set (eligible_grants db t sc p now) \<Longrightarrow> \<exists>g'\<in>set (grants db). gr_id g' = gr_id g \<and> gr_tenant g' = t"
  by (auto simp: eligible_grants_def Let_def split: if_splits)

lemma reserve_from_grants_refs:
  assumes "reserve_credit_from_grants db t d sc p target now = Inr (diags, db')" "alloc_refs db"
    "\<exists>d'\<in>set (decisions db). dec_id d' = d \<and> dec_tenant d' = t"
  shows "alloc_refs db' \<and> credit_frame db db'"
proof (cases "quantize4 target \<le> 0")
  case True
  with assms show ?thesis by (simp add: reserve_credit_from_grants_def Let_def)
next
  case False
  with assms(1) obtain rest where
    "reserve_loop t d p (eligible_grants db t sc p now) (quantize4 target) db = (diags, rest, db')"
    by (auto simp: reserve_credit_from_grants_def Let_def split: prod.splits if_splits)
  from reserve_loop_refs [OF this assms(2,3)] show ?thesis using eligible_keys by blast
qed

lemma reserve_for_decision_refs:
  assumes "reserve_credit_for_decision db t d sc r e now = Inr (diags, db')" "alloc_refs db"
    "\<exists>d'\<in>set (decisions db). dec_id d' = d \<and> dec_tenant d' = t"
  shows "alloc_refs db' \<and> credit_frame db db'"
proof -
  note step = reserve_from_grants_refs
  obtain ds1 db1 where 1: "alloc_refs db1 \<and> credit_frame db db1" and
    2: "db' = db1 \<or> (\<exists>ds2. reserve_credit_from_grants db1 t d (normalize_scope sc) EMERGENCY (quantize4 e) now = Inr (ds2, db'))"
  proof (cases "0 < quantize4 r")
    case True
    with assms(1) obtain ds1 db1 where
      "reserve_credit_from_grants db t d (normalize_scope sc) RESERVED (quantize4 r) now = Inr (ds1, db1)" and
      "db' = db1 \<or> (\<exists>ds2. reserve_credit_from_grants db1 t d (normalize_scope sc) EMERGENCY (quantize4 e) now = Inr (ds2, db'))"
      by (auto simp: reserve_credit_for_decision_def Let_def and_then_Inr split: if_splits)
    with step [OF this(1) assms(2,3)] show thesis by (intro that)
  next
    case False
    with assms show thesis
      by (intro that [of db]) (auto simp: reserve_credit_for_decision_def Let_def and_then_Inr split: if_splits)
  qed
  from 1 have "decisions db1 = decisions db" by (simp add: credit_frame_def)
  with 1 2 step [of db1 t d] assms(3) show ?thesis by (auto intro: credit_frame_trans)
qed

section \<open>Adding a decision with its holds\<close>

definition insert_decision :: "decision \<Rightarrow> db \<Rightarrow> db" where
  \<comment> \<open>\<open>db.add(decision_row)\<close> and the flush\<close>
  "insert_decision d db = db\<lparr>decisions := decisions db @ [d], db_next := db_next db + 1\<rparr>"

lemma insert_decision_simps [simp]:
  "decisions (insert_decision d db) = decisions db @ [d]" "db_next (insert_decision d db) = db_next db + 1"
  "policies (insert_decision d db) = policies db" "budgets (insert_decision d db) = budgets db"
  "grants (insert_decision d db) = grants db" "allocs (insert_decision d db) = allocs db"
  "approvals (insert_decision d db) = approvals db" "ledger (insert_decision d db) = ledger db"
  "actions (insert_decision d db) = actions db" "costs (insert_decision d db) = costs db"
  "db_now (insert_decision d db) = db_now db"
  by (simp_all add: insert_decision_def)

lemma books_insert: "books db \<Longrightarrow> books (insert_decision d db)"
  by (auto intro: books_cong)

lemma refs_insert: "alloc_refs db \<Longrightarrow> alloc_refs (insert_decision d db)"
  by (auto simp: alloc_refs_def)

lemma no_holds_for_new:
  assumes "world db" "\<forall>e\<in>set (decisions db). dec_id e \<noteq> i"
  shows "total (held_for t i) (allocs db) = 0"
proof -
  have "al_decision a \<noteq> i" if "a \<in> set (allocs db)" for a
    using worldD(3) [OF assms(1)] that assms(2) unfolding alloc_refs_def by metis
  then have "total (held_for t i) (allocs db) = total (\<lambda>_. 0) (allocs db)"
    by (intro total_cong) (simp add: held_for_def)
  then show ?thesis by (simp add: total_def)
qed

lemma world_add_decision:
  assumes w: "world db" and new: "dec_id d = db_next db" "key_of d \<notin> key_of ` set (decisions db)" and m: "money_ok d"
    and mv: "moved (insert_decision d db) db' (dec_tenant d) (dec_id d) (due_hold d)" and refs: "alloc_refs db'"
  shows "world db'"
proof -
  have f: "credit_frame (insert_decision d db) db'" using mv by (simp add: moved_def)
  then have tables: "decisions db' = decisions db @ [d]" "policies db' = policies db" "approvals db' = approvals db"
    "db_next db + 1 \<le> db_next db'"
    by (simp_all add: credit_frame_def)
  have ids: "\<forall>e\<in>set (decisions db). dec_id e < db_next db"
    using worldD(4) [OF w] by (simp add: decisions_ok_def)
  have hold: "total (held_for t i) (allocs db') = total (held_for t i) (allocs db) +
      (if t = dec_tenant d \<and> i = dec_id d then due_hold d else 0)" for t i
    using mv by (simp add: moved_def)
  have "total (held_for t (dec_id d)) (allocs db) = 0" for t
    using no_holds_for_new [OF w, of "dec_id d" t] ids new(1) by (metis less_irrefl)
  then have "holds_ok db' d" by (simp add: holds_ok_def hold)
  moreover have "holds_ok db' e" if "e \<in> set (decisions db)" for e
    using decisions_okD(3) [OF worldD(4) [OF w] that] ids that new(1) by (auto simp: holds_ok_def hold)
  moreover have "dec_id d \<notin> dec_id ` set (decisions db)" using ids new(1) by auto
  ultimately have "decisions_ok db'"
    using worldD(4) [OF w] new(2) m tables new(1) by (fastforce simp: decisions_ok_def)
  moreover have "approvals_ok db'"
    using worldD(5) [OF w] tables by (fastforce simp: approvals_ok_def)
  moreover have "policies_ok db'"
    using policies_ok_cong [OF worldD(1) [OF w] tables(2)] tables by simp
  ultimately show ?thesis
    using mv refs by (simp add: world_def moved_def)
qed

section \<open>Changing a row in place\<close>

lemma world_add_approval:
  assumes "world db" "apr_id a = db_next db" "apr_decision a \<notin> apr_decision ` set (approvals db)"
    "\<exists>d\<in>set (decisions db). dec_id d = apr_decision a \<and> dec_tenant d = apr_tenant a"
  shows "world (db\<lparr>approvals := approvals db @ [a], db_next := db_next db + 1\<rparr>)" (is "world ?db")
proof -
  have "approvals_ok ?db"
    using worldD(5) [OF assms(1)] assms(2-4) by (fastforce simp: approvals_ok_def)
  moreover have "decisions_ok ?db" using worldD(4) [OF assms(1)] by (rule decisions_ok_cong) auto
  moreover have "books ?db" using worldD(2) [OF assms(1)] by (rule books_cong) auto
  moreover have "policies_ok ?db" using worldD(1) [OF assms(1)] by (rule policies_ok_cong) auto
  moreover have "alloc_refs ?db" using worldD(3) [OF assms(1)] by (rule alloc_refs_cong) auto
  ultimately show ?thesis by (simp add: world_def)
qed

lemma world_update_approval:
  assumes "world db" "\<And>x. P x \<Longrightarrow> apr_id (f x) = apr_id x \<and> apr_decision (f x) = apr_decision x \<and> apr_tenant (f x) = apr_tenant x"
  shows "world (db\<lparr>approvals := update_rows P f (approvals db)\<rparr>)" (is "world ?db")
proof -
  have "approvals_ok ?db"
    using worldD(5) [OF assms(1)] assms(2)
    by (auto simp: approvals_ok_def map_update_rows in_update_rows split: if_splits)
  moreover have "decisions_ok ?db" using worldD(4) [OF assms(1)] by (rule decisions_ok_cong) auto
  moreover have "books ?db" using worldD(2) [OF assms(1)] by (rule books_cong) auto
  moreover have "policies_ok ?db" using worldD(1) [OF assms(1)] by (rule policies_ok_cong) auto
  moreover have "alloc_refs ?db" using worldD(3) [OF assms(1)] by (rule alloc_refs_cong) auto
  ultimately show ?thesis by (simp add: world_def)
qed

section \<open>Changing a decision in place\<close>

definition alloc_keys :: "credit_alloc \<Rightarrow> uuid \<times> uuid \<times> uuid" where
  "alloc_keys a = (al_decision a, al_tenant a, al_grant a)"

lemma refs_keys:
  assumes "alloc_refs db" "map alloc_keys (allocs db') = map alloc_keys (allocs db)" "credit_frame db db'"
  shows "alloc_refs db'"
proof -
  have same: "alloc_keys ` set (allocs db') = alloc_keys ` set (allocs db)"
    using assms(2) by (metis list.set_map)
  have dec: "decisions db' = decisions db" using assms(3) by (simp add: credit_frame_def)
  define ok where "ok k = ((\<exists>d\<in>set (decisions db). dec_id d = fst k \<and> dec_tenant d = fst (snd k)) \<and>
     (\<exists>g\<in>set (grants db). gr_id g = snd (snd k) \<and> gr_tenant g = fst (snd k)))" for k
  have "alloc_refs db \<longleftrightarrow> (\<forall>k\<in>alloc_keys ` set (allocs db). ok k)"
    by (simp add: alloc_refs_def alloc_keys_def ok_def)
  moreover have "alloc_refs db' \<longleftrightarrow> (\<forall>k\<in>alloc_keys ` set (allocs db'). ok k)"
    unfolding alloc_refs_def grant_keys [OF assms(3)] dec by (simp add: alloc_keys_def ok_def)
  ultimately show ?thesis using assms(1) same by simp
qed

lemma updated_rows:
  assumes "e \<in> set (update_rows (\<lambda>x. k x = k d) f xs)" "distinct (map k xs)" "d \<in> set xs"
  shows "e = f d \<or> (e \<in> set xs \<and> k e \<noteq> k d)"
  using assms by (auto simp: in_update_rows distinct_map inj_on_def split: if_splits)

lemma world_change_decision:
  assumes w: "world db" and d: "d \<in> set (decisions db)"
    and db1: "books db1" "credit_frame db db1" "map alloc_keys (allocs db1) = map alloc_keys (allocs db)"
    and hold: "\<And>t i. total (held_for t i) (allocs db1) = total (held_for t i) (allocs db) -
      (if t = dec_tenant d \<and> i = dec_id d then due_hold d - due_hold (f d) else 0)"
    and f: "dec_id (f d) = dec_id d" "key_of (f d) = key_of d" "money_ok (f d)"
  shows "world (db1\<lparr>decisions := update_rows (\<lambda>e. dec_id e = dec_id d) f (decisions db1)\<rparr>)" (is "world ?db")
proof -
  note ok = worldD(4) [OF w]
  have tables: "decisions db1 = decisions db" "policies db1 = policies db" "approvals db1 = approvals db"
    "db_next db \<le> db_next db1" using db1(2) by (simp_all add: credit_frame_def)
  have dist: "distinct (map dec_id (decisions db))" using ok by (simp add: decisions_ok_def)
  have t: "dec_tenant (f d) = dec_tenant d" using f(2) by (simp add: key_of_def)
  have rows: "e = f d \<or> (e \<in> set (decisions db) \<and> dec_id e \<noteq> dec_id d)" if "e \<in> set (decisions ?db)" for e
    using that updated_rows [OF _ dist d, of e f] tables by simp
  have map_same: "map g (decisions ?db) = map g (decisions db)" if "g (f d) = g d" for g :: "decision \<Rightarrow> 'a"
    using that decision_unique [OF ok _ d] tables by (auto simp: update_rows_def)
  have ex: "(\<exists>e\<in>set (decisions ?db). dec_id e = i \<and> dec_tenant e = u) \<longleftrightarrow>
      (\<exists>e\<in>set (decisions db). dec_id e = i \<and> dec_tenant e = u)" for i u
  proof -
    have "((i, u) \<in> set (map (\<lambda>e. (dec_id e, dec_tenant e)) (decisions ?db))) =
        ((i, u) \<in> set (map (\<lambda>e. (dec_id e, dec_tenant e)) (decisions db)))"
      by (subst map_same) (simp_all add: f(1) t)
    then show ?thesis by (auto simp: image_iff)
  qed
  have old: "dec_id e < db_next db1 \<and> money_ok e \<and> holds_ok ?db e"
    if "e \<in> set (decisions db)" "dec_id e \<noteq> dec_id d" for e
    using decisions_okD [OF ok that(1)] that(2) tables(4) hold by (simp add: holds_ok_def)
  have "dec_id (f d) < db_next db1 \<and> money_ok (f d) \<and> holds_ok ?db (f d)"
    using decisions_okD [OF ok d] tables(4) hold f t by (simp add: holds_ok_def)
  with old rows have "\<forall>e\<in>set (decisions ?db). dec_id e < db_next ?db \<and> money_ok e \<and> holds_ok ?db e"
    by (metis db.select_convs(10) db.surjective db.update_convs(5))
  moreover have "distinct (map dec_id (decisions ?db))" "distinct (map key_of (decisions ?db))"
    using ok map_same [of dec_id] map_same [of key_of] f by (simp_all only: decisions_ok_def)
  ultimately have "decisions_ok ?db"
    by (simp only: decisions_ok_def)
  moreover have "approvals_ok ?db"
  proof -
    have "apr_id a < db_next db1" if "a \<in> set (approvals db)" for a
      using worldD(5) [OF w] that tables(4) by (auto simp: approvals_ok_def)
    with worldD(5) [OF w] tables(3) show ?thesis unfolding approvals_ok_def ex by simp
  qed
  moreover have "alloc_refs ?db"
    using refs_keys [OF worldD(3) [OF w] db1(3,2)] unfolding alloc_refs_def ex by (simp add: tables)
  moreover have "books ?db" using db1(1) by (rule books_cong) auto
  moreover have "policies_ok ?db" using worldD(1) [OF w] by (rule policies_ok_cong) (use tables in auto)
  ultimately show ?thesis by (simp add: world_def)
qed

lemma world_update_decision:
  assumes "world db" "d \<in> set (decisions db)"
    "dec_id (f d) = dec_id d" "key_of (f d) = key_of d" "money_ok (f d)" "due_hold (f d) = due_hold d"
  shows "world (db\<lparr>decisions := update_rows (\<lambda>e. dec_id e = dec_id d) f (decisions db)\<rparr>)"
  by (rule world_change_decision [OF assms(1,2) worldD(2) [OF assms(1)]]) (use assms in auto)

section \<open>Settling a decision\<close>

lemma settle_loop_keys:
  assumes "settle_loop t now rows c r db = Inr (diags, c', r', db')"
  shows "map alloc_keys (allocs db') = map alloc_keys (allocs db)"
  using assms
proof (induction rows arbitrary: c r db diags)
  case (Cons a rows)
  then obtain g c1 r1 c2 r2 diags' where
    "settle_loop t now rows c2 r2 (settle_one now g a c1 r1 db) = Inr (diags', c', r', db')"
    unfolding settle_loop.simps settle_one_def Let_def and_then_Inr by (auto split: option.splits simp: and_then_Inr)
  from Cons.IH [OF this] show ?case
    by (simp add: map_update_rows alloc_keys_def settle_alloc_def)
qed simp

lemma settle_keys:
  assumes "settle_credit_reservations db t d consumed now = Inr (diags, db')"
  shows "map alloc_keys (allocs db') = map alloc_keys (allocs db)"
proof -
  have "db' = db \<or> (\<exists>rows c r ds c' r'. settle_loop t now rows c r db = Inr (ds, c', r', db'))"
    using assms unfolding settle_credit_reservations_def Let_def
    by (simp add: and_then_Inr split: if_splits) blast
  then show ?thesis using settle_loop_keys by blast
qed

lemma world_settle_decision:
  assumes "world db" "d \<in> set (decisions db)"
    "settled db db1 (dec_tenant d) (dec_id d) c r" "c + r = due_hold d"
    "map alloc_keys (allocs db1) = map alloc_keys (allocs db)"
    "dec_id (f d) = dec_id d" "key_of (f d) = key_of d" "money_ok (f d)" "due_hold (f d) = 0"
  shows "world (db1\<lparr>decisions := update_rows (\<lambda>e. dec_id e = dec_id d) f (decisions db1)\<rparr>)"
  by (rule world_change_decision [OF assms(1,2)]) (use assms in \<open>auto simp: settled_def\<close>)

lemma settle_world:
  assumes w: "world db" and d: "d \<in> set (decisions db)"
    and run: "settle_credit_reservations db (dec_tenant d) d consumed now = Inr (diags, db1)"
  obtains c r where "settled db db1 (dec_tenant d) (dec_id d) c r" "c + r = due_hold d" "0 \<le> c" "0 \<le> r"
    "map alloc_keys (allocs db1) = map alloc_keys (allocs db)"
    "dec_reservation_active d \<longrightarrow> c = bounded_consumption d consumed"
proof -
  note m = decisions_okD(2) [OF worldD(4) [OF w] d, unfolded money_ok_def]
  note keys = settle_keys [OF run]
  have grid: "quantize4 (dec_reserved_credit d) = dec_reserved_credit d" using m by simp
  show thesis
  proof (cases "dec_reserved_credit d = 0")
    case True
    then have "db1 = db" using run by (simp add: settle_credit_reservations_def Let_def)
    then show thesis
      using True worldD(2) [OF w] by (intro that [of 0 0]) (simp_all add: due_hold_def bounded_consumption_def min_absorb2)
  next
    case False
    with m have pos: "0 < dec_reserved_credit d" by simp
    show thesis
    proof (cases "dec_reservation_active d")
      case True
      have bound: "0 \<le> bounded_consumption d consumed \<and> bounded_consumption d consumed \<le> dec_reserved_credit d"
        using bounded_consumption_bounds [of d consumed] m by simp
      from settle_ok [OF worldD(2) [OF w] world_backed [OF w d True] pos, of consumed now] run
      have "settled db db1 (dec_tenant d) (dec_id d) (bounded_consumption d consumed)
          (dec_reserved_credit d - bounded_consumption d consumed)" by auto
      with bound keys True show thesis by (intro that) (auto simp: due_hold_def)
    next
      case False
      have none: "filter (\<lambda>a. al_tenant a = dec_tenant d \<and> al_decision a = dec_id d \<and> al_active a) (allocs db) = []"
      proof (rule ccontr)
        assume "\<not> ?thesis"
        then obtain a where a: "a \<in> set (allocs db)" "al_tenant a = dec_tenant d" "al_decision a = dec_id d" "al_active a"
          by (auto simp: filter_empty_conv)
        have "held_for (dec_tenant d) (dec_id d) a \<le> total (held_for (dec_tenant d) (dec_id d)) (allocs db)"
          using worldD(2) [OF w] by (intro total_ge_member [OF a(1)]) (auto simp: books_def alloc_ok_def held_for_def)
        moreover have "total (held_for (dec_tenant d) (dec_id d)) (allocs db) = 0"
          using decisions_okD(3) [OF worldD(4) [OF w] d] False by (simp add: holds_ok_def due_hold_def)
        ultimately show False using a worldD(2) [OF w] by (auto simp: books_def alloc_ok_def held_for_def)
      qed
      with pos run grid have False by (simp add: settle_credit_reservations_def Let_def order_by_def)
      then show thesis ..
    qed
  qed
qed

end
