(* ===== verification/Gate.thy ===== *)
theory Gate
  imports Ledger Computed_Context Approval_Routing World
begin

text \<open>
  \<open>app/modules/enforcement/domain/gate_evaluation_*.py\<close>: the evaluation of a gate request, the
  fail-safe decision for a gate that could not be evaluated, the idempotent replay, the persistence of the
  decision with its credit reservation, approval request and ledger row, and the lock that serialises the
  evaluations of a tenant (\<open>service_runtime_gate_lock_ops.py\<close>).

  The environment \<open>gate_env\<close> holds what the gate asks of others: the policy parameters, the tier of a tenant,
  the success of the cost queries, the outcome of the lock statement and \<open>ge_others\<close>, what
  other transactions commit while it waits.
\<close>

section \<open>The environment of a gate\<close>

datatype lock_result = LOCK_ACQUIRED | LOCK_TIMEOUT | LOCK_ERROR string

record gate_env =
  ge_policy :: policy_env
  ge_tier :: "uuid \<Rightarrow> pricing_tier"
  ge_costs_ok :: "bool \<Rightarrow> bool"
  ge_lock :: lock_result
  ge_others :: "db \<Rightarrow> db"

record gate_result =
  res_decision :: decision
  res_approval :: "approval option"
  res_ttl :: int

section \<open>Payloads\<close>

definition resolve_idempotency_key :: "string \<Rightarrow> string option \<Rightarrow> string" where
  "resolve_idempotency_key fingerprint key =
     (let raw = strip (or_default (opt_str key) fingerprint)
      in if raw \<noteq> [] then take 128 raw else fingerprint)"

definition build_metadata_payload :: "pydict \<Rightarrow> string \<Rightarrow> int \<Rightarrow> pydict" where
  "build_metadata_payload original risk_class risk_score =
     (let m = (if has_key original ''risk_level'' then original else dset original ''risk_level'' (PStr risk_class))
      in dset (dset m ''computed_risk_class'' (PStr risk_class)) ''computed_risk_score'' (PInt risk_score))"

definition sanitize_failure_metadata :: "pydict option \<Rightarrow> pydict option" where
  "sanitize_failure_metadata metadata =
     (case metadata of None \<Rightarrow> None
      | Some d \<Rightarrow> (let kept = filter (\<lambda>kv. strip (fst kv) \<noteq> []) d in if kept = [] then None else Some kept))"

definition build_fail_safe_reasons :: "enf_mode \<Rightarrow> string \<Rightarrow> bool \<Rightarrow> string \<times> string list" where
  "build_fail_safe_reasons mode failure_reason_code dry_run =
     (let normalized = or_default (norm_key failure_reason_code) ''gate_evaluation_error'';
          mode_reason = (case mode of SHADOW \<Rightarrow> ''shadow_mode_fail_open''
            | SOFT \<Rightarrow> ''soft_mode_fail_safe_escalation'' | HARD \<Rightarrow> ''hard_mode_fail_closed'')
      in (normalized, [normalized, mode_reason] @ (if dry_run then [''dry_run''] else [])))"

definition gate_request_payload :: "gate_input \<Rightarrow> string \<Rightarrow> usd \<Rightarrow> usd \<Rightarrow> pydict \<Rightarrow> pydict" where
  "gate_request_payload g env monthly hourly metadata =
     [(''project_id'', PStr (gi_project g)), (''environment'', PStr env), (''action'', PStr (gi_action g)),
      (''resource_reference'', PStr (gi_resource g)),
      (''estimated_monthly_delta_usd'', PStr (fixed_str 4 monthly)),
      (''estimated_hourly_delta_usd'', PStr (fixed_str 6 hourly)),
      (''metadata'', PDict metadata), (''dry_run'', PBool (gi_dry_run g))]"

section \<open>Headrooms\<close>

record headrooms =
  hr_tier :: pricing_tier
  hr_plan_ceiling :: "usd option"
  hr_plan :: "usd option"
  hr_ent_ceiling :: "usd option"
  hr_ent :: "usd option"
  hr_alloc :: "usd option"
  hr_reserved :: usd
  hr_emergency :: usd

definition under_ceiling :: "usd \<Rightarrow> usd \<Rightarrow> usd" where
  "under_ceiling reserved_total limit = quantize4 (max 0 (limit - reserved_total))"

definition gate_headrooms :: "gate_env \<Rightarrow> db \<Rightarrow> uuid \<Rightarrow> policy \<Rightarrow> gate_input \<Rightarrow> time \<Rightarrow> headrooms" where
  "gate_headrooms env db tenant p g now =
     (let (month_start, month_end) = month_bounds now;
          (alloc_total, credit_total) = get_reserved_totals db tenant month_start month_end;
          reserved_total = quantize4 (alloc_total + credit_total);
          tier = ge_tier env tenant;
          plan = resolve_plan_ceiling p tier;
          enterprise = resolve_enterprise_ceiling p tier;
          budget = get_effective_budget db tenant (gi_project g);
          (reserved, emergency) = get_credit_headrooms db tenant (gi_project g) now
      in \<lparr>hr_tier = tier, hr_plan_ceiling = plan, hr_plan = map_option (under_ceiling reserved_total) plan,
          hr_ent_ceiling = enterprise, hr_ent = map_option (under_ceiling reserved_total) enterprise,
          hr_alloc = map_option (\<lambda>b. max 0 (bud_limit b - alloc_total)) budget,
          hr_reserved = reserved, hr_emergency = emergency\<rparr>)"

section \<open>The verdict\<close>

record verdict =
  vd_decision :: decision_type
  vd_reasons :: "string list"
  vd_alloc :: usd
  vd_reserved :: usd
  vd_emergency :: usd
  vd_credit :: usd
  vd_waterfall :: "waterfall option"

definition bare_verdict :: "decision_type \<Rightarrow> string list \<Rightarrow> verdict" where
  "bare_verdict d rs = \<lparr>vd_decision = d, vd_reasons = rs, vd_alloc = 0, vd_reserved = 0, vd_emergency = 0,
     vd_credit = 0, vd_waterfall = None\<rparr>"

definition reason_subject :: "string \<Rightarrow> string option" where
  "reason_subject code = map_of [(''budget_exceeded'', ''budget''), (''plan_limit_exceeded'', ''plan_limit''),
     (''enterprise_ceiling_exceeded'', ''enterprise_ceiling'')] code"

definition waterfall_reasons :: "enf_mode \<Rightarrow> waterfall \<Rightarrow> string list" where
  "waterfall_reasons mode w =
     (case wf_reason w of None \<Rightarrow> []
      | Some code \<Rightarrow> code # (case reason_subject code of
            Some subject \<Rightarrow> if mode = SHADOW \<or> mode = SOFT then [mode_violation_reason_suffix mode subject] else []
          | None \<Rightarrow> []))
     @ (if 0 < wf_credit w
        then [''credit_waterfall_used'']
          @ (if 0 < wf_reserved w then [''reserved_credit_waterfall_used''] else [])
          @ (if 0 < wf_emergency w then [''emergency_credit_waterfall_used''] else [])
        else [])"

definition assess :: "enf_mode \<Rightarrow> policy \<Rightarrow> headrooms \<Rightarrow> computed_context \<Rightarrow> usd \<Rightarrow> verdict" where
  \<comment> \<open>context availability, hard threshold, waterfall\<close>
  "assess mode p hr ctx monthly =
     (let reasons = (if hr_alloc hr = None then [''no_budget_configured''] else [])
      in if cc_source ctx = ''unavailable'' \<and> 0 < monthly
         then bare_verdict (mode_violation_decision mode)
           (reasons @ [''computed_context_unavailable'', mode_violation_reason_suffix mode ''cost_context''])
         else if hard_deny_above p < monthly
         then bare_verdict (mode_violation_decision mode)
           (reasons @ [''hard_deny_threshold_exceeded'']
             @ (if mode = SOFT then [''soft_mode_escalation''] else [])
             @ (if mode = SHADOW then [''shadow_mode_override''] else []))
         else
      let w = evaluate_entitlement_waterfall mode monthly (hr_plan hr) (hr_alloc hr) (hr_reserved hr)
                (hr_emergency hr) (hr_ent hr)
      in \<lparr>vd_decision = wf_decision w, vd_reasons = reasons @ waterfall_reasons mode w, vd_alloc = wf_alloc w,
          vd_reserved = wf_reserved w, vd_emergency = wf_emergency w, vd_credit = wf_credit w,
          vd_waterfall = Some w\<rparr>)"

definition needs_approval :: "policy \<Rightarrow> bool \<Rightarrow> usd \<Rightarrow> bool" where
  "needs_approval p is_prod monthly =
     (\<not> monthly \<le> auto_approve_below p \<and> (if is_prod then require_approval_prod p else require_approval_nonprod p))"

definition with_approval :: "enf_mode \<Rightarrow> bool \<Rightarrow> verdict \<Rightarrow> verdict" where
  "with_approval mode required v =
     (if vd_decision v \<in> {ALLOW, ALLOW_WITH_CREDITS} \<and> required
      then if mode = SHADOW
           then v\<lparr>vd_reasons := vd_reasons v @ [''shadow_mode_approval_override'']\<rparr>
           else v\<lparr>vd_decision := REQUIRE_APPROVAL, vd_reasons := vd_reasons v @ [''approval_required'']\<rparr>
      else v)"

definition with_dry_run :: "bool \<Rightarrow> verdict \<Rightarrow> verdict" where
  "with_dry_run dry_run v =
     (if dry_run
      then v\<lparr>vd_reasons := vd_reasons v @ [''dry_run''], vd_alloc := 0, vd_reserved := 0, vd_emergency := 0,
             vd_credit := 0\<rparr>
      else v)"

definition reservation_is_active :: "enf_mode \<Rightarrow> bool \<Rightarrow> verdict \<Rightarrow> bool" where
  "reservation_is_active mode dry_run v =
     (\<not> dry_run \<and> vd_decision v \<noteq> DENY \<and> mode \<noteq> SHADOW \<and> 0 < vd_alloc v + vd_credit v)"

definition gate_verdict ::
  "enf_mode \<Rightarrow> policy \<Rightarrow> headrooms \<Rightarrow> computed_context \<Rightarrow> usd \<Rightarrow> bool \<Rightarrow> bool \<Rightarrow> verdict" where
  "gate_verdict mode p hr ctx monthly is_prod dry_run =
     with_dry_run dry_run (with_approval mode (needs_approval p is_prod monthly) (assess mode p hr ctx monthly))"

section \<open>The response payload\<close>

definition stage_payload :: "stage_row \<Rightarrow> pyval" where
  "stage_payload s = PDict [(''stage'', PStr (st_stage s)), (''status'', PStr (st_status s)),
     (''available_usd'', PStr (st_available s)), (''consumed_usd'', PStr (st_consumed s)),
     (''remaining_after_stage_usd'', PStr (st_remaining s))]"

definition plain_or_fixed :: "bool \<Rightarrow> usd \<Rightarrow> pyval" where
  \<comment> \<open>\<open>str(Decimal("0"))\<close> has no decimal places\<close>
  "plain_or_fixed plain x = PStr (if plain then ''0'' else fixed_str 4 x)"

definition gate_response_payload ::
  "enf_mode \<Rightarrow> string \<Rightarrow> bool \<Rightarrow> headrooms \<Rightarrow> verdict \<Rightarrow> bool \<Rightarrow> computed_context \<Rightarrow> pydict" where
  "gate_response_payload mode mode_scope is_prod hr v dry_run ctx =
     (let literal = (dry_run \<or> (case vd_waterfall v of None \<Rightarrow> True
            | Some w \<Rightarrow> wf_reason w = Some ''plan_limit_exceeded'' \<or> (wf_reason w \<noteq> None \<and> mode \<noteq> SOFT)))
      in [(''mode'', PStr (mode_value mode)), (''mode_scope'', PStr mode_scope), (''is_production'', PBool is_prod),
          (''allocation_headroom_usd'', opt_val (\<lambda>h. plain_or_fixed (h = 0) h) (hr_alloc hr)),
          (''credits_headroom_usd'', PStr (fixed_str 4 (quantize4 (hr_reserved hr + hr_emergency hr)))),
          (''reserved_credits_headroom_usd'', PStr (fixed_str 4 (hr_reserved hr))),
          (''emergency_credits_headroom_usd'', PStr (fixed_str 4 (hr_emergency hr))),
          (''plan_monthly_ceiling_usd'', opt_val (\<lambda>c. PStr (fixed_str 4 (quantize4 c))) (hr_plan_ceiling hr)),
          (''plan_headroom_usd'', opt_val (\<lambda>c. PStr (fixed_str 4 (quantize4 c))) (hr_plan hr)),
          (''enterprise_monthly_ceiling_usd'', opt_val (\<lambda>c. PStr (fixed_str 4 (quantize4 c))) (hr_ent_ceiling hr)),
          (''enterprise_headroom_usd'', opt_val (\<lambda>c. PStr (fixed_str 4 (quantize4 c))) (hr_ent hr)),
          (''tenant_tier'', PStr (tier_value (hr_tier hr))),
          (''entitlement_reason_code'', (case vd_waterfall v of None \<Rightarrow> PNone | Some w \<Rightarrow> opt_val PStr (wf_reason w))),
          (''entitlement_waterfall'', opt_val (\<lambda>w. PList (map stage_payload (wf_stages w))) (vd_waterfall v)),
          (''reserved_credit_split_usd'', PDict [(''reserved'', plain_or_fixed literal (vd_reserved v)),
             (''emergency'', plain_or_fixed literal (vd_emergency v))]),
          (''computed_context'', PDict (context_payload ctx))])"

definition fail_safe_response_payload ::
  "enf_mode \<Rightarrow> string \<Rightarrow> bool \<Rightarrow> string \<Rightarrow> pydict option \<Rightarrow> computed_context \<Rightarrow> pydict" where
  "fail_safe_response_payload mode mode_scope is_prod reason details ctx =
     [(''mode'', PStr (mode_value mode)), (''mode_scope'', PStr mode_scope), (''is_production'', PBool is_prod),
      (''fail_safe_trigger'', PStr reason), (''fail_safe_details'', opt_val PDict details),
      (''computed_context'', PDict (context_payload ctx))]"

section \<open>The context of an evaluation\<close>

record gate_context =
  gc_policy :: policy
  gc_env :: string
  gc_mode :: enf_mode
  gc_scope :: string
  gc_ttl :: int
  gc_fingerprint :: string
  gc_key :: string

definition gate_context_of :: "gate_env \<Rightarrow> enf_source \<Rightarrow> gate_input \<Rightarrow> policy \<Rightarrow> gate_context" where
  "gate_context_of env source g p =
     (let environment = normalize_environment (gi_environment g);
          (mode, scope) = resolve_policy_mode p source environment;
          fingerprint = stable_fingerprint (pe_sha (ge_policy env)) source g
      in \<lparr>gc_policy = p, gc_env = environment, gc_mode = mode, gc_scope = scope,
          gc_ttl = clamp 60 86400 (pol_ttl p), gc_fingerprint = fingerprint,
          gc_key = resolve_idempotency_key fingerprint (gi_idempotency g)\<rparr>)"

definition costs_representable :: "gate_input \<Rightarrow> bool" where
  \<comment> \<open>the two \<open>quantize\<close> calls of the fingerprint stay within the 28 digits of the decimal context\<close>
  "costs_representable g = (\<bar>quantize4 (gi_monthly g)\<bar> < 10 ^ 24 \<and> \<bar>quantize6 (gi_hourly g)\<bar> < 10 ^ 22)"

definition build_gate_context ::
  "gate_env \<Rightarrow> db \<Rightarrow> uuid \<Rightarrow> enf_source \<Rightarrow> gate_input \<Rightarrow> (gate_context \<times> db) outcome" where
  "build_gate_context env db tenant source g =
     and_then (get_or_create_policy (ge_policy env) db tenant)
       (\<lambda>(p, db'). if costs_representable g then Inr (gate_context_of env source g p, db') else Inl InvalidOperation)"

definition get_existing_gate_result :: "db \<Rightarrow> uuid \<Rightarrow> enf_source \<Rightarrow> string \<Rightarrow> int \<Rightarrow> gate_result option" where
  "get_existing_gate_result db tenant source key ttl =
     map_option (\<lambda>d. \<lparr>res_decision = d, res_approval = get_approval_by_decision db (dec_id d), res_ttl = ttl\<rparr>)
       (get_decision_by_idempotency db tenant source key)"

definition acquire_gate_lock :: "gate_env \<Rightarrow> db \<Rightarrow> policy \<Rightarrow> db outcome" where
  \<comment> \<open>the session's view after the lock statement has waited for the other transactions\<close>
  "acquire_gate_lock env db p =
     (case ge_lock env of
        LOCK_TIMEOUT \<Rightarrow> Inl (DomainError 503 ''gate_lock_timeout'')
      | LOCK_ERROR e \<Rightarrow> Inl (RuntimeErr e)
      | LOCK_ACQUIRED \<Rightarrow>
          if \<exists>r\<in>set (policies (ge_others env db)). pol_id r = pol_id p \<and> pol_tenant r = pol_tenant p
          then Inr (ge_others env db)
          else Inl (DomainError 409 ''gate_lock_contended''))"

section \<open>Persisting a decision\<close>

record pending_decision =
  pd_row :: "uuid \<Rightarrow> time \<Rightarrow> decision"   \<comment> \<open>the row, up to the id and time its defaults draw at the flush\<close>
  pd_reserved :: usd
  pd_emergency :: usd
  pd_reserves :: bool                  \<comment> \<open>whether a reservation callback is passed\<close>

definition credit_reservation :: "db \<Rightarrow> uuid \<Rightarrow> decision \<Rightarrow> string \<Rightarrow> usd \<Rightarrow> usd \<Rightarrow> time \<Rightarrow> (pydict list \<times> db) outcome" where
  "credit_reservation db tenant d scope_key reserved emergency now =
     (if \<not> dec_reservation_active d then Inr ([], db)
      else if dec_reserved_credit d \<le> 0 then Inr ([], db)
      else reserve_credit_for_decision db tenant (dec_id d) scope_key reserved emergency now)"

definition set_response :: "uuid \<Rightarrow> pydict \<Rightarrow> db \<Rightarrow> db" where
  "set_response i r db = db\<lparr>decisions := update_rows (\<lambda>d. dec_id d = i) (\<lambda>d. d\<lparr>dec_response := r\<rparr>) (decisions db)\<rparr>"

definition request_approval :: "policy \<Rightarrow> decision \<Rightarrow> uuid \<Rightarrow> time \<Rightarrow> int \<Rightarrow> db \<Rightarrow> (approval \<times> db) outcome" where
  "request_approval p d actor now ttl db =
     and_then (resolve_routing_trace p d) (\<lambda>trace.
       let a = \<lparr>apr_id = db_next db, apr_tenant = dec_tenant d, apr_decision = dec_id d, apr_status = PENDING,
                apr_requested_by = Some actor, apr_reviewed_by = None, apr_notes = None,
                apr_rule_id = or_none (strip (str_or_empty (dget trace ''rule_id''))), apr_trace = trace,
                apr_token_hash = None, apr_token_expires = None, apr_token_consumed = None,
                apr_expires = now + seconds ttl, apr_approved_at = None, apr_denied_at = None,
                apr_created = db_now db, apr_updated = db_now db\<rparr>
       in Inr (a, db\<lparr>approvals := approvals db @ [a], db_next := db_next db + 1\<rparr>))"

definition wants_approval_row :: "decision \<Rightarrow> bool \<Rightarrow> enf_mode \<Rightarrow> bool" where
  "wants_approval_row d dry_run mode = (dec_decision d = REQUIRE_APPROVAL \<and> \<not> dry_run \<and> mode \<noteq> SHADOW)"

definition optional_approval ::
  "policy \<Rightarrow> decision \<Rightarrow> uuid \<Rightarrow> time \<Rightarrow> int \<Rightarrow> bool \<Rightarrow> enf_mode \<Rightarrow> db \<Rightarrow> (approval option \<times> db) outcome" where
  "optional_approval p d actor now ttl dry_run mode db =
     (if wants_approval_row d dry_run mode
      then and_then (request_approval p d actor now ttl db) (\<lambda>(a, db'). Inr (Some a, db'))
      else Inr (None, db))"

definition attach_allocations :: "pydict list \<Rightarrow> decision \<Rightarrow> decision" where
  \<comment> \<open>\<open>if credit_allocations_payload: decision_row.response_payload = {...}\<close>\<close>
  "attach_allocations rows d =
     (if rows = [] then d
      else d\<lparr>dec_response := dset (dec_response d) ''credit_reservation_allocations'' (PList (map PDict rows))\<rparr>)"

definition reserve_pending ::
  "db \<Rightarrow> uuid \<Rightarrow> pending_decision \<Rightarrow> decision \<Rightarrow> string \<Rightarrow> time \<Rightarrow> (pydict list \<times> db) outcome" where
  "reserve_pending db tenant pending d scope_key now =
     (if pd_reserves pending
      then credit_reservation db tenant d scope_key (pd_reserved pending) (pd_emergency pending) now
      else Inr ([], db))"

definition numeric_fits :: "nat \<Rightarrow> nat \<Rightarrow> usd \<Rightarrow> bool" where
  \<comment> \<open>a column \<open>NUMERIC(precision, scale)\<close> and a value on its grid\<close>
  "numeric_fits precision scale x = (\<bar>x\<bar> < 10 ^ (precision - scale))"

definition row_fits :: "decision \<Rightarrow> bool" where
  \<comment> \<open>the columns of the decision whose values come from outside, and the reserved total of its ledger row\<close>
  "row_fits d =
     (length (dec_environment d) \<le> 32 \<and> length (dec_project d) \<le> 128 \<and> length (dec_action d) \<le> 64 \<and>
      length (dec_resource d) \<le> 512 \<and>
      numeric_fits 14 4 (dec_monthly d) \<and> numeric_fits 14 6 (dec_hourly d) \<and>
      pred_option (numeric_fits 14 4) (dec_burn_rate d) \<and> pred_option (numeric_fits 14 4) (dec_forecast d) \<and>
      pred_option (numeric_fits 14 4) (dec_alloc_available d) \<and>
      pred_option (numeric_fits 14 4) (dec_credits_available d) \<and>
      numeric_fits 14 4 (dec_reserved_alloc d) \<and> numeric_fits 14 4 (dec_reserved_credit d) \<and>
      numeric_fits 14 4 (dec_reserved_alloc d + dec_reserved_credit d))"

definition store_decision ::
  "(string \<Rightarrow> string) \<Rightarrow> db \<Rightarrow> uuid \<Rightarrow> pending_decision \<Rightarrow> gate_input \<Rightarrow> enf_mode \<Rightarrow> policy \<Rightarrow> uuid \<Rightarrow> time \<Rightarrow> int
    \<Rightarrow> (gate_result \<times> db) outcome" where
  \<comment> \<open>the body of the \<open>try\<close> up to the commit\<close>
  "store_decision sha db tenant pending g mode p actor now ttl =
     (let d0 = pd_row pending (db_next db) (db_now db)
      in if \<not> row_fits d0 then Inl DataError else
         and_then (reserve_pending (insert_decision d0 db) tenant pending d0 (gi_project g) now)
         (\<lambda>(rows, db2).
           let d = attach_allocations rows d0
           in and_then (optional_approval p d actor now ttl (gi_dry_run g) mode
                  (set_response (dec_id d) (dec_response d) db2))
              (\<lambda>(a, db4).
                Inr (\<lparr>res_decision = d, res_approval = a, res_ttl = ttl\<rparr>, append_ledger sha d a db4))))"

definition persist_decision ::
  "(string \<Rightarrow> string) \<Rightarrow> db \<Rightarrow> db \<Rightarrow> uuid \<Rightarrow> enf_source \<Rightarrow> string \<Rightarrow> pending_decision \<Rightarrow> gate_input \<Rightarrow> enf_mode
    \<Rightarrow> policy \<Rightarrow> uuid \<Rightarrow> time \<Rightarrow> int \<Rightarrow> gate_result outcome \<times> db" where
  \<comment> \<open>\<open>base\<close> is the committed database, \<open>db\<close> the view of the session; the unique constraint on (tenant, source,
    idempotency key) makes the flush raise \<open>IntegrityError\<close>, whose handler replays the stored decision\<close>
  "persist_decision sha base db tenant source key pending g mode p actor now ttl =
     (if get_decision_by_idempotency db tenant source key \<noteq> None
      then (case get_existing_gate_result base tenant source key ttl of
              None \<Rightarrow> (Inl IntegrityError, base)
            | Some r \<Rightarrow> (Inr r, base))
      else case store_decision sha db tenant pending g mode p actor now ttl of
             Inl e \<Rightarrow> (Inl e, base)
           | Inr (r, db') \<Rightarrow> (Inr r, db'))"

section \<open>The gate\<close>

definition decision_row ::
  "uuid \<Rightarrow> uuid \<Rightarrow> enf_source \<Rightarrow> gate_input \<Rightarrow> gate_context \<Rightarrow> computed_context \<Rightarrow> decision_type \<Rightarrow> string list
    \<Rightarrow> pydict \<Rightarrow> usd option \<Rightarrow> usd option \<Rightarrow> usd \<Rightarrow> usd \<Rightarrow> bool \<Rightarrow> uuid \<Rightarrow> time \<Rightarrow> decision" where
  \<comment> \<open>the constructor call \<open>EnforcementDecision(...)\<close> of both handlers\<close>
  "decision_row tenant actor source g gc ctx d reasons response alloc_available credits_available alloc credit active
     new_id created =
     (let p = gc_policy gc; monthly = quantize4 (gi_monthly g); hourly = quantize6 (gi_hourly g)
      in \<lparr>dec_id = new_id, dec_tenant = tenant, dec_source = source, dec_environment = gc_env gc,
          dec_project = gi_project g, dec_action = gi_action g, dec_resource = gi_resource g, dec_decision = d,
          dec_reasons = unique_reason_codes reasons, dec_policy_version = pol_version p,
          dec_schema_version = normalize_schema_version (Some (pol_schema_version p)),
          dec_sha256 = normalize_sha256 (Some (pol_sha256 p)),
          dec_fingerprint = gc_fingerprint gc, dec_idempotency = gc_key gc,
          dec_request = gate_request_payload g (gc_env gc) monthly hourly
            (build_metadata_payload (gi_metadata g) (cc_risk_class ctx) (cc_risk_score ctx)),
          dec_response = response, dec_monthly = monthly, dec_hourly = hourly,
          dec_burn_rate = Some (cc_burn ctx), dec_forecast = Some (cc_forecast ctx),
          dec_risk_class = Some (cc_risk_class ctx), dec_risk_score = Some (cc_risk_score ctx),
          dec_anomaly = Some (cc_anomaly ctx), dec_alloc_available = alloc_available,
          dec_credits_available = credits_available, dec_reserved_alloc = alloc, dec_reserved_credit = credit,
          dec_reservation_active = active, dec_approval_required = (d = REQUIRE_APPROVAL),
          dec_token_issued = False, dec_token_expires = None, dec_created_by = Some actor, dec_created = created\<rparr>)"

definition gate_pending ::
  "gate_env \<Rightarrow> db \<Rightarrow> uuid \<Rightarrow> uuid \<Rightarrow> enf_source \<Rightarrow> gate_input \<Rightarrow> gate_context \<Rightarrow> time \<Rightarrow> pending_decision" where
  "gate_pending env db tenant actor source g gc now =
     (let p = gc_policy gc; mode = gc_mode gc; is_prod = is_production (gc_env gc);
          hr = gate_headrooms env db tenant p g now;
          ctx = build_computed_context (ge_costs_ok env) db tenant (pol_version p) g now is_prod;
          v = gate_verdict mode p hr ctx (quantize4 (gi_monthly g)) is_prod (gi_dry_run g)
      in \<lparr>pd_row = decision_row tenant actor source g gc ctx (vd_decision v) (vd_reasons v)
            (gate_response_payload mode (gc_scope gc) is_prod hr v (gi_dry_run g) ctx)
            (hr_alloc hr) (Some (quantize4 (hr_reserved hr + hr_emergency hr)))
            (vd_alloc v) (vd_credit v) (reservation_is_active mode (gi_dry_run g) v),
          pd_reserved = vd_reserved v, pd_emergency = vd_emergency v, pd_reserves = True\<rparr>)"

definition evaluate_gate ::
  "gate_env \<Rightarrow> db \<Rightarrow> uuid \<Rightarrow> uuid \<Rightarrow> enf_source \<Rightarrow> gate_input \<Rightarrow> gate_result outcome \<times> db" where
  "evaluate_gate env db tenant actor source g =
     (case build_gate_context env db tenant source g of
        Inl e \<Rightarrow> (Inl e, db)
      | Inr (gc, db1) \<Rightarrow>
     (case get_existing_gate_result db1 tenant source (gc_key gc) (gc_ttl gc) of
        Some r \<Rightarrow> (Inr r, db)
      | None \<Rightarrow>
     (case acquire_gate_lock env db1 (gc_policy gc) of
        Inl e \<Rightarrow> (Inl e, ge_others env db)
      | Inr db2 \<Rightarrow>
     (case get_existing_gate_result db2 tenant source (gc_key gc) (gc_ttl gc) of
        Some r \<Rightarrow> (Inr r, ge_others env db)
      | None \<Rightarrow>
          let now = db_now db2
          in persist_decision (pe_sha (ge_policy env)) (ge_others env db) db2 tenant source (gc_key gc)
               (gate_pending env db2 tenant actor source g gc now) g (gc_mode gc) (gc_policy gc) actor now (gc_ttl gc)))))"

definition fail_safe_pending ::
  "gate_env \<Rightarrow> db \<Rightarrow> uuid \<Rightarrow> uuid \<Rightarrow> enf_source \<Rightarrow> gate_input \<Rightarrow> string \<Rightarrow> pydict option \<Rightarrow> gate_context \<Rightarrow> time
    \<Rightarrow> pending_decision" where
  "fail_safe_pending env db tenant actor source g failure_code failure_metadata gc now =
     (let mode = gc_mode gc; is_prod = is_production (gc_env gc);
          (reason, reasons) = build_fail_safe_reasons mode failure_code (gi_dry_run g);
          ctx = build_computed_context (ge_costs_ok env) db tenant (pol_version (gc_policy gc)) g now is_prod
      in \<lparr>pd_row = decision_row tenant actor source g gc ctx (mode_violation_decision mode) reasons
            (fail_safe_response_payload mode (gc_scope gc) is_prod reason
               (sanitize_failure_metadata failure_metadata) ctx) None None 0 0 False,
          pd_reserved = 0, pd_emergency = 0, pd_reserves = False\<rparr>)"

definition resolve_fail_safe_gate ::
  "gate_env \<Rightarrow> db \<Rightarrow> uuid \<Rightarrow> uuid \<Rightarrow> enf_source \<Rightarrow> gate_input \<Rightarrow> string \<Rightarrow> pydict option
    \<Rightarrow> gate_result outcome \<times> db" where
  "resolve_fail_safe_gate env db tenant actor source g failure_code failure_metadata =
     (case build_gate_context env db tenant source g of
        Inl e \<Rightarrow> (Inl e, db)
      | Inr (gc, db1) \<Rightarrow>
     (case get_existing_gate_result db1 tenant source (gc_key gc) (gc_ttl gc) of
        Some r \<Rightarrow> (Inr r, db)
      | None \<Rightarrow>
          let now = db_now db
          in persist_decision (pe_sha (ge_policy env)) db db1 tenant source (gc_key gc)
               (fail_safe_pending env db1 tenant actor source g failure_code failure_metadata gc now)
               g (gc_mode gc) (gc_policy gc) actor now (gc_ttl gc)))"

definition decision_value :: "decision_type \<Rightarrow> string" where
  "decision_value d = (case d of ALLOW \<Rightarrow> ''ALLOW'' | DENY \<Rightarrow> ''DENY'' | REQUIRE_APPROVAL \<Rightarrow> ''REQUIRE_APPROVAL''
     | ALLOW_WITH_CREDITS \<Rightarrow> ''ALLOW_WITH_CREDITS'')"

definition gate_result_to_response :: "gate_result \<Rightarrow> pydict" where
  "gate_result_to_response r =
     (let d = res_decision r; ctx = dget (dec_response d) ''computed_context''
      in [(''decision'', PStr (decision_value (dec_decision d))),
          (''reason_codes'', PList (map PStr (dec_reasons d))), (''decision_id'', PUuid (dec_id d)),
          (''policy_version'', PInt (dec_policy_version d)), (''approval_required'', PBool (dec_approval_required d)),
          (''approval_request_id'', opt_val (PUuid \<circ> apr_id) (res_approval r)),
          (''approval_token'', PNone), (''approval_token_contract'', PStr ''approval_flow_only''),
          (''ttl_seconds'', PInt (res_ttl r)), (''request_fingerprint'', PStr (dec_fingerprint d)),
          (''reservation_active'', PBool (dec_reservation_active d)),
          (''computed_context'', (case ctx of PDict c \<Rightarrow> PDict c | _ \<Rightarrow> PNone))])"

end
