(* ===== verification/Approval_Flow.thy ===== *)
theory Approval_Flow
  imports Approval_Token Gate
begin

text \<open>
  \<open>app/modules/enforcement/domain/approval_flow_ops.py\<close>: opening an approval request, the queue of pending
  requests, approval with the issue of a token, denial, and the consumption of a token.  An expired request
  is closed and its credit returned by the attempt to approve it, which commits before it raises.
\<close>

record flow_env =
  fe_policy :: policy_env
  fe_token :: token_env
  fe_scim :: scim

abbreviation flow_sha :: "flow_env \<Rightarrow> string \<Rightarrow> string" where
  "flow_sha env \<equiv> pe_sha (fe_policy env)"

definition review_notes :: "string option \<Rightarrow> string option" where
  \<comment> \<open>\<open>str(notes).strip() if notes else None\<close>\<close>
  "review_notes n = (case n of None \<Rightarrow> None | Some s \<Rightarrow> if s = [] then None else Some (strip s))"

definition policy_ttl :: "policy \<Rightarrow> int" where
  "policy_ttl p = clamp 60 86400 (pol_ttl p)"

section \<open>Writing rows\<close>

definition update_approval :: "uuid \<Rightarrow> (approval \<Rightarrow> approval) \<Rightarrow> db \<Rightarrow> db" where
  "update_approval i f db = db\<lparr>approvals := update_rows (\<lambda>a. apr_id a = i) f (approvals db)\<rparr>"

definition update_decision :: "uuid \<Rightarrow> (decision \<Rightarrow> decision) \<Rightarrow> db \<Rightarrow> db" where
  "update_decision i f db = db\<lparr>decisions := update_rows (\<lambda>d. dec_id d = i) f (decisions db)\<rparr>"

section \<open>Opening a request\<close>

definition open_approval ::
  "policy \<Rightarrow> decision \<Rightarrow> uuid \<Rightarrow> time \<Rightarrow> int \<Rightarrow> string option \<Rightarrow> db \<Rightarrow> (approval \<times> db) outcome" where
  "open_approval p d actor now ttl notes db =
     and_then (request_approval p d actor now ttl db) (\<lambda>(a, _).
       let a' = a\<lparr>apr_notes := review_notes notes\<rparr>
       in Inr (a', db\<lparr>approvals := approvals db @ [a'], db_next := db_next db + 1\<rparr>))"

definition create_approval ::
  "flow_env \<Rightarrow> db \<Rightarrow> uuid \<Rightarrow> uuid \<Rightarrow> uuid \<Rightarrow> string option \<Rightarrow> approval outcome \<times> db" where
  "create_approval env db tenant actor i notes =
     (case first_match (\<lambda>d. dec_id d = i \<and> dec_tenant d = tenant) (decisions db) of
        None \<Rightarrow> (Inl (DomainError 404 ''Decision not found''), db)
      | Some d \<Rightarrow>
          if dec_decision d \<noteq> REQUIRE_APPROVAL
          then (Inl (DomainError 409 ''Approval request can only be created for REQUIRE_APPROVAL decisions''), db)
          else case get_approval_by_decision db i of
                 Some a \<Rightarrow> (Inr a, db)
               | None \<Rightarrow> commit db
                   (and_then (get_or_create_policy (fe_policy env) db tenant) (\<lambda>(p, db1).
                    and_then (open_approval p d actor (db_now db) (policy_ttl p) notes db1) (\<lambda>(a, db2).
                      Inr (a, append_ledger (flow_sha env) d (Some a) db2)))))"

section \<open>The queue\<close>

definition pending_rows :: "db \<Rightarrow> uuid \<Rightarrow> int \<Rightarrow> (approval \<times> decision) list" where
  "pending_rows db tenant limit =
     take (nat (clamp 1 200 limit))
       (concat (map (\<lambda>a. map (Pair a) (filter (\<lambda>d. dec_id d = apr_decision a) (decisions db)))
         (order_by [apr_created] (filter (\<lambda>a. apr_tenant a = tenant \<and> apr_status a = PENDING \<and> db_now db \<le> apr_expires a)
           (approvals db)))))"

fun allowed_rows :: "(approval \<Rightarrow> decision \<Rightarrow> (pydict \<times> approval) outcome) \<Rightarrow> (approval \<times> decision) list
    \<Rightarrow> (approval \<times> decision) list outcome" where
  \<comment> \<open>only a domain error of the authority check skips a row\<close>
  "allowed_rows check [] = Inr []"
| "allowed_rows check ((a, d) # rows) =
     (case check a d of
        Inr (_, a') \<Rightarrow> and_then (allowed_rows check rows) (\<lambda>rs. Inr ((a', d) # rs))
      | Inl (DomainError _ _) \<Rightarrow> allowed_rows check rows
      | Inl e \<Rightarrow> Inl e)"

definition list_pending_approvals :: "flow_env \<Rightarrow> db \<Rightarrow> uuid \<Rightarrow> user option \<Rightarrow> int \<Rightarrow> (approval \<times> decision) list outcome" where
  \<comment> \<open>nothing is committed\<close>
  "list_pending_approvals env db tenant reviewer limit =
     (case reviewer of
        None \<Rightarrow> Inr (pending_rows db tenant limit)
      | Some u \<Rightarrow> and_then (get_or_create_policy (fe_policy env) db tenant) (\<lambda>(p, _).
          allowed_rows (\<lambda>a d. enforce_reviewer_authority (fe_scim env) p a d u False) (pending_rows db tenant limit)))"

section \<open>Approval\<close>

definition released :: "decision \<Rightarrow> decision" where
  "released d = d\<lparr>dec_reservation_active := False, dec_reserved_alloc := 0, dec_reserved_credit := 0\<rparr>"

definition add_response :: "pydict \<Rightarrow> decision \<Rightarrow> decision" where
  \<comment> \<open>\<open>{**(decision.response_payload or {}), ...}\<close>\<close>
  "add_response kvs d = d\<lparr>dec_response := dmerge (dec_response d) kvs\<rparr>"

definition settlement_value :: "pydict list \<Rightarrow> pyval" where
  "settlement_value diags = PList (map PDict diags)"

definition expired_row :: "time \<Rightarrow> approval \<Rightarrow> approval" where
  "expired_row now a = a\<lparr>apr_status := EXPIRED, apr_updated := now\<rparr>"

definition expired_decision :: "time \<Rightarrow> pydict list \<Rightarrow> decision \<Rightarrow> decision" where
  "expired_decision now diags d =
     add_response [(''approval_expired_at'', PTime now), (''credit_settlement'', settlement_value diags)] (released d)"

definition expire_request :: "flow_env \<Rightarrow> db \<Rightarrow> uuid \<Rightarrow> approval \<Rightarrow> decision \<Rightarrow> db outcome" where
  "expire_request env db tenant a d =
     and_then (settle_credit_reservations db tenant d 0 (db_now db)) (\<lambda>(diags, db1).
       Inr (append_ledger (flow_sha env) (expired_decision (db_now db) diags d) (Some (expired_row (db_now db) a))
              (update_approval (apr_id a) (expired_row (db_now db))
                (update_decision (dec_id d) (expired_decision (db_now db) diags) db1))))"

definition approved_row :: "time \<Rightarrow> uuid \<Rightarrow> string option \<Rightarrow> string \<Rightarrow> time \<Rightarrow> approval \<Rightarrow> approval" where
  "approved_row now reviewer notes token_hash expires a =
     a\<lparr>apr_status := APPROVED, apr_reviewed_by := Some reviewer, apr_notes := review_notes notes,
       apr_approved_at := Some now, apr_updated := now, apr_token_hash := Some token_hash,
       apr_token_expires := Some expires\<rparr>"

definition approved_decision :: "time \<Rightarrow> uuid \<Rightarrow> uuid \<Rightarrow> pydict \<Rightarrow> time \<Rightarrow> decision \<Rightarrow> decision" where
  "approved_decision now reviewer approval trace expires d =
     add_response [(''approval_id'', PUuid approval),
        (''approval_routing_rule_id'', PStr (str_or_empty (dget trace ''rule_id''))),
        (''approval_routing_trace'', PDict trace), (''approved_by_user_id'', PUuid reviewer),
        (''approved_at'', PTime now)]
       (d\<lparr>dec_token_issued := True, dec_token_expires := Some expires\<rparr>)"

record approval_grant =
  ag_approval :: approval
  ag_decision :: decision
  ag_token :: string
  ag_expires :: time

definition grant_request ::
  "flow_env \<Rightarrow> db \<Rightarrow> uuid \<Rightarrow> approval \<Rightarrow> decision \<Rightarrow> user \<Rightarrow> string option \<Rightarrow> (approval_grant \<times> db) outcome" where
  "grant_request env db tenant a d reviewer notes =
     and_then (get_or_create_policy (fe_policy env) db tenant) (\<lambda>(p, db1).
     and_then (enforce_reviewer_authority (fe_scim env) p a d reviewer True) (\<lambda>(trace, _).
     let now = db_now db; expires = now + seconds (policy_ttl p)
     in and_then (build_approval_token (fe_token env) d a expires now) (\<lambda>token.
       let f = approved_row now (usr_id reviewer) notes (flow_sha env token) expires \<circ> adopt_trace trace;
           g = approved_decision now (usr_id reviewer) (apr_id a) trace expires
       in Inr (\<lparr>ag_approval = f a, ag_decision = g d, ag_token = token, ag_expires = expires\<rparr>,
               append_ledger (flow_sha env) (g d) (Some (f a))
                 (update_approval (apr_id a) f (update_decision (dec_id d) g db1))))))"

definition load_pending :: "db \<Rightarrow> uuid \<Rightarrow> uuid \<Rightarrow> (approval \<times> decision) outcome" where
  "load_pending db tenant i =
     and_then (load_approval_with_decision db tenant i) (\<lambda>(a, d).
       and_then (assert_pending a) (\<lambda>_. Inr (a, d)))"

definition approve_request ::
  "flow_env \<Rightarrow> db \<Rightarrow> uuid \<Rightarrow> uuid \<Rightarrow> user \<Rightarrow> string option \<Rightarrow> approval_grant outcome \<times> db" where
  "approve_request env db tenant i reviewer notes =
     (case load_pending db tenant i of
        Inl e \<Rightarrow> (Inl e, db)
      | Inr (a, d) \<Rightarrow>
          if apr_expires a \<le> db_now db
          then (case expire_request env db tenant a d of
                  Inl e \<Rightarrow> (Inl e, db)
                | Inr db' \<Rightarrow> (Inl (DomainError 409 ''Approval request has expired''), db'))
          else commit db (grant_request env db tenant a d reviewer notes))"

section \<open>Denial\<close>

definition denied_row :: "time \<Rightarrow> uuid \<Rightarrow> string option \<Rightarrow> approval \<Rightarrow> approval" where
  "denied_row now reviewer notes a =
     a\<lparr>apr_status := DENIED, apr_reviewed_by := Some reviewer, apr_notes := review_notes notes,
       apr_denied_at := Some now, apr_updated := now\<rparr>"

definition denied_decision :: "time \<Rightarrow> uuid \<Rightarrow> uuid \<Rightarrow> pydict \<Rightarrow> pydict list \<Rightarrow> decision \<Rightarrow> decision" where
  "denied_decision now reviewer approval trace diags d =
     add_response [(''approval_id'', PUuid approval),
        (''approval_routing_rule_id'', PStr (str_or_empty (dget trace ''rule_id''))),
        (''approval_routing_trace'', PDict trace), (''denied_by_user_id'', PUuid reviewer),
        (''denied_at'', PTime now), (''credit_settlement'', settlement_value diags)]
       (released d)"

definition deny_request ::
  "flow_env \<Rightarrow> db \<Rightarrow> uuid \<Rightarrow> uuid \<Rightarrow> user \<Rightarrow> string option \<Rightarrow> (approval \<times> decision) outcome \<times> db" where
  "deny_request env db tenant i reviewer notes =
     commit db
       (and_then (load_pending db tenant i) (\<lambda>(a, d).
        and_then (get_or_create_policy (fe_policy env) db tenant) (\<lambda>(p, db1).
        and_then (enforce_reviewer_authority (fe_scim env) p a d reviewer True) (\<lambda>(trace, _).
        and_then (settle_credit_reservations db1 tenant d 0 (db_now db)) (\<lambda>(diags, db2).
        let f = denied_row (db_now db) (usr_id reviewer) notes \<circ> adopt_trace trace;
            g = denied_decision (db_now db) (usr_id reviewer) (apr_id a) trace diags
        in Inr ((f a, g d),
             append_ledger (flow_sha env) (g d) (Some (f a))
               (update_approval (apr_id a) f (update_decision (dec_id d) g db2))))))))"

section \<open>Consumption\<close>

fun reject_if :: "(bool \<times> string) list \<Rightarrow> unit outcome" where
  \<comment> \<open>the first mismatch is a conflict\<close>
  "reject_if [] = Inr ()"
| "reject_if ((bad, msg) # checks) = (if bad then Inl (DomainError 409 msg) else reject_if checks)"

record expectations =
  xp_source :: "enf_source option"
  xp_project :: "string option"
  xp_environment :: "string option"
  xp_fingerprint :: "string option"
  xp_resource :: "string option"

definition no_expectations :: expectations where
  "no_expectations = \<lparr>xp_source = None, xp_project = None, xp_environment = None, xp_fingerprint = None,
     xp_resource = None\<rparr>"

definition differs :: "'a option \<Rightarrow> ('a \<Rightarrow> 'b) \<Rightarrow> 'b \<Rightarrow> bool" where
  \<comment> \<open>\<open>x is not None and f(x) != y\<close>\<close>
  "differs x f y = (case x of None \<Rightarrow> False | Some v \<Rightarrow> f v \<noteq> y)"

definition effective_expiry :: "token_context \<Rightarrow> approval \<Rightarrow> decision \<Rightarrow> time" where
  "effective_expiry tc a d =
     (case apr_token_expires a of Some t \<Rightarrow> t
      | None \<Rightarrow> (case dec_token_expires d of Some t \<Rightarrow> t | None \<Rightarrow> tc_expires tc))"

definition state_checks :: "string \<Rightarrow> time \<Rightarrow> token_context \<Rightarrow> approval \<Rightarrow> decision \<Rightarrow> (bool \<times> string) list" where
  "state_checks token_hash now tc a d =
     [(dec_id d \<noteq> tc_decision tc, ''Approval token decision binding mismatch''),
      (apr_status a \<noteq> APPROVED, ''Approval token is not active ('' @ approval_status_value (apr_status a) @ '')''),
      (case apr_token_hash a of None \<Rightarrow> True | Some h \<Rightarrow> h = [] \<or> h \<noteq> token_hash, ''Approval token mismatch''),
      (effective_expiry tc a d \<le> now, ''Approval token has expired'')]"

definition binding_checks :: "token_context \<Rightarrow> decision \<Rightarrow> (bool \<times> string) list" where
  "binding_checks tc d =
     [(tc_source tc \<noteq> dec_source d, ''Approval token source mismatch''),
      (tc_project tc \<noteq> dec_project d, ''Approval token project binding mismatch''),
      (normalize_environment (tc_environment tc) \<noteq> normalize_environment (dec_environment d),
         ''Approval token environment mismatch''),
      (tc_fingerprint tc \<noteq> dec_fingerprint d, ''Approval token fingerprint mismatch''),
      (tc_resource tc \<noteq> dec_resource d, ''Approval token resource binding mismatch''),
      (quantize4 (tc_monthly tc) \<noteq> quantize4 (dec_monthly d), ''Approval token cost binding mismatch''),
      (quantize6 (tc_hourly tc) \<noteq> quantize6 (dec_hourly d), ''Approval token cost binding mismatch'')]"

definition expected_checks :: "expectations \<Rightarrow> decision \<Rightarrow> (bool \<times> string) list" where
  "expected_checks x d =
     [(differs (xp_source x) id (dec_source d), ''Expected source mismatch''),
      (differs (xp_project x) strip (strip (dec_project d)), ''Expected project mismatch''),
      (differs (xp_environment x) normalize_environment (normalize_environment (dec_environment d)),
         ''Expected environment mismatch''),
      (differs (xp_fingerprint x) strip (dec_fingerprint d), ''Expected request fingerprint mismatch''),
      (differs (xp_resource x) strip (dec_resource d), ''Expected resource reference mismatch'')]"

definition consumed_row :: "time \<Rightarrow> approval \<Rightarrow> approval" where
  "consumed_row now a = a\<lparr>apr_token_consumed := Some now, apr_updated := now\<rparr>"

definition consumed_decision :: "time \<Rightarrow> uuid option \<Rightarrow> decision \<Rightarrow> decision" where
  "consumed_decision now actor =
     add_response [(''approval_token_consumed_at'', PTime now),
       (''approval_token_consumed_by_user_id'', opt_val PUuid actor)]"

definition mark_consumed :: "db \<Rightarrow> uuid \<Rightarrow> approval \<Rightarrow> decision \<Rightarrow> uuid option \<Rightarrow> ((approval \<times> decision) \<times> db) outcome" where
  \<comment> \<open>the conditional \<open>UPDATE\<close>: it must hit exactly the one row that is not consumed yet\<close>
  "mark_consumed db tenant a d actor =
     (let hit = (\<lambda>x. apr_id x = apr_id a \<and> apr_tenant x = tenant \<and> apr_token_consumed x = None); now = db_now db
      in if length (filter hit (approvals db)) \<noteq> 1
         then Inl (DomainError 409 ''Approval token replay detected'')
         else Inr ((consumed_row now a, consumed_decision now actor d),
                update_decision (dec_id d) (consumed_decision now actor)
                  (db\<lparr>approvals := update_rows hit (consumed_row now) (approvals db)\<rparr>)))"

definition token_context_of :: "flow_env \<Rightarrow> db \<Rightarrow> string \<Rightarrow> token_context outcome" where
  "token_context_of env db token =
     and_then (decode_approval_token (fe_token env) (db_now db) token) extract_token_context"

definition consume_token ::
  "flow_env \<Rightarrow> db \<Rightarrow> uuid \<Rightarrow> string \<Rightarrow> uuid option \<Rightarrow> expectations \<Rightarrow> (approval \<times> decision) outcome \<times> db" where
  "consume_token env db tenant token actor x =
     commit db
       (let t = strip token
        in if t = [] then Inl (DomainError 422 ''approval_token is required'') else
        and_then (token_context_of env db t) (\<lambda>tc.
        if tc_tenant tc \<noteq> tenant then Inl (DomainError 403 ''Approval token tenant mismatch'') else
        and_then (load_approval_with_decision db tenant (tc_approval tc)) (\<lambda>(a, d).
        and_then (reject_if (state_checks (flow_sha env t) (db_now db) tc a d @ binding_checks tc d @ expected_checks x d))
          (\<lambda>_. mark_consumed db tenant a d actor))))"

end
