(* ===== verification/Gate_Safety.thy ===== *)
theory Gate_Safety
  imports Gate
begin

text \<open>
  What the gate guarantees: what a verdict may reserve, how a stored decision changes the database, that the
  database invariant is kept, that the month's reservations stay under every ceiling, and that a repeated
  request replays the stored decision.
\<close>

section \<open>What the verdict reserves\<close>

lemma allocation_none_zero: "ch_alloc c = 0 \<and> ch_reserved c = 0 \<and> ch_emergency c = 0 \<and> ch_left c = 0"
  if "c = greedy_charge need None r e"
  using that by (simp add: greedy_charge_def)

definition modest :: "headrooms \<Rightarrow> usd \<Rightarrow> usd \<Rightarrow> usd \<Rightarrow> usd \<Rightarrow> bool" where
  \<comment> \<open>amounts that fit the request and every headroom\<close>
  "modest hr requested alloc reserved emergency =
     ((alloc < 0 \<longrightarrow> reserved = 0 \<and> emergency = 0) \<and> (0 \<le> requested \<longrightarrow> 0 \<le> alloc) \<and> 0 \<le> reserved \<and> 0 \<le> emergency \<and>
      on_grid 4 alloc \<and> on_grid 4 reserved \<and> on_grid 4 emergency \<and>
      reserved \<le> norm_headroom (hr_reserved hr) \<and> emergency \<le> norm_headroom (hr_emergency hr) \<and>
      (case hr_alloc hr of None \<Rightarrow> alloc = 0 \<and> reserved = 0 \<and> emergency = 0 | Some h \<Rightarrow> alloc \<le> norm_headroom h) \<and>
      alloc + reserved + emergency \<le> max 0 requested \<and>
      (case hr_ent hr of None \<Rightarrow> True | Some h \<Rightarrow> alloc + reserved + emergency \<le> norm_headroom h) \<and>
      (case hr_plan hr of None \<Rightarrow> True | Some h \<Rightarrow> alloc + reserved + emergency \<le> norm_headroom h))"

lemma modest_zero: "modest hr requested 0 0 0"
  by (simp add: modest_def split: option.split)

lemma plan_violation_zero:
  assumes "h = Some x" "norm_headroom x < quantize4 delta"
    "w = evaluate_entitlement_waterfall mode delta h alloc res em cap"
  shows "wf_alloc w = 0 \<and> wf_reserved w = 0 \<and> wf_emergency w = 0"
proof -
  have "snd (wf_result w) = (0, 0, 0, Some ''plan_limit_exceeded'')"
    unfolding assms(3) waterfall_is_spec
    using assms(1,2) by (cases mode) (simp_all add: waterfall_spec_def waterfall_verdict_def Let_def)
  then show ?thesis by (simp add: wf_result_def)
qed

lemma greedy_grid:
  assumes "on_grid 4 need" "on_grid 4 r" "on_grid 4 e"
    and "c = greedy_charge need (map_option norm_headroom alloc) r e"
  shows "on_grid 4 (ch_alloc c)" "on_grid 4 (ch_reserved c)" "on_grid 4 (ch_emergency c)"
  unfolding assms(4) using assms(1-3) by (cases alloc; simp add: greedy_charge_def draw_def)+

lemma waterfall_modest:
  fixes mode hr monthly
  defines "w \<equiv> evaluate_entitlement_waterfall mode monthly (hr_plan hr) (hr_alloc hr) (hr_reserved hr)
      (hr_emergency hr) (hr_ent hr)"
  shows "modest hr (quantize4 monthly) (wf_alloc w) (wf_reserved w) (wf_emergency w)"
proof -
  define need where "need = (case map_option norm_headroom (hr_ent hr) of
      None \<Rightarrow> quantize4 monthly | Some e \<Rightarrow> min (quantize4 monthly) e)"
  define c where "c = greedy_charge need (map_option norm_headroom (hr_alloc hr)) (norm_headroom (hr_reserved hr))
      (norm_headroom (hr_emergency hr))"
  have n: "need \<le> quantize4 monthly" "on_grid 4 need"
    "case hr_ent hr of None \<Rightarrow> True | Some h \<Rightarrow> need \<le> norm_headroom h"
    by (auto simp: need_def split: option.split)
  note grid = greedy_grid [OF n(2) norm_headroom_grid norm_headroom_grid c_def]
  have charge: "modest hr (quantize4 monthly) (ch_alloc c) (ch_reserved c) (ch_emergency c)"
    if plan: "case hr_plan hr of None \<Rightarrow> True | Some h \<Rightarrow> quantize4 monthly \<le> norm_headroom h"
  proof (cases "hr_alloc hr")
    case None
    then have "ch_alloc c = 0" "ch_reserved c = 0" "ch_emergency c = 0"
      using allocation_none_zero [OF c_def [unfolded None option.map]] by simp_all
    then show ?thesis using modest_zero by simp
  next
    case (Some h)
    have c: "c = greedy_charge need (Some (norm_headroom h)) (norm_headroom (hr_reserved hr))
        (norm_headroom (hr_emergency hr))"
      by (simp add: c_def Some)
    note b = greedy_charge_bounds [of "norm_headroom h" "norm_headroom (hr_reserved hr)"
        "norm_headroom (hr_emergency hr)" need, folded c, simplified]
    have "ch_alloc c + ch_reserved c + ch_emergency c \<le> need"
      using greedy_charge_sum [OF c] b(6) by simp
    moreover have "ch_alloc c < 0 \<longrightarrow> ch_reserved c = 0 \<and> ch_emergency c = 0"
    proof -
      have "\<not> norm_headroom x < 0" for x by (simp add: not_less)
      then show ?thesis unfolding c by (auto simp: greedy_charge_def draw_def min_def)
    qed
    moreover have "0 \<le> ch_alloc c" if "0 \<le> quantize4 monthly"
    proof (rule b(7))
      show "0 \<le> need" using that norm_headroom_nonneg by (auto simp: need_def split: option.split)
    qed
    ultimately show ?thesis
      unfolding modest_def Some using b n grid plan by (auto split: option.splits simp: max_def)
  qed
  note cs = waterfall_cases [of mode monthly "hr_plan hr" "hr_alloc hr" "hr_reserved hr" "hr_emergency hr" "hr_ent hr",
      folded w_def need_def, folded c_def]
  show ?thesis
  proof (cases "case hr_plan hr of None \<Rightarrow> True | Some h \<Rightarrow> quantize4 monthly \<le> norm_headroom h")
    case True
    show ?thesis by (cases rule: cs) (use charge [OF True] modest_zero in auto)
  next
    case False
    then obtain x where "hr_plan hr = Some x" "norm_headroom x < quantize4 monthly"
      by (auto split: option.splits)
    from plan_violation_zero [OF this, of w] modest_zero show ?thesis by (simp add: w_def)
  qed
qed

text \<open>Nothing checks the sign of a cost: the admission path reads it from an annotation, and a negative one is always allowed by
  the waterfall and recorded as a negative allocation.\<close>

lemma negative_cost_is_allowed:
  assumes "quantize4 monthly < 0"
    and "w = evaluate_entitlement_waterfall mode monthly plan (Some h) reserved emergency enterprise"
  shows "wf_decision w = ALLOW \<and> wf_alloc w = quantize4 monthly \<and> wf_reserved w = 0 \<and> wf_emergency w = 0"
proof -
  have h: "\<not> norm_headroom x < 0" "\<not> norm_headroom x < quantize4 monthly" "min (quantize4 monthly) (norm_headroom x) = quantize4 monthly" for x
    using norm_headroom_nonneg [of x] assms(1) by linarith+
  have "wf_result w = (ALLOW, quantize4 monthly, 0, 0, None)"
    unfolding assms(2) waterfall_is_spec
    by (simp add: waterfall_spec_def waterfall_verdict_def greedy_charge_def draw_def Let_def h split: option.split)
  then show ?thesis by (simp add: wf_result_def)
qed

lemma assess_modest:
  shows "modest hr (quantize4 monthly) (vd_alloc (assess mode p hr ctx monthly)) (vd_reserved (assess mode p hr ctx monthly))
    (vd_emergency (assess mode p hr ctx monthly))"
    and "vd_credit (assess mode p hr ctx monthly) =
      vd_reserved (assess mode p hr ctx monthly) + vd_emergency (assess mode p hr ctx monthly)"
proof -
  let ?w = "evaluate_entitlement_waterfall mode monthly (hr_plan hr) (hr_alloc hr) (hr_reserved hr)
      (hr_emergency hr) (hr_ent hr)"
  note m = waterfall_modest [of hr monthly mode]
  show "modest hr (quantize4 monthly) (vd_alloc (assess mode p hr ctx monthly))
      (vd_reserved (assess mode p hr ctx monthly)) (vd_emergency (assess mode p hr ctx monthly))"
    using m modest_zero by (simp add: assess_def bare_verdict_def Let_def)
  have "wf_credit ?w = wf_reserved ?w + wf_emergency ?w"
    using m by (simp add: wf_credit_def modest_def)
  then show "vd_credit (assess mode p hr ctx monthly) =
      vd_reserved (assess mode p hr ctx monthly) + vd_emergency (assess mode p hr ctx monthly)"
    by (simp add: assess_def bare_verdict_def Let_def)
qed

lemma with_approval_simps [simp]:
  "vd_alloc (with_approval mode r v) = vd_alloc v" "vd_reserved (with_approval mode r v) = vd_reserved v"
  "vd_emergency (with_approval mode r v) = vd_emergency v" "vd_credit (with_approval mode r v) = vd_credit v"
  "vd_waterfall (with_approval mode r v) = vd_waterfall v"
  by (simp_all add: with_approval_def)

lemma with_dry_run_simps [simp]:
  "vd_alloc (with_dry_run b v) = (if b then 0 else vd_alloc v)"
  "vd_reserved (with_dry_run b v) = (if b then 0 else vd_reserved v)"
  "vd_emergency (with_dry_run b v) = (if b then 0 else vd_emergency v)"
  "vd_credit (with_dry_run b v) = (if b then 0 else vd_credit v)"
  "vd_decision (with_dry_run b v) = vd_decision v" "vd_waterfall (with_dry_run b v) = vd_waterfall v"
  by (simp_all add: with_dry_run_def)

lemma gate_verdict_modest:
  fixes mode p hr ctx monthly is_prod dry
  defines "v \<equiv> gate_verdict mode p hr ctx monthly is_prod dry"
  shows "modest hr (quantize4 monthly) (vd_alloc v) (vd_reserved v) (vd_emergency v)"
    "vd_credit v = vd_reserved v + vd_emergency v"
  using assess_modest [where monthly = monthly and hr = hr and mode = mode and p = p and ctx = ctx] modest_zero by (auto simp: v_def gate_verdict_def)

lemma waterfall_decision_modes:
  "wf_decision (evaluate_entitlement_waterfall mode delta plan alloc res em cap) \<in>
    {ALLOW, ALLOW_WITH_CREDITS, mode_violation_decision mode}"
  by (cases rule: waterfall_cases [of mode delta plan alloc res em cap])
    (auto simp: mode_violation_decision_def)

lemma verdict_modes:
  "vd_decision (gate_verdict mode p hr ctx monthly is_prod dry) \<in>
    (case mode of SHADOW \<Rightarrow> {ALLOW, ALLOW_WITH_CREDITS}
     | SOFT \<Rightarrow> {ALLOW, ALLOW_WITH_CREDITS, REQUIRE_APPROVAL}
     | HARD \<Rightarrow> {ALLOW, ALLOW_WITH_CREDITS, REQUIRE_APPROVAL, DENY})"
proof -
  have "vd_decision (assess mode p hr ctx monthly) \<in> {ALLOW, ALLOW_WITH_CREDITS, mode_violation_decision mode}"
    using waterfall_decision_modes [of mode monthly "hr_plan hr" "hr_alloc hr" "hr_reserved hr" "hr_emergency hr" "hr_ent hr"]
    by (simp add: assess_def bare_verdict_def Let_def)
  then show ?thesis
    by (cases mode) (auto simp: gate_verdict_def with_approval_def mode_violation_decision_def)
qed

section \<open>Storing a decision\<close>

definition pending_ok :: "uuid \<Rightarrow> enf_source \<Rightarrow> string \<Rightarrow> pending_decision \<Rightarrow> bool" where
  "pending_ok t source key pending = (\<forall>i created. let d = pd_row pending i created in
     dec_id d = i \<and> key_of d = (t, source, key) \<and> money_ok d \<and>
     (if pd_reserves pending
      then dec_reserved_credit d = pd_reserved pending + pd_emergency pending \<and>
        0 \<le> pd_reserved pending \<and> 0 \<le> pd_emergency pending \<and>
        on_grid 4 (pd_reserved pending) \<and> on_grid 4 (pd_emergency pending)
      else due_hold d = 0))"

lemma pending_okD:
  assumes "pending_ok t source key pending" "d = pd_row pending i created"
  shows "dec_id d = i" "key_of d = (t, source, key)" "dec_tenant d = t" "money_ok d"
    "pd_reserves pending \<Longrightarrow> dec_reserved_credit d = pd_reserved pending + pd_emergency pending"
    "pd_reserves pending \<Longrightarrow> 0 \<le> pd_reserved pending \<and> 0 \<le> pd_emergency pending \<and>
      on_grid 4 (pd_reserved pending) \<and> on_grid 4 (pd_emergency pending)"
    "\<not> pd_reserves pending \<Longrightarrow> due_hold d = 0"
  using assms by (auto simp: pending_ok_def Let_def key_of_def)

lemma credit_reservation_moved:
  assumes "credit_reservation db t d sc r e now = Inr (rows, db')" "books db" "alloc_refs db"
    "d \<in> set (decisions db)" "dec_tenant d = t" "dec_reserved_credit d = r + e"
    "0 \<le> r \<and> 0 \<le> e \<and> on_grid 4 r \<and> on_grid 4 e"
  shows "moved db db' t (dec_id d) (due_hold d) \<and> alloc_refs db'"
proof (cases "dec_reservation_active d \<and> \<not> dec_reserved_credit d \<le> 0")
  case True
  with assms(1) have run: "reserve_credit_for_decision db t (dec_id d) sc r e now = Inr (rows, db')"
    by (simp add: credit_reservation_def)
  have "max 0 (quantize4 r) + max 0 (quantize4 e) = due_hold d"
    using True assms(6,7) by (simp add: due_hold_def)
  then show ?thesis
    using reserve_for_decision_Inr [OF assms(2) run] reserve_for_decision_refs [OF run assms(3)] assms(4,5) by auto
next
  case False
  then have "due_hold d = 0" using assms(6,7) by (auto simp: due_hold_def)
  with False assms(1-3) show ?thesis by (auto simp: credit_reservation_def split: if_splits)
qed

lemma set_response_simps [simp]:
  "grants (set_response i r db) = grants db" "allocs (set_response i r db) = allocs db"
  "approvals (set_response i r db) = approvals db" "ledger (set_response i r db) = ledger db"
  "policies (set_response i r db) = policies db" "budgets (set_response i r db) = budgets db"
  "actions (set_response i r db) = actions db" "costs (set_response i r db) = costs db"
  "db_next (set_response i r db) = db_next db" "db_now (set_response i r db) = db_now db"
  "decisions (set_response i r db) =
     update_rows (\<lambda>d. dec_id d = i) (\<lambda>d. d\<lparr>dec_response := r\<rparr>) (decisions db)"
  by (simp_all add: set_response_def)

lemma attach_simps [simp]:
  "dec_id (attach_allocations rows d) = dec_id d" "key_of (attach_allocations rows d) = key_of d"
  "dec_tenant (attach_allocations rows d) = dec_tenant d" "money_ok (attach_allocations rows d) = money_ok d"
  "due_hold (attach_allocations rows d) = due_hold d"
  "wants_approval_row (attach_allocations rows d) dry mode = wants_approval_row d dry mode"
  "dec_decision (attach_allocations rows d) = dec_decision d"
  "dec_reserved_alloc (attach_allocations rows d) = dec_reserved_alloc d"
  "dec_reserved_credit (attach_allocations rows d) = dec_reserved_credit d"
  "dec_reservation_active (attach_allocations rows d) = dec_reservation_active d"
  "dec_created (attach_allocations rows d) = dec_created d"
  by (simp_all add: attach_allocations_def key_of_def money_ok_def due_hold_def wants_approval_row_def)

text \<open>One step of \<open>store_decision\<close> after another.\<close>

lemma store_decision_steps:
  assumes "store_decision sha db t pending g mode p actor now ttl = Inr (r, db')"
  obtains rows db2 d0 d a db4 where
    "d0 = pd_row pending (db_next db) (db_now db)" "d = attach_allocations rows d0"
    "reserve_pending (insert_decision d0 db) t pending d0 (gi_project g) now = Inr (rows, db2)"
    "optional_approval p d actor now ttl (gi_dry_run g) mode (set_response (dec_id d) (dec_response d) db2) = Inr (a, db4)"
    "r = \<lparr>res_decision = d, res_approval = a, res_ttl = ttl\<rparr>" "db' = append_ledger sha d a db4"
  using assms by (auto simp: store_decision_def Let_def and_then_Inr split: if_splits)

lemma request_approval_Inr:
  assumes "request_approval p d actor now ttl db = Inr (a, db')"
  shows "apr_id a = db_next db \<and> apr_decision a = dec_id d \<and> apr_tenant a = dec_tenant d \<and> apr_status a = PENDING \<and>
    apr_requested_by a = Some actor \<and> apr_expires a = now + seconds ttl \<and> apr_token_hash a = None \<and>
    apr_token_consumed a = None \<and> trace_ok (apr_trace a) \<and>
    db' = db\<lparr>approvals := approvals db @ [a], db_next := db_next db + 1\<rparr>"
  using assms resolve_trace_ok by (auto simp: request_approval_def and_then_Inr Let_def)

lemma optional_approval_Inr:
  assumes "optional_approval p d actor now ttl dry mode db = Inr (a, db')"
  shows "(wants_approval_row d dry mode \<longleftrightarrow> a \<noteq> None) \<and> (a = None \<longrightarrow> db' = db) \<and>
    (\<forall>x. a = Some x \<longrightarrow> request_approval p d actor now ttl db = Inr (x, db'))"
  using assms by (auto simp: optional_approval_def and_then_Inr split: if_splits)

definition stored :: "(string \<Rightarrow> string) \<Rightarrow> db \<Rightarrow> gate_result \<Rightarrow> db \<Rightarrow> bool" where
  \<comment> \<open>the decision of \<open>r\<close>, its approval and its ledger row are new, nothing else but the credit moved\<close>
  "stored sha db r db' = (decisions db' = decisions db @ [res_decision r] \<and>
     approvals db' = approvals db @ (case res_approval r of None \<Rightarrow> [] | Some a \<Rightarrow> [a]) \<and>
     (\<exists>i. ledger db' = ledger db @ [ledger_row sha i (db_now db) (res_decision r) (res_approval r)]) \<and>
     policies db' = policies db \<and> budgets db' = budgets db \<and> actions db' = actions db \<and> costs db' = costs db \<and>
     db_now db' = db_now db \<and> db_next db < db_next db' \<and>
     (res_approval r \<noteq> None \<longrightarrow> apr_status (the (res_approval r)) = PENDING \<and>
        apr_decision (the (res_approval r)) = dec_id (res_decision r) \<and> trace_ok (apr_trace (the (res_approval r)))))"

lemma fresh_key:
  "get_decision_by_idempotency db t source key = None \<Longrightarrow> (t, source, key) \<notin> key_of ` set (decisions db)"
  by (auto simp: get_decision_by_idempotency_def first_match_None key_of_def)

lemma reserve_pending_moved:
  assumes "reserve_pending db t pending d sc now = Inr (rows, db')" "pending_ok t source key pending"
    "d = pd_row pending i created" "books db" "alloc_refs db" "d \<in> set (decisions db)"
  shows "moved db db' t (dec_id d) (due_hold d) \<and> alloc_refs db'"
proof (cases "pd_reserves pending")
  case True
  note ok = pending_okD [OF assms(2,3)]
  from True assms(1) have
    "credit_reservation db t d sc (pd_reserved pending) (pd_emergency pending) now = Inr (rows, db')"
    by (simp add: reserve_pending_def)
  from credit_reservation_moved [OF this assms(4-6) ok(3) ok(5) [OF True] ok(6) [OF True]] show ?thesis .
next
  case False
  with assms pending_okD(7) [OF assms(2,3) False] show ?thesis by (simp add: reserve_pending_def)
qed

lemma set_response_last:
  assumes "\<forall>e\<in>set ds. dec_id e \<noteq> dec_id d0"
  shows "update_rows (\<lambda>e. dec_id e = dec_id (attach_allocations rows d0))
      (\<lambda>e. e\<lparr>dec_response := dec_response (attach_allocations rows d0)\<rparr>) (ds @ [d0]) = ds @ [attach_allocations rows d0]"
  using assms by (simp add: update_rows_id) (simp add: attach_allocations_def)

lemma store_decision_world:
  assumes w: "world db" and ok: "pending_ok t source key pending"
    and new: "get_decision_by_idempotency db t source key = None"
    and run: "store_decision sha db t pending g mode p actor now ttl = Inr (r, db')"
  shows "world db'" "stored sha db r db'"
    "\<exists>rows. res_decision r = attach_allocations rows (pd_row pending (db_next db) (db_now db))"
    "res_approval r \<noteq> None \<longleftrightarrow> wants_approval_row (res_decision r) (gi_dry_run g) mode"
proof -
  obtain rows db2 d0 d a db4 where d0: "d0 = pd_row pending (db_next db) (db_now db)"
    and d: "d = attach_allocations rows d0"
    and res: "reserve_pending (insert_decision d0 db) t pending d0 (gi_project g) now = Inr (rows, db2)"
    and apr: "optional_approval p d actor now ttl (gi_dry_run g) mode (set_response (dec_id d) (dec_response d) db2)
      = Inr (a, db4)"
    and r: "r = \<lparr>res_decision = d, res_approval = a, res_ttl = ttl\<rparr>" and db': "db' = append_ledger sha d a db4"
    by (rule store_decision_steps [OF run])
  note row = pending_okD [OF ok d0]
  have mv: "moved (insert_decision d0 db) db2 (dec_tenant d0) (dec_id d0) (due_hold d0)" and refs: "alloc_refs db2"
    using reserve_pending_moved [OF res ok d0 books_insert refs_insert] worldD [OF w] row(3) by auto
  have w2: "world db2"
    by (rule world_add_decision [OF w row(1) _ row(4) mv refs]) (simp add: row(2) fresh_key [OF new])
  have frame: "credit_frame (insert_decision d0 db) db2" using mv by (simp add: moved_def)
  then have tables: "decisions db2 = decisions db @ [d0]" "approvals db2 = approvals db" "ledger db2 = ledger db"
    "policies db2 = policies db" "budgets db2 = budgets db" "actions db2 = actions db" "costs db2 = costs db"
    "db_now db2 = db_now db" "db_next db < db_next db2"
    by (simp_all add: credit_frame_def)
  have ids: "dec_id e < dec_id d0" if "e \<in> set (decisions db)" for e
    using decisions_okD(1) [OF worldD(4) [OF w] that] row(1) by simp
  let ?db3 = "set_response (dec_id d) (dec_response d) db2"
  have w3: "world ?db3"
    using world_update_decision [OF w2, of d0 "\<lambda>e. e\<lparr>dec_response := dec_response d\<rparr>"] row(4) tables
    by (simp add: set_response_def d key_of_def money_ok_def due_hold_def)
  have dec3: "decisions ?db3 = decisions db @ [d]"
    unfolding set_response_simps tables d by (rule set_response_last) (use ids in fastforce)
  note opt = optional_approval_Inr [OF apr]
  have "world db4 \<and> decisions db4 = decisions ?db3 \<and> ledger db4 = ledger db \<and> policies db4 = policies db
      \<and> budgets db4 = budgets db \<and> actions db4 = actions db \<and> costs db4 = costs db \<and> db_now db4 = db_now db
      \<and> db_next db < db_next db4 \<and> approvals db4 = approvals db @ (case a of None \<Rightarrow> [] | Some x \<Rightarrow> [x]) \<and>
      (a \<noteq> None \<longrightarrow> apr_status (the a) = PENDING \<and> apr_decision (the a) = dec_id d \<and> trace_ok (apr_trace (the a)))"
  proof (cases a)
    case None
    with opt have "db4 = ?db3" by simp
    with None w3 tables show ?thesis by simp
  next
    case (Some x)
    note x = request_approval_Inr [of p d actor now ttl ?db3 x db4]
    have "dec_id d \<notin> apr_decision ` set (approvals ?db3)"
      using worldD(5) [OF w] ids tables by (force simp: approvals_ok_def d)
    moreover have "\<exists>e\<in>set (decisions ?db3). dec_id e = apr_decision x \<and> dec_tenant e = apr_tenant x"
      using x opt Some dec3 by (intro bexI [of _ d]) auto
    ultimately have "world db4"
      using world_add_approval [OF w3, of x] x opt Some by simp
    with x opt Some tables show ?thesis by simp
  qed
  note 4 = this
  show "world db'"
    unfolding db' by (rule world_cong [OF conjunct1 [OF 4]]) (use worldD(1) [OF conjunct1 [OF 4]] in
        \<open>auto intro: policies_ok_cong\<close>)
  show "stored sha db r db'"
    using 4 dec3 by (auto simp: stored_def r db')
  show "\<exists>rows. res_decision r = attach_allocations rows (pd_row pending (db_next db) (db_now db))"
    by (auto simp: r d d0)
  show "res_approval r \<noteq> None \<longleftrightarrow> wants_approval_row (res_decision r) (gi_dry_run g) mode"
    using opt by (simp add: r)
qed

section \<open>The decisions the two handlers store\<close>

lemma decision_row_simps [simp]:
  fixes t actor s g gc ctx d rs resp aa ca al cr act i c
  defines "row \<equiv> decision_row t actor s g gc ctx d rs resp aa ca al cr act i c"
  shows "dec_id row = i" "dec_tenant row = t" "key_of row = (t, s, gc_key gc)" "dec_decision row = d"
    "dec_reserved_alloc row = al" "dec_reserved_credit row = cr" "dec_reservation_active row = act"
    "dec_created row = c" "dec_reasons row = unique_reason_codes rs" "dec_monthly row = quantize4 (gi_monthly g)"
    "dec_project row = gi_project g" "dec_environment row = gc_env gc" "dec_source row = s"
    "dec_token_issued row = False" "dec_approval_required row = (d = REQUIRE_APPROVAL)" "dec_idempotency row = gc_key gc"
    "due_hold row = (if act then cr else 0)" "money_ok row = (on_grid 4 al \<and> on_grid 4 cr \<and> (act \<longrightarrow> 0 \<le> al) \<and> 0 \<le> cr)"
  by (simp_all add: row_def decision_row_def key_of_def due_hold_def money_ok_def Let_def)

text \<open>A request with negative costs can draw a negative allocation, but then the reservation is not active.\<close>

lemma active_alloc_nonneg:
  assumes "modest hr q (vd_alloc v) (vd_reserved v) (vd_emergency v)" "vd_credit v = vd_reserved v + vd_emergency v"
    "reservation_is_active mode dry v"
  shows "0 \<le> vd_alloc v"
proof (rule ccontr)
  assume "\<not> 0 \<le> vd_alloc v"
  with assms show False by (auto simp: modest_def reservation_is_active_def)
qed

lemma gate_pending_ok: "pending_ok t s (gc_key gc) (gate_pending env db t actor s g gc now)"
proof -
  note m = gate_verdict_modest [where monthly = "quantize4 (gi_monthly g)"]
  show ?thesis
    using m active_alloc_nonneg [OF m] by (auto simp: pending_ok_def gate_pending_def Let_def modest_def)
qed

lemma fail_safe_pending_ok: "pending_ok t s (gc_key gc) (fail_safe_pending env db t actor s g code meta gc now)"
  by (simp add: pending_ok_def fail_safe_pending_def Let_def split: prod.split)

section \<open>The branches of the handlers\<close>

lemma persist_fresh:
  assumes "get_decision_by_idempotency db t s key = None"
  shows "persist_decision sha base db t s key pending g mode p actor now ttl =
    (case store_decision sha db t pending g mode p actor now ttl of Inl e \<Rightarrow> (Inl e, base) | Inr (r, db') \<Rightarrow> (Inr r, db'))"
  using assms by (simp add: persist_decision_def)

lemma existing_None:
  "get_existing_gate_result db t s key ttl = None \<longleftrightarrow> get_decision_by_idempotency db t s key = None"
  by (simp add: get_existing_gate_result_def)

lemma evaluate_gate_cases:
  assumes "evaluate_gate env db t actor s g = (res, db')"
  obtains (failed) e where "res = Inl e" "db' = db \<or> db' = ge_others env db"
      "build_gate_context env db t s g = Inl e \<or> (\<exists>gc db1. build_gate_context env db t s g = Inr (gc, db1) \<and>
         (acquire_gate_lock env db1 (gc_policy gc) = Inl e \<or>
          acquire_gate_lock env db1 (gc_policy gc) = Inr (ge_others env db1) \<and>
          store_decision (pe_sha (ge_policy env)) (ge_others env db1) t
            (gate_pending env (ge_others env db1) t actor s g gc (db_now (ge_others env db1))) g (gc_mode gc)
            (gc_policy gc) actor (db_now (ge_others env db1)) (gc_ttl gc) = Inl e))"
  | (replayed) gc db1 r where "build_gate_context env db t s g = Inr (gc, db1)"
      "get_existing_gate_result db1 t s (gc_key gc) (gc_ttl gc) = Some r" "res = Inr r" "db' = db"
  | (replayed_late) gc db1 r where "build_gate_context env db t s g = Inr (gc, db1)"
      "get_existing_gate_result (ge_others env db1) t s (gc_key gc) (gc_ttl gc) = Some r" "res = Inr r"
      "db' = ge_others env db"
  | (stored) gc db1 db2 r where "build_gate_context env db t s g = Inr (gc, db1)" "db2 = ge_others env db1"
      "get_decision_by_idempotency db2 t s (gc_key gc) = None"
      "store_decision (pe_sha (ge_policy env)) db2 t (gate_pending env db2 t actor s g gc (db_now db2)) g (gc_mode gc)
        (gc_policy gc) actor (db_now db2) (gc_ttl gc) = Inr (r, db')" "res = Inr r"
proof (cases "build_gate_context env db t s g")
  case (Inl e)
  with assms show thesis by (intro failed [of e]) (simp_all add: evaluate_gate_def)
next
  case (Inr x)
  then obtain gc db1 where b: "build_gate_context env db t s g = Inr (gc, db1)" by (cases x) auto
  show thesis
  proof (cases "get_existing_gate_result db1 t s (gc_key gc) (gc_ttl gc)")
    case (Some r)
    with assms b show thesis by (intro replayed [OF b Some]) (simp_all add: evaluate_gate_def)
  next
    case None
    note none = None
    show thesis
    proof (cases "acquire_gate_lock env db1 (gc_policy gc)")
      case (Inl e)
      with assms b none show thesis by (intro failed [of e]) (simp_all add: evaluate_gate_def)
    next
      case (Inr db2)
      note lock = Inr
      then have db2: "db2 = ge_others env db1"
        by (auto simp: acquire_gate_lock_def split: lock_result.splits if_splits)
      show thesis
      proof (cases "get_existing_gate_result db2 t s (gc_key gc) (gc_ttl gc)")
        case (Some r)
        with assms b none Inr db2 show thesis
          by (intro replayed_late [OF b Some [unfolded db2]]) (auto simp: evaluate_gate_def)
      next
        case None
        then have fresh: "get_decision_by_idempotency db2 t s (gc_key gc) = None" by (simp add: existing_None)
        let ?st = "store_decision (pe_sha (ge_policy env)) db2 t (gate_pending env db2 t actor s g gc (db_now db2)) g
            (gc_mode gc) (gc_policy gc) actor (db_now db2) (gc_ttl gc)"
        have run: "(res, db') = (case ?st of Inl e \<Rightarrow> (Inl e, ge_others env db) | Inr (r, db') \<Rightarrow> (Inr r, db'))"
          using assms b none Inr None persist_fresh [OF fresh] by (simp add: evaluate_gate_def Let_def)
        show thesis
        proof (cases ?st)
          case (Inl e)
          with run b lock show thesis unfolding db2 by (intro failed [of e]) auto
        next
          case (Inr y)
          with run show thesis by (cases y) (intro stored [OF b db2 fresh], simp_all)
        qed
      qed
    qed
  qed
qed

lemma fail_safe_gate_cases:
  assumes "resolve_fail_safe_gate env db t actor s g code meta = (res, db')"
  obtains (failed) e where "res = Inl e" "db' = db"
  | (replayed) gc db1 r where "build_gate_context env db t s g = Inr (gc, db1)"
      "get_existing_gate_result db1 t s (gc_key gc) (gc_ttl gc) = Some r" "res = Inr r" "db' = db"
  | (stored) gc db1 r where "build_gate_context env db t s g = Inr (gc, db1)"
      "get_decision_by_idempotency db1 t s (gc_key gc) = None"
      "store_decision (pe_sha (ge_policy env)) db1 t (fail_safe_pending env db1 t actor s g code meta gc (db_now db)) g
        (gc_mode gc) (gc_policy gc) actor (db_now db) (gc_ttl gc) = Inr (r, db')" "res = Inr r"
proof (cases "build_gate_context env db t s g")
  case (Inl e)
  with assms show thesis by (intro failed [of e]) (simp_all add: resolve_fail_safe_gate_def)
next
  case (Inr x)
  then obtain gc db1 where b: "build_gate_context env db t s g = Inr (gc, db1)" by (cases x) auto
  show thesis
  proof (cases "get_existing_gate_result db1 t s (gc_key gc) (gc_ttl gc)")
    case (Some r)
    with assms b show thesis by (intro replayed [OF b Some]) (simp_all add: resolve_fail_safe_gate_def)
  next
    case None
    then have fresh: "get_decision_by_idempotency db1 t s (gc_key gc) = None" by (simp add: existing_None)
    let ?st = "store_decision (pe_sha (ge_policy env)) db1 t (fail_safe_pending env db1 t actor s g code meta gc (db_now db))
        g (gc_mode gc) (gc_policy gc) actor (db_now db) (gc_ttl gc)"
    have run: "(res, db') = (case ?st of Inl e \<Rightarrow> (Inl e, db) | Inr (r, db') \<Rightarrow> (Inr r, db'))"
      using assms b None persist_fresh [OF fresh] by (simp add: resolve_fail_safe_gate_def Let_def)
    show thesis
    proof (cases ?st)
      case (Inl e)
      with run show thesis by (intro failed [of e]) simp_all
    next
      case (Inr y)
      with run show thesis by (cases y) (intro stored [OF b fresh], simp_all)
    qed
  qed
qed

lemma build_context_Inr:
  assumes "build_gate_context env db t s g = Inr (gc, db1)"
  shows "\<exists>p. get_or_create_policy (ge_policy env) db t = Inr (p, db1) \<and> gc = gate_context_of env s g p"
    "same_tables db db1" "world db \<Longrightarrow> world db1" "costs_representable g"
  using assms get_or_create_tables world_policy by (auto simp: build_gate_context_def and_then_Inr split: if_splits)

lemma gate_context_simps [simp]:
  "gc_policy (gate_context_of env s g p) = p" "gc_env (gate_context_of env s g p) = normalize_environment (gi_environment g)"
  "gc_mode (gate_context_of env s g p) = fst (resolve_policy_mode p s (normalize_environment (gi_environment g)))"
  "gc_key (gate_context_of env s g p) =
     resolve_idempotency_key (stable_fingerprint (pe_sha (ge_policy env)) s g) (gi_idempotency g)"
  "gc_ttl (gate_context_of env s g p) = clamp 60 86400 (pol_ttl p)"
  by (simp_all add: gate_context_of_def Let_def split: prod.split)

lemma get_decision_same: "same_tables db db1 \<Longrightarrow> get_decision_by_idempotency db1 t s k = get_decision_by_idempotency db t s k"
  by (simp add: same_tables_def get_decision_by_idempotency_def)

section \<open>A new decision in the database\<close>

definition isolated :: "gate_env \<Rightarrow> bool" where
  \<comment> \<open>what other transactions commit does not depend on the policy row this session has not committed\<close>
  "isolated env = (\<forall>a b. same_tables a b \<longrightarrow> same_tables (ge_others env a) (ge_others env b))"

definition others_sound :: "gate_env \<Rightarrow> bool" where
  "others_sound env = (\<forall>db. world db \<longrightarrow> world (ge_others env db))"

definition newly_made :: "gate_env \<Rightarrow> db \<Rightarrow> gate_result \<Rightarrow> bool" where
  \<comment> \<open>the decision of the result is no replay\<close>
  "newly_made env db r = (res_decision r \<notin> set (decisions db) \<and> res_decision r \<notin> set (decisions (ge_others env db)))"

lemma existing_result:
  "get_existing_gate_result db t s k ttl = Some r \<Longrightarrow>
    res_decision r \<in> set (decisions db) \<and> get_decision_by_idempotency db t s k = Some (res_decision r)"
  by (auto simp: get_existing_gate_result_def get_decision_by_idempotency_def dest: first_match_SomeD)

lemma evaluate_gate_new:
  assumes "isolated env" "evaluate_gate env db t actor s g = (Inr r, db')" "newly_made env db r"
  obtains gc db1 db2 where "build_gate_context env db t s g = Inr (gc, db1)" "db2 = ge_others env db1"
    "same_tables (ge_others env db) db2" "get_decision_by_idempotency db2 t s (gc_key gc) = None"
    "store_decision (pe_sha (ge_policy env)) db2 t (gate_pending env db2 t actor s g gc (db_now db2)) g (gc_mode gc)
      (gc_policy gc) actor (db_now db2) (gc_ttl gc) = Inr (r, db')"
  using assms(2)
proof (cases rule: evaluate_gate_cases)
  case (replayed gc db1 r')
  then show thesis
    using assms(3) existing_result [OF replayed(2)] build_context_Inr(2) [OF replayed(1)]
    by (simp add: newly_made_def same_tables_def)
next
  case (replayed_late gc db1 r')
  have "same_tables (ge_others env db) (ge_others env db1)"
    using assms(1) build_context_Inr(2) [OF replayed_late(1)] by (simp add: isolated_def)
  then show thesis
    using assms(3) existing_result [OF replayed_late(2)] replayed_late(3) by (simp add: newly_made_def same_tables_def)
next
  case (stored gc db1 db2 r')
  have "same_tables (ge_others env db) db2"
    using assms(1) build_context_Inr(2) [OF stored(1)] stored(2) by (simp add: isolated_def)
  with stored show thesis by (intro that) auto
qed auto

lemma evaluate_gate_world:
  assumes "world db" "others_sound env" "evaluate_gate env db t actor s g = (res, db')"
  shows "world db'"
  using assms(3)
proof (cases rule: evaluate_gate_cases)
  case (stored gc db1 db2 r)
  then have "world db2" using assms(1,2) build_context_Inr(3) by (auto simp: others_sound_def)
  from store_decision_world(1) [OF this gate_pending_ok stored(3,4)] show ?thesis .
qed (use assms in \<open>auto simp: others_sound_def\<close>)

lemma fail_safe_world:
  assumes "world db" "resolve_fail_safe_gate env db t actor s g code meta = (res, db')"
  shows "world db'"
  using assms(2)
proof (cases rule: fail_safe_gate_cases)
  case (stored gc db1 r)
  then have "world db1" using assms(1) build_context_Inr(3) by auto
  from store_decision_world(1) [OF this fail_safe_pending_ok stored(2,3)] show ?thesis .
qed (use assms in auto)

section \<open>Totals of the month\<close>

lemma totals_append:
  "get_reserved_totals (db\<lparr>decisions := ds @ [d]\<rparr>) t ms me =
    (let (a, c) = get_reserved_totals (db\<lparr>decisions := ds\<rparr>) t ms me
     in if dec_tenant d = t \<and> dec_reservation_active d \<and> ms \<le> dec_created d \<and> dec_created d < me
        then (a + dec_reserved_alloc d, c + dec_reserved_credit d) else (a, c))"
  by (simp add: get_reserved_totals_def Let_def)

lemma totals_of: "decisions db' = decisions db \<Longrightarrow> get_reserved_totals db' t ms me = get_reserved_totals db t ms me"
  by (simp add: get_reserved_totals_def)

lemma totals_grid:
  assumes "world db" "get_reserved_totals db t ms me = (a, c)"
  shows "on_grid 4 a" "on_grid 4 c" "0 \<le> a" "0 \<le> c"
proof -
  have m: "money_ok d" if "d \<in> set (decisions db)" for d
    using decisions_okD(2) [OF worldD(4) [OF assms(1)] that] .
  show "on_grid 4 a" "on_grid 4 c" "0 \<le> a" "0 \<le> c"
    using assms(2) m by (auto simp: get_reserved_totals_def Let_def money_ok_def intro!: q4.grid_total total_nonneg)
qed

lemma under_ceiling_value: "on_grid 4 x \<Longrightarrow> on_grid 4 c \<Longrightarrow> norm_headroom (under_ceiling x c) = max 0 (c - x)"
  by (simp add: under_ceiling_def norm_headroom_def q4.grid_max)

lemma resolved_ceiling_grid: "resolve_ceiling c tier name = Some x \<Longrightarrow> on_grid 4 x \<and> 0 < x"
  by (auto simp: resolve_ceiling_def Let_def split: option.splits if_splits pyval.splits)

lemma stored_totals:
  assumes w: "world db2" and new: "get_decision_by_idempotency db2 t s (gc_key gc) = None"
    and ms: "month_bounds (db_now db2) = (ms, me)"
    and run: "store_decision sha db2 t (gate_pending env db2 t actor s g gc (db_now db2)) g mode p actor now ttl = Inr (r, db')"
    and before: "get_reserved_totals db2 t ms me = (a0, c0)" and after: "get_reserved_totals db' t ms me = (a1, c1)"
  obtains x y where "a1 = a0 + x" "c1 = c0 + y" "0 \<le> x" "0 \<le> y"
    "\<And>b. get_effective_budget db2 t (gi_project g) = Some b \<Longrightarrow> on_grid 4 (bud_limit b) \<Longrightarrow> a0 + x \<le> max (bud_limit b) a0"
    "\<And>c. resolve_plan_ceiling (gc_policy gc) (ge_tier env t) = Some c \<Longrightarrow> a0 + c0 + (x + y) \<le> max c (a0 + c0)"
    "\<And>c. resolve_enterprise_ceiling (gc_policy gc) (ge_tier env t) = Some c \<Longrightarrow> a0 + c0 + (x + y) \<le> max c (a0 + c0)"
proof -
  let ?now = "db_now db2" and ?p = "gc_policy gc"
  define hr where "hr = gate_headrooms env db2 t ?p g ?now"
  define ctx where "ctx = build_computed_context (ge_costs_ok env) db2 t (pol_version ?p) g ?now (is_production (gc_env gc))"
  define v where "v = gate_verdict (gc_mode gc) ?p hr ctx (quantize4 (gi_monthly g)) (is_production (gc_env gc)) (gi_dry_run g)"
  define active where "active = reservation_is_active (gc_mode gc) (gi_dry_run g) v"
  note m = gate_verdict_modest [where monthly = "quantize4 (gi_monthly g)" and mode = "gc_mode gc" and p = ?p and hr = hr and ctx = ctx
      and is_prod = "is_production (gc_env gc)" and dry = "gi_dry_run g", folded v_def]
  note st = store_decision_world(2,3) [OF w gate_pending_ok new run]
  obtain rows where d: "res_decision r = attach_allocations rows
      (pd_row (gate_pending env db2 t actor s g gc ?now) (db_next db2) ?now)" using st(2) by blast
  have row: "dec_tenant (res_decision r) = t" "dec_created (res_decision r) = ?now"
    "dec_reservation_active (res_decision r) = active" "dec_reserved_alloc (res_decision r) = vd_alloc v"
    "dec_reserved_credit (res_decision r) = vd_credit v"
    unfolding d by (simp_all add: gate_pending_def Let_def active_def v_def hr_def ctx_def)
  define x where "x = (if active then vd_alloc v else 0)"
  define y where "y = (if active then vd_credit v else 0)"
  have decs: "decisions db' = decisions db2 @ [res_decision r]" using st(1) by (simp add: stored_def)
  have "get_reserved_totals db' t ms me = (a0 + x, c0 + y)"
    using before month_bounds_contain [OF ms] row
    by (simp add: get_reserved_totals_def decs Let_def x_def y_def)
  then have ac: "a1 = a0 + x" "c1 = c0 + y" using after by simp_all
  have "active \<Longrightarrow> 0 \<le> vd_alloc v" "0 \<le> vd_credit v"
    using m active_alloc_nonneg [OF m] by (simp_all add: modest_def active_def)
  then have nn: "0 \<le> x" "0 \<le> y" "x \<le> max 0 (vd_alloc v)" "x + y \<le> max 0 (vd_alloc v + vd_credit v)"
    by (simp_all add: x_def y_def)
  note grid = totals_grid [OF w before]
  have rt: "quantize4 (a0 + c0) = a0 + c0" "on_grid 4 (a0 + c0)" using grid by (simp_all add: q4.grid_add)
  obtain rh eh where cr: "get_credit_headrooms db2 t (gi_project g) ?now = (rh, eh)" by force
  have hr': "hr_plan hr = map_option (under_ceiling (a0 + c0)) (resolve_plan_ceiling ?p (ge_tier env t))"
    "hr_ent hr = map_option (under_ceiling (a0 + c0)) (resolve_enterprise_ceiling ?p (ge_tier env t))"
    "hr_alloc hr = map_option (\<lambda>b. max 0 (bud_limit b - a0)) (get_effective_budget db2 t (gi_project g))"
    by (simp_all add: hr_def gate_headrooms_def ms before cr rt(1) Let_def)
  have sum: "vd_alloc v + vd_credit v \<le> norm_headroom h" if "hr_plan hr = Some h \<or> hr_ent hr = Some h" for h
    using m that by (auto simp: modest_def)
  have cap: "a0 + c0 + (x + y) \<le> max c (a0 + c0)"
    if "resolve_plan_ceiling ?p (ge_tier env t) = Some c \<or> resolve_enterprise_ceiling ?p (ge_tier env t) = Some c" for c
  proof -
    have "on_grid 4 c" using that resolved_ceiling_grid
      by (auto simp: resolve_plan_ceiling_def resolve_enterprise_ceiling_def)
    moreover have "vd_alloc v + vd_credit v \<le> norm_headroom (under_ceiling (a0 + c0) c)"
      by (rule sum) (use that hr' in auto)
    ultimately show ?thesis using nn(4) under_ceiling_value [OF rt(2)] by (simp add: max_def split: if_splits)
  qed
  have bud: "a0 + x \<le> max (bud_limit b) a0"
    if "get_effective_budget db2 t (gi_project g) = Some b" "on_grid 4 (bud_limit b)" for b
  proof -
    have "vd_alloc v \<le> norm_headroom (max 0 (bud_limit b - a0))"
      using m hr'(3) that(1) by (simp add: modest_def)
    also have "\<dots> = max 0 (bud_limit b - a0)"
      using that(2) grid(1) by (intro norm_headroom_id q4.grid_max q4.grid_diff) auto
    finally show ?thesis using nn(3) by (simp add: max_def split: if_splits)
  qed
  show thesis by (rule that [OF ac nn(1,2) bud]) (use cap in auto)
qed

section \<open>Only the environment can fail\<close>

lemma reserve_pending_ok:
  assumes w: "world db" and pd: "pending = gate_pending env db t actor s g gc now" and d: "d = pd_row pending i created"
  shows "\<exists>rows db2. reserve_pending (insert_decision d db) t pending d (gi_project g) now = Inr (rows, db2)"
proof -
  let ?p = "gc_policy gc"
  define hr where "hr = gate_headrooms env db t ?p g now"
  define ctx where "ctx = build_computed_context (ge_costs_ok env) db t (pol_version ?p) g now (is_production (gc_env gc))"
  define v where "v = gate_verdict (gc_mode gc) ?p hr ctx (quantize4 (gi_monthly g)) (is_production (gc_env gc)) (gi_dry_run g)"
  note m = gate_verdict_modest [where monthly = "quantize4 (gi_monthly g)" and mode = "gc_mode gc" and p = ?p and hr = hr and ctx = ctx
      and is_prod = "is_production (gc_env gc)" and dry = "gi_dry_run g", folded v_def]
  have amounts: "pd_reserved pending = vd_reserved v" "pd_emergency pending = vd_emergency v" "pd_reserves pending"
    by (simp_all add: pd gate_pending_def Let_def v_def hr_def ctx_def)
  obtain rh eh where cr: "get_credit_headrooms db t (gi_project g) now = (rh, eh)" by force
  have hr': "hr_reserved hr = rh" "hr_emergency hr = eh"
    by (simp_all add: hr_def gate_headrooms_def cr Let_def split: prod.split)
  note b = credit_headrooms_bound [OF worldD(2) [OF w] cr]
  have "ok (reserve_credit_for_decision (insert_decision d db) t (dec_id d) (gi_project g) (vd_reserved v) (vd_emergency v) now)"
  proof (rule reserve_for_decision_ok)
    show "books (insert_decision d db)" using worldD(2) [OF w] by (rule books_insert)
    have same: "eligible_grants (insert_decision d db) = eligible_grants db"
      by (intro ext) (simp add: eligible_grants_def)
    show "quantize4 (vd_reserved v) \<le> total gr_remaining
        (eligible_grants (insert_decision d db) t (normalize_scope (gi_project g)) RESERVED now)"
      using m b by (simp add: same modest_def hr' norm_headroom_id)
    show "quantize4 (vd_emergency v) \<le> total gr_remaining
        (eligible_grants (insert_decision d db) t (normalize_scope (gi_project g)) EMERGENCY now)"
      using m b by (simp add: same modest_def hr' norm_headroom_id)
  qed
  then show ?thesis
    by (auto simp: reserve_pending_def amounts credit_reservation_def ok_def split: sum.splits)
qed

lemma store_decision_Inl:
  assumes "world db" "pending = gate_pending env db t actor s g gc now"
    "store_decision sha db t pending g mode p actor now ttl = Inl e"
  shows "if row_fits (pd_row pending (db_next db) (db_now db)) 
    then \<exists>rows. resolve_routing_trace p (attach_allocations rows (pd_row pending (db_next db) (db_now db))) = Inl e
    else e = DataError"
proof -
  let ?d = "pd_row pending (db_next db) (db_now db)"
  obtain rows db2 where "reserve_pending (insert_decision ?d db) t pending ?d (gi_project g) now = Inr (rows, db2)"
    using reserve_pending_ok [OF assms(1,2) refl] by blast
  with assms(3) have "row_fits ?d \<longrightarrow> optional_approval p (attach_allocations rows ?d) actor now ttl (gi_dry_run g) mode
      (set_response (dec_id (attach_allocations rows ?d)) (dec_response (attach_allocations rows ?d)) db2) = Inl e"
    by (auto simp: store_decision_def Let_def and_then_def split: sum.splits)
  then show ?thesis
    using assms(3)
    by (auto simp: optional_approval_def request_approval_def store_decision_def and_then_def Let_def split: if_splits sum.splits)
qed

definition row_to_store :: "gate_env \<Rightarrow> db \<Rightarrow> uuid \<Rightarrow> uuid \<Rightarrow> enf_source \<Rightarrow> gate_input \<Rightarrow> policy \<Rightarrow> decision" where
  \<comment> \<open>the row an evaluation inserts into the database \<open>db\<close> it sees under the lock\<close>
  "row_to_store env db t actor s g p =
     pd_row (gate_pending env db t actor s g (gate_context_of env s g p) (db_now db)) (db_next db) (db_now db)"

definition gate_failure :: "gate_env \<Rightarrow> db \<Rightarrow> uuid \<Rightarrow> uuid \<Rightarrow> enf_source \<Rightarrow> gate_input \<Rightarrow> exn \<Rightarrow> bool" where
  \<comment> \<open>the causes of a failure, in the order in which they are met\<close>
  "gate_failure env db t actor s g e =
     (case get_or_create_policy (ge_policy env) db t of
        Inl e' \<Rightarrow> e = e'
      | Inr (p, db1) \<Rightarrow>
          if \<not> costs_representable g then e = InvalidOperation
          else (case acquire_gate_lock env db1 p of
             Inl e' \<Rightarrow> e = e'
           | Inr db2 \<Rightarrow>
               if \<not> row_fits (row_to_store env db2 t actor s g p) then e = DataError
               else \<exists>rows. resolve_routing_trace p (attach_allocations rows (row_to_store env db2 t actor s g p)) = Inl e))"

lemma evaluate_gate_Inl:
  assumes "world db" "others_sound env" "evaluate_gate env db t actor s g = (Inl e, db')"
  shows "(db' = db \<or> db' = ge_others env db) \<and> gate_failure env db t actor s g e"
  using assms(3)
proof (cases rule: evaluate_gate_cases)
  case (failed e')
  have e: "e' = e" using failed(1) by simp
  from failed(3) show ?thesis
  proof (elim disjE exE conjE)
    assume "build_gate_context env db t s g = Inl e'"
    then show ?thesis
      using failed(2) e by (auto simp: gate_failure_def build_gate_context_def and_then_def split: sum.splits if_splits)
  next
    fix gc db1
    assume b: "build_gate_context env db t s g = Inr (gc, db1)" and "acquire_gate_lock env db1 (gc_policy gc) = Inl e'"
    with build_context_Inr(1,4) [OF b] failed(2) e show ?thesis by (auto simp: gate_failure_def)
  next
    fix gc db1
    assume b: "build_gate_context env db t s g = Inr (gc, db1)" and
      lock: "acquire_gate_lock env db1 (gc_policy gc) = Inr (ge_others env db1)" and
      run: "store_decision (pe_sha (ge_policy env)) (ge_others env db1) t
        (gate_pending env (ge_others env db1) t actor s g gc (db_now (ge_others env db1))) g (gc_mode gc)
        (gc_policy gc) actor (db_now (ge_others env db1)) (gc_ttl gc) = Inl e'"
    have "world (ge_others env db1)" using assms(1,2) build_context_Inr(3) [OF b] by (simp add: others_sound_def)
    from store_decision_Inl [OF this refl run] build_context_Inr(1,4) [OF b] failed(2) e lock
    show ?thesis by (auto simp: gate_failure_def row_to_store_def split: if_splits)
  qed
qed auto

section \<open>A concrete gate\<close>

definition sample_gate_env :: gate_env where
  "sample_gate_env = \<lparr>ge_policy = sample_env, ge_tier = (\<lambda>_. PRO), ge_costs_ok = (\<lambda>_. True),
     ge_lock = LOCK_ACQUIRED, ge_others = (\<lambda>db. db)\<rparr>"

definition sample_input :: gate_input where
  "sample_input = \<lparr>gi_project = ''p'', gi_environment = ''prod'', gi_action = ''apply'', gi_resource = ''r'',
     gi_monthly = 40, gi_hourly = 0, gi_metadata = [], gi_idempotency = None, gi_dry_run = False\<rparr>"

lemma sample_isolated [simp]: "isolated sample_gate_env" "others_sound sample_gate_env"
  by (simp_all add: isolated_def others_sound_def sample_gate_env_def)

lemma sample_dry [simp]: "gi_dry_run sample_input = False"
  by (simp_all add: sample_input_def)

definition sample_budget :: budget where
  "sample_budget = \<lparr>bud_id = 90, bud_tenant = 7, bud_scope = ''p'', bud_limit = 30, bud_active = True,
     bud_created_by = None\<rparr>"

definition sample_store :: db where
  "sample_store = sample_db\<lparr>budgets := [sample_budget]\<rparr>"

lemma sample_world: "world sample_store"
  using books_cong [OF sample_books, of sample_store]
  by (simp add: world_def policies_ok_def alloc_refs_def decisions_ok_def approvals_ok_def sample_store_def)
    (simp add: sample_db_def empty_db_def)

lemma sample_effective_budget: "get_effective_budget sample_store 7 (gi_project sample_input) = Some sample_budget"
proof -
  have "norm_key ''p'' = ''p''" by code_simp
  then show ?thesis
    by (simp add: get_effective_budget_def sample_store_def sample_budget_def sample_input_def normalize_scope_def)
qed

lemma no_rules_route: "routing_rules p = PList [] \<Longrightarrow> resolve_routing_trace p d = Inr (default_routing_trace p d)"
  by (simp add: resolve_routing_trace_def rules_of_policy_def Let_def)

lemma sample_representable: "costs_representable sample_input"
proof -
  have "quantize4 40 = (40::rat)" "quantize6 0 = (0::rat)" using q4.q_grid [of 40] q6.q_grid [of 0] by code_simp+
  then show ?thesis by (simp add: costs_representable_def sample_input_def)
qed

lemma sample_tables:
  assumes "get_or_create_policy sample_env sample_store 7 = Inr (p, db1)"
  shows "budgets db1 = [sample_budget]" "grants db1 = [sample_grant]" "decisions db1 = []" "allocs db1 = []"
    "costs db1 = []" "db_now db1 = 0"
  using get_or_create_tables [OF assms] by (simp_all add: same_tables_def sample_store_def sample_db_def empty_db_def)

lemma sample_amounts: "quantize4 40 = (40::rat)" "quantize4 100 = (100::rat)" "quantize6 0 = (0::rat)"
  using q4.q_grid [of 40] q4.q_grid [of 100] q6.q_grid [of 0] by code_simp+

lemma sample_row_fits:
  assumes "gc_env gc = normalize_environment ''prod''" "costs db1 = []"
    and "pred_option (numeric_fits 14 4) aa" "pred_option (numeric_fits 14 4) ca"
    and "0 \<le> al" "0 \<le> cr" "al + cr \<le> 40"
  shows "row_fits (decision_row 7 u TERRAFORM sample_input gc (build_computed_context (\<lambda>_. True) db1 7 n sample_input now pr)
    d rs resp aa ca al cr act i c)" (is "row_fits ?row")
proof -
  let ?ctx = "build_computed_context (\<lambda>_. True) db1 7 n sample_input now pr"
  have "fst (daily_totals (\<lambda>_. True) db1 7 (date_of now)) = []"
    by (simp add: daily_totals_def load_daily_cost_totals_def assms(2) Let_def)
  from context_no_data [OF this] have ctx: "cc_burn ?ctx = 0" "cc_forecast ?ctx = 0" by (auto simp: Let_def)
  have env: "length (normalize_environment ''prod'') \<le> 32" by code_simp
  have "dec_monthly ?row = 40" "dec_hourly ?row = 0" "dec_burn_rate ?row = Some 0" "dec_forecast ?row = Some 0"
    "dec_alloc_available ?row = aa" "dec_credits_available ?row = ca"
    "dec_environment ?row = normalize_environment ''prod''" "dec_project ?row = ''p''" "dec_action ?row = ''apply''"
    "dec_resource ?row = ''r''"
    using sample_amounts assms(1)
    by (simp_all add: decision_row_def Let_def ctx) (simp_all add: sample_input_def)
  then show ?thesis using assms(3-) env by (simp add: row_fits_def numeric_fits_def)
qed

lemma sample_fits:
  assumes "get_or_create_policy sample_env sample_store 7 = Inr (p, db1)"
  shows "row_fits (row_to_store sample_gate_env db1 7 1 TERRAFORM sample_input p)"
proof -
  note t = sample_tables [OF assms]
  let ?gc = "gate_context_of sample_gate_env TERRAFORM sample_input p"
  have "budgets db1 = budgets sample_store" using t(1) by (simp add: sample_store_def)
  then have "get_effective_budget db1 7 ''p'' = get_effective_budget sample_store 7 ''p''"
    by (simp only: get_effective_budget_def)
  then have budget: "get_effective_budget db1 7 ''p'' = Some sample_budget"
    using sample_effective_budget by (simp add: sample_input_def)
  have credit: "get_credit_headrooms db1 7 ''p'' 0 = (100, 0)"
    using t(2-4) sample_amounts(2) by (simp add: get_credit_headrooms_def Let_def sample_grant_def grant_live_def)
  obtain ms me where month: "month_bounds 0 = (ms, me)" by fastforce
  have totals: "get_reserved_totals db1 7 ms me = (0, 0)" by (simp add: get_reserved_totals_def t(3))
  define hr where "hr = gate_headrooms sample_gate_env db1 7 p sample_input 0"
  have hr: "hr_alloc hr = Some 30" "quantize4 (hr_reserved hr + hr_emergency hr) = 100"
    by (simp_all add: hr_def gate_headrooms_def month totals budget credit sample_input_def sample_budget_def sample_amounts Let_def)
  define ctx where "ctx = build_computed_context (\<lambda>_. True) db1 7 (pol_version p) sample_input 0 (is_production (gc_env ?gc))"
  define v where "v = gate_verdict (gc_mode ?gc) p hr ctx 40 (is_production (gc_env ?gc)) False"
  note m = gate_verdict_modest [where mode = "gc_mode ?gc" and p = p and hr = hr and ctx = ctx and monthly = 40
    and is_prod = "is_production (gc_env ?gc)" and dry = False, folded v_def]
  have v: "0 \<le> vd_alloc v" "0 \<le> vd_credit v" "vd_alloc v + vd_credit v \<le> 40"
    using m sample_amounts(1) by (auto simp: modest_def)
  have env: "gc_env ?gc = normalize_environment ''prod''" by (simp add: sample_input_def)
  have "quantize4 (gi_monthly sample_input) = 40" by (simp add: sample_input_def sample_amounts)
  moreover have "ge_costs_ok sample_gate_env = (\<lambda>_. True)" "gi_dry_run sample_input = False"
    by (simp_all add: sample_gate_env_def sample_input_def)
  ultimately show ?thesis
    unfolding row_to_store_def gate_pending_def Let_def t(6) pending_decision.simps gate_context_simps(1)
    by (simp only:, fold hr_def ctx_def, fold v_def, unfold ctx_def, unfold hr)
      (rule sample_row_fits [OF env t(5) _ _ v], simp_all add: numeric_fits_def)
qed

lemma sample_gate:
  "\<exists>r db'. evaluate_gate sample_gate_env sample_store 7 1 TERRAFORM sample_input = (Inr r, db') \<and>
    newly_made sample_gate_env sample_store r"
proof -
  obtain p db1 where p: "get_or_create_policy sample_env sample_store 7 = Inr (p, db1)" "routing_rules p = PList []"
    "pol_tenant p = 7" "p \<in> set (policies db1)"
    using sample_creates [of sample_store] by (auto simp: sample_store_def sample_db_def empty_db_def)
  obtain res db' where run: "evaluate_gate sample_gate_env sample_store 7 1 TERRAFORM sample_input = (res, db')" by force
  have policy: "get_or_create_policy (ge_policy sample_gate_env) sample_store 7 = Inr (p, db1)"
    using p(1) by (simp add: sample_gate_env_def)
  have lock: "acquire_gate_lock sample_gate_env db1 p = Inr db1"
    using p(3,4) by (auto simp: acquire_gate_lock_def sample_gate_env_def)
  have "row_fits (row_to_store sample_gate_env db1 7 1 TERRAFORM sample_input p)"
    by (rule sample_fits [OF p(1)])
  then have "\<not> gate_failure sample_gate_env sample_store 7 1 TERRAFORM sample_input e" for e
    using no_rules_route [OF p(2)] policy lock sample_representable by (simp add: gate_failure_def)
  then have "\<exists>r. res = Inr r"
    using evaluate_gate_Inl [OF sample_world sample_isolated(2)] run by (metis sum.exhaust)
  moreover have "newly_made sample_gate_env sample_store r" for r
    by (simp add: newly_made_def sample_gate_env_def sample_store_def sample_db_def empty_db_def)
  ultimately show ?thesis using run by auto
qed

section \<open>Replays\<close>

definition request_key :: "gate_env \<Rightarrow> enf_source \<Rightarrow> gate_input \<Rightarrow> string" where
  "request_key env s g = resolve_idempotency_key (stable_fingerprint (pe_sha (ge_policy env)) s g) (gi_idempotency g)"

lemma context_key: "build_gate_context env db t s g = Inr (gc, db1) \<Longrightarrow> gc_key gc = request_key env s g"
  using build_context_Inr(1) by (fastforce simp: request_key_def)

lemma found_key:
  "get_decision_by_idempotency db t s k = Some d \<Longrightarrow> d \<in> set (decisions db) \<and> key_of d = (t, s, k)"
  by (auto simp: get_decision_by_idempotency_def key_of_def dest: first_match_SomeD)

lemma find_by_key:
  assumes "world db" "d \<in> set (decisions db)" "key_of d = (t, s, k)"
  shows "get_decision_by_idempotency db t s k = Some d"
  unfolding get_decision_by_idempotency_def
  using worldD(4) [OF assms(1)] assms(2,3)
  by (intro first_match_unique [where k = key_of]) (auto simp: decisions_ok_def key_of_def)

lemma decided:
  assumes "world db" "isolated env" "others_sound env" "evaluate_gate env db t actor s g = (Inr r, db')"
  shows "res_decision r \<in> set (decisions db')" "key_of (res_decision r) = (t, s, request_key env s g)" "costs_representable g"
proof -
  have "res_decision r \<in> set (decisions db') \<and> key_of (res_decision r) = (t, s, request_key env s g) \<and> costs_representable g"
    using assms(4)
  proof (cases rule: evaluate_gate_cases)
    case (replayed gc db1 r')
    then show ?thesis
      using existing_result [OF replayed(2)] context_key [OF replayed(1)] build_context_Inr(2,4) [OF replayed(1)] found_key
      by (auto simp: same_tables_def)
  next
    case (replayed_late gc db1 r')
    have "same_tables (ge_others env db) (ge_others env db1)"
      using assms(2) build_context_Inr(2) [OF replayed_late(1)] by (simp add: isolated_def)
    then show ?thesis
      using existing_result [OF replayed_late(2)] context_key [OF replayed_late(1)] build_context_Inr(4) [OF replayed_late(1)]
        found_key replayed_late(3,4) by (auto simp: same_tables_def)
  next
    case (stored gc db1 db2 r')
    have w2: "world db2" using assms(1,3) build_context_Inr(3) [OF stored(1)] stored(2) by (simp add: others_sound_def)
    note st = store_decision_world(2,3) [OF w2 gate_pending_ok stored(3,4)]
    then show ?thesis
      using pending_okD(2) [OF gate_pending_ok refl] context_key [OF stored(1)] build_context_Inr(4) [OF stored(1)] stored(5)
      by (auto simp: stored_def)
  qed auto
  then show "res_decision r \<in> set (decisions db')" "key_of (res_decision r) = (t, s, request_key env s g)"
    "costs_representable g" by blast+
qed

lemma replayed_decision:
  assumes "get_decision_by_idempotency db t s (request_key env s g) = Some d"
    "get_or_create_policy (ge_policy env) db t = Inr (p, db1)" "costs_representable g"
  shows "\<exists>r. evaluate_gate env db t actor s g = (Inr r, db) \<and> res_decision r = d"
proof -
  have b: "build_gate_context env db t s g = Inr (gate_context_of env s g p, db1)"
    using assms(2,3) by (simp add: build_gate_context_def)
  have "get_decision_by_idempotency db1 t s (request_key env s g) = Some d"
    using assms(1) get_decision_same [OF get_or_create_tables [OF assms(2)]] by simp
  then show ?thesis
    using context_key [OF b] by (simp add: evaluate_gate_def b get_existing_gate_result_def)
qed

section \<open>Properties\<close>

text \<open>C1: Every evaluation of a gate, fail-safe or not, keeps the invariant of the database: keys and references hold, the
  credit books balance, and the credit on hold for each decision is exactly its active reservation. Other
  transactions may commit anything that keeps the invariant while the gate waits for its lock.\<close>

theorem gate_keeps_world:
  assumes "world db" "others_sound env"
  shows "world (snd (evaluate_gate env db t actor s g)) \<and>
    world (snd (resolve_fail_safe_gate env db t actor s g code meta))"
  using evaluate_gate_world [OF assms, of t actor s] fail_safe_world [OF assms(1), of env t actor s g code meta]
  by (metis prod.collapse)

theorem gate_keeps_world_witness:
  "world (snd (evaluate_gate sample_gate_env sample_store 7 1 TERRAFORM sample_input))"
  using gate_keeps_world [OF sample_world sample_isolated(2)] by blast

text \<open>C5: Within a month the active reservations of a tenant never pass a ceiling because of a gate: after a new decision
  the reserved allocation is at most the project budget, and the reserved total at most the plan ceiling and the
  enterprise ceiling, unless it was above before.\<close>

theorem gate_respects_ceilings:
  assumes "world db" "isolated env" "others_sound env"
    and run: "evaluate_gate env db t actor s g = (Inr r, db')" "newly_made env db r"
    and p: "get_or_create_policy (ge_policy env) db t = Inr (p, db1)"
    and month: "month_bounds (db_now (ge_others env db)) = (ms, me)"
    and before: "get_reserved_totals (ge_others env db) t ms me = (a0, c0)"
    and after: "get_reserved_totals db' t ms me = (a1, c1)"
  shows "(\<forall>b. get_effective_budget (ge_others env db) t (gi_project g) = Some b \<longrightarrow> on_grid 4 (bud_limit b) \<longrightarrow>
      a1 \<le> max (bud_limit b) a0) \<and>
    (\<forall>c. resolve_plan_ceiling p (ge_tier env t) = Some c \<longrightarrow> a1 + c1 \<le> max c (a0 + c0)) \<and>
    (\<forall>c. resolve_enterprise_ceiling p (ge_tier env t) = Some c \<longrightarrow> a1 + c1 \<le> max c (a0 + c0))"
proof -
  obtain gc db1' db2 where b: "build_gate_context env db t s g = Inr (gc, db1')" and db2: "db2 = ge_others env db1'"
    and same: "same_tables (ge_others env db) db2" and new: "get_decision_by_idempotency db2 t s (gc_key gc) = None"
    and st: "store_decision (pe_sha (ge_policy env)) db2 t (gate_pending env db2 t actor s g gc (db_now db2)) g (gc_mode gc)
      (gc_policy gc) actor (db_now db2) (gc_ttl gc) = Inr (r, db')"
    by (rule evaluate_gate_new [OF assms(2) run])
  have w: "world db2" using assms(1,3) build_context_Inr(3) [OF b] db2 by (simp add: others_sound_def)
  have "gc_policy gc = p" using build_context_Inr(1) [OF b] p by auto
  moreover have "get_effective_budget db2 = get_effective_budget (ge_others env db)"
  proof (intro ext)
    have "budgets db2 = budgets (ge_others env db)" using same by (simp add: same_tables_def)
    then show "get_effective_budget db2 x y = get_effective_budget (ge_others env db) x y" for x y
      by (simp only: get_effective_budget_def)
  qed
  moreover have "month_bounds (db_now db2) = (ms, me)" "get_reserved_totals db2 t ms me = (a0, c0)"
    using month before same totals_of [of db2 "ge_others env db"] by (simp_all add: same_tables_def)
  ultimately show ?thesis
    using stored_totals [OF w new _ st _ after] by (smt (verit) add.assoc add.commute add.left_commute)
qed

theorem gate_respects_ceilings_witness:
  "\<exists>r db' a1 c1 ms me. evaluate_gate sample_gate_env sample_store 7 1 TERRAFORM sample_input = (Inr r, db') \<and>
    month_bounds 0 = (ms, me) \<and> get_reserved_totals db' 7 ms me = (a1, c1) \<and> a1 \<le> 30"
proof -
  obtain r db' where run: "evaluate_gate sample_gate_env sample_store 7 1 TERRAFORM sample_input = (Inr r, db')"
    "newly_made sample_gate_env sample_store r" using sample_gate by blast
  obtain ms me a1 c1 where m: "month_bounds 0 = (ms, me)" "get_reserved_totals db' 7 ms me = (a1, c1)" by (metis surj_pair)
  obtain p db1 where p: "get_or_create_policy sample_env sample_store 7 = Inr (p, db1)"
    using sample_creates [of sample_store] by (auto simp: sample_store_def sample_db_def empty_db_def)
  have db0: "ge_others sample_gate_env sample_store = sample_store" "ge_policy sample_gate_env = sample_env"
    by (simp_all add: sample_gate_env_def)
  have before: "get_reserved_totals sample_store 7 ms me = (0, 0)" "db_now sample_store = 0"
    by (simp_all add: get_reserved_totals_def sample_store_def sample_db_def empty_db_def)
  have "on_grid 4 (bud_limit sample_budget)" by (simp add: sample_budget_def on_grid_def)
  moreover note gate_respects_ceilings [OF sample_world sample_isolated run,
      unfolded db0 before, OF p m(1) before(1) m(2)]
  ultimately have "a1 \<le> max (bud_limit sample_budget) 0"
    using sample_effective_budget by blast
  with run m show ?thesis by (auto simp: sample_budget_def)
qed


lemma sample_timeout:
  "\<exists>p db1. get_or_create_policy sample_env sample_store 7 = Inr (p, db1) \<and>
    evaluate_gate (sample_gate_env\<lparr>ge_lock := LOCK_TIMEOUT\<rparr>) sample_store 7 1 TERRAFORM sample_input =
      (Inl (DomainError 503 ''gate_lock_timeout''), sample_store)"
proof -
  obtain p db1 where p: "get_or_create_policy sample_env sample_store 7 = Inr (p, db1)"
    using sample_creates [of sample_store] by (auto simp: sample_store_def sample_db_def empty_db_def)
  have "decisions db1 = []"
    using get_or_create_tables [OF p] by (simp add: same_tables_def sample_store_def sample_db_def empty_db_def)
  with p sample_representable show ?thesis
    by (simp add: evaluate_gate_def build_gate_context_def sample_gate_env_def get_existing_gate_result_def
        get_decision_by_idempotency_def acquire_gate_lock_def)
qed


text \<open>C6: A decided request stays decided: the decision is stored under the key of the request, and in any later database
  that still holds it the same request, whoever repeats it, succeeds with exactly that row and changes nothing - whatever
  the policy of the tenant, its costs, budgets and locks are by then, as long as a policy can be loaded.\<close>

theorem gate_idempotent:
  assumes "world db" "isolated env" "others_sound env"
    and first: "evaluate_gate env db t actor s g = (Inr r, db')"
    and later: "world db2" "d2 \<in> set (decisions db2)" "key_of d2 = key_of (res_decision r)"
    and again: "pe_sha (ge_policy env2) = pe_sha (ge_policy env)" "get_or_create_policy (ge_policy env2) db2 t = Inr (p, db3)"
  shows "res_decision r \<in> set (decisions db') \<and>
    (\<exists>r2. evaluate_gate env2 db2 t actor2 s g = (Inr r2, db2) \<and> res_decision r2 = d2)"
proof -
  note dec = decided [OF assms(1-3) first]
  have "get_decision_by_idempotency db2 t s (request_key env s g) = Some d2"
    by (rule find_by_key [OF later(1,2)]) (simp add: later(3) dec(2))
  then have "get_decision_by_idempotency db2 t s (request_key env2 s g) = Some d2"
    by (simp add: request_key_def again(1))
  from replayed_decision [OF this again(2) dec(3)] dec(1) show ?thesis by auto
qed

theorem gate_idempotent_witness:
  "\<exists>r db' db2 r2. evaluate_gate sample_gate_env sample_store 7 1 TERRAFORM sample_input = (Inr r, db') \<and>
    db2 = db'\<lparr>policies := []\<rparr> \<and> evaluate_gate sample_gate_env db2 7 2 TERRAFORM sample_input = (Inr r2, db2) \<and>
    res_decision r2 = res_decision r"
proof -
  obtain r db' where run: "evaluate_gate sample_gate_env sample_store 7 1 TERRAFORM sample_input = (Inr r, db')"
    using sample_gate by blast
  let ?db2 = "db'\<lparr>policies := []\<rparr>"
  have "world db'" using evaluate_gate_world [OF sample_world _ run] by simp
  then have w: "world ?db2"
    by (rule world_cong) (simp_all add: policies_ok_def)
  have d: "res_decision r \<in> set (decisions ?db2)" using decided(1) [OF sample_world _ _ run] by simp
  obtain p db3 where p: "get_or_create_policy (ge_policy sample_gate_env) ?db2 7 = Inr (p, db3)"
    using sample_creates [of ?db2] by (auto simp: sample_gate_env_def)
  from gate_idempotent [OF sample_world sample_isolated run w d refl refl p] run show ?thesis by blast
qed

text \<open>C7: The mode bounds what a new decision may do. Shadow mode never blocks and never reserves; soft mode never denies; a
  denied or dry-run request reserves nothing; an approval request is opened exactly for a decision that requires one
  outside a dry run; and without an active credit reservation no grant or allocation changes.\<close>

theorem gate_mode_safety:
  assumes "world db" "isolated env" "others_sound env"
    and run: "evaluate_gate env db t actor s g = (Inr r, db')" "newly_made env db r"
    and p: "get_or_create_policy (ge_policy env) db t = Inr (p, db1)"
    and d: "d = res_decision r" and mode: "mode = fst (resolve_policy_mode p s (normalize_environment (gi_environment g)))"
  shows "(mode = SHADOW \<longrightarrow> dec_decision d \<in> {ALLOW, ALLOW_WITH_CREDITS} \<and> \<not> dec_reservation_active d) \<and>
    (mode = SOFT \<longrightarrow> dec_decision d \<noteq> DENY) \<and>
    (dec_decision d = DENY \<or> gi_dry_run g \<longrightarrow> \<not> dec_reservation_active d) \<and>
    (gi_dry_run g \<longrightarrow> dec_reserved_alloc d = 0 \<and> dec_reserved_credit d = 0) \<and>
    (res_approval r \<noteq> None \<longleftrightarrow> dec_decision d = REQUIRE_APPROVAL \<and> \<not> gi_dry_run g) \<and>
    (due_hold d = 0 \<longrightarrow> available db' = available (ge_others env db) \<and> on_hold db' = on_hold (ge_others env db))"
proof -
  obtain gc db1' db2 where b: "build_gate_context env db t s g = Inr (gc, db1')" and db2: "db2 = ge_others env db1'"
    and same: "same_tables (ge_others env db) db2" and new: "get_decision_by_idempotency db2 t s (gc_key gc) = None"
    and st: "store_decision (pe_sha (ge_policy env)) db2 t (gate_pending env db2 t actor s g gc (db_now db2)) g (gc_mode gc)
      (gc_policy gc) actor (db_now db2) (gc_ttl gc) = Inr (r, db')"
    by (rule evaluate_gate_new [OF assms(2) run])
  have w: "world db2" using assms(1,3) build_context_Inr(3) [OF b] db2 by (simp add: others_sound_def)
  have gc: "gc = gate_context_of env s g p" using build_context_Inr(1) [OF b] p by auto
  note ok = gate_pending_ok
  note sd = store_decision_world(3,4) [OF w ok new st]
  define v where "v = gate_verdict mode p (gate_headrooms env db2 t p g (db_now db2))
    (build_computed_context (ge_costs_ok env) db2 t (pol_version p) g (db_now db2) (is_production (gi_environment g)))
    (quantize4 (gi_monthly g)) (is_production (gi_environment g)) (gi_dry_run g)"
  have v: "dec_decision d = vd_decision v" "dec_reservation_active d = reservation_is_active mode (gi_dry_run g) v"
    "dec_reserved_alloc d = vd_alloc v" "dec_reserved_credit d = vd_credit v"
    "\<exists>hr ctx m q. v = gate_verdict mode p hr ctx m q (gi_dry_run g)"
    using sd(1) by (auto simp: d gate_pending_def Let_def gc mode v_def)
  have modes: "mode = SHADOW \<Longrightarrow> dec_decision d \<in> {ALLOW, ALLOW_WITH_CREDITS}" "mode = SOFT \<Longrightarrow> dec_decision d \<noteq> DENY"
  proof -
    obtain hr ctx m q where "v = gate_verdict mode p hr ctx m q (gi_dry_run g)" using v(5) by blast
    note vm = verdict_modes [of mode p hr ctx m q "gi_dry_run g", folded this]
    show "dec_decision d \<in> {ALLOW, ALLOW_WITH_CREDITS}" if "mode = SHADOW" using vm that by (simp add: v(1))
    show "dec_decision d \<noteq> DENY" if "mode = SOFT" using vm that by (auto simp: v(1))
  qed
  moreover have "gi_dry_run g \<Longrightarrow> vd_alloc v = 0 \<and> vd_credit v = 0"
    using v(5) by (auto simp: gate_verdict_def)
  moreover have "available db' = available (ge_others env db) \<and> on_hold db' = on_hold (ge_others env db)" if "due_hold d = 0"
  proof -
    obtain rows db3 d0 d' a db4 where d0: "d0 = pd_row (gate_pending env db2 t actor s g gc (db_now db2)) (db_next db2) (db_now db2)"
      and d': "d' = attach_allocations rows d0"
      and res: "reserve_pending (insert_decision d0 db2) t (gate_pending env db2 t actor s g gc (db_now db2)) d0 (gi_project g)
        (db_now db2) = Inr (rows, db3)"
      and apr: "optional_approval (gc_policy gc) d' actor (db_now db2) (gc_ttl gc) (gi_dry_run g) (gc_mode gc)
        (set_response (dec_id d') (dec_response d') db3) = Inr (a, db4)"
      and r: "r = \<lparr>res_decision = d', res_approval = a, res_ttl = gc_ttl gc\<rparr>"
      and db': "db' = append_ledger (pe_sha (ge_policy env)) d' a db4"
      by (rule store_decision_steps [OF st])
    have "moved (insert_decision d0 db2) db3 t (dec_id d0) (due_hold d0)"
      using reserve_pending_moved [OF res ok d0 books_insert refs_insert] worldD [OF w] by simp
    moreover have "due_hold d0 = 0" using that by (simp add: d r d')
    moreover have "grants db4 = grants db3 \<and> allocs db4 = allocs db3"
      using optional_approval_Inr [OF apr]
        request_approval_Inr [of "gc_policy gc" d' actor "db_now db2" "gc_ttl gc"
          "set_response (dec_id d') (dec_response d') db3" "the a" db4]
      by (cases a) auto
    ultimately show ?thesis
      using same by (simp add: db' moved_def available_def on_hold_def same_tables_def)
  qed
  ultimately show ?thesis
    using v(1-4) sd(2) by (auto simp: d [symmetric] reservation_is_active_def wants_approval_row_def gc mode)
qed

theorem gate_mode_safety_witness:
  "\<exists>r db'. evaluate_gate sample_gate_env sample_store 7 1 TERRAFORM sample_input = (Inr r, db') \<and>
    (dec_decision (res_decision r) = DENY \<longrightarrow> \<not> dec_reservation_active (res_decision r))"
proof -
  obtain r db' where run: "evaluate_gate sample_gate_env sample_store 7 1 TERRAFORM sample_input = (Inr r, db')"
    "newly_made sample_gate_env sample_store r" using sample_gate by blast
  obtain p db1 where p: "get_or_create_policy (ge_policy sample_gate_env) sample_store 7 = Inr (p, db1)"
    using sample_creates [of sample_store] by (auto simp: sample_store_def sample_db_def empty_db_def sample_gate_env_def)
  from gate_mode_safety [OF sample_world sample_isolated run p refl refl] run show ?thesis by blast
qed

text \<open>A fail-safe decision is what the mode says - open in shadow mode, an approval request in soft mode, closed in hard
  mode - and it reserves nothing and leaves every grant and allocation alone.\<close>

theorem fail_safe_reserves_nothing:
  assumes "world db" and run: "resolve_fail_safe_gate env db t actor s g code meta = (Inr r, db')"
    and new: "res_decision r \<notin> set (decisions db)" and d: "d = res_decision r"
    and p: "get_or_create_policy (ge_policy env) db t = Inr (p, db1)"
    and mode: "mode = fst (resolve_policy_mode p s (normalize_environment (gi_environment g)))"
  shows "dec_decision d = mode_violation_decision mode \<and> \<not> dec_reservation_active d \<and>
    dec_reserved_alloc d = 0 \<and> dec_reserved_credit d = 0 \<and> grants db' = grants db \<and> allocs db' = allocs db \<and>
    (res_approval r \<noteq> None \<longleftrightarrow> mode = SOFT \<and> \<not> gi_dry_run g)"
  using run
proof (cases rule: fail_safe_gate_cases)
  case (replayed gc db1' r')
  then show ?thesis
    using new existing_result [OF replayed(2)] build_context_Inr(2) [OF replayed(1)] by (simp add: same_tables_def)
next
  case (stored gc db1' r')
  have r: "r' = r" using stored(4) by simp
  have same: "same_tables db db1'" and gc: "gc = gate_context_of env s g p"
    using build_context_Inr(1,2) [OF stored(1)] p by auto
  have w: "world db1'" using assms(1) build_context_Inr(3) [OF stored(1)] by simp
  note sd = store_decision_world(3,4) [OF w fail_safe_pending_ok stored(2,3), unfolded r]
  have row: "dec_decision d = mode_violation_decision mode" "\<not> dec_reservation_active d" "dec_reserved_alloc d = 0"
    "dec_reserved_credit d = 0"
    using sd(1) by (auto simp: d fail_safe_pending_def Let_def gc mode split: prod.splits)
  obtain rows db3 d0 d' a db4 where "d' = attach_allocations rows d0"
    and res: "reserve_pending (insert_decision d0 db1') t (fail_safe_pending env db1' t actor s g code meta gc (db_now db)) d0
      (gi_project g) (db_now db) = Inr (rows, db3)"
    and apr: "optional_approval (gc_policy gc) d' actor (db_now db) (gc_ttl gc) (gi_dry_run g) (gc_mode gc)
      (set_response (dec_id d') (dec_response d') db3) = Inr (a, db4)"
    and db': "db' = append_ledger (pe_sha (ge_policy env)) d' a db4"
    by (rule store_decision_steps [OF stored(3)])
  have "db3 = insert_decision d0 db1'"
    using res by (simp add: reserve_pending_def fail_safe_pending_def Let_def split: prod.splits)
  moreover have "grants db4 = grants db3 \<and> allocs db4 = allocs db3"
    using optional_approval_Inr [OF apr]
      request_approval_Inr [of "gc_policy gc" d' actor "db_now db" "gc_ttl gc"
        "set_response (dec_id d') (dec_response d') db3" "the a" db4]
    by (cases a) auto
  ultimately have "grants db' = grants db \<and> allocs db' = allocs db"
    using same by (simp add: db' same_tables_def)
  then show ?thesis
    using row sd(2) by (auto simp: d [symmetric] wants_approval_row_def gc mode mode_violation_decision_def split: if_splits)
qed auto

theorem fail_safe_reserves_nothing_witness:
  "\<exists>r db'. resolve_fail_safe_gate sample_gate_env sample_store 7 1 TERRAFORM sample_input ''gate_timeout'' None = (Inr r, db') \<and>
    \<not> dec_reservation_active (res_decision r) \<and> grants db' = grants sample_store"
proof -
  obtain p db1 where p: "get_or_create_policy (ge_policy sample_gate_env) sample_store 7 = Inr (p, db1)"
      "routing_rules p = PList []"
    using sample_creates [of sample_store] by (auto simp: sample_store_def sample_db_def empty_db_def sample_gate_env_def)
  have b: "build_gate_context sample_gate_env sample_store 7 TERRAFORM sample_input =
      Inr (gate_context_of sample_gate_env TERRAFORM sample_input p, db1)"
    by (simp add: build_gate_context_def p sample_representable)
  have none: "decisions db1 = []"
    using get_or_create_tables [OF p(1)] by (simp add: same_tables_def sample_store_def sample_db_def empty_db_def)
  obtain res db' where run: "resolve_fail_safe_gate sample_gate_env sample_store 7 1 TERRAFORM sample_input ''gate_timeout'' None = (res, db')"
    by force
  have policy_env: "ge_policy sample_gate_env = sample_env" by (simp add: sample_gate_env_def)
  have fits: "row_fits (decision_row 7 1 TERRAFORM sample_input (gate_context_of sample_gate_env TERRAFORM sample_input p)
      (build_computed_context (\<lambda>_. True) db1 7 n sample_input now pr) d rs resp None None 0 0 False i c)" for n now pr d rs resp i c
    by (rule sample_row_fits) (simp_all add: sample_tables(5) [OF p(1) [unfolded policy_env]], simp add: sample_input_def)
  have costs: "ge_costs_ok sample_gate_env = (\<lambda>_. True)" by (simp add: sample_gate_env_def)
  have "\<exists>r. res = Inr r"
    using run none no_rules_route [OF p(2)] fits [simplified]
    by (auto simp: costs resolve_fail_safe_gate_def b get_existing_gate_result_def get_decision_by_idempotency_def
        persist_decision_def store_decision_def reserve_pending_def fail_safe_pending_def optional_approval_def
        request_approval_def Let_def split: prod.splits if_splits)
  then obtain r where r: "res = Inr r" ..
  have "res_decision r \<notin> set (decisions sample_store)" by (simp add: sample_store_def sample_db_def empty_db_def)
  from fail_safe_reserves_nothing [OF sample_world run [unfolded r] this refl p(1) refl] run r show ?thesis by blast
qed

end
