(* ===== verification/Lifecycle.thy ===== *)
theory Lifecycle
  imports Prelude
begin

text \<open>
  The contract of a life cycle: each step lowers a rank and a final state has no step.  A run is then bounded by the
  rank of its first state and a final state stays as it is.  Approvals, actions and background jobs provide it.
\<close>

locale lifecycle =
  fixes step :: "'s \<Rightarrow> 's \<Rightarrow> bool" and rank :: "'s \<Rightarrow> nat" and final :: "'s \<Rightarrow> bool"
  assumes descends: "step x y \<Longrightarrow> rank y < rank x"
    and stops: "final x \<Longrightarrow> \<not> step x y"
begin

lemma run_bounded: "(step ^^ n) x y \<Longrightarrow> n + rank y \<le> rank x"
proof (induction n arbitrary: y)
  case (Suc n)
  then obtain z where "(step ^^ n) x z" "step z y" by auto
  then show ?case using Suc.IH [of z] descends [of z y] by simp
qed simp

lemma reach_rank: "step\<^sup>*\<^sup>* x y \<Longrightarrow> rank y \<le> rank x"
  using run_bounded by (metis rtranclp_power le_add2 order_trans)

lemma terminates: "wfp (\<lambda>y x. step x y)"
  by (rule wfp_if_convertible_to_nat [where f = rank]) (rule descends)

lemma final_stays: "step\<^sup>*\<^sup>* x y \<Longrightarrow> final x \<Longrightarrow> y = x"
  by (induction rule: converse_rtranclp_induct) (auto dest: stops)

lemma no_return: "step\<^sup>*\<^sup>* x y \<Longrightarrow> step y z \<Longrightarrow> z \<noteq> x"
  using reach_rank descends by (metis leD)

end

end
