(* ===== verification/Flow_Safety.thy ===== *)
theory Flow_Safety
  imports Approval_Flow Gate_Safety Lifecycle
begin

text \<open>
  What the approval flow guarantees: each operation keeps the invariant of the database, an approval moves only
  along its life cycle, a refused or expired request gives its credit back, and what a token was bound to.
\<close>

section \<open>The life of an approval\<close>

datatype life = Waiting | Granted "time option" | Refused | Lapsed | Withdrawn

definition life_of :: "approval \<Rightarrow> life" where
  "life_of a = (case apr_status a of PENDING \<Rightarrow> Waiting | APPROVED \<Rightarrow> Granted (apr_token_consumed a)
     | DENIED \<Rightarrow> Refused | EXPIRED \<Rightarrow> Lapsed | APR_CANCELLED \<Rightarrow> Withdrawn)"

inductive life_step :: "life \<Rightarrow> life \<Rightarrow> bool" where
  grant: "life_step Waiting (Granted None)"
| refuse: "life_step Waiting Refused"
| lapse: "life_step Waiting Lapsed"
| redeem: "life_step (Granted None) (Granted (Some t))"

code_pred life_step .

inductive_cases life_stepE: "life_step x y"
inductive_simps life_step_simps [simp]:
  "life_step Refused y" "life_step Lapsed y" "life_step Withdrawn y" "life_step (Granted (Some t)) y"
  "life_step x Waiting" "life_step x Withdrawn"

fun life_rank :: "life \<Rightarrow> nat" where
  "life_rank Waiting = 2"
| "life_rank (Granted None) = 1"
| "life_rank _ = 0"

definition life_over :: "life \<Rightarrow> bool" where
  "life_over x = (x \<in> {Refused, Lapsed, Withdrawn} \<or> (\<exists>t. x = Granted (Some t)))"

interpretation approval_life: lifecycle life_step life_rank life_over
proof
  show "life_rank y < life_rank x" if "life_step x y" for x y using that by cases simp_all
  show "\<not> life_step x y" if "life_over x" for x y using that by (auto simp: life_over_def)
qed

lemma life_final:
  assumes "life_step\<^sup>*\<^sup>* x y" "x \<in> {Refused, Lapsed, Withdrawn} \<or> (\<exists>t. x = Granted (Some t))"
  shows "y = x"
  using assms approval_life.final_stays by (simp add: life_over_def)

lemma life_never_waits_again: "life_step\<^sup>*\<^sup>* x y \<Longrightarrow> y = Waiting \<Longrightarrow> x = Waiting"
  by (induction rule: rtranclp_induct) auto

definition row_ok :: "approval \<Rightarrow> bool" where
  \<comment> \<open>only an approved request has a token, and only its token can be consumed\<close>
  "row_ok a = ((apr_status a = APPROVED \<longleftrightarrow> apr_token_hash a \<noteq> None) \<and>
     (apr_status a \<noteq> APPROVED \<longrightarrow> apr_token_consumed a = None))"

definition rows_ok :: "db \<Rightarrow> bool" where
  "rows_ok db = (\<forall>a\<in>set (approvals db). row_ok a)"

definition same_request :: "approval \<Rightarrow> approval \<Rightarrow> bool" where
  "same_request a b = (apr_id b = apr_id a \<and> apr_decision b = apr_decision a \<and> apr_tenant b = apr_tenant a)"

definition evolves :: "db \<Rightarrow> db \<Rightarrow> bool" where
  \<comment> \<open>every request is still there and has moved along its life cycle\<close>
  "evolves db db' = ((rows_ok db \<longrightarrow> rows_ok db') \<and>
     (rows_ok db \<longrightarrow> (\<forall>a\<in>set (approvals db). \<exists>b\<in>set (approvals db'). same_request a b \<and>
        life_step\<^sup>*\<^sup>* (life_of a) (life_of b))))"

lemma evolvesD:
  assumes "evolves db db'" "rows_ok db"
  shows "rows_ok db'"
    "a \<in> set (approvals db) \<Longrightarrow> \<exists>b\<in>set (approvals db'). same_request a b \<and> life_step\<^sup>*\<^sup>* (life_of a) (life_of b)"
  using assms by (simp_all add: evolves_def)

lemma evolves_same: "approvals db' = approvals db \<Longrightarrow> evolves db db'"
  by (auto simp: evolves_def rows_ok_def same_request_def)

lemma evolves_trans:
  assumes "evolves a b" "evolves b c"
  shows "evolves a c"
proof (cases "rows_ok a")
  case True
  note b = evolvesD [OF assms(1) True]
  note c = evolvesD [OF assms(2) b(1)]
  have "\<exists>z\<in>set (approvals c). same_request x z \<and> life_step\<^sup>*\<^sup>* (life_of x) (life_of z)" if x: "x \<in> set (approvals a)" for x
  proof -
    obtain y where y: "y \<in> set (approvals b)" "same_request x y" "life_step\<^sup>*\<^sup>* (life_of x) (life_of y)"
      using b(2) [OF x] by blast
    obtain z where "z \<in> set (approvals c)" "same_request y z" "life_step\<^sup>*\<^sup>* (life_of y) (life_of z)"
      using c(2) [OF y(1)] by blast
    with y show ?thesis by (intro bexI [of _ z]) (auto simp: same_request_def)
  qed
  with c(1) show ?thesis by (simp add: evolves_def)
qed (simp add: evolves_def)

lemma evolves_new:
  assumes "approvals db' = approvals db @ as" "\<forall>a\<in>set as. row_ok a"
  shows "evolves db db'"
  using assms by (auto simp: evolves_def rows_ok_def same_request_def)

lemma approval_unique:
  "approvals_ok db \<Longrightarrow> a \<in> set (approvals db) \<Longrightarrow> b \<in> set (approvals db) \<Longrightarrow> apr_id a = apr_id b \<Longrightarrow> a = b"
  by (metis approvals_ok_def distinct_map inj_onD)

lemma evolves_row:
  assumes w: "world db" and a: "a \<in> set (approvals db)"
    and upd: "approvals db' = update_rows P f (approvals db)" "\<And>x. P x \<Longrightarrow> apr_id x = apr_id a"
    and step: "row_ok a \<Longrightarrow> P a \<Longrightarrow> row_ok (f a) \<and> same_request a (f a) \<and> life_step (life_of a) (life_of (f a))"
  shows "evolves db db'"
proof -
  have one: "x = a" if "x \<in> set (approvals db)" "P x" for x
    using approval_unique [OF worldD(5) [OF w] that(1) a] upd(2) [OF that(2)] by simp
  show ?thesis
  proof (cases "rows_ok db")
    case True
    then have ra: "row_ok a" using a by (simp add: rows_ok_def)
    have "row_ok y" if "y \<in> set (approvals db')" for y
      using that one True step [OF ra] by (auto simp: upd(1) in_update_rows rows_ok_def split: if_splits)
    moreover have "\<exists>b\<in>set (approvals db'). same_request x b \<and> life_step\<^sup>*\<^sup>* (life_of x) (life_of b)"
      if x: "x \<in> set (approvals db)" for x
    proof (intro bexI conjI)
      show "(if P x then f x else x) \<in> set (approvals db')" unfolding upd(1) by (rule update_rowsI [OF x])
      show "same_request x (if P x then f x else x)" using one [OF x] step [OF ra] by (auto simp: same_request_def)
      show "life_step\<^sup>*\<^sup>* (life_of x) (life_of (if P x then f x else x))"
        using one [OF x] step [OF ra] by (auto intro: r_into_rtranclp)
    qed
    ultimately show ?thesis by (simp add: evolves_def rows_ok_def)
  qed (simp add: evolves_def)
qed

section \<open>Rows written by the flow\<close>

lemma update_tables [simp, row_simps]:
  "approvals (update_approval i f db) = update_rows (\<lambda>a. apr_id a = i) f (approvals db)"
  "decisions (update_approval i f db) = decisions db" "grants (update_approval i f db) = grants db"
  "allocs (update_approval i f db) = allocs db" "policies (update_approval i f db) = policies db"
  "budgets (update_approval i f db) = budgets db" "ledger (update_approval i f db) = ledger db"
  "actions (update_approval i f db) = actions db" "costs (update_approval i f db) = costs db"
  "db_next (update_approval i f db) = db_next db" "db_now (update_approval i f db) = db_now db"
  "decisions (update_decision i g db) = update_rows (\<lambda>d. dec_id d = i) g (decisions db)"
  "approvals (update_decision i g db) = approvals db" "grants (update_decision i g db) = grants db"
  "allocs (update_decision i g db) = allocs db" "policies (update_decision i g db) = policies db"
  "budgets (update_decision i g db) = budgets db" "ledger (update_decision i g db) = ledger db"
  "actions (update_decision i g db) = actions db" "costs (update_decision i g db) = costs db"
  "db_next (update_decision i g db) = db_next db" "db_now (update_decision i g db) = db_now db"
  by (simp_all add: update_approval_def update_decision_def)

lemma world_ledger: "world db \<Longrightarrow> world (append_ledger sha d a db)"
  by (rule world_cong [where db = db]) (auto intro: policies_ok_cong dest: worldD)

lemma world_approval:
  "world db \<Longrightarrow> (\<And>x. same_request x (f x)) \<Longrightarrow> world (update_approval i f db)"
  unfolding update_approval_def same_request_def by (rule world_update_approval) auto

lemma world_decision:
  assumes "world db" "d \<in> set (decisions db)" "dec_id d = i"
    "dec_id (f d) = i" "key_of (f d) = key_of d" "money_ok (f d)" "due_hold (f d) = due_hold d"
  shows "world (update_decision i f db)"
  using world_update_decision [of db d f] assms by (simp add: update_decision_def)

lemma response_simps [simp]:
  "dec_id (add_response kvs d) = dec_id d" "key_of (add_response kvs d) = key_of d"
  "money_ok (add_response kvs d) = money_ok d" "due_hold (add_response kvs d) = due_hold d"
  "dec_tenant (add_response kvs d) = dec_tenant d" "dec_reservation_active (add_response kvs d) = dec_reservation_active d"
  "dec_reserved_credit (add_response kvs d) = dec_reserved_credit d"
  "dec_reserved_alloc (add_response kvs d) = dec_reserved_alloc d"
  by (simp_all add: add_response_def key_of_def money_ok_def due_hold_def)

lemma released_simps [simp]:
  "dec_id (released d) = dec_id d" "key_of (released d) = key_of d" "money_ok (released d)" "due_hold (released d) = 0"
  "dec_tenant (released d) = dec_tenant d"
  by (simp_all add: released_def key_of_def money_ok_def due_hold_def)

lemma row_simps_flow [simp]:
  "same_request a (expired_row now a)" "same_request a (denied_row now u n (adopt_trace tr a))"
  "same_request a (approved_row now u n h x (adopt_trace tr a))" "same_request a (consumed_row now a)"
  by (simp_all add: same_request_def expired_row_def denied_row_def approved_row_def consumed_row_def)

lemma load_pending_Inr:
  assumes "load_pending db t i = Inr (a, d)"
  shows "a \<in> set (approvals db)" "apr_id a = i" "apr_tenant a = t" "apr_status a = PENDING"
    "d \<in> set (decisions db)" "dec_id d = apr_decision a" "dec_tenant d = t"
  using assms by (auto simp: load_pending_def load_approval_with_decision_def assert_pending_def and_then_Inr
      split: option.splits if_splits dest!: first_match_SomeD)

lemma load_Inr:
  assumes "load_approval_with_decision db t i = Inr (a, d)"
  shows "a \<in> set (approvals db)" "apr_id a = i" "apr_tenant a = t" "d \<in> set (decisions db)"
    "dec_id d = apr_decision a" "dec_tenant d = t"
  using assms by (auto simp: load_approval_with_decision_def split: option.splits dest!: first_match_SomeD)

section \<open>Closing a request gives its credit back\<close>

definition given_back :: "db \<Rightarrow> db \<Rightarrow> decision \<Rightarrow> bool" where
  \<comment> \<open>the hold of the decision went back to the grants, nothing was spent\<close>
  "given_back db db' d = (available db' = available db + due_hold d \<and> on_hold db' = on_hold db - due_hold d \<and>
     used_up db' = used_up db \<and> total (held_for (dec_tenant d) (dec_id d)) (allocs db') = 0 \<and>
     (\<exists>d'\<in>set (decisions db'). dec_id d' = dec_id d \<and> \<not> dec_reservation_active d' \<and>
        dec_reserved_alloc d' = 0 \<and> dec_reserved_credit d' = 0))"

lemma close_decision:
  assumes w: "world db" and d: "d \<in> set (decisions db)"
    and run: "settle_credit_reservations db (dec_tenant d) d 0 now = Inr (diags, db1)"
    and g: "g d = add_response kvs (released d)"
  shows "world (update_decision (dec_id d) g db1) \<and> given_back db (update_decision (dec_id d) g db1) d \<and>
    approvals db1 = approvals db \<and> ledger db1 = ledger db"
proof -
  obtain c r where s: "settled db db1 (dec_tenant d) (dec_id d) c r" "c + r = due_hold d" "0 \<le> c" "0 \<le> r"
      "map alloc_keys (allocs db1) = map alloc_keys (allocs db)"
      "dec_reservation_active d \<longrightarrow> c = bounded_consumption d 0"
    by (rule settle_world [OF w d run])
  have "0 \<le> dec_reserved_credit d"
    using decisions_okD(2) [OF worldD(4) [OF w] d] by (simp add: money_ok_def)
  then have "bounded_consumption d 0 = 0" by (simp add: bounded_consumption_def min_absorb1)
  with s have c: "c = 0" "r = due_hold d" by (auto simp: due_hold_def split: if_splits)
  have frame: "decisions db1 = decisions db" "approvals db1 = approvals db" "ledger db1 = ledger db"
    using s(1) by (simp_all add: settled_def credit_frame_def)
  have "world (update_decision (dec_id d) g db1)"
    using world_settle_decision [OF w d s(1,2,5), of g] by (simp add: update_decision_def g)
  moreover have "g d \<in> set (decisions (update_decision (dec_id d) g db1))"
    using update_rowsI [OF d, of "\<lambda>e. dec_id e = dec_id d" g] by (simp add: frame)
  moreover have "total (held_for (dec_tenant d) (dec_id d)) (allocs db) = due_hold d"
    using decisions_okD(3) [OF worldD(4) [OF w] d] by (simp add: holds_ok_def)
  ultimately show ?thesis
    using s(1) c frame
    by (auto simp: given_back_def settled_def available_def on_hold_def used_up_def g released_def
        intro!: bexI [of _ "g d"])
qed

section \<open>The operations\<close>

lemma expire_request_ok:
  assumes w: "world db" and l: "load_pending db t i = Inr (a, d)" and run: "expire_request env db t a d = Inr db'"
  shows "world db' \<and> evolves db db' \<and> given_back db db' d \<and> ledger db' \<noteq> ledger db"
proof -
  note p = load_pending_Inr [OF l]
  obtain diags db1 where s: "settle_credit_reservations db (dec_tenant d) d 0 (db_now db) = Inr (diags, db1)"
    and db': "db' = append_ledger (flow_sha env) (expired_decision (db_now db) diags d) (Some (expired_row (db_now db) a))
              (update_approval (apr_id a) (expired_row (db_now db))
                (update_decision (dec_id d) (expired_decision (db_now db) diags) db1))"
    using run p(7) by (auto simp: expire_request_def and_then_Inr)
  note c = close_decision [OF w p(5) s, of "expired_decision (db_now db) diags", OF expired_decision_def]
  have "world db'" unfolding db' using c by (intro world_ledger world_approval) auto
  moreover have "evolves db db'"
    by (rule evolves_row [OF w p(1), where P = "\<lambda>x. apr_id x = apr_id a" and f = "expired_row (db_now db)"])
      (use c p(4) in \<open>auto simp: db' row_ok_def life_of_def expired_row_def same_request_def intro: life_step.intros\<close>)
  ultimately show ?thesis using c
    by (simp add: db' given_back_def available_def on_hold_def used_up_def)
qed

lemma grant_request_steps:
  assumes "grant_request env db t a d u n = Inr (r, db')"
  obtains p db1 trace token expires where "get_or_create_policy (fe_policy env) db t = Inr (p, db1)"
    "enforce_reviewer_authority (fe_scim env) p a d u True = Inr (trace, adopt_trace trace a)"
    "expires = db_now db + seconds (policy_ttl p)"
    "build_approval_token (fe_token env) d a expires (db_now db) = Inr token"
    "r = \<lparr>ag_approval = approved_row (db_now db) (usr_id u) n (flow_sha env token) expires (adopt_trace trace a),
       ag_decision = approved_decision (db_now db) (usr_id u) (apr_id a) trace expires d,
       ag_token = token, ag_expires = expires\<rparr>"
    "db' = append_ledger (flow_sha env) (ag_decision r) (Some (ag_approval r))
       (update_approval (apr_id a) (approved_row (db_now db) (usr_id u) n (flow_sha env token) expires \<circ> adopt_trace trace)
         (update_decision (dec_id d) (approved_decision (db_now db) (usr_id u) (apr_id a) trace expires) db1))"
proof -
  obtain p db1 trace x token where *: "get_or_create_policy (fe_policy env) db t = Inr (p, db1)"
    "enforce_reviewer_authority (fe_scim env) p a d u True = Inr (trace, x)"
    "build_approval_token (fe_token env) d a (db_now db + seconds (policy_ttl p)) (db_now db) = Inr token"
    using assms by (auto simp: grant_request_def and_then_Inr Let_def)
  moreover have "x = adopt_trace trace a" using enforce_authority_Inr [OF *(2)] by metis
  ultimately show thesis
    using assms by (intro that [of p db1 trace "db_now db + seconds (policy_ttl p)" token])
      (auto simp: grant_request_def Let_def)
qed

lemma approved_decision_simps [simp]:
  "dec_id (approved_decision now u i tr x d) = dec_id d" "key_of (approved_decision now u i tr x d) = key_of d"
  "money_ok (approved_decision now u i tr x d) = money_ok d" "due_hold (approved_decision now u i tr x d) = due_hold d"
  "dec_tenant (approved_decision now u i tr x d) = dec_tenant d"
  by (simp_all add: approved_decision_def key_of_def money_ok_def due_hold_def add_response_def)

lemma policy_step:
  assumes "world db" "get_or_create_policy env db t = Inr (p, db1)"
  shows "world db1" "approvals db1 = approvals db" "decisions db1 = decisions db" "grants db1 = grants db"
    "allocs db1 = allocs db" "ledger db1 = ledger db" "db_now db1 = db_now db"
  using world_policy [OF assms] get_or_create_tables [OF assms(2)] by (simp_all add: same_tables_def)

lemma grant_request_ok:
  assumes w: "world db" and l: "load_pending db t i = Inr (a, d)" and run: "grant_request env db t a d u n = Inr (r, db')"
  shows "world db' \<and> evolves db db' \<and> grants db' = grants db \<and> allocs db' = allocs db"
  using run
proof (cases rule: grant_request_steps)
  case (1 p db1 trace token expires)
  note p = load_pending_Inr [OF l] and b = policy_step [OF w 1(1)]
  have "world (update_decision (dec_id d) (approved_decision (db_now db) (usr_id u) (apr_id a) trace expires) db1)"
    using p(5) decisions_okD(2) [OF worldD(4) [OF w] p(5)] by (intro world_decision [OF b(1), of d]) (simp_all add: b)
  then have "world db'" unfolding 1(6) by (intro world_ledger world_approval) auto
  moreover have "evolves db db'"
    by (rule evolves_row [OF w p(1), where P = "\<lambda>x. apr_id x = apr_id a" and
          f = "approved_row (db_now db) (usr_id u) n (flow_sha env token) expires \<circ> adopt_trace trace"])
      (use p(4) in \<open>auto simp: 1(6) b row_ok_def life_of_def approved_row_def same_request_def intro: life_step.intros\<close>)
  ultimately show ?thesis by (simp add: 1(6) b)
qed

lemma deny_request_steps:
  assumes "deny_request env db t i u n = (Inr (a', d'), db')"
  obtains a d p db1 trace diags db2 where "load_pending db t i = Inr (a, d)"
    "get_or_create_policy (fe_policy env) db t = Inr (p, db1)"
    "enforce_reviewer_authority (fe_scim env) p a d u True = Inr (trace, adopt_trace trace a)"
    "settle_credit_reservations db1 t d 0 (db_now db) = Inr (diags, db2)"
    "a' = denied_row (db_now db) (usr_id u) n (adopt_trace trace a)"
    "d' = denied_decision (db_now db) (usr_id u) (apr_id a) trace diags d"
    "db' = append_ledger (flow_sha env) d' (Some a')
       (update_approval (apr_id a) (denied_row (db_now db) (usr_id u) n \<circ> adopt_trace trace)
         (update_decision (dec_id d) (denied_decision (db_now db) (usr_id u) (apr_id a) trace diags) db2))"
proof -
  obtain a d p db1 trace x diags db2 where *: "load_pending db t i = Inr (a, d)"
    "get_or_create_policy (fe_policy env) db t = Inr (p, db1)"
    "enforce_reviewer_authority (fe_scim env) p a d u True = Inr (trace, x)"
    "settle_credit_reservations db1 t d 0 (db_now db) = Inr (diags, db2)"
    using assms by (auto simp: deny_request_def commit_eq and_then_Inr Let_def)
  moreover have "x = adopt_trace trace a" using enforce_authority_Inr [OF *(3)] by metis
  ultimately show thesis
    using assms by (intro that [of a d p db1 trace diags db2]) (auto simp: deny_request_def commit_eq Let_def)
qed

lemma given_back_cong:
  "given_back db1 db' d \<Longrightarrow> grants db1 = grants db \<Longrightarrow> allocs db1 = allocs db \<Longrightarrow> given_back db db' d"
  by (simp add: given_back_def available_def on_hold_def used_up_def)

lemma deny_request_ok:
  assumes w: "world db" and run: "deny_request env db t i u n = (Inr (a', d'), db')"
  shows "world db' \<and> evolves db db' \<and> (\<exists>d\<in>set (decisions db). dec_id d = dec_id d' \<and> given_back db db' d)"
  using run
proof (cases rule: deny_request_steps)
  case (1 a d p db1 trace diags db2)
  note p = load_pending_Inr [OF 1(1)] and b = policy_step [OF w 1(2)]
  have d: "d \<in> set (decisions db1)" using p(5) b by simp
  have s: "settle_credit_reservations db1 (dec_tenant d) d 0 (db_now db) = Inr (diags, db2)" using 1(4) p(7) by simp
  note c = close_decision [OF b(1) d s, of "denied_decision (db_now db) (usr_id u) (apr_id a) trace diags", OF denied_decision_def]
  have "world db'" unfolding 1(7) using c by (intro world_ledger world_approval) auto
  moreover have "evolves db db'"
    by (rule evolves_row [OF w p(1), where P = "\<lambda>x. apr_id x = apr_id a" and
          f = "denied_row (db_now db) (usr_id u) n \<circ> adopt_trace trace"])
      (use c p(4) b in \<open>auto simp: 1(7) row_ok_def life_of_def denied_row_def same_request_def intro: life_step.intros\<close>)
  moreover have "given_back db1 db' d"
    using c by (simp add: 1(7) given_back_def available_def on_hold_def used_up_def)
  then have "given_back db db' d" by (rule given_back_cong) (simp_all add: b)
  moreover have "dec_id d' = dec_id d" by (simp add: 1(6) denied_decision_def)
  ultimately show ?thesis using p(5) by metis
qed

lemma approve_request_cases:
  assumes "approve_request env db t i u n = (res, db')"
  obtains (failed) e where "res = Inl e" "db' = db"
  | (expired) a d where "load_pending db t i = Inr (a, d)" "apr_expires a \<le> db_now db"
      "expire_request env db t a d = Inr db'" "res = Inl (DomainError 409 ''Approval request has expired'')"
  | (granted) a d r where "load_pending db t i = Inr (a, d)" "db_now db < apr_expires a"
      "grant_request env db t a d u n = Inr (r, db')" "res = Inr r"
proof (cases "load_pending db t i")
  case (Inl e)
  with assms show thesis by (intro failed [of e]) (simp_all add: approve_request_def)
next
  case (Inr x)
  then obtain a d where l: "load_pending db t i = Inr (a, d)" by (cases x) auto
  show thesis
  proof (cases "apr_expires a \<le> db_now db")
    case True
    with assms l show thesis
      by (cases "expire_request env db t a d") (auto simp: approve_request_def intro: failed expired [OF l])
  next
    case False
    with assms l have "commit db (grant_request env db t a d u n) = (res, db')" by (simp add: approve_request_def)
    with False show thesis
      by (cases res) (auto simp: commit_eq intro: failed granted [OF l])
  qed
qed

lemma approve_request_ok:
  assumes w: "world db" and run: "approve_request env db t i u n = (res, db')"
  shows "world db' \<and> evolves db db'"
  using run
proof (cases rule: approve_request_cases)
  case failed
  with w show ?thesis by (simp add: evolves_same)
next
  case expired
  then show ?thesis using expire_request_ok [OF w] by blast
next
  case granted
  then show ?thesis using grant_request_ok [OF w] by blast
qed

lemma deny_request_any:
  assumes w: "world db" and run: "deny_request env db t i u n = (res, db')"
  shows "world db' \<and> evolves db db'"
proof (cases res)
  case (Inl e)
  with run have "db' = db" by (simp add: deny_request_def commit_eq)
  with w show ?thesis by (simp add: evolves_same)
next
  case (Inr x)
  with run have "deny_request env db t i u n = (Inr (fst x, snd x), db')" by simp
  with deny_request_ok [OF w] show ?thesis by blast
qed

lemma create_approval_ok:
  assumes w: "world db" and run: "create_approval env db t actor i n = (res, db')"
  shows "world db' \<and> evolves db db'"
proof (cases "db' = db")
  case True
  with w show ?thesis by (simp add: evolves_same)
next
  case False
  with run obtain d p db1 a0 z a where d: "first_match (\<lambda>d. dec_id d = i \<and> dec_tenant d = t) (decisions db) = Some d"
    and none: "get_approval_by_decision db i = None"
    and p: "get_or_create_policy (fe_policy env) db t = Inr (p, db1)"
    and r: "request_approval p d actor (db_now db) (policy_ttl p) db1 = Inr (a0, z)"
    and a: "a = a0\<lparr>apr_notes := review_notes n\<rparr>"
    and db': "db' = append_ledger (flow_sha env) d (Some a) (db1\<lparr>approvals := approvals db1 @ [a], db_next := db_next db1 + 1\<rparr>)"
    unfolding create_approval_def commit_def open_approval_def
    by (auto split: option.splits if_splits sum.splits simp: and_then_Inr Let_def)
  note b = policy_step [OF w p] and q = request_approval_Inr [OF r]
  have dd: "d \<in> set (decisions db)" "dec_id d = i" "dec_tenant d = t" using first_match_SomeD [OF d] by auto
  have "world (db1\<lparr>approvals := approvals db1 @ [a], db_next := db_next db1 + 1\<rparr>)"
  proof (rule world_add_approval [OF b(1)])
    show "apr_decision a \<notin> apr_decision ` set (approvals db1)"
      using none q dd by (auto simp: a b get_approval_by_decision_def first_match_None)
    show "\<exists>d\<in>set (decisions db1). dec_id d = apr_decision a \<and> dec_tenant d = apr_tenant a"
      using dd q by (auto simp: a b)
  qed (use q in \<open>simp add: a\<close>)
  moreover have "evolves db db'"
    by (rule evolves_new [where as = "[a]"]) (use q in \<open>auto simp: db' b a row_ok_def\<close>)
  ultimately show ?thesis by (simp add: db' world_ledger)
qed

section \<open>Consuming a token\<close>

lemma reject_if_Inr: "reject_if checks = Inr u \<longleftrightarrow> (\<forall>c\<in>set checks. \<not> fst c)"
  by (induction checks rule: reject_if.induct) auto

lemma consume_token_steps:
  assumes "consume_token env db t token actor x = (Inr (a', d'), db')"
  obtains tc a d where "strip token \<noteq> []" "token_context_of env db (strip token) = Inr tc" "tc_tenant tc = t"
    "load_approval_with_decision db t (tc_approval tc) = Inr (a, d)"
    "\<forall>c\<in>set (state_checks (flow_sha env (strip token)) (db_now db) tc a d). \<not> fst c"
    "\<forall>c\<in>set (binding_checks tc d). \<not> fst c" "\<forall>c\<in>set (expected_checks x d). \<not> fst c"
    "mark_consumed db t a d actor = Inr ((a', d'), db')"
  using assms
  by (auto simp: consume_token_def commit_eq and_then_Inr Let_def reject_if_Inr ball_Un split: if_splits)

lemma mark_consumed_steps:
  assumes w: "world db" and l: "load_approval_with_decision db t i = Inr (a, d)"
    and run: "mark_consumed db t a d actor = Inr ((a', d'), db')"
  shows "apr_token_consumed a = None" "a' = consumed_row (db_now db) a" "d' = consumed_decision (db_now db) actor d"
    "world db'" "approvals db' = update_rows (\<lambda>x. apr_id x = i \<and> apr_tenant x = t \<and> apr_token_consumed x = None)
       (consumed_row (db_now db)) (approvals db)"
    "decisions db' = update_rows (\<lambda>e. dec_id e = dec_id d) (consumed_decision (db_now db) actor) (decisions db)"
    "db' = db\<lparr>approvals := approvals db', decisions := decisions db'\<rparr>"
proof -
  let ?hit = "\<lambda>x. apr_id x = apr_id a \<and> apr_tenant x = t \<and> apr_token_consumed x = None"
  note p = load_Inr [OF l]
  have len: "length (filter ?hit (approvals db)) = 1" and eq: "a' = consumed_row (db_now db) a"
      "d' = consumed_decision (db_now db) actor d"
    and db': "db' = update_decision (dec_id d) (consumed_decision (db_now db) actor)
      (db\<lparr>approvals := update_rows ?hit (consumed_row (db_now db)) (approvals db)\<rparr>)"
    using run by (auto simp: mark_consumed_def Let_def split: if_splits)
  show "a' = consumed_row (db_now db) a" "d' = consumed_decision (db_now db) actor d" by (fact eq)+
  obtain y where "y \<in> set (filter ?hit (approvals db))" using len by (cases "filter ?hit (approvals db)") auto
  then have y: "y \<in> set (approvals db)" "?hit y" by auto
  with approval_unique [OF worldD(5) [OF w] y(1) p(1)] show "apr_token_consumed a = None" by auto
  show "approvals db' = update_rows (\<lambda>x. apr_id x = i \<and> apr_tenant x = t \<and> apr_token_consumed x = None)
       (consumed_row (db_now db)) (approvals db)" by (simp add: db' p(2))
  show "decisions db' = update_rows (\<lambda>e. dec_id e = dec_id d) (consumed_decision (db_now db) actor) (decisions db)"
    by (simp add: db')
  show "db' = db\<lparr>approvals := approvals db', decisions := decisions db'\<rparr>" by (simp add: db' update_decision_def)
  have "world (db\<lparr>approvals := update_rows ?hit (consumed_row (db_now db)) (approvals db)\<rparr>)"
    by (rule world_update_approval [OF w]) (simp add: consumed_row_def)
  then show "world db'"
    unfolding db' using p(4) decisions_okD(2) [OF worldD(4) [OF w] p(4)]
    by (intro world_decision [where d = d]) (simp_all add: consumed_decision_def)
qed

lemma consume_token_ok:
  assumes w: "world db" and run: "consume_token env db t token actor x = (res, db')"
  shows "world db' \<and> evolves db db'"
proof (cases res)
  case (Inl e)
  with run have "db' = db" by (simp add: consume_token_def commit_eq)
  with w show ?thesis by (simp add: evolves_same)
next
  case (Inr r)
  with run have "consume_token env db t token actor x = (Inr (fst r, snd r), db')" by simp
  then show ?thesis
  proof (cases rule: consume_token_steps)
    case (1 tc a d)
    note m = mark_consumed_steps [OF w 1(4,8)] and p = load_Inr [OF 1(4)]
    have "apr_status a = APPROVED" using 1(5) by (simp add: state_checks_def)
    then have "evolves db db'"
      by (intro evolves_row [OF w p(1) m(5)])
        (auto simp: p(2) row_ok_def life_of_def consumed_row_def same_request_def m(1) intro: life_step.intros)
    with m(4) show ?thesis ..
  qed
qed

section \<open>Redeeming a fresh token\<close>

lemma payload_cong:
  assumes "dec_tenant e = dec_tenant d" "dec_project e = dec_project d" "dec_id e = dec_id d" "dec_source e = dec_source d"
    "dec_environment e = dec_environment d" "dec_fingerprint e = dec_fingerprint d" "dec_monthly e = dec_monthly d"
    "dec_hourly e = dec_hourly d" "dec_resource e = dec_resource d" "apr_id b = apr_id a"
  shows "token_payload env e b x now = token_payload env d a x now"
  using assms by (simp add: token_payload_def)

lemma load_found:
  assumes "world db" "a \<in> set (approvals db)" "d \<in> set (decisions db)" "dec_id d = apr_decision a"
    "dec_tenant d = apr_tenant a"
  shows "load_approval_with_decision db (apr_tenant a) (apr_id a) = Inr (a, d)"
proof -
  have "first_match (\<lambda>x. apr_id x = apr_id a \<and> apr_tenant x = apr_tenant a) (approvals db) = Some a"
    using worldD(5) [OF assms(1)] assms(2)
    by (intro first_match_unique [where k = apr_id]) (auto simp: approvals_ok_def)
  moreover have "first_match (\<lambda>x. dec_id x = apr_decision a \<and> dec_tenant x = apr_tenant a) (decisions db) = Some d"
    using find_decision [OF worldD(4) [OF assms(1)] assms(3)] assms(4,5) by simp
  ultimately show ?thesis by (simp add: load_approval_with_decision_def)
qed

lemma one_row:
  assumes "distinct (map k xs)" "a \<in> set xs" "P a" "\<And>x. P x \<Longrightarrow> k x = k a"
  shows "filter P xs = [a]"
  using assms(1,2)
proof (induction xs)
  case (Cons y xs)
  show ?case
  proof (cases "y = a")
    case True
    with Cons.prems have "\<forall>x\<in>set xs. \<not> P x" using assms(4) by (auto simp: image_iff)
    with True assms(3) show ?thesis by (simp add: filter_empty_conv)
  next
    case False
    with Cons.prems have "a \<in> set xs" "\<not> P y" using assms(4) by (auto simp: image_iff)
    with Cons show ?thesis by simp
  qed
qed simp

lemma approved_fields:
  "dec_tenant (approved_decision now u i tr x d) = dec_tenant d" "dec_project (approved_decision now u i tr x d) = dec_project d"
  "dec_source (approved_decision now u i tr x d) = dec_source d"
  "dec_environment (approved_decision now u i tr x d) = dec_environment d"
  "dec_fingerprint (approved_decision now u i tr x d) = dec_fingerprint d"
  "dec_monthly (approved_decision now u i tr x d) = dec_monthly d" "dec_hourly (approved_decision now u i tr x d) = dec_hourly d"
  "dec_resource (approved_decision now u i tr x d) = dec_resource d"
  by (simp_all add: approved_decision_def add_response_def)

lemma approve_granted:
  assumes w: "world db" and run: "approve_request env db t i u n = (Inr g, db1)"
  obtains a d where "load_pending db t i = Inr (a, d)" "ag_approval g \<in> set (approvals db1)" "ag_decision g \<in> set (decisions db1)"
    "same_request a (ag_approval g)" "dec_id (ag_decision g) = dec_id d" "dec_tenant (ag_decision g) = t"
    "apr_id (ag_approval g) = i" "apr_tenant (ag_approval g) = t" "apr_decision (ag_approval g) = dec_id d"
    "apr_status (ag_approval g) = APPROVED" "apr_token_hash (ag_approval g) = Some (flow_sha env (ag_token g))"
    "apr_token_expires (ag_approval g) = Some (ag_expires g)" "apr_token_consumed (ag_approval g) = apr_token_consumed a"
    "a \<in> set (approvals db)" "apr_status a = PENDING" "d \<in> set (decisions db)"
    "build_approval_token (fe_token env) (ag_decision g) (ag_approval g) (ag_expires g) (db_now db) = Inr (ag_token g)"
proof -
  from run obtain a d where l: "load_pending db t i = Inr (a, d)" and gr: "grant_request env db t a d u n = Inr (g, db1)"
    by (cases rule: approve_request_cases) auto
  note p = load_pending_Inr [OF l]
  from gr show thesis
  proof (cases rule: grant_request_steps)
    case (1 p db1' trace token expires)
    note b = policy_step [OF w 1(1)]
    let ?f = "approved_row (db_now db) (usr_id u) n (flow_sha env token) expires \<circ> adopt_trace trace"
    let ?g = "approved_decision (db_now db) (usr_id u) (apr_id a) trace expires"
    have "?f a \<in> set (approvals db1)" unfolding 1(6) using update_rowsI [OF p(1), of "\<lambda>x. apr_id x = apr_id a" ?f] b by simp
    moreover have "?g d \<in> set (decisions db1)"
      unfolding 1(6) using update_rowsI [OF p(5), of "\<lambda>x. dec_id x = dec_id d" ?g] b by simp
    moreover have "token_payload (fe_token env) (?g d) (?f a) expires (db_now db) = token_payload (fe_token env) d a expires (db_now db)"
      by (rule payload_cong) (simp_all add: approved_fields approved_row_def)
    then have "build_approval_token (fe_token env) (?g d) (?f a) expires (db_now db) = Inr token"
      using 1(4) by (simp add: build_approval_token_def)
    ultimately show thesis
      using p l by (intro that [OF l]) (simp_all add: 1(5) approved_row_def same_request_def)
  qed
qed

end
