(* ===== verification/Reconciliation.thy ===== *)
theory Reconciliation
  imports Flow_Safety
begin

text \<open>
  \<open>app/modules/enforcement/domain/reconciliation_flow_ops.py\<close>, \<open>reconciliation_ops.py\<close> and
  \<open>reconciliation_worker.py\<close>: closing an active reservation against the actual cost, the replay of a repeated
  reconciliation, the release of overdue reservations, the list of drift exceptions, and the sweep of a tenant.

  \<open>others\<close> is what other transactions commit between the read of a decision and the conditional update that
  claims its reservation: the row lock makes it the identity, and the claim is there for the case that it is not.
\<close>

section \<open>Parsing stored values\<close>

definition take_number :: "nat \<Rightarrow> string \<Rightarrow> (int \<times> string) option" where
  "take_number n s =
     (if n \<le> length s \<and> list_all is_digit (take n s) then Some (int (digits_val (take n s)), drop n s) else None)"

definition fraction_us :: "string \<Rightarrow> int option" where
  \<comment> \<open>the digits after the point, truncated to microseconds\<close>
  "fraction_us s =
     (if s \<noteq> [] \<and> list_all is_digit s
      then Some (int (digits_val (take 6 (s @ replicate 6 CHR ''0'')))) else None)"

definition clock_us :: "string \<Rightarrow> int option" where
  \<comment> \<open>\<open>HH[:MM[:SS[.f]]]\<close> in microseconds\<close>
  "clock_us s =
     (case take_number 2 s of None \<Rightarrow> None | Some (h, r1) \<Rightarrow>
      if 23 < h then None else
      case r1 of [] \<Rightarrow> Some (seconds (h * 3600)) | c1 # t1 \<Rightarrow>
      if c1 \<noteq> CHR '':'' then None else
      case take_number 2 t1 of None \<Rightarrow> None | Some (m, r2) \<Rightarrow>
      if 59 < m then None else
      case r2 of [] \<Rightarrow> Some (seconds (h * 3600 + m * 60)) | c2 # t2 \<Rightarrow>
      if c2 \<noteq> CHR '':'' then None else
      case take_number 2 t2 of None \<Rightarrow> None | Some (x, r3) \<Rightarrow>
      if 59 < x then None else
      case r3 of [] \<Rightarrow> Some (seconds (h * 3600 + m * 60 + x)) | c3 # t3 \<Rightarrow>
      if c3 \<noteq> CHR ''.'' \<and> c3 \<noteq> CHR '','' then None
      else map_option (\<lambda>us. seconds (h * 3600 + m * 60 + x) + us) (fraction_us t3))"

definition date_days :: "string \<Rightarrow> (int \<times> string) option" where
  \<comment> \<open>\<open>YYYY-MM-DD\<close> as a day number\<close>
  "date_days s =
     (case take_number 4 s of Some (y, c1 # t1) \<Rightarrow>
        (case take_number 2 t1 of Some (m, c2 # t2) \<Rightarrow>
           (case take_number 2 t2 of Some (d, r) \<Rightarrow>
              if c1 = CHR ''-'' \<and> c2 = CHR ''-'' \<and> 1 \<le> y \<and> valid_date (y, m, d)
              then Some (day_number y m d, r) else None
            | None \<Rightarrow> None)
         | _ \<Rightarrow> None)
      | _ \<Rightarrow> None)"

definition is_offset_sign :: "char \<Rightarrow> bool" where
  "is_offset_sign c = (c = CHR ''+'' \<or> c = CHR ''-'')"

definition time_with_offset :: "string \<Rightarrow> int option" where
  \<comment> \<open>the time of day less the offset from UTC\<close>
  "time_with_offset s =
     (case (clock_us (takeWhile (\<lambda>c. \<not> is_offset_sign c) s), dropWhile (\<lambda>c. \<not> is_offset_sign c) s) of
        (Some t, []) \<Rightarrow> Some t
      | (Some t, sg # z) \<Rightarrow> map_option (\<lambda>o'. if sg = CHR ''+'' then t - o' else t + o') (clock_us z)
      | _ \<Rightarrow> None)"

definition from_isoformat :: "string \<Rightarrow> time option" where
  \<comment> \<open>\<open>datetime.fromisoformat\<close> on the extended format; a naive value is taken as UTC\<close>
  "from_isoformat s =
     (case date_days s of
        None \<Rightarrow> None
      | Some (n, []) \<Rightarrow> Some (n * day_us)
      | Some (n, _ # r) \<Rightarrow> map_option (\<lambda>t. n * day_us + t) (time_with_offset r))"

definition parse_iso_datetime :: "pyval \<Rightarrow> time option" where
  "parse_iso_datetime v =
     (case v of
        PTime t \<Rightarrow> Some t
      | PStr s0 \<Rightarrow>
          (let s = strip s0
           in if s = [] then None
              else from_isoformat (if last s = CHR ''Z'' then butlast s @ ''+00:00'' else s))
      | _ \<Rightarrow> None)"

definition stripped :: "string option \<Rightarrow> string option" where
  \<comment> \<open>\<open>(str(x).strip() if x else None) or None\<close>\<close>
  "stripped x = (case x of None \<Rightarrow> None | Some s \<Rightarrow> or_none (strip s))"

definition stored_notes :: "pydict \<Rightarrow> string option" where
  "stored_notes r = (if dget r ''notes'' = PNone then None else or_none (strip (py_str (dget r ''notes''))))"

definition money_field :: "pydict \<Rightarrow> string \<Rightarrow> usd" where
  "money_field r k = quantize4 (to_decimal (dget r k))"

section \<open>Replaying a reconciliation\<close>

record reconciliation_result =
  rr_decision :: decision
  rr_released :: usd
  rr_actual :: usd
  rr_drift :: usd
  rr_status :: string
  rr_at :: time

definition mismatch :: "string \<Rightarrow> exn" where
  "mismatch what = DomainError 409 (''Reservation reconciliation idempotency key replay payload mismatch ('' @ what @ '')'')"

definition replay_reconciliation ::
  "decision \<Rightarrow> usd \<Rightarrow> string option \<Rightarrow> string option \<Rightarrow> time \<Rightarrow> reconciliation_result option outcome" where
  "replay_reconciliation d actual notes key now =
     (let k = strip (opt_str key)
      in if k = [] then Inr None else
      case dget (dec_response d) ''reservation_reconciliation'' of
        PDict r \<Rightarrow>
          (let stored_key = strip (str_or_empty (dget r ''idempotency_key''));
               expected = money_field r ''actual_monthly_delta_usd'';
               status = norm_key (str_or_empty (dget r ''status''))
           in if stored_key = [] \<or> stored_key \<noteq> k then Inr None
              else if expected \<noteq> actual then Inl (mismatch ''actual_monthly_delta_usd'')
              else if notes \<noteq> None \<and> notes \<noteq> stored_notes r then Inl (mismatch ''notes'')
              else if status \<notin> {''matched'', ''overage'', ''savings''}
              then Inl (DomainError 409 ''Stored reservation reconciliation payload is invalid for idempotent replay (status)'')
              else Inr (Some \<lparr>rr_decision = d, rr_released = money_field r ''expected_reserved_usd'', rr_actual = expected,
                     rr_drift = money_field r ''drift_usd'', rr_status = status,
                     rr_at = (case parse_iso_datetime (dget r ''reconciled_at'') of Some t \<Rightarrow> t | None \<Rightarrow> now)\<rparr>))
      | _ \<Rightarrow> Inr None)"

section \<open>Reconciling one reservation\<close>

definition drift_status :: "usd \<Rightarrow> string" where
  "drift_status drift = (if drift = 0 then ''matched'' else if 0 < drift then ''overage'' else ''savings'')"

record reconcile_plan =
  rp_consumed :: usd
  rp_released :: usd
  rp_total :: usd
  rp_drift :: usd

definition plan_reconciliation :: "decision \<Rightarrow> usd \<Rightarrow> reconcile_plan" where
  "plan_reconciliation d actual =
     (let alloc = quantize4 (dec_reserved_alloc d); credit = quantize4 (dec_reserved_credit d);
          consumed = quantize4 (min credit (max 0 (actual - alloc))); released_total = quantize4 (alloc + credit)
      in \<lparr>rp_consumed = consumed, rp_released = quantize4 (credit - consumed), rp_total = released_total,
          rp_drift = quantize4 (actual - released_total)\<rparr>)"

definition reconciliation_value ::
  "decision \<Rightarrow> usd \<Rightarrow> reconcile_plan \<Rightarrow> uuid \<Rightarrow> string option \<Rightarrow> string option \<Rightarrow> pydict list \<Rightarrow> time \<Rightarrow> pydict" where
  "reconciliation_value d actual plan actor notes key diags now =
     [(''reconciled_at'', PTime now), (''reconciled_by_user_id'', PUuid actor),
      (''expected_reserved_usd'', PStr (fixed_str 4 (rp_total plan))),
      (''actual_monthly_delta_usd'', PStr (fixed_str 4 actual)), (''drift_usd'', PStr (fixed_str 4 (rp_drift plan))),
      (''status'', PStr (drift_status (rp_drift plan))), (''notes'', opt_val PStr notes),
      (''idempotency_key'', opt_val PStr key),
      (''credit_reserved_usd'', PStr (fixed_str 4 (quantize4 (dec_reserved_credit d)))),
      (''credit_consumed_usd'', PStr (fixed_str 4 (rp_consumed plan))),
      (''credit_released_usd'', PStr (fixed_str 4 (rp_released plan))),
      (''credit_settlement'', settlement_value diags)]"

definition closed_reservation :: "string list \<Rightarrow> string \<Rightarrow> pyval \<Rightarrow> decision \<Rightarrow> decision" where
  \<comment> \<open>what both reconciliations write to the decision\<close>
  "closed_reservation reasons key v d =
     add_response [(key, v)] (released (d\<lparr>dec_reasons := unique_reason_codes (dec_reasons d @ reasons)\<rparr>))"

definition reconciled_decision ::
  "decision \<Rightarrow> usd \<Rightarrow> reconcile_plan \<Rightarrow> uuid \<Rightarrow> string option \<Rightarrow> string option \<Rightarrow> pydict list \<Rightarrow> time \<Rightarrow> decision" where
  "reconciled_decision d actual plan actor notes key diags now =
     closed_reservation
       (''reservation_reconciled'' # (if rp_drift plan \<noteq> 0 then [''reservation_reconciliation_drift''] else []))
       ''reservation_reconciliation'' (PDict (reconciliation_value d actual plan actor notes key diags now)) d"

definition written_over :: "decision \<Rightarrow> decision \<Rightarrow> decision" where
  \<comment> \<open>the columns the session changed go to the row, whatever else the row holds by then\<close>
  "written_over d' row = row\<lparr>dec_reservation_active := dec_reservation_active d', dec_reasons := dec_reasons d',
     dec_reserved_alloc := dec_reserved_alloc d', dec_reserved_credit := dec_reserved_credit d',
     dec_response := dec_response d'\<rparr>"

definition claimable :: "db \<Rightarrow> uuid \<Rightarrow> uuid \<Rightarrow> bool" where
  \<comment> \<open>the conditional update hits exactly one active row\<close>
  "claimable db tenant i =
     (length (filter (\<lambda>d. dec_id d = i \<and> dec_tenant d = tenant \<and> dec_reservation_active d) (decisions db)) = 1)"

definition settle_reconciliation ::
  "(string \<Rightarrow> string) \<Rightarrow> db \<Rightarrow> uuid \<Rightarrow> decision \<Rightarrow> uuid \<Rightarrow> usd \<Rightarrow> string option \<Rightarrow> string option
    \<Rightarrow> (reconciliation_result \<times> db) outcome" where
  \<comment> \<open>after the claim\<close>
  "settle_reconciliation sha db tenant d actor actual notes key =
     (let plan = plan_reconciliation d actual; now = db_now db
      in and_then (settle_credit_reservations db tenant d (rp_consumed plan) now) (\<lambda>(diags, db1).
         let d' = reconciled_decision d actual plan actor notes key diags now
         in Inr (\<lparr>rr_decision = d', rr_released = rp_total plan, rr_actual = actual, rr_drift = rp_drift plan,
                  rr_status = drift_status (rp_drift plan), rr_at = now\<rparr>,
                append_ledger sha d' (get_approval_by_decision db1 (dec_id d))
                  (update_decision (dec_id d) (written_over d') db1))))"

definition no_longer_active ::
  "decision \<Rightarrow> usd \<Rightarrow> string option \<Rightarrow> string option \<Rightarrow> time \<Rightarrow> reconciliation_result outcome" where
  "no_longer_active d actual notes key now =
     and_then (replay_reconciliation d actual notes key now) (\<lambda>r.
       case r of Some x \<Rightarrow> Inr x | None \<Rightarrow> Inl (DomainError 409 ''Reservation is not active''))"

definition reconcile_reservation ::
  "(string \<Rightarrow> string) \<Rightarrow> (db \<Rightarrow> db) \<Rightarrow> db \<Rightarrow> uuid \<Rightarrow> uuid \<Rightarrow> uuid \<Rightarrow> usd \<Rightarrow> string option \<Rightarrow> string option
    \<Rightarrow> reconciliation_result outcome \<times> db" where
  "reconcile_reservation sha others db tenant i actor actual0 notes0 key0 =
     (let find = (\<lambda>s. first_match (\<lambda>d. dec_id d = i \<and> dec_tenant d = tenant) (decisions s));
          actual = quantize4 actual0; notes = stripped notes0; key = stripped key0
      in case find db of
           None \<Rightarrow> (Inl (DomainError 404 ''Decision not found''), db)
         | Some d \<Rightarrow>
             if actual < 0 then (Inl (DomainError 422 ''actual_monthly_delta_usd must be >= 0''), db)
             else if \<not> dec_reservation_active d then (no_longer_active d actual notes key (db_now db), db)
             else if \<not> claimable (others db) tenant i
             then (case find (others db) of
                     None \<Rightarrow> (Inl (DomainError 404 ''Decision not found''), others db)
                   | Some e \<Rightarrow> (no_longer_active e actual notes key (db_now (others db)), others db))
             else commit (others db) (settle_reconciliation sha (others db) tenant d actor actual notes key))"

section \<open>Overdue reservations\<close>

record overdue_result =
  or_count :: int
  or_total :: usd
  or_decisions :: "uuid list"
  or_age :: int

definition overdue_rows :: "db \<Rightarrow> uuid \<Rightarrow> int \<Rightarrow> int \<Rightarrow> decision list" where
  "overdue_rows db tenant age limit =
     take (nat limit) (order_by [dec_created]
       (filter (\<lambda>d. dec_tenant d = tenant \<and> dec_reservation_active d \<and> dec_created d < db_now db - seconds age)
         (decisions db)))"

definition overdue_value :: "uuid \<Rightarrow> int \<Rightarrow> usd \<Rightarrow> pydict list \<Rightarrow> time \<Rightarrow> pydict" where
  "overdue_value actor age amount diags now =
     [(''released_at'', PTime now), (''released_by_user_id'', PUuid actor),
      (''released_reserved_usd'', PStr (fixed_str 4 amount)), (''older_than_seconds'', PInt age),
      (''reason'', PStr ''reservation_reconciliation_sla_expired''), (''credit_settlement'', settlement_value diags)]"

definition overdue_decision :: "uuid \<Rightarrow> int \<Rightarrow> usd \<Rightarrow> pydict list \<Rightarrow> time \<Rightarrow> decision \<Rightarrow> decision" where
  "overdue_decision actor age amount diags now d =
     closed_reservation [''reservation_auto_released_sla''] ''auto_reconciliation''
       (PDict (overdue_value actor age amount diags now)) d"

fun overdue_loop ::
  "(string \<Rightarrow> string) \<Rightarrow> uuid \<Rightarrow> uuid \<Rightarrow> int \<Rightarrow> time \<Rightarrow> decision list \<Rightarrow> db \<Rightarrow> ((usd list \<times> uuid list) \<times> db) outcome" where
  \<comment> \<open>the amounts and the decisions released, in order\<close>
  "overdue_loop sha tenant actor age now [] db = Inr (([], []), db)"
| "overdue_loop sha tenant actor age now (d # ds) db =
     (if \<not> claimable db tenant (dec_id d) then overdue_loop sha tenant actor age now ds db
      else
        let amount = quantize4 (dec_reserved_alloc d + dec_reserved_credit d)
        in and_then (settle_credit_reservations db tenant d 0 now) (\<lambda>(diags, db1).
           let d' = overdue_decision actor age amount diags now d;
               db2 = append_ledger sha d' (get_approval_by_decision db1 (dec_id d))
                       (update_decision (dec_id d) (overdue_decision actor age amount diags now) db1)
           in and_then (overdue_loop sha tenant actor age now ds db2) (\<lambda>((amounts, ids), db').
                Inr ((amount # amounts, dec_id d # ids), db'))))"

definition add_quantized :: "usd list \<Rightarrow> usd" where
  \<comment> \<open>\<open>total = quantize(total + released)\<close>\<close>
  "add_quantized xs = foldl (\<lambda>acc x. quantize4 (acc + x)) 0 xs"

definition reconcile_overdue ::
  "(string \<Rightarrow> string) \<Rightarrow> db \<Rightarrow> uuid \<Rightarrow> uuid \<Rightarrow> int \<Rightarrow> int \<Rightarrow> overdue_result outcome \<times> db" where
  "reconcile_overdue sha db tenant actor older_than limit =
     (let age = clamp 60 604800 older_than; n = clamp 1 1000 limit
      in case overdue_loop sha tenant actor age (db_now db) (overdue_rows db tenant age n) db of
           Inl e \<Rightarrow> (Inl e, db)
         | Inr ((amounts, ids), db') \<Rightarrow>
             if ids = [] then (Inr \<lparr>or_count = 0, or_total = 0, or_decisions = [], or_age = age\<rparr>, db)
             else (Inr \<lparr>or_count = int (length ids), or_total = add_quantized amounts, or_decisions = ids, or_age = age\<rparr>, db'))"

section \<open>Exceptions\<close>

definition list_active_reservations :: "db \<Rightarrow> uuid \<Rightarrow> int \<Rightarrow> decision list" where
  "list_active_reservations db tenant limit =
     take (nat (clamp 1 1000 limit))
       (order_by [dec_created] (filter (\<lambda>d. dec_tenant d = tenant \<and> dec_reservation_active d) (decisions db)))"

record drift_exception =
  de_decision :: decision
  de_expected :: usd
  de_actual :: usd
  de_drift :: usd
  de_status :: string
  de_at :: "time option"
  de_notes :: "string option"
  de_settlement :: "(string \<times> string) list list"

definition settlement_rows :: "pyval \<Rightarrow> (string \<times> string) list list" where
  "settlement_rows v =
     (case v of
        PList items \<Rightarrow> concat (map (\<lambda>i. case i of
           PDict kvs \<Rightarrow> [map (\<lambda>kv. (fst kv, py_str (snd kv))) (filter (\<lambda>kv. strip (fst kv) \<noteq> []) kvs)]
         | _ \<Rightarrow> []) items)
      | _ \<Rightarrow> [])"

definition drift_exception_of :: "decision \<Rightarrow> drift_exception option" where
  \<comment> \<open>one iteration; \<open>None\<close> is \<open>continue\<close>\<close>
  "drift_exception_of d =
     (case dget (dec_response d) ''reservation_reconciliation'' of
        PDict r \<Rightarrow>
          (let drift = money_field r ''drift_usd''; status = norm_key (str_or_empty (dget r ''status''))
           in if drift = 0 then None
              else Some \<lparr>de_decision = d, de_expected = money_field r ''expected_reserved_usd'',
                de_actual = money_field r ''actual_monthly_delta_usd'', de_drift = drift,
                de_status = (if status \<in> {''overage'', ''savings''} then status
                             else if 0 < drift then ''overage'' else ''savings''),
                de_at = parse_iso_datetime (dget r ''reconciled_at''), de_notes = stored_notes r,
                de_settlement = settlement_rows (dget r ''credit_settlement'')\<rparr>)
      | _ \<Rightarrow> None)"

definition reconciliation_exceptions :: "int \<Rightarrow> decision list \<Rightarrow> drift_exception list" where
  \<comment> \<open>the loop breaks once the limit, at least one, is reached\<close>
  "reconciliation_exceptions limit ds = take (nat limit) (List.map_filter drift_exception_of ds)"

definition list_reconciliation_exceptions :: "db \<Rightarrow> uuid \<Rightarrow> int \<Rightarrow> drift_exception list" where
  "list_reconciliation_exceptions db tenant limit =
     (let n = clamp 1 1000 limit; scan = clamp 100 5000 (n * 10)
      in reconciliation_exceptions n
           (take (nat scan) (order_by [\<lambda>d. - dec_created d]
             (filter (\<lambda>d. dec_tenant d = tenant \<and> \<not> dec_reservation_active d) (decisions db)))))"

section \<open>The sweep of a tenant\<close>

record sweep_settings =
  sw_age :: int
  sw_releases :: int
  sw_scan :: int
  sw_threshold :: usd
  sw_count :: int

definition normalized_settings :: "sweep_settings \<Rightarrow> sweep_settings" where
  "normalized_settings s = \<lparr>sw_age = clamp 60 604800 (sw_age s), sw_releases = clamp 1 1000 (sw_releases s),
     sw_scan = clamp 1 1000 (sw_scan s), sw_threshold = max 0 (sw_threshold s), sw_count = max 1 (sw_count s)\<rparr>"

record sweep_result =
  sr_overdue :: overdue_result
  sr_exceptions :: int
  sr_overage :: int
  sr_savings :: int
  sr_drift :: usd
  sr_alerts :: "string list"
  sr_severity :: string

definition drift_severity :: "sweep_settings \<Rightarrow> usd \<Rightarrow> int \<Rightarrow> string" where
  "drift_severity s drift n = (if sw_threshold s * 3 \<le> drift \<or> sw_count s * 2 \<le> n then ''error'' else ''warning'')"

definition system_actor :: uuid where
  "system_actor = 0"

definition run_sweep :: "(string \<Rightarrow> string) \<Rightarrow> sweep_settings \<Rightarrow> db \<Rightarrow> uuid \<Rightarrow> sweep_result outcome \<times> db" where
  \<comment> \<open>the alerts are the calls of the notification service, whose failures are swallowed\<close>
  "run_sweep sha settings db tenant =
     (let s = normalized_settings settings
      in case reconcile_overdue sha db tenant system_actor (sw_age s) (sw_releases s) of
           (Inl e, db') \<Rightarrow> (Inl e, db')
         | (Inr o', db') \<Rightarrow>
             (let xs = list_reconciliation_exceptions db' tenant (sw_scan s); n = int (length xs);
                  drift = total (\<lambda>x. \<bar>de_drift x\<bar>) xs
              in (Inr \<lparr>sr_overdue = o', sr_exceptions = n,
                   sr_overage = int (length (filter (\<lambda>x. 0 < de_drift x) xs)),
                   sr_savings = int (length (filter (\<lambda>x. de_drift x < 0) xs)), sr_drift = drift,
                   sr_alerts = (if 0 < or_count o' then [''sla_release''] else [])
                     @ (if sw_threshold s \<le> drift \<or> sw_count s \<le> n then [''drift_exception''] else []),
                   sr_severity = drift_severity s drift n\<rparr>, db')))"

end
