(* ===== verification/Flow_Guarantees.thy ===== *)
theory Flow_Guarantees
  imports Flow_Safety
begin

text \<open>
  The guarantees of approval tokens, on the lemmas of \<open>Flow_Safety\<close>: a token carries its bindings to the
  consumer, a fresh token can be redeemed, a redeemed one satisfied every binding, and a refused or expired
  request returns its credit.
\<close>

section \<open>A concrete request\<close>

definition sample_trace :: pydict where
  "sample_trace = default_routing_trace sample_policy sample_decision"

definition waiting_decision :: decision where
  "waiting_decision = sample_decision\<lparr>dec_decision := REQUIRE_APPROVAL, dec_fingerprint := replicate 64 CHR ''f''\<rparr>"

definition waiting_approval :: approval where
  "waiting_approval = sample_approval\<lparr>apr_trace := sample_trace, apr_expires := unix_epoch + seconds 1000\<rparr>"

definition sample_waiting :: "time \<Rightarrow> db" where
  "sample_waiting now = sample_held\<lparr>decisions := [waiting_decision], approvals := [waiting_approval], db_next := 50,
     db_now := now\<rparr>"

definition sample_token_env :: "pydict \<Rightarrow> token_env" where
  \<comment> \<open>a library that knows one payload\<close>
  "sample_token_env p = \<lparr>te_secret = replicate 32 CHR ''k'', te_fallbacks = [], te_api_url = [], te_kid = [],
     te_encode = (\<lambda>_ _ _. ''jwt''),
     te_decode = (\<lambda>now token key opt. if claims_accepted opt now p then Payload p else InvalidToken)\<rparr>"

definition sample_flow_env :: "pydict \<Rightarrow> flow_env" where
  "sample_flow_env p = \<lparr>fe_policy = sample_env, fe_token = sample_token_env p, fe_scim = empty_scim\<rparr>"

lemma sample_waiting_tables [simp]:
  "decisions (sample_waiting now) = [waiting_decision]" "approvals (sample_waiting now) = [waiting_approval]"
  "db_now (sample_waiting now) = now" "policies (sample_waiting now) = []"
  by (simp_all add: sample_waiting_def sample_held_def empty_db_def)

lemma waiting_simps [simp]:
  "dec_id waiting_decision = 5" "dec_tenant waiting_decision = 7" "dec_reserved_credit waiting_decision = 40"
  "dec_reserved_alloc waiting_decision = 0" "dec_reservation_active waiting_decision" "apr_id waiting_approval = 40"
  "apr_tenant waiting_approval = 7" "apr_decision waiting_approval = 5" "apr_status waiting_approval = PENDING"
  "apr_expires waiting_approval = unix_epoch + seconds 1000" "apr_trace waiting_approval = sample_trace"
  by (simp_all add: waiting_decision_def waiting_approval_def sample_decision_def sample_approval_def)

lemma sample_waiting_world: "world (sample_waiting now)"
proof -
  have "books (sample_waiting now)"
    by (rule books_cong [OF sample_held_books]) (simp_all add: sample_waiting_def sample_held_def)
  moreover have "on_grid 4 40" using q4.q_grid [of 40] by (simp add: sample_quantize)
  ultimately show ?thesis
    by (simp add: world_def policies_ok_def alloc_refs_def decisions_ok_def approvals_ok_def money_ok_def holds_ok_def
        due_hold_def)
      (simp add: sample_waiting_def sample_held_def sample_grant_def sample_alloc_def held_for_def empty_db_def)
qed

lemma sample_waiting_rows: "rows_ok (sample_waiting now)"
  by (simp add: rows_ok_def row_ok_def) (simp add: waiting_approval_def sample_approval_def)

lemma sample_load: "load_pending (sample_waiting now) 7 40 = Inr (waiting_approval, waiting_decision)"
  by (simp add: load_pending_def load_approval_with_decision_def assert_pending_def)

section \<open>Credit comes back\<close>

text \<open>C11: A request that is denied, or that is found expired, gives the whole hold of its decision back to the grants:
  nothing is spent, nothing stays on hold, and the decision reserves nothing any more. An expired request cannot be
  approved by anyone: the attempt answers with the conflict and closes the request.\<close>

theorem refused_request_returns_credit:
  assumes w: "world db" and l: "load_pending db t i = Inr (a, d)"
    and tidy: "dec_reservation_active d \<or> dec_reserved_credit d = 0"
  shows "(\<forall>r db'. deny_request env db t i u n = (Inr r, db') \<longrightarrow> given_back db db' d) \<and>
    (apr_expires a \<le> db_now db \<longrightarrow> (\<exists>db'. approve_request env db t i u n =
        (Inl (DomainError 409 ''Approval request has expired''), db') \<and> given_back db db' d \<and>
        (\<exists>b\<in>set (approvals db'). apr_id b = i \<and> apr_status b = EXPIRED)))"
proof (intro conjI allI impI)
  note p = load_pending_Inr [OF l]
  fix r db' assume "deny_request env db t i u n = (Inr r, db')"
  then have run: "deny_request env db t i u n = (Inr (fst r, snd r), db')" by simp
  then obtain d' where d': "d' \<in> set (decisions db)" "dec_id d' = dec_id (snd r)" "given_back db db' d'"
    using deny_request_ok [OF w run] by auto
  from run have "dec_id (snd r) = dec_id d"
    by (cases rule: deny_request_steps) (use l in \<open>auto simp: denied_decision_def\<close>)
  with d' decision_unique [OF worldD(4) [OF w] d'(1) p(5)] show "given_back db db' d" by simp
next
  note p = load_pending_Inr [OF l]
  assume late: "apr_expires a \<le> db_now db"
  have "\<exists>db'. expire_request env db t a d = Inr db'"
  proof (cases "dec_reserved_credit d = 0")
    case True
    then show ?thesis by (simp add: expire_request_def settle_credit_reservations_def Let_def)
  next
    case False
    with tidy decisions_okD(2) [OF worldD(4) [OF w] p(5)] have act: "dec_reservation_active d" "0 < dec_reserved_credit d"
      by (auto simp: money_ok_def)
    show ?thesis
      using settle_ok [OF worldD(2) [OF w] world_backed [OF w p(5) act(1)] act(2), of 0 "db_now db"] p(7)
      by (auto simp: expire_request_def)
  qed
  then obtain db' where run: "expire_request env db t a d = Inr db'" ..
  obtain diags db1 where "approvals db' = update_rows (\<lambda>x. apr_id x = apr_id a) (expired_row (db_now db)) (approvals db1)"
      "settle_credit_reservations db t d 0 (db_now db) = Inr (diags, db1)"
    using run by (auto simp: expire_request_def and_then_Inr)
  moreover have "approvals db1 = approvals db"
    using close_decision [OF w p(5), of "db_now db" diags db1 released "[]"] calculation(2) p(7) by (simp add: add_response_def)
  ultimately have "expired_row (db_now db) a \<in> set (approvals db')"
    using update_rowsI [OF p(1), of "\<lambda>x. apr_id x = apr_id a" "expired_row (db_now db)"] by simp
  moreover have "apr_id (expired_row (db_now db) a) = i" "apr_status (expired_row (db_now db) a) = EXPIRED"
    using p(2) by (simp_all add: expired_row_def)
  ultimately show "\<exists>db'. approve_request env db t i u n = (Inl (DomainError 409 ''Approval request has expired''), db') \<and>
      given_back db db' d \<and> (\<exists>b\<in>set (approvals db'). apr_id b = i \<and> apr_status b = EXPIRED)"
    using l late run expire_request_ok [OF w l run] by (auto simp: approve_request_def)
qed

theorem refused_request_returns_credit_witness:
  "\<exists>db'. approve_request (sample_flow_env []) (sample_waiting (unix_epoch + seconds 2000)) 7 40 sample_owner None =
     (Inl (DomainError 409 ''Approval request has expired''), db') \<and>
     given_back (sample_waiting (unix_epoch + seconds 2000)) db' waiting_decision"
  using refused_request_returns_credit [where env = "sample_flow_env []" and u = sample_owner and n = None,
      OF sample_waiting_world [of "unix_epoch + seconds 2000"] sample_load]
  by auto

section \<open>What a redeemed token satisfied\<close>

definition bound_to :: "token_context \<Rightarrow> decision \<Rightarrow> bool" where
  "bound_to tc d = (tc_decision tc = dec_id d \<and> tc_source tc = dec_source d \<and> tc_project tc = dec_project d \<and>
     normalize_environment (tc_environment tc) = normalize_environment (dec_environment d) \<and>
     tc_fingerprint tc = dec_fingerprint d \<and> tc_resource tc = dec_resource d \<and>
     quantize4 (tc_monthly tc) = quantize4 (dec_monthly d) \<and> quantize6 (tc_hourly tc) = quantize6 (dec_hourly d))"

definition meets :: "expectations \<Rightarrow> decision \<Rightarrow> bool" where
  "meets x d = ((\<forall>s. xp_source x = Some s \<longrightarrow> s = dec_source d) \<and>
     (\<forall>s. xp_project x = Some s \<longrightarrow> strip s = strip (dec_project d)) \<and>
     (\<forall>s. xp_environment x = Some s \<longrightarrow> normalize_environment s = normalize_environment (dec_environment d)) \<and>
     (\<forall>s. xp_fingerprint x = Some s \<longrightarrow> strip s = dec_fingerprint d) \<and>
     (\<forall>s. xp_resource x = Some s \<longrightarrow> strip s = dec_resource d))"

lemma binding_checks_iff: "dec_id d = tc_decision tc \<Longrightarrow> (\<forall>c\<in>set (binding_checks tc d). \<not> fst c) = bound_to tc d"
  by (auto simp: binding_checks_def bound_to_def)

lemma expected_checks_iff: "(\<forall>c\<in>set (expected_checks x d). \<not> fst c) = meets x d"
  by (auto simp: expected_checks_def meets_def differs_def split: option.splits)

definition redeemable :: "string \<Rightarrow> time \<Rightarrow> token_context \<Rightarrow> approval \<Rightarrow> decision \<Rightarrow> bool" where
  \<comment> \<open>an approved request whose token has this hash, is not late and has not been used\<close>
  "redeemable token_hash now tc a d = (apr_status a = APPROVED \<and> apr_token_hash a = Some token_hash \<and> token_hash \<noteq> [] \<and>
     apr_token_consumed a = None \<and> now < effective_expiry tc a d)"

lemma state_checks_iff:
  "(\<forall>c\<in>set (state_checks h now tc a d). \<not> fst c) \<longleftrightarrow> dec_id d = tc_decision tc \<and> apr_status a = APPROVED \<and>
     apr_token_hash a = Some h \<and> h \<noteq> [] \<and> now < effective_expiry tc a d"
  by (auto simp: state_checks_def split: option.splits)

lemma consume_intro:
  assumes w: "world db" and t: "strip token \<noteq> []" "token_context_of env db (strip token) = Inr tc" "tc_tenant tc = t"
    and l: "load_approval_with_decision db t (tc_approval tc) = Inr (a, d)"
    and ok: "redeemable (flow_sha env (strip token)) (db_now db) tc a d" "bound_to tc d" "meets x d"
  shows "\<exists>db'. consume_token env db t token actor x =
    (Inr (consumed_row (db_now db) a, consumed_decision (db_now db) actor d), db')"
proof -
  note p = load_Inr [OF l]
  have "filter (\<lambda>x. apr_id x = apr_id a \<and> apr_tenant x = t \<and> apr_token_consumed x = None) (approvals db) = [a]"
    using worldD(5) [OF w] p ok(1) by (intro one_row [where k = apr_id]) (auto simp: approvals_ok_def redeemable_def)
  moreover have "reject_if (state_checks (flow_sha env (strip token)) (db_now db) tc a d @ binding_checks tc d @ expected_checks x d) = Inr ()"
    using ok state_checks_iff [of "flow_sha env (strip token)" "db_now db" tc a d] binding_checks_iff [of d tc]
      expected_checks_iff [of x d]
    by (auto simp: reject_if_Inr ball_Un redeemable_def bound_to_def)
  ultimately show ?thesis
    using t l by (simp add: consume_token_def mark_consumed_def Let_def)
qed

text \<open>C9: A token is redeemed only if its hash is the one stored with an approved, unconsumed and unexpired request of the
  caller's tenant, if source, project, environment, fingerprint, resource and both costs of its payload are those of the
  decision, and if the decision meets everything the caller expects. Redeeming writes the consumption time to that
  request and its decision's response, and nothing else in the database.\<close>

theorem redeemed_token_was_bound:
  assumes w: "world db" and run: "consume_token env db t token actor x = (Inr (a', d'), db')"
  shows "\<exists>tc a d. token_context_of env db (strip token) = Inr tc \<and> tc_tenant tc = t \<and>
    a \<in> set (approvals db) \<and> apr_tenant a = t \<and> apr_id a = tc_approval tc \<and>
    d \<in> set (decisions db) \<and> dec_id d = apr_decision a \<and>
    redeemable (flow_sha env (strip token)) (db_now db) tc a d \<and> bound_to tc d \<and> meets x d \<and>
    a' = consumed_row (db_now db) a \<and> d' = consumed_decision (db_now db) actor d \<and>
    db' = db\<lparr>approvals := update_rows (\<lambda>r. r = a) (consumed_row (db_now db)) (approvals db),
            decisions := update_rows (\<lambda>e. e = d) (consumed_decision (db_now db) actor) (decisions db)\<rparr>"
  using run
proof (cases rule: consume_token_steps)
  case (1 tc a d)
  note p = load_Inr [OF 1(4)] and m = mark_consumed_steps [OF w 1(4,8)]
  have only_a: "(apr_id r = tc_approval tc \<and> apr_tenant r = t \<and> apr_token_consumed r = None) = (r = a)"
    if "r \<in> set (approvals db)" for r
    using approval_unique [OF worldD(5) [OF w] that p(1)] p m(1) by auto
  have only_d: "(dec_id e = dec_id d) = (e = d)" if "e \<in> set (decisions db)" for e
    using decision_unique [OF worldD(4) [OF w] that p(4)] by auto
  have "approvals db' = update_rows (\<lambda>r. r = a) (consumed_row (db_now db)) (approvals db)"
    unfolding m(5) update_rows_def using only_a by simp
  moreover have "decisions db' = update_rows (\<lambda>e. e = d) (consumed_decision (db_now db) actor) (decisions db)"
    unfolding m(6) update_rows_def using only_d by simp
  ultimately have db': "db' = db\<lparr>approvals := update_rows (\<lambda>r. r = a) (consumed_row (db_now db)) (approvals db),
            decisions := update_rows (\<lambda>e. e = d) (consumed_decision (db_now db) actor) (decisions db)\<rparr>"
    using m(7) by simp
  have id: "dec_id d = tc_decision tc" using 1(5) by (simp add: state_checks_def)
  have "redeemable (flow_sha env (strip token)) (db_now db) tc a d"
    using 1(5) m(1) unfolding state_checks_iff redeemable_def by simp
  moreover have "bound_to tc d" "meets x d"
    using 1(6,7) binding_checks_iff [OF id] expected_checks_iff by blast+
  ultimately show ?thesis using 1(2,3) p m(2,3) db' by blast
qed

section \<open>A fresh token\<close>

definition fresh_token :: "token_env \<Rightarrow> decision \<Rightarrow> approval \<Rightarrow> time \<Rightarrow> time \<Rightarrow> time \<Rightarrow> bool" where
  \<comment> \<open>issued at \<open>issued\<close>, not expired at \<open>now\<close>, for rows a token can carry, by a library that verifies what it signs\<close>
  "fresh_token env d a expires issued now = (tokenable d a \<and> jwt_accepts env (token_payload env d a expires issued) \<and>
     unix_epoch \<le> issued \<and> issued \<le> now \<and> now < unix_epoch + seconds (timestamp_int expires) \<and>
     issued < seconds (3652059 * 86400) \<and> unix_epoch \<le> expires \<and> expires < seconds (3652059 * 86400))"

text \<open>C14: What a token was issued for is what its bearer is checked against: decoding and extracting a fresh token gives
  back the approval, decision and tenant, the source, the costs, the stripped texts, and the expiry in whole seconds.\<close>

theorem token_roundtrip:
  assumes "fresh_token env d a expires issued now" "build_approval_token env d a expires issued = Inr token"
  shows "and_then (decode_approval_token env now token) extract_token_context = Inr (bound_context d a expires)"
  using assms decode_own_token [OF _ assms(2)] extract_payload [of d a expires env issued]
  by (simp add: fresh_token_def)

lemma sample_grids [simp]: "on_grid 4 40" "on_grid 6 0"
  using q4.q_grid [of 40] by (simp_all add: sample_quantize)

lemma waiting_tokenable: "tokenable waiting_decision waiting_approval"
proof -
  have "strip (replicate 64 CHR ''f'') = replicate 64 CHR ''f''" "strip ''r'' = ''r''" "strip ''p'' = ''p''"
    by (rule strip_no_space, auto simp: is_space_def Let_def)+
  then show ?thesis
    by (simp add: tokenable_def) (simp add: waiting_decision_def sample_decision_def)
qed

lemma sample_fresh:
  assumes "unix_epoch \<le> issued" "issued \<le> now" "now < unix_epoch + seconds (timestamp_int expires)"
    "expires < seconds (3652059 * 86400)" "now \<le> expires"
  shows "fresh_token (sample_token_env (token_payload (sample_token_env []) waiting_decision waiting_approval expires issued))
    waiting_decision waiting_approval expires issued now"
proof -
  have "jwt_accepts (sample_token_env p) p" for p
    by (simp add: jwt_accepts_def sample_token_env_def)
  moreover have "token_payload (sample_token_env q) d a e j = token_payload (sample_token_env []) d a e j" for q d a e j
    by (simp add: token_payload_def sample_token_env_def)
  ultimately have "jwt_accepts (sample_token_env (token_payload (sample_token_env []) waiting_decision waiting_approval expires issued))
      (token_payload (sample_token_env (token_payload (sample_token_env []) waiting_decision waiting_approval expires issued))
        waiting_decision waiting_approval expires issued)" by metis
  then show ?thesis using assms waiting_tokenable by (simp add: fresh_token_def)
qed

lemma sample_builds: "build_approval_token (sample_token_env p) d a e j = Inr ''jwt''"
proof -
  have "strip (replicate 32 CHR ''k'') = replicate 32 CHR ''k''"
    by (rule strip_no_space) (simp add: is_space_def Let_def)
  then show ?thesis by (simp add: build_approval_token_def signing_key_def sample_token_env_def)
qed

theorem token_roundtrip_witness:
  "\<exists>env. and_then (decode_approval_token env (unix_epoch + seconds 20) ''jwt'') extract_token_context =
     Inr (bound_context waiting_decision waiting_approval (unix_epoch + seconds 900))"
  by (intro exI, rule token_roundtrip [OF sample_fresh [where issued = "unix_epoch + seconds 10"] sample_builds])
    (simp_all add: timestamp_int_def unix_epoch_def seconds_def)

text \<open>C13: An approval is worth something: the token that a successful approval hands out is redeemed by its tenant at any
  time before it expires, provided the JWT library verifies what it signed and the bound texts of the decision have no
  surrounding blanks.\<close>

theorem approved_token_redeemable:
  assumes w: "world db" "rows_ok db" and run: "approve_request env db t i u n = (Inr g, db1)"
    and fresh: "fresh_token (fe_token env) (ag_decision g) (ag_approval g) (ag_expires g) (db_now db) later"
    and plain: "strip (dec_project (ag_decision g)) = dec_project (ag_decision g)"
      "strip (dec_fingerprint (ag_decision g)) = dec_fingerprint (ag_decision g)"
      "strip (dec_resource (ag_decision g)) = dec_resource (ag_decision g)"
    and token: "ag_token g \<noteq> []" "strip (ag_token g) = ag_token g" "flow_sha env (ag_token g) \<noteq> []"
  shows "\<exists>a d db2. consume_token env (db1\<lparr>db_now := later\<rparr>) t (ag_token g) actor no_expectations = (Inr (a, d), db2) \<and>
    apr_id a = i \<and> apr_token_consumed a = Some later"
  using w(1) run
proof (cases rule: approve_granted)
  case (1 a d)
  let ?db = "db1\<lparr>db_now := later\<rparr>" and ?A = "ag_approval g" and ?D = "ag_decision g"
  have "world db1" using approve_request_ok [OF w(1) run] ..
  then have w1: "world ?db"
    by (rule world_cong) (use policies_ok_cong [of db1 ?db] worldD(1) [OF \<open>world db1\<close>] in auto)
  have none: "apr_token_consumed ?A = None" using 1(13-15) w(2) by (simp add: rows_ok_def row_ok_def)
  let ?tc = "bound_context ?D ?A (ag_expires g)"
  have tc: "token_context_of env ?db (strip (ag_token g)) = Inr ?tc"
    using token_roundtrip [OF fresh 1(17)] token(2) by (simp add: token_context_of_def)
  have "later < ag_expires g"
    using fresh timestamp_bounds(1) [of "ag_expires g"] by (simp add: fresh_token_def)
  then have ok: "redeemable (flow_sha env (strip (ag_token g))) (db_now ?db) ?tc ?A ?D"
    using 1(10-12) none token by (simp add: redeemable_def effective_expiry_def)
  have env: "normalize_environment (strip s) = normalize_environment s" for s
    by (simp add: normalize_environment_def norm_key_def)
  have bound: "bound_to ?tc ?D" using plain by (simp add: bound_to_def bound_context_def env)
  have "load_approval_with_decision ?db (apr_tenant ?A) (apr_id ?A) = Inr (?A, ?D)"
    using 1(2,3,5-9) by (intro load_found [OF w1]) simp_all
  then have l: "load_approval_with_decision ?db t (tc_approval ?tc) = Inr (?A, ?D)"
    using 1(7,8) by (simp add: bound_context_def)
  have "meets no_expectations ?D" by (simp add: meets_def no_expectations_def)
  moreover have "tc_tenant ?tc = t" using 1(6) by (simp add: bound_context_def)
  ultimately obtain db2 where "consume_token env ?db t (ag_token g) actor no_expectations =
      (Inr (consumed_row later ?A, consumed_decision later actor ?D), db2)"
    using consume_intro [OF w1 _ tc _ l ok bound] token by auto
  then show ?thesis using 1(7) by (auto simp: consumed_row_def)
qed

lemma trace_independent:
  assumes "trace_ok (apr_trace a)" "strip (str_or_empty (dget (apr_trace a) ''rule_id'')) \<noteq> []"
  shows "routing_trace_or_default p d a = routing_trace_or_default q d a"
  using assms by (auto simp: routing_trace_or_default_def trace_ok_def Let_def split: pyval.splits option.splits)

lemma sample_authority:
  "\<exists>trace. enforce_reviewer_authority empty_scim p waiting_approval waiting_decision sample_owner True =
     Inr (trace, adopt_trace trace waiting_approval)"
proof -
  have "strip (str_or_empty (dget sample_trace ''rule_id'')) \<noteq> []" by code_simp
  then have "routing_trace_or_default p waiting_decision waiting_approval = routing_trace_or_default sample_policy waiting_decision waiting_approval"
    by (intro trace_independent) (simp_all add: sample_trace_def default_trace_ok)
  moreover have "ok (enforce_reviewer_authority empty_scim sample_policy waiting_approval waiting_decision sample_owner True)"
    by code_simp
  ultimately have "ok (enforce_reviewer_authority empty_scim p waiting_approval waiting_decision sample_owner True)"
    by (simp add: enforce_reviewer_authority_def)
  then obtain x where x: "enforce_reviewer_authority empty_scim p waiting_approval waiting_decision sample_owner True = Inr x"
    by (auto simp: ok_def split: sum.splits)
  then show ?thesis using enforce_authority_Inr [of empty_scim p waiting_approval waiting_decision sample_owner True "fst x" "snd x"]
    by (cases x) auto
qed

lemma sample_approves:
  assumes "now < unix_epoch + seconds 1000"
  obtains env g db1 where "approve_request env (sample_waiting now) 7 40 sample_owner None = (Inr g, db1)"
    "\<exists>p. env = sample_flow_env (token_payload (sample_token_env []) waiting_decision waiting_approval (ag_expires g) now)"
    "ag_token g = ''jwt''" "now + seconds 60 \<le> ag_expires g" "ag_expires g \<le> now + seconds 86400"
    "\<exists>u i tr x y h tr'. ag_decision g = approved_decision now u i tr x waiting_decision \<and>
       ag_approval g = approved_row now u y h x (adopt_trace tr' waiting_approval)"
proof -
  obtain p db0 where p: "get_or_create_policy sample_env (sample_waiting now) 7 = Inr (p, db0)"
    using sample_creates [of "sample_waiting now"] by auto
  define env where "env = sample_flow_env (token_payload (sample_token_env []) waiting_decision waiting_approval
      (now + seconds (policy_ttl p)) now)"
  obtain trace where "enforce_reviewer_authority empty_scim p waiting_approval waiting_decision sample_owner True =
     Inr (trace, adopt_trace trace waiting_approval)" using sample_authority by blast
  then obtain g db1 where gr: "grant_request env (sample_waiting now) 7 waiting_approval waiting_decision sample_owner None = Inr (g, db1)"
    and g: "ag_token g = ''jwt''" "ag_expires g = now + seconds (policy_ttl p)"
    using p by (auto simp: grant_request_def env_def sample_flow_env_def sample_builds Let_def)
  have "60 \<le> policy_ttl p" "policy_ttl p \<le> 86400"
    using clamp_bounds [of 60 86400 "pol_ttl p"] by (simp_all add: policy_ttl_def)
  moreover have "approve_request env (sample_waiting now) 7 40 sample_owner None = (Inr g, db1)"
    using sample_load [of now] gr assms by (simp add: approve_request_def)
  moreover have "\<exists>u i tr x y h tr'. ag_decision g = approved_decision now u i tr x waiting_decision \<and>
       ag_approval g = approved_row now u y h x (adopt_trace tr' waiting_approval)"
    using gr by (cases rule: grant_request_steps) fastforce
  ultimately show thesis
    using g by (intro that [of env g db1]) (auto simp: env_def)
qed

lemma fresh_cong:
  assumes "fresh_token env d a x j now" "dec_tenant e = dec_tenant d" "dec_project e = dec_project d" "dec_id e = dec_id d"
    "dec_source e = dec_source d" "dec_environment e = dec_environment d" "dec_fingerprint e = dec_fingerprint d"
    "dec_monthly e = dec_monthly d" "dec_hourly e = dec_hourly d" "dec_resource e = dec_resource d" "apr_id b = apr_id a"
  shows "fresh_token env e b x j now"
  using assms payload_cong [of e d b a env x j] by (simp add: fresh_token_def tokenable_def)

theorem approved_token_redeemable_witness:
  "\<exists>env g db1 a d db2. approve_request env (sample_waiting (unix_epoch + seconds 10)) 7 40 sample_owner None = (Inr g, db1) \<and>
     consume_token env (db1\<lparr>db_now := unix_epoch + seconds 20\<rparr>) 7 (ag_token g) None no_expectations = (Inr (a, d), db2)"
proof -
  let ?now = "unix_epoch + seconds 10" and ?later = "unix_epoch + seconds 20"
  have "?now < unix_epoch + seconds 1000" by simp
  then obtain env g db1 where run: "approve_request env (sample_waiting ?now) 7 40 sample_owner None = (Inr g, db1)"
    and env: "env = sample_flow_env (token_payload (sample_token_env []) waiting_decision waiting_approval (ag_expires g) ?now)"
    and tok: "ag_token g = ''jwt''" and x: "?now + seconds 60 \<le> ag_expires g" "ag_expires g \<le> ?now + seconds 86400"
    and rows: "\<exists>u i tr x y h tr'. ag_decision g = approved_decision ?now u i tr x waiting_decision \<and>
       ag_approval g = approved_row ?now u y h x (adopt_trace tr' waiting_approval)"
    by (rule sample_approves) metis
  have "ag_expires g < seconds (3652059 * 86400)" "?later < unix_epoch + seconds (timestamp_int (ag_expires g))"
      "?later \<le> ag_expires g"
    using x by (auto simp: timestamp_int_def seconds_def unix_epoch_def)
  then have "fresh_token (fe_token env) waiting_decision waiting_approval (ag_expires g) ?now ?later"
    using sample_fresh [of ?now ?later "ag_expires g"] x by (simp add: env sample_flow_env_def)
  then have fresh: "fresh_token (fe_token env) (ag_decision g) (ag_approval g) (ag_expires g) ?now ?later"
    by (rule fresh_cong) (use rows in \<open>auto simp: approved_fields approved_row_def\<close>)
  have plain: "strip (replicate 64 CHR ''f'') = replicate 64 CHR ''f''" "strip ''r'' = ''r''" "strip ''p'' = ''p''"
      "strip ''jwt'' = ''jwt''"
    by (rule strip_no_space, auto simp: is_space_def Let_def)+
  have texts: "strip (dec_project (ag_decision g)) = dec_project (ag_decision g)"
      "strip (dec_fingerprint (ag_decision g)) = dec_fingerprint (ag_decision g)"
      "strip (dec_resource (ag_decision g)) = dec_resource (ag_decision g)"
    using rows plain by (auto simp: approved_fields) (simp_all add: waiting_decision_def sample_decision_def)
  have "flow_sha env (ag_token g) \<noteq> []" by (simp add: env sample_flow_env_def sample_env_def)
  from approved_token_redeemable [OF sample_waiting_world sample_waiting_rows run _ texts _ _ this, of ?later None] fresh tok plain
  show ?thesis using run by fastforce
qed

lemma sample_redeem:
  obtains p db a d db' where "consume_token (sample_flow_env p) db 7 ''jwt'' None no_expectations = (Inr (a, d), db')"
    "world db" "rows_ok db" "actions db = []" "grants db = grants sample_held" "db_next db = 50"
proof -
  define issued later expires where times: "issued = unix_epoch + seconds 10" "later = unix_epoch + seconds 20"
    "expires = unix_epoch + seconds 900"
  define p where "p = token_payload (sample_token_env []) waiting_decision waiting_approval expires issued"
  define approved where "approved = approved_row issued 30 None (replicate 64 CHR ''a'') expires waiting_approval"
  define db where "db = (sample_waiting later)\<lparr>approvals := [approved]\<rparr>"
  have w: "world db"
    using world_update_approval [OF sample_waiting_world [of later], of "\<lambda>_. True"
        "approved_row issued 30 None (replicate 64 CHR ''a'') expires"]
    by (simp add: db_def approved_def) (simp add: approved_row_def)
  have "fresh_token (sample_token_env p) waiting_decision waiting_approval expires issued later"
    unfolding p_def by (rule sample_fresh) (simp_all add: times timestamp_int_def seconds_def unix_epoch_def)
  then have "token_context_of (sample_flow_env p) db ''jwt'' = Inr (bound_context waiting_decision waiting_approval expires)"
    using decode_own_token [OF _ sample_builds, of p waiting_decision waiting_approval expires issued later]
      extract_payload [of waiting_decision waiting_approval expires "sample_token_env p" issued]
    by (simp add: token_context_of_def sample_flow_env_def fresh_token_def db_def)
  moreover have plain: "strip (replicate 64 CHR ''f'') = replicate 64 CHR ''f''" "strip ''r'' = ''r''" "strip ''p'' = ''p''"
      "strip ''jwt'' = ''jwt''"
    by (rule strip_no_space, auto simp: is_space_def Let_def)+
  moreover have "normalize_environment (strip s) = normalize_environment s" for s
    by (simp add: normalize_environment_def norm_key_def)
  with plain have "bound_to (bound_context waiting_decision waiting_approval expires) waiting_decision"
    by (simp add: bound_to_def bound_context_def) (simp add: waiting_decision_def sample_decision_def)
  moreover have "load_approval_with_decision db 7 40 = Inr (approved, waiting_decision)"
    by (simp add: load_approval_with_decision_def db_def approved_def approved_row_def)
  moreover have "redeemable (flow_sha (sample_flow_env p) ''jwt'') (db_now db) (bound_context waiting_decision waiting_approval expires)
      approved waiting_decision"
    by (simp add: redeemable_def approved_def approved_row_def effective_expiry_def sample_flow_env_def sample_env_def
        db_def times) (simp add: waiting_approval_def sample_approval_def)
  moreover have "meets no_expectations waiting_decision" by (simp add: meets_def no_expectations_def)
  ultimately obtain a d db' where run: "consume_token (sample_flow_env p) db 7 ''jwt'' None no_expectations = (Inr (a, d), db')"
    using consume_intro [OF w, of "''jwt''" "sample_flow_env p" "bound_context waiting_decision waiting_approval expires" 7
        approved waiting_decision no_expectations None]
    by (auto simp: bound_context_def)
  moreover have "rows_ok db" "actions db = []" "grants db = grants sample_held" "db_next db = 50"
    by (simp_all add: db_def approved_def approved_row_def rows_ok_def row_ok_def sample_waiting_def sample_held_def empty_db_def)
  ultimately show thesis using w that by blast
qed

theorem redeemed_token_was_bound_witness:
  "\<exists>env db a d db'. consume_token env db 7 ''jwt'' None no_expectations = (Inr (a, d), db') \<and> meets no_expectations d"
proof -
  obtain p db a d db' where "consume_token (sample_flow_env p) db 7 ''jwt'' None no_expectations = (Inr (a, d), db')" "world db"
    by (rule sample_redeem)
  then show ?thesis using redeemed_token_was_bound by (force simp: meets_def no_expectations_def)
qed

end
