(* ===== verification/Reconciliation_Safety.thy ===== *)
theory Reconciliation_Safety
  imports Reconciliation Flow_Guarantees
begin

text \<open>
  What reconciliation guarantees: a reservation is settled exactly and once, a repetition is answered from the
  stored result, and the sweep releases every overdue reservation it looked at.
\<close>

section \<open>Closing a decision\<close>

lemma closed_simps [simp]:
  "dec_id (closed_reservation rs k v d) = dec_id d" "key_of (closed_reservation rs k v d) = key_of d"
  "money_ok (closed_reservation rs k v d)" "due_hold (closed_reservation rs k v d) = 0"
  "\<not> dec_reservation_active (closed_reservation rs k v d)" "dec_reserved_alloc (closed_reservation rs k v d) = 0"
  "dec_reserved_credit (closed_reservation rs k v d) = 0" "dec_tenant (closed_reservation rs k v d) = dec_tenant d"
  "dget (dec_response (closed_reservation rs k v d)) k = v"
  by (simp_all add: closed_reservation_def released_def add_response_def key_of_def money_ok_def due_hold_def)

lemma written_over_simps [simp]:
  "dec_id (written_over d row) = dec_id row" "key_of (written_over d row) = key_of row"
  "dec_tenant (written_over d row) = dec_tenant row" "dec_reservation_active (written_over d row) = dec_reservation_active d"
  "dec_reserved_alloc (written_over d row) = dec_reserved_alloc d" "dec_reserved_credit (written_over d row) = dec_reserved_credit d"
  "money_ok (written_over d row) = money_ok d" "due_hold (written_over d row) = due_hold d"
  by (simp_all add: written_over_def key_of_def money_ok_def due_hold_def)

lemma claimable_iff:
  assumes "world db"
  shows "claimable db t i \<longleftrightarrow> (\<exists>d\<in>set (decisions db). dec_id d = i \<and> dec_tenant d = t \<and> dec_reservation_active d)"
proof
  assume "claimable db t i"
  then have "filter (\<lambda>d. dec_id d = i \<and> dec_tenant d = t \<and> dec_reservation_active d) (decisions db) \<noteq> []"
    by (auto simp: claimable_def)
  then show "\<exists>d\<in>set (decisions db). dec_id d = i \<and> dec_tenant d = t \<and> dec_reservation_active d"
    by (auto simp: filter_empty_conv)
next
  assume "\<exists>d\<in>set (decisions db). dec_id d = i \<and> dec_tenant d = t \<and> dec_reservation_active d"
  then obtain d where d: "d \<in> set (decisions db)" "dec_id d = i \<and> dec_tenant d = t \<and> dec_reservation_active d" by blast
  have "distinct (map dec_id (decisions db))" using worldD(4) [OF assms] by (simp add: decisions_ok_def)
  from one_row [OF this d(1), of "\<lambda>d. dec_id d = i \<and> dec_tenant d = t \<and> dec_reservation_active d"] d(2)
  show "claimable db t i" by (simp add: claimable_def)
qed

definition spends :: "db \<Rightarrow> db \<Rightarrow> uuid \<Rightarrow> uuid \<Rightarrow> usd \<Rightarrow> usd \<Rightarrow> bool" where
  \<comment> \<open>of the credit on hold for the decision \<open>c\<close> is used up, \<open>r\<close> is back in the grants, and nothing is left\<close>
  "spends db db' t i c r = (used_up db' = used_up db + c \<and> available db' = available db + r \<and>
     on_hold db' = on_hold db - (c + r) \<and> total (held_for t i) (allocs db') = 0)"

lemma spends_cong: "spends db db1 t i c r \<Longrightarrow> grants db2 = grants db1 \<Longrightarrow> allocs db2 = allocs db1 \<Longrightarrow> spends db db2 t i c r"
  by (simp add: spends_def used_up_def available_def on_hold_def)

lemma settle_active:
  assumes w: "world db" and d: "d \<in> set (decisions db)" "dec_reservation_active d"
    and e: "dec_id e = dec_id d" "dec_reserved_credit e = dec_reserved_credit d"
  obtains diags db1 where "settle_credit_reservations db (dec_tenant d) e consumed now = Inr (diags, db1)"
    "\<forall>f. dec_id (f d) = dec_id d \<and> key_of (f d) = key_of d \<and> money_ok (f d) \<and> due_hold (f d) = 0 \<longrightarrow>
       world (update_decision (dec_id d) f db1)" "credit_frame db db1"
    "spends db db1 (dec_tenant d) (dec_id d) (bounded_consumption d consumed) (dec_reserved_credit d - bounded_consumption d consumed)"
proof -
  have same: "settle_credit_reservations db (dec_tenant d) e consumed now = settle_credit_reservations db (dec_tenant d) d consumed now"
    unfolding settle_credit_reservations_def e ..
  have m: "on_grid 4 (dec_reserved_credit d)" "0 \<le> dec_reserved_credit d"
    using decisions_okD(2) [OF worldD(4) [OF w] d(1)] by (simp_all add: money_ok_def)
  obtain diags db1 where run: "settle_credit_reservations db (dec_tenant d) d consumed now = Inr (diags, db1)"
  proof (cases "dec_reserved_credit d = 0")
    case True
    then show thesis by (intro that [of "[]" db]) (simp add: settle_credit_reservations_def Let_def)
  next
    case False
    with m settle_ok [OF worldD(2) [OF w] world_backed [OF w d], of consumed now] show thesis by (auto intro: that)
  qed
  obtain c r where s: "settled db db1 (dec_tenant d) (dec_id d) c r" "c + r = due_hold d" "0 \<le> c" "0 \<le> r"
      "map alloc_keys (allocs db1) = map alloc_keys (allocs db)"
      "dec_reservation_active d \<longrightarrow> c = bounded_consumption d consumed"
    by (rule settle_world [OF w d(1) run])
  have "\<forall>f. dec_id (f d) = dec_id d \<and> key_of (f d) = key_of d \<and> money_ok (f d) \<and> due_hold (f d) = 0 \<longrightarrow>
       world (update_decision (dec_id d) f db1)"
    using world_settle_decision [OF w d(1) s(1,2,5)] by (simp add: update_decision_def)
  moreover have "total (held_for (dec_tenant d) (dec_id d)) (allocs db) = due_hold d"
    using decisions_okD(3) [OF worldD(4) [OF w] d(1)] by (simp add: holds_ok_def)
  then have "spends db db1 (dec_tenant d) (dec_id d) (bounded_consumption d consumed)
      (dec_reserved_credit d - bounded_consumption d consumed)"
    using s d(2) by (auto simp: spends_def settled_def due_hold_def)
  moreover have "credit_frame db db1" using s(1) by (simp add: settled_def)
  ultimately show thesis using that [of diags db1] run same by simp
qed

section \<open>One reconciliation\<close>

lemma plan_exact:
  assumes "money_ok d" "on_grid 4 actual" "0 \<le> actual"
  shows "rp_consumed (plan_reconciliation d actual) = min (dec_reserved_credit d) (max 0 (actual - dec_reserved_alloc d))"
    "rp_total (plan_reconciliation d actual) = dec_reserved_alloc d + dec_reserved_credit d"
    "rp_drift (plan_reconciliation d actual) = actual - (dec_reserved_alloc d + dec_reserved_credit d)"
proof -
  have g: "on_grid 4 (dec_reserved_alloc d)" "on_grid 4 (dec_reserved_credit d)" using assms(1) by (simp_all add: money_ok_def)
  note q = q4.closed g assms(2)
  show "rp_consumed (plan_reconciliation d actual) = min (dec_reserved_credit d) (max 0 (actual - dec_reserved_alloc d))"
    "rp_total (plan_reconciliation d actual) = dec_reserved_alloc d + dec_reserved_credit d"
    "rp_drift (plan_reconciliation d actual) = actual - (dec_reserved_alloc d + dec_reserved_credit d)"
    using g assms(2) by (simp_all add: plan_reconciliation_def Let_def q)
qed

lemma settle_reconciliation_ok:
  assumes w: "world db" and row: "row \<in> set (decisions db)" "dec_reservation_active row" "dec_id row = i" "dec_tenant row = t"
    and d: "dec_id d = i" "dec_reserved_credit d = dec_reserved_credit row" "dec_reserved_alloc d = dec_reserved_alloc row"
    and a: "on_grid 4 actual" "0 \<le> actual"
  shows "\<exists>r db'. settle_reconciliation sha db t d actor actual notes key = Inr (r, db') \<and> world db' \<and>
    rr_actual r = actual \<and> rr_released r = dec_reserved_alloc d + dec_reserved_credit d \<and>
    rr_drift r = actual - (dec_reserved_alloc d + dec_reserved_credit d) \<and> rr_status r = drift_status (rr_drift r) \<and>
    spends db db' t i (min (dec_reserved_credit d) (max 0 (actual - dec_reserved_alloc d)))
      (dec_reserved_credit d - min (dec_reserved_credit d) (max 0 (actual - dec_reserved_alloc d))) \<and>
    written_over (rr_decision r) row \<in> set (decisions db') \<and> dec_reserved_alloc (rr_decision r) = 0 \<and>
    dec_reserved_credit (rr_decision r) = 0 \<and> \<not> dec_reservation_active (rr_decision r)"
proof -
  have m: "money_ok row" using decisions_okD(2) [OF worldD(4) [OF w] row(1)] .
  then have md: "money_ok d" using d row(2) by (simp add: money_ok_def)
  let ?plan = "plan_reconciliation d actual"
  let ?c = "min (dec_reserved_credit d) (max 0 (actual - dec_reserved_alloc d))"
  note plan = plan_exact [OF md a]
  have e: "dec_id d = dec_id row" "dec_reserved_credit d = dec_reserved_credit row" using d row by simp_all
  obtain diags db1 where s: "settle_credit_reservations db (dec_tenant row) d (rp_consumed ?plan) (db_now db) = Inr (diags, db1)"
    and w1: "\<forall>f. dec_id (f row) = dec_id row \<and> key_of (f row) = key_of row \<and> money_ok (f row) \<and> due_hold (f row) = 0 \<longrightarrow>
       world (update_decision (dec_id row) f db1)"
    and fr: "credit_frame db db1"
    and sp: "spends db db1 (dec_tenant row) (dec_id row) (bounded_consumption row (rp_consumed ?plan))
      (dec_reserved_credit row - bounded_consumption row (rp_consumed ?plan))"
    by (rule settle_active [OF w row(1,2) e])
  define d' where "d' = reconciled_decision d actual ?plan actor notes key diags (db_now db)"
  let ?db = "update_decision (dec_id row) (written_over d') db1"
  have wdb: "world ?db" using w1 by (simp add: d'_def reconciled_decision_def)
  have mem: "written_over d' row \<in> set (decisions ?db)"
    using update_rowsI [OF row(1), of "\<lambda>e. dec_id e = dec_id row" "written_over d'"] fr by (simp add: credit_frame_def)
  have bc: "bounded_consumption row ?c = ?c"
  proof -
    have g: "on_grid 4 (dec_reserved_alloc d)" "on_grid 4 (dec_reserved_credit d)" "0 \<le> dec_reserved_credit d"
      using md by (simp_all add: money_ok_def)
    have "on_grid 4 ?c" by (intro q4.grid_min q4.grid_max q4.grid_diff g a(1) q4.grid_0)
    moreover have "0 \<le> ?c" "?c \<le> dec_reserved_credit row" using g(3) by (simp_all add: e(2))
    ultimately show ?thesis by (simp only: bounded_consumption_def max_absorb2 min_absorb1 quantize_id)
  qed
  have "spends db db1 t i ?c (dec_reserved_credit d - ?c)"
    using sp unfolding plan(1) bc row(3,4) e(2) [symmetric] .
  then have spent: "spends db (append_ledger sha d' x ?db) t i ?c (dec_reserved_credit d - ?c)" for x
    by (rule spends_cong) simp_all
  have zero: "dec_reserved_alloc d' = 0" "dec_reserved_credit d' = 0" "\<not> dec_reservation_active d'"
    by (simp_all add: d'_def reconciled_decision_def)
  let ?r = "\<lparr>rr_decision = d', rr_released = rp_total ?plan, rr_actual = actual, rr_drift = rp_drift ?plan,
             rr_status = drift_status (rp_drift ?plan), rr_at = db_now db\<rparr>"
  let ?db' = "append_ledger sha d' (get_approval_by_decision db1 (dec_id d)) ?db"
  show ?thesis
  proof (rule exI [of _ ?r], rule exI [of _ ?db'], intro conjI)
    show "settle_reconciliation sha db t d actor actual notes key = Inr (?r, ?db')"
      using s row(3,4) d(1) by (simp add: settle_reconciliation_def Let_def d'_def)
    show "spends db ?db' t i ?c (dec_reserved_credit d - ?c)" by (rule spent)
    show "world ?db'" by (rule world_ledger [OF wdb])
    show "written_over (rr_decision ?r) row \<in> set (decisions ?db')" using mem by simp
  qed (simp_all only: plan reconciliation_result.simps zero not_False_eq_True)
qed

text \<open>C10: Closing a reservation settles it exactly and once. If the claim finds it still active, the reconciliation cannot
  fail: it spends of the reserved credit what the actual cost exceeds the allocation by, at most all of it, returns the
  rest, reports the drift between the actual and the reserved amount, and leaves nothing on hold. If another transaction
  has closed it since it was read, nothing is settled a second time.\<close>

theorem reconcile_settles_once:
  assumes w: "world db" "world (others db)"
    and d: "first_match (\<lambda>d. dec_id d = i \<and> dec_tenant d = t) (decisions db) = Some d" "dec_reservation_active d"
    and kept: "\<forall>e\<in>set (decisions (others db)). dec_id e = i \<and> dec_reservation_active e \<longrightarrow>
      dec_reserved_alloc e = dec_reserved_alloc d \<and> dec_reserved_credit e = dec_reserved_credit d"
    and a: "actual = quantize4 a" "0 \<le> actual"
    and c: "c = min (dec_reserved_credit d) (max 0 (actual - dec_reserved_alloc d))"
    and run: "reconcile_reservation sha others db t i actor a notes key = (res, db')"
  shows "(claimable (others db) t i \<longrightarrow> world db' \<and> spends (others db) db' t i c (dec_reserved_credit d - c) \<and>
      (\<exists>r. res = Inr r \<and> rr_actual r = actual \<and> rr_released r = dec_reserved_alloc d + dec_reserved_credit d \<and>
         rr_drift r = actual - rr_released r \<and> rr_status r = drift_status (rr_drift r)) \<and>
      (\<exists>e\<in>set (decisions db'). dec_id e = i \<and> \<not> dec_reservation_active e \<and> dec_reserved_alloc e = 0 \<and>
         dec_reserved_credit e = 0)) \<and>
    (\<not> claimable (others db) t i \<longrightarrow> db' = others db)"
proof (cases "claimable (others db) t i")
  case True
  then obtain row where row: "row \<in> set (decisions (others db))" "dec_reservation_active row" "dec_id row = i" "dec_tenant row = t"
    using claimable_iff [OF w(2)] by blast
  have "dec_id d = i" using first_match_SomeD [OF d(1)] by simp
  moreover have "commit (others db) (settle_reconciliation sha (others db) t d actor actual (stripped notes) (stripped key)) = (res, db')"
    using run True d a by (simp add: reconcile_reservation_def Let_def not_less)
  moreover have "on_grid 4 actual" by (simp add: a(1))
  moreover have "dec_reserved_alloc d = dec_reserved_alloc row" "dec_reserved_credit d = dec_reserved_credit row"
    using kept row by auto
  ultimately obtain r db2 where st: "settle_reconciliation sha (others db) t d actor actual (stripped notes) (stripped key) = Inr (r, db2)"
    and out: "world db2" "rr_actual r = actual" "rr_released r = dec_reserved_alloc d + dec_reserved_credit d"
      "rr_drift r = actual - (dec_reserved_alloc d + dec_reserved_credit d)" "rr_status r = drift_status (rr_drift r)"
      "spends (others db) db2 t i c (dec_reserved_credit d - c)" "written_over (rr_decision r) row \<in> set (decisions db2)"
      "dec_reserved_alloc (rr_decision r) = 0" "dec_reserved_credit (rr_decision r) = 0" "\<not> dec_reservation_active (rr_decision r)"
    using settle_reconciliation_ok [OF w(2) row, of d actual sha actor "stripped notes" "stripped key"] a(2)
    unfolding c by blast
  with \<open>commit _ _ = _\<close> have "res = Inr r" "db' = db2" by simp_all
  with out row(3) True show ?thesis by (auto intro!: bexI [of _ "written_over (rr_decision r) row"])
next
  case False
  with run d a show ?thesis
    by (auto simp: reconcile_reservation_def Let_def not_less split: option.splits)
qed

theorem reconcile_settles_once_witness:
  "\<exists>res db'. reconcile_reservation (\<lambda>_. []) (\<lambda>s. s) (sample_waiting 0) 7 5 1 25 None None = (res, db') \<and>
     spends (sample_waiting 0) db' 7 5 25 15"
proof -
  obtain res db' where run: "reconcile_reservation (\<lambda>_. []) (\<lambda>s. s) (sample_waiting 0) 7 5 1 25 None None = (res, db')" by force
  have "quantize4 25 = 25" by (simp add: sample_quantize)
  moreover have "claimable (sample_waiting 0) 7 5" by (simp add: claimable_def)
  ultimately have "spends (sample_waiting 0) db' 7 5 25 (40 - 25)"
    using reconcile_settles_once [OF sample_waiting_world [of 0], of "\<lambda>s. s" 5 7 waiting_decision 25 25 25] run sample_waiting_world [of 0]
    by (simp add: min_def)
  with run show ?thesis by auto
qed

section \<open>Repeating a reconciliation\<close>

lemma reconciliation_fields:
  fixes d actual plan actor nts ky diags now
  defines "r \<equiv> reconciliation_value d actual plan actor nts ky diags now"
  shows "dget r ''reconciled_at'' = PTime now" "dget r ''expected_reserved_usd'' = PStr (fixed_str 4 (rp_total plan))"
    "dget r ''actual_monthly_delta_usd'' = PStr (fixed_str 4 actual)" "dget r ''drift_usd'' = PStr (fixed_str 4 (rp_drift plan))"
    "dget r ''status'' = PStr (drift_status (rp_drift plan))" "dget r ''notes'' = opt_val PStr nts"
    "dget r ''idempotency_key'' = opt_val PStr ky"
  by (simp_all add: r_def reconciliation_value_def dget_def)

lemma norm_drift_status:
  "norm_key (drift_status x) = drift_status x" "drift_status x \<in> {''matched'', ''overage'', ''savings''}"
  by (simp_all add: drift_status_def norm_key_def strip_def lstrip_def is_space_def lower_def lower_char_def Let_def)

lemma stripped_Some: "stripped x = Some s \<Longrightarrow> s \<noteq> [] \<and> strip s = s"
  by (auto simp: stripped_def or_none_def split: option.splits if_splits)

lemma money_field_text: "dget r k = PStr (fixed_str 4 x) \<Longrightarrow> on_grid 4 x \<Longrightarrow> money_field r k = x"
  by (simp add: money_field_def)

lemma replay_own:
  assumes k: "stripped key0 = Some k" and g: "on_grid 4 actual" "on_grid 4 (rp_total plan)" "on_grid 4 (rp_drift plan)"
    and d': "d' = reconciled_decision d actual plan actor (stripped notes) (Some k) diags now"
  shows "replay_reconciliation d' actual (stripped notes) (Some k) later =
    Inr (Some \<lparr>rr_decision = d', rr_released = rp_total plan, rr_actual = actual, rr_drift = rp_drift plan,
      rr_status = drift_status (rp_drift plan), rr_at = now\<rparr>)"
proof -
  let ?r = "reconciliation_value d actual plan actor (stripped notes) (Some k) diags now"
  note f = reconciliation_fields [of d actual plan actor "stripped notes" "Some k" diags now]
  note ks = stripped_Some [OF k]
  have "dget (dec_response d') ''reservation_reconciliation'' = PDict ?r" by (simp add: d' reconciled_decision_def)
  moreover have "strip (str_or_empty (dget ?r ''idempotency_key'')) = k"
    using ks by (simp add: f opt_val_def str_or_empty_def truthy_def py_str_def)
  moreover have "stripped notes = None \<or> stored_notes ?r = stripped notes"
    using stripped_Some [of "notes"] by (cases "stripped notes") (auto simp: stored_notes_def reconciliation_fields opt_val_def or_none_def py_str_def)
  moreover have "norm_key (str_or_empty (dget ?r ''status'')) = drift_status (rp_drift plan)"
    by (simp add: f str_or_empty_def truthy_def py_str_def norm_drift_status)
  moreover have "money_field ?r ''actual_monthly_delta_usd'' = actual" "money_field ?r ''expected_reserved_usd'' = rp_total plan"
    "money_field ?r ''drift_usd'' = rp_drift plan"
    using g by (auto intro: money_field_text simp: f)
  moreover have "parse_iso_datetime (dget ?r ''reconciled_at'') = Some now" by (simp add: f parse_iso_datetime_def)
  ultimately show ?thesis
    using ks norm_drift_status(2) [of "rp_drift plan"] by (auto simp: replay_reconciliation_def opt_str_def)
qed

text \<open>A reconciliation with an idempotency key can be repeated: as long as the decision is as the first one left it, the
  repetition answers with the very same result, at any later time and by anyone, and changes nothing.\<close>

theorem reconciliation_replays:
  assumes w: "world db" and d: "first_match (\<lambda>d. dec_id d = i \<and> dec_tenant d = t) (decisions db) = Some d" "dec_reservation_active d"
    and run: "reconcile_reservation sha (\<lambda>s. s) db t i actor a notes key = (Inr r, db1)" and key: "stripped key = Some k"
    and later: "world db2" "rr_decision r \<in> set (decisions db2)"
  shows "reconcile_reservation sha others db2 t i actor' a notes key = (Inr r, db2)"
proof -
  let ?actual = "quantize4 a" and ?plan = "plan_reconciliation d (quantize4 a)"
  note dd = first_match_SomeD [OF d(1)]
  have m: "money_ok d" using decisions_okD(2) [OF worldD(4) [OF w]] dd by blast
  have a0: "0 \<le> ?actual" using run d by (auto simp: reconcile_reservation_def Let_def split: if_splits)
  have "claimable db t i" using claimable_iff [OF w] dd d(2) by blast
  then have "settle_reconciliation sha db t d actor ?actual (stripped notes) (stripped key) = Inr (r, db1)"
    using run d a0 by (simp add: reconcile_reservation_def Let_def commit_eq not_less)
  then obtain diags d' where d': "d' = reconciled_decision d ?actual ?plan actor (stripped notes) (Some k) diags (db_now db)"
    and r: "r = \<lparr>rr_decision = d', rr_released = rp_total ?plan, rr_actual = ?actual, rr_drift = rp_drift ?plan,
      rr_status = drift_status (rp_drift ?plan), rr_at = db_now db\<rparr>"
    by (auto simp: settle_reconciliation_def Let_def and_then_Inr key)
  have ids: "dec_id d' = i" "dec_tenant d' = t" "\<not> dec_reservation_active d'" using dd by (simp_all add: d' reconciled_decision_def)
  then have "first_match (\<lambda>d. dec_id d = i \<and> dec_tenant d = t) (decisions db2) = Some d'"
    using find_decision [OF worldD(4) [OF later(1)] later(2)] by (simp add: r)
  moreover have "on_grid 4 (rp_total ?plan)" "on_grid 4 (rp_drift ?plan)" by (simp_all add: plan_reconciliation_def Let_def)
  then have "no_longer_active d' ?actual (stripped notes) (Some k) (db_now db2) = Inr r"
    using replay_own [OF key quantize_grid _ _ d'] by (simp add: no_longer_active_def r)
  ultimately show ?thesis using a0 ids by (simp add: reconcile_reservation_def Let_def key not_less)
qed

lemma written_over_own: "written_over (closed_reservation rs k v d) d = closed_reservation rs k v d"
  by (simp add: written_over_def closed_reservation_def released_def add_response_def)

lemma reconcile_run:
  assumes w: "world db" and d: "d \<in> set (decisions db)" "dec_reservation_active d" and a: "0 \<le> quantize4 a"
  shows "\<exists>r db'. reconcile_reservation sha (\<lambda>s. s) db (dec_tenant d) (dec_id d) actor a notes key = (Inr r, db') \<and> world db' \<and>
    rr_decision r \<in> set (decisions db')"
proof -
  have found: "first_match (\<lambda>e. dec_id e = dec_id d \<and> dec_tenant e = dec_tenant d) (decisions db) = Some d"
    by (rule find_decision [OF worldD(4) [OF w] d(1)])
  have "claimable db (dec_tenant d) (dec_id d)" using claimable_iff [OF w] d by blast
  moreover obtain r db' where st: "settle_reconciliation sha db (dec_tenant d) d actor (quantize4 a) (stripped notes) (stripped key) = Inr (r, db')"
    and "world db'" "written_over (rr_decision r) d \<in> set (decisions db')"
    using settle_reconciliation_ok [OF w d refl refl refl refl refl quantize_grid a, of sha actor "stripped notes" "stripped key"] by blast
  moreover have "written_over (rr_decision r) d = rr_decision r"
    using st by (auto simp: settle_reconciliation_def Let_def and_then_Inr reconciled_decision_def written_over_own)
  ultimately show ?thesis using found d a by (simp add: reconcile_reservation_def Let_def not_less)
qed

theorem reconciliation_replays_witness:
  "\<exists>r db1. reconcile_reservation (\<lambda>_. []) (\<lambda>s. s) (sample_waiting 0) 7 5 1 25 None (Some ''k'') = (Inr r, db1) \<and>
     reconcile_reservation (\<lambda>_. []) (\<lambda>s. s) db1 7 5 2 25 None (Some ''k'') = (Inr r, db1)"
proof -
  have "0 \<le> quantize4 25" by (simp add: sample_quantize)
  then obtain r db1 where run: "reconcile_reservation (\<lambda>_. []) (\<lambda>s. s) (sample_waiting 0) 7 5 1 25 None (Some ''k'') = (Inr r, db1)"
    and later: "world db1" "rr_decision r \<in> set (decisions db1)"
    using reconcile_run [OF sample_waiting_world [of 0], of waiting_decision 25 "\<lambda>_. []" 1 None "Some ''k''"] by auto
  have "first_match (\<lambda>d. dec_id d = 5 \<and> dec_tenant d = 7) (decisions (sample_waiting 0)) = Some waiting_decision" by simp
  moreover have "stripped (Some ''k'') = Some ''k''" by code_simp
  ultimately show ?thesis
    using reconciliation_replays [OF sample_waiting_world _ _ run _ later] run by auto
qed

section \<open>The overdue sweep\<close>

definition reserved_amount :: "decision \<Rightarrow> usd" where
  "reserved_amount d = dec_reserved_alloc d + dec_reserved_credit d"

definition emptied :: "db \<Rightarrow> decision \<Rightarrow> bool" where
  \<comment> \<open>its reservation is closed and holds nothing\<close>
  "emptied db d = (\<exists>e\<in>set (decisions db). dec_id e = dec_id d \<and> \<not> dec_reservation_active e \<and>
     dec_reserved_alloc e = 0 \<and> dec_reserved_credit e = 0)"

definition swept :: "db \<Rightarrow> db \<Rightarrow> decision list \<Rightarrow> bool" where
  \<comment> \<open>these reservations are released, their credit is back, and the other decisions are as before\<close>
  "swept db db' ds = (world db' \<and> available db' = available db + total dec_reserved_credit ds \<and> used_up db' = used_up db \<and>
     (\<forall>d\<in>set ds. emptied db' d) \<and>
     (\<forall>d\<in>set (decisions db). dec_id d \<notin> dec_id ` set ds \<longrightarrow> d \<in> set (decisions db')) \<and>
     map dec_id (decisions db') = map dec_id (decisions db) \<and> approvals db' = approvals db \<and> db_now db' = db_now db)"

lemma overdue_one:
  assumes w: "world db" and d: "d \<in> set (decisions db)" "dec_reservation_active d" "dec_tenant d = t"
  obtains diags db1 where "settle_credit_reservations db t d 0 now = Inr (diags, db1)"
    "\<forall>x y. swept db (append_ledger sha x y (update_decision (dec_id d) (overdue_decision actor age amount diags now) db1)) [d]"
proof -
  have m: "0 \<le> dec_reserved_credit d" using decisions_okD(2) [OF worldD(4) [OF w] d(1)] by (simp add: money_ok_def)
  obtain diags db1 where s: "settle_credit_reservations db (dec_tenant d) d 0 now = Inr (diags, db1)"
    and w1: "\<forall>f. dec_id (f d) = dec_id d \<and> key_of (f d) = key_of d \<and> money_ok (f d) \<and> due_hold (f d) = 0 \<longrightarrow>
       world (update_decision (dec_id d) f db1)"
    and fr: "credit_frame db db1"
    and sp: "spends db db1 (dec_tenant d) (dec_id d) (bounded_consumption d 0) (dec_reserved_credit d - bounded_consumption d 0)"
    by (rule settle_active [OF w d(1,2) refl refl])
  let ?f = "overdue_decision actor age amount diags now"
  let ?db = "update_decision (dec_id d) ?f db1"
  have f: "dec_id (?f e) = dec_id e" "key_of (?f e) = key_of e" "money_ok (?f e)" "due_hold (?f e) = 0"
      "\<not> dec_reservation_active (?f e)" "dec_reserved_alloc (?f e) = 0" "dec_reserved_credit (?f e) = 0" for e
    by (simp_all add: overdue_decision_def)
  have "?f d \<in> set (decisions ?db)"
    using update_rowsI [OF d(1), of "\<lambda>e. dec_id e = dec_id d" ?f] fr by (simp add: credit_frame_def)
  moreover have "e \<in> set (decisions ?db)" if "e \<in> set (decisions db)" "dec_id e \<noteq> dec_id d" for e
    using update_rowsI [OF that(1), of "\<lambda>e. dec_id e = dec_id d" ?f] that(2) fr by (simp add: credit_frame_def)
  moreover have "map dec_id (decisions ?db) = map dec_id (decisions db)"
    using fr f by (simp add: credit_frame_def map_update_rows)
  moreover have "bounded_consumption d 0 = 0" using m by (simp add: bounded_consumption_def min_absorb1)
  ultimately have "swept db (append_ledger sha x y ?db) [d]" for x y
    using w1 f sp fr
    by (auto simp: swept_def emptied_def spends_def world_ledger available_def used_up_def credit_frame_def intro!: bexI [of _ "?f d"])
  then have "\<forall>x y. swept db (append_ledger sha x y ?db) [d]" by blast
  then show thesis using s unfolding d(3) by (rule that [rotated])
qed

lemma sweptD:
  assumes "swept db db' ds"
  shows "world db'" "available db' = available db + total dec_reserved_credit ds" "used_up db' = used_up db"
    "d \<in> set ds \<Longrightarrow> emptied db' d"
    "d \<in> set (decisions db) \<Longrightarrow> dec_id d \<notin> dec_id ` set ds \<Longrightarrow> d \<in> set (decisions db')"
    "map dec_id (decisions db') = map dec_id (decisions db)" "approvals db' = approvals db" "db_now db' = db_now db"
  using assms unfolding swept_def by blast+

lemma emptied_stays:
  assumes "emptied b d" "swept b c ys" "dec_id d \<notin> dec_id ` set ys"
  shows "emptied c d"
proof -
  obtain e where e: "e \<in> set (decisions b)" "dec_id e = dec_id d"
      "\<not> dec_reservation_active e \<and> dec_reserved_alloc e = 0 \<and> dec_reserved_credit e = 0"
    using assms(1) unfolding emptied_def by blast
  then have "e \<in> set (decisions c)" using sweptD(5) [OF assms(2)] assms(3) by (simp only: not_False_eq_True)
  then show ?thesis using e unfolding emptied_def by blast
qed

lemma swept_trans:
  assumes s: "swept a b xs" "swept b c ys" and dj: "dec_id ` set xs \<inter> dec_id ` set ys = {}"
  shows "swept a c (xs @ ys)"
  unfolding swept_def
proof (intro conjI ballI impI)
  show "world c" by (rule sweptD(1) [OF s(2)])
  show "available c = available a + total dec_reserved_credit (xs @ ys)"
    using sweptD(2) [OF s(1)] sweptD(2) [OF s(2)] by simp
  show "used_up c = used_up a" "map dec_id (decisions c) = map dec_id (decisions a)" "approvals c = approvals a"
      "db_now c = db_now a"
    by (rule trans [OF sweptD(3) [OF s(2)] sweptD(3) [OF s(1)]] trans [OF sweptD(6) [OF s(2)] sweptD(6) [OF s(1)]]
        trans [OF sweptD(7) [OF s(2)] sweptD(7) [OF s(1)]] trans [OF sweptD(8) [OF s(2)] sweptD(8) [OF s(1)]])+
  show "emptied c d" if d: "d \<in> set (xs @ ys)" for d
  proof (cases "d \<in> set ys")
    case True
    then show ?thesis by (rule sweptD(4) [OF s(2)])
  next
    case False
    then have "d \<in> set xs" using d by simp
    moreover from this have "dec_id d \<notin> dec_id ` set ys" using dj by blast
    ultimately show ?thesis using emptied_stays [OF sweptD(4) [OF s(1)] s(2)] by blast
  qed
  show "d \<in> set (decisions c)" if "d \<in> set (decisions a)" "dec_id d \<notin> dec_id ` set (xs @ ys)" for d
  proof -
    have "dec_id d \<notin> dec_id ` set xs" "dec_id d \<notin> dec_id ` set ys" using that(2) by (simp_all add: image_Un)
    then show ?thesis using sweptD(5) [OF s(2) sweptD(5) [OF s(1) that(1)]] by blast
  qed
qed

lemma overdue_loop_ok:
  assumes "world db" "distinct (map dec_id ds)"
    "\<forall>d\<in>set ds. d \<in> set (decisions db) \<and> dec_reservation_active d \<and> dec_tenant d = t"
  shows "\<exists>db'. overdue_loop sha t actor age now ds db = Inr ((map (quantize4 \<circ> reserved_amount) ds, map dec_id ds), db') \<and>
    swept db db' ds"
  using assms
proof (induction ds arbitrary: db)
  case Nil
  then show ?case by (simp add: swept_def)
next
  case (Cons d ds)
  then have d: "d \<in> set (decisions db)" "dec_reservation_active d" "dec_tenant d = t" by simp_all
  let ?amount = "quantize4 (reserved_amount d)"
  obtain diags db1 where s: "settle_credit_reservations db t d 0 now = Inr (diags, db1)"
    and sw: "\<forall>x y. swept db (append_ledger sha x y (update_decision (dec_id d) (overdue_decision actor age ?amount diags now) db1)) [d]"
    by (rule overdue_one [OF Cons.prems(1) d, where sha = sha and actor = actor and age = age and amount = ?amount and now = now])
  let ?db2 = "append_ledger sha (overdue_decision actor age ?amount diags now d) (get_approval_by_decision db1 (dec_id d))
      (update_decision (dec_id d) (overdue_decision actor age ?amount diags now) db1)"
  have one: "swept db ?db2 [d]" using sw by blast
  have "e \<in> set (decisions ?db2)" if "e \<in> set ds" for e
  proof -
    have "e \<in> set (decisions db)" using Cons.prems(3) that by simp
    moreover have "dec_id e \<noteq> dec_id d" using Cons.prems(2) that by (metis distinct.simps(2) image_eqI list.set_map list.simps(9))
    ultimately have "e \<in> set (decisions db)" "dec_id e \<noteq> dec_id d" by blast+
    then show ?thesis using one unfolding swept_def by simp
  qed
  then have "\<exists>db'. overdue_loop sha t actor age now ds ?db2 = Inr ((map (quantize4 \<circ> reserved_amount) ds, map dec_id ds), db') \<and>
      swept ?db2 db' ds"
    using Cons.prems one by (intro Cons.IH) (simp_all add: swept_def)
  then obtain db' where loop: "overdue_loop sha t actor age now ds ?db2 = Inr ((map (quantize4 \<circ> reserved_amount) ds, map dec_id ds), db')"
      "swept ?db2 db' ds" by blast
  moreover have claim: "claimable db t (dec_id d)" using claimable_iff [OF Cons.prems(1)] d by blast
  ultimately have "swept db db' ([d] @ ds)"
    using Cons.prems(2) by (intro swept_trans [OF one]) (simp_all add: image_iff)
  with loop claim show ?case using s by (simp add: Let_def reserved_amount_def)
qed

lemma add_quantized_total:
  assumes "\<forall>d\<in>set ds. on_grid 4 (f d)"
  shows "add_quantized (map (quantize4 \<circ> f) ds) = total f ds"
proof -
  have "foldl (\<lambda>acc x. quantize4 (acc + x)) a (map (quantize4 \<circ> f) ds) = a + total f ds" if "on_grid 4 a" for a
    using assms that by (induction ds arbitrary: a) (simp_all add: on_grid_add)
  from this [of 0] show ?thesis by (simp add: add_quantized_def)
qed

lemma overdue_rows_in:
  assumes w: "world db" and d: "d \<in> set (overdue_rows db t age n)"
  shows "d \<in> set (decisions db) \<and> dec_reservation_active d \<and> dec_tenant d = t" "on_grid 4 (reserved_amount d)"
proof -
  show "d \<in> set (decisions db) \<and> dec_reservation_active d \<and> dec_tenant d = t"
    using d by (auto simp: overdue_rows_def dest!: in_set_takeD)
  then have "money_ok d" using decisions_okD(2) [OF worldD(4) [OF w]] by blast
  then show "on_grid 4 (reserved_amount d)" by (simp add: money_ok_def reserved_amount_def on_grid_add)
qed

lemma overdue_rows_distinct:
  assumes "world db"
  shows "distinct (map dec_id (overdue_rows db t age n))"
proof -
  have "distinct (map dec_id (decisions db))" using worldD(4) [OF assms] by (simp add: decisions_ok_def)
  then have "distinct (map dec_id (order_by [dec_created] (filter P (decisions db))))" for P
    by (simp add: distinct_map_filter)
  then show ?thesis unfolding overdue_rows_def take_map [symmetric] by (rule distinct_take)
qed

text \<open>C12: the sweep of overdue reservations never fails on a consistent database: it releases exactly the oldest
  active reservations past the bounded age, up to the bounded limit, reports their ids in order and the exact sum of
  what they held, gives their credit back in full, and leaves every other decision and every approval as it was.\<close>

theorem overdue_sweep_releases:
  assumes w: "world db"
  shows "\<exists>db'. reconcile_overdue sha db t actor older limit =
      (let ds = overdue_rows db t (clamp 60 604800 older) (clamp 1 1000 limit)
       in (Inr \<lparr>or_count = int (length ds), or_total = total reserved_amount ds, or_decisions = map dec_id ds,
            or_age = clamp 60 604800 older\<rparr>, db')) \<and>
    swept db db' (overdue_rows db t (clamp 60 604800 older) (clamp 1 1000 limit))"
proof -
  let ?ds = "overdue_rows db t (clamp 60 604800 older) (clamp 1 1000 limit)"
  obtain db' where run: "overdue_loop sha t actor (clamp 60 604800 older) (db_now db) ?ds db =
      Inr ((map (quantize4 \<circ> reserved_amount) ?ds, map dec_id ?ds), db')" and s: "swept db db' ?ds"
    using overdue_loop_ok [OF w overdue_rows_distinct [OF w]] overdue_rows_in(1) [OF w] by blast
  have amount: "add_quantized (map (quantize4 \<circ> reserved_amount) ?ds) = total reserved_amount ?ds"
    by (rule add_quantized_total) (simp add: overdue_rows_in(2) [OF w])
  show ?thesis
  proof (cases "?ds = []")
    case True
    then have "swept db db ?ds" using w by (simp add: swept_def)
    then show ?thesis using run True by (intro exI [of _ db]) (simp add: reconcile_overdue_def Let_def)
  next
    case False
    then show ?thesis using run s amount by (intro exI [of _ db']) (simp add: reconcile_overdue_def Let_def)
  qed
qed

theorem overdue_sweep_releases_witness:
  "\<exists>db'. reconcile_overdue (\<lambda>_. []) (sample_waiting (seconds 100)) 7 1 0 0 =
      (Inr \<lparr>or_count = 1, or_total = 40, or_decisions = [5], or_age = 60\<rparr>, db') \<and>
    swept (sample_waiting (seconds 100)) db' [waiting_decision]"
proof -
  have "dec_created waiting_decision < seconds 100 - seconds 60"
    by (simp add: waiting_decision_def sample_decision_def seconds_def)
  then have "overdue_rows (sample_waiting (seconds 100)) 7 60 1 = [waiting_decision]"
    by (simp add: overdue_rows_def order_by_def)
  then show ?thesis
    using overdue_sweep_releases [OF sample_waiting_world [of "seconds 100"], of "\<lambda>_. []" 7 1 0 0]
    by (simp add: clamp_def reserved_amount_def Let_def)
qed

end
