(* ===== verification/Actions.thy ===== *)
theory Actions
  imports World Lifecycle
begin

text \<open>
  The action queue (\<open>actions.py\<close>, \<open>actions_terminal_ops.py\<close>): creation with its idempotency key, the lease of the next
  due action, completion, failure with retry, and cancellation.

  \<open>others\<close> is what other transactions commit between the read of an operation and its write.  The write of an attribute
  assignment names only the columns that changed since the row was read (\<open>flush\<close>).
\<close>

section \<open>Inputs\<close>

record action_input =
  ai_decision :: uuid
  ai_type :: string
  ai_target :: string
  ai_payload :: "pydict option"
  ai_key :: "string option"
  ai_attempts :: "int option"
  ai_backoff :: "int option"
  ai_lease :: "int option"

definition given :: "'a option \<Rightarrow> 'a \<Rightarrow> 'a" where
  \<comment> \<open>\<open>x if x is not None else default\<close>\<close>
  "given x d = (case x of None \<Rightarrow> d | Some y \<Rightarrow> y)"

fun plain_json :: "pyval \<Rightarrow> bool" where
  \<comment> \<open>what \<open>json.dumps\<close> serialises without a \<open>default\<close> function\<close>
  "plain_json (PDec c e) = False"
| "plain_json (PUuid u) = False"
| "plain_json (PTime t) = False"
| "plain_json (PList vs) = list_all plain_json vs"
| "plain_json (PDict kvs) = list_all (\<lambda>kv. plain_json (snd kv)) kvs"
| "plain_json v = True"

definition json_sha256 :: "(string \<Rightarrow> string) \<Rightarrow> pydict \<Rightarrow> string outcome" where
  "json_sha256 sha payload =
     (if plain_json (PDict payload) then Inr (payload_sha256 sha payload)
      else Inl (ValueErr ''Action request payload must be JSON serializable''))"

definition normalized_idempotency_key :: "string option \<Rightarrow> string option" where
  "normalized_idempotency_key key = (let k = strip (opt_str key) in if k = [] then None else Some (take 128 k))"

section \<open>Creation\<close>

definition default_controls :: "int \<times> int \<times> int" where
  "default_controls = (3, 60, 300)"

definition policy_controls :: "policy_env \<Rightarrow> db \<Rightarrow> uuid \<Rightarrow> int \<times> int \<times> int" where
  "policy_controls env db tenant =
     (case first_match (\<lambda>p. pol_tenant p = tenant) (policies db) of
        None \<Rightarrow> default_controls
      | Some p \<Rightarrow>
          (case pe_validate env (as_dict (pol_document p)) of
             None \<Rightarrow> default_controls
           | Some d \<Rightarrow>
               (let x = pd_execution d
                in (clamp 1 10 (ex_attempts x), clamp 1 86400 (ex_backoff x), clamp 30 3600 (ex_lease x)))))"

definition decision_and_approval :: "db \<Rightarrow> uuid \<Rightarrow> uuid \<Rightarrow> (decision \<times> approval option) outcome" where
  "decision_and_approval db tenant i =
     (case first_match (\<lambda>d. dec_tenant d = tenant \<and> dec_id d = i) (decisions db) of
        None \<Rightarrow> Inl (DomainError 404 ''Decision not found'')
      | Some d \<Rightarrow> Inr (d, first_match (\<lambda>a. apr_tenant a = tenant \<and> apr_decision a = dec_id d) (approvals db)))"

definition assert_action_allowed :: "decision \<Rightarrow> approval option \<Rightarrow> uuid option outcome" where
  "assert_action_allowed d approval =
     (let approved = (case approval of Some a \<Rightarrow> if apr_status a = APPROVED then Some (apr_id a) else None | None \<Rightarrow> None)
      in if dec_decision d = DENY then Inl (DomainError 409 ''Cannot enqueue action for denied decision'')
         else if dec_approval_required d \<and> approved = None
         then Inl (DomainError 409 ''Cannot enqueue action before approval is approved for approval-required decision'')
         else Inr approved)"

definition check_limits :: "int \<Rightarrow> int \<Rightarrow> int \<Rightarrow> unit outcome" where
  "check_limits attempts backoff lease =
     (if attempts < 1 \<or> 10 < attempts then Inl (DomainError 422 ''max_attempts must be between 1 and 10'')
      else if backoff < 1 \<or> 86400 < backoff
      then Inl (DomainError 422 ''retry_backoff_seconds must be between 1 and 86400'')
      else if lease < 30 \<or> 3600 < lease
      then Inl (DomainError 422 ''lease_ttl_seconds must be between 30 and 3600'')
      else Inr ())"

definition check_labels :: "string \<Rightarrow> string \<Rightarrow> unit outcome" where
  "check_labels ty target =
     (if ty = [] then Inl (DomainError 422 ''action_type is required'')
      else if 64 < length ty then Inl (DomainError 422 ''action_type must be <= 64 characters'')
      else if target = [] then Inl (DomainError 422 ''target_reference is required'')
      else if 512 < length target then Inl (DomainError 422 ''target_reference must be <= 512 characters'')
      else Inr ())"

definition action_key :: "(string \<Rightarrow> string) \<Rightarrow> uuid \<Rightarrow> string \<Rightarrow> string \<Rightarrow> string \<Rightarrow> string option \<Rightarrow> string" where
  "action_key sha d ty target payload_sha key =
     (case normalized_idempotency_key key of
        Some k \<Rightarrow> k
      | None \<Rightarrow> take 40 (sha (uuid_str d @ '':'' @ ty @ '':'' @ target @ '':'' @ payload_sha)))"

definition requested_action :: "policy_env \<Rightarrow> db \<Rightarrow> uuid \<Rightarrow> uuid \<Rightarrow> action_input \<Rightarrow> enf_action outcome" where
  \<comment> \<open>the checks of a request and the row they lead to, before its identifier is drawn\<close>
  "requested_action env db tenant actor i =
     (let ty = norm_key (ai_type i); target = strip (ai_target i);
          (attempts, backoff, lease) = policy_controls env db tenant;
          n = given (ai_attempts i) attempts; b = given (ai_backoff i) backoff; l = given (ai_lease i) lease;
          payload = given (ai_payload i) []
      in and_then (check_labels ty target) (\<lambda>_.
         and_then (decision_and_approval db tenant (ai_decision i)) (\<lambda>(d, approval).
         and_then (assert_action_allowed d approval) (\<lambda>approval_id.
         and_then (check_limits n b l) (\<lambda>_.
         and_then (case json_sha256 (pe_sha env) payload of
                     Inl _ \<Rightarrow> Inl (DomainError 422 ''request_payload must be JSON serializable'')
                   | Inr h \<Rightarrow> Inr h) (\<lambda>h.
           Inr \<lparr>act_id = 0, act_tenant = tenant, act_decision = dec_id d, act_approval = approval_id, act_type = ty,
             act_target = target, act_idempotency = action_key (pe_sha env) (dec_id d) ty target h (ai_key i),
             act_request = payload, act_request_sha = h, act_status = QUEUED, act_attempts = 0, act_max_attempts = n,
             act_backoff = b, act_lease_ttl = l, act_next_retry = db_now db, act_worker = None, act_lease = None,
             act_error_code = None, act_error_message = None, act_result = None, act_result_sha = None,
             act_created_by = Some actor, act_started = None, act_completed = None, act_created = db_now db\<rparr>))))))"

definition unique_action :: "enf_action \<Rightarrow> uuid \<times> uuid \<times> string \<times> string" where
  \<comment> \<open>the unique constraint \<open>uq_enforcement_action_idempotency\<close>\<close>
  "unique_action a = (act_tenant a, act_decision a, act_type a, act_idempotency a)"

definition existing_action :: "db \<Rightarrow> enf_action \<Rightarrow> enf_action option" where
  "existing_action db a = first_match (\<lambda>b. unique_action b = unique_action a) (actions db)"

definition insert_action :: "enf_action \<Rightarrow> db \<Rightarrow> enf_action outcome \<times> db" where
  \<comment> \<open>the commit, or the read of the row that won the race after an \<open>IntegrityError\<close>\<close>
  "insert_action a db =
     (case existing_action db a of
        Some b \<Rightarrow> (Inr b, db)
      | None \<Rightarrow> (let b = a\<lparr>act_id := db_next db\<rparr>
                 in (Inr b, db\<lparr>actions := actions db @ [b], db_next := Suc (db_next db)\<rparr>)))"

definition create_action ::
  "policy_env \<Rightarrow> (db \<Rightarrow> db) \<Rightarrow> db \<Rightarrow> uuid \<Rightarrow> uuid \<Rightarrow> action_input \<Rightarrow> enf_action outcome \<times> db" where
  "create_action env others db tenant actor i =
     (case requested_action env db tenant actor i of
        Inl e \<Rightarrow> (Inl e, db)
      | Inr a \<Rightarrow> (case existing_action db a of Some b \<Rightarrow> (Inr b, db) | None \<Rightarrow> insert_action a (others db)))"

section \<open>Reading\<close>

definition get_action :: "db \<Rightarrow> uuid \<Rightarrow> uuid \<Rightarrow> enf_action outcome" where
  "get_action db tenant i =
     (case first_match (\<lambda>a. act_tenant a = tenant \<and> act_id a = i) (actions db) of
        None \<Rightarrow> Inl (DomainError 404 ''Action execution not found'')
      | Some a \<Rightarrow> Inr a)"

definition list_actions :: "db \<Rightarrow> uuid \<Rightarrow> action_status option \<Rightarrow> uuid option \<Rightarrow> int \<Rightarrow> enf_action list" where
  "list_actions db tenant status decision limit =
     take (nat (clamp 1 500 limit)) (order_by [\<lambda>a. - act_created a]
       (filter (\<lambda>a. act_tenant a = tenant \<and> (status = None \<or> status = Some (act_status a)) \<and>
          (decision = None \<or> decision = Some (act_decision a))) (actions db)))"

section \<open>The lease\<close>

definition lease_free :: "time \<Rightarrow> enf_action \<Rightarrow> bool" where
  "lease_free as_of a = (case act_lease a of None \<Rightarrow> True | Some t \<Rightarrow> t \<le> as_of)"

definition due_action :: "uuid \<Rightarrow> string option \<Rightarrow> time \<Rightarrow> enf_action \<Rightarrow> bool" where
  "due_action tenant ty as_of a =
     (act_tenant a = tenant \<and> act_status a = QUEUED \<and> act_next_retry a \<le> as_of \<and>
      act_attempts a < act_max_attempts a \<and> lease_free as_of a \<and> (case ty of None \<Rightarrow> True | Some x \<Rightarrow> act_type a = x))"

definition lease_candidate :: "db \<Rightarrow> uuid \<Rightarrow> string option \<Rightarrow> time \<Rightarrow> enf_action option" where
  "lease_candidate db tenant ty as_of =
     (case order_by [act_next_retry, act_created] (filter (due_action tenant ty as_of) (actions db)) of
        [] \<Rightarrow> None | c # _ \<Rightarrow> Some c)"

definition claims_action :: "uuid \<Rightarrow> time \<Rightarrow> enf_action \<Rightarrow> enf_action \<Rightarrow> bool" where
  "claims_action tenant as_of c a =
     (act_id a = act_id c \<and> act_tenant a = tenant \<and> act_status a = QUEUED \<and> act_attempts a = act_attempts c \<and>
      lease_free as_of a)"

definition leased_action :: "uuid \<Rightarrow> time \<Rightarrow> enf_action \<Rightarrow> enf_action \<Rightarrow> enf_action" where
  "leased_action worker as_of c a =
     a\<lparr>act_status := RUNNING, act_attempts := act_attempts c + 1, act_worker := Some worker,
       act_lease := Some (as_of + seconds (act_lease_ttl c)), act_started := Some (given (act_started c) as_of)\<rparr>"

fun lease_loop ::
  "nat \<Rightarrow> (nat \<Rightarrow> db \<Rightarrow> db) \<Rightarrow> db \<Rightarrow> uuid \<Rightarrow> uuid \<Rightarrow> string option \<Rightarrow> time \<Rightarrow> enf_action option outcome \<times> db" where
  "lease_loop 0 others db tenant worker ty as_of = (Inr None, db)"
| "lease_loop (Suc n) others db tenant worker ty as_of =
     (case lease_candidate db tenant ty as_of of
        None \<Rightarrow> (Inr None, db)
      | Some c \<Rightarrow>
          (let db1 = others n db
           in if \<not> list_ex (claims_action tenant as_of c) (actions db1)
              then lease_loop n others db1 tenant worker ty as_of
              else let db2 = db1\<lparr>actions := update_rows (claims_action tenant as_of c) (leased_action worker as_of c)
                               (actions db1)\<rparr>
                   in (and_then (get_action db2 tenant (act_id c)) (\<lambda>a. Inr (Some a)), db2)))"

definition lease_next_action ::
  "(nat \<Rightarrow> db \<Rightarrow> db) \<Rightarrow> db \<Rightarrow> uuid \<Rightarrow> uuid \<Rightarrow> string option \<Rightarrow> time option \<Rightarrow> enf_action option outcome \<times> db" where
  "lease_next_action others db tenant worker ty now =
     lease_loop 5 others db tenant worker (map_option norm_key ty) (given now (db_now db))"

section \<open>Completion, failure and cancellation\<close>

definition flush :: "enf_action \<Rightarrow> enf_action \<Rightarrow> enf_action \<Rightarrow> enf_action" where
  \<comment> \<open>the columns in which \<open>new\<close> differs from the row as loaded, written to the current row\<close>
  "flush old new a =
     a\<lparr>act_status := (if act_status new = act_status old then act_status a else act_status new),
       act_next_retry := (if act_next_retry new = act_next_retry old then act_next_retry a else act_next_retry new),
       act_worker := (if act_worker new = act_worker old then act_worker a else act_worker new),
       act_lease := (if act_lease new = act_lease old then act_lease a else act_lease new),
       act_error_code := (if act_error_code new = act_error_code old then act_error_code a else act_error_code new),
       act_error_message := (if act_error_message new = act_error_message old then act_error_message a
         else act_error_message new),
       act_result := (if act_result new = act_result old then act_result a else act_result new),
       act_result_sha := (if act_result_sha new = act_result_sha old then act_result_sha a else act_result_sha new),
       act_completed := (if act_completed new = act_completed old then act_completed a else act_completed new)\<rparr>"

definition change_action ::
  "(db \<Rightarrow> db) \<Rightarrow> db \<Rightarrow> uuid \<Rightarrow> uuid \<Rightarrow> (enf_action \<Rightarrow> enf_action outcome) \<Rightarrow> enf_action outcome \<times> db" where
  \<comment> \<open>read the row, compute, assign its attributes, commit and refresh\<close>
  "change_action others db tenant i f =
     (case get_action db tenant i of
        Inl e \<Rightarrow> (Inl e, db)
      | Inr a \<Rightarrow>
          (case f a of
             Inl e \<Rightarrow> (Inl e, db)
           | Inr b \<Rightarrow>
               (let db1 = others db; db2 = db1\<lparr>actions := update_rows (\<lambda>r. act_id r = i) (flush a b) (actions db1)\<rparr>
                in (get_action db2 tenant i, db2))))"

definition owned_by :: "uuid \<Rightarrow> string \<Rightarrow> enf_action \<Rightarrow> unit outcome" where
  "owned_by worker what a =
     (if act_status a \<noteq> RUNNING then Inl (DomainError 409 (''Only running actions can be '' @ what))
      else if act_worker a \<noteq> None \<and> act_worker a \<noteq> Some worker
      then Inl (DomainError 409 ''Action lease is owned by another worker'')
      else Inr ())"

definition completed_action ::
  "(string \<Rightarrow> string) \<Rightarrow> uuid \<Rightarrow> pydict option \<Rightarrow> time \<Rightarrow> enf_action \<Rightarrow> enf_action outcome" where
  "completed_action sha worker payload moment a =
     (let r = given payload []
      in and_then (owned_by worker ''completed'' a) (\<lambda>_.
         and_then (json_sha256 sha r) (\<lambda>h.
           Inr (a\<lparr>act_status := SUCCEEDED, act_result := Some r, act_result_sha := Some h, act_error_code := None,
             act_error_message := None, act_worker := None, act_lease := None, act_completed := Some moment,
             act_next_retry := moment\<rparr>))))"

definition complete_action ::
  "(string \<Rightarrow> string) \<Rightarrow> (db \<Rightarrow> db) \<Rightarrow> db \<Rightarrow> uuid \<Rightarrow> uuid \<Rightarrow> uuid \<Rightarrow> pydict option \<Rightarrow> time option \<Rightarrow>
   enf_action outcome \<times> db" where
  "complete_action sha others db tenant i worker payload now =
     change_action others db tenant i (completed_action sha worker payload (given now (db_now db)))"

definition check_error :: "string \<Rightarrow> string \<Rightarrow> unit outcome" where
  "check_error code message =
     (if code = [] then Inl (DomainError 422 ''error_code is required'')
      else if 64 < length code then Inl (DomainError 422 ''error_code must be <= 64 characters'')
      else if message = [] then Inl (DomainError 422 ''error_message is required'')
      else if 1000 < length message then Inl (DomainError 422 ''error_message must be <= 1000 characters'')
      else Inr ())"

definition failed_action ::
  "(string \<Rightarrow> string) \<Rightarrow> uuid \<Rightarrow> string \<Rightarrow> string \<Rightarrow> bool \<Rightarrow> pydict option \<Rightarrow> time \<Rightarrow> enf_action \<Rightarrow> enf_action outcome" where
  "failed_action sha worker code message retryable payload moment a =
     (let c = norm_key code; m = strip message; r0 = given payload [];
          r = (if r0 = [] then [(''error_code'', PStr c), (''error_message'', PStr m), (''retryable'', PBool retryable)]
               else r0);
          retry = (retryable \<and> act_attempts a < act_max_attempts a)
      in and_then (owned_by worker ''failed'' a) (\<lambda>_.
         and_then (check_error c m) (\<lambda>_.
         and_then (json_sha256 sha r) (\<lambda>h.
           let b = a\<lparr>act_error_code := Some c, act_error_message := Some m, act_result := Some r, act_result_sha := Some h,
                     act_worker := None, act_lease := None\<rparr>
           in Inr (if retry then b\<lparr>act_status := QUEUED, act_next_retry := moment + seconds (act_backoff a), act_completed := None\<rparr>
                   else b\<lparr>act_status := FAILED, act_next_retry := moment, act_completed := Some moment\<rparr>)))))"

definition fail_action ::
  "(string \<Rightarrow> string) \<Rightarrow> (db \<Rightarrow> db) \<Rightarrow> db \<Rightarrow> uuid \<Rightarrow> uuid \<Rightarrow> uuid \<Rightarrow> string \<Rightarrow> string \<Rightarrow> bool \<Rightarrow> pydict option \<Rightarrow>
   time option \<Rightarrow> enf_action outcome \<times> db" where
  "fail_action sha others db tenant i worker code message retryable payload now =
     change_action others db tenant i (failed_action sha worker code message retryable payload (given now (db_now db)))"

definition terminal :: "action_status \<Rightarrow> bool" where
  "terminal s = (s = SUCCEEDED \<or> s = FAILED \<or> s = CANCELLED)"

definition cancel_reason :: "string \<Rightarrow> string" where
  "cancel_reason reason = or_default (take 1000 (strip reason)) ''cancelled''"

definition cancelled_action ::
  "(string \<Rightarrow> string) \<Rightarrow> uuid \<Rightarrow> string option \<Rightarrow> time \<Rightarrow> enf_action \<Rightarrow> enf_action outcome" where
  "cancelled_action sha actor reason moment a =
     (if terminal (act_status a) then Inl (DomainError 409 ''Terminal action cannot be cancelled'')
      else
        let b = a\<lparr>act_status := CANCELLED, act_worker := None, act_lease := None, act_completed := Some moment,
                  act_next_retry := moment\<rparr>
        in case reason of
             None \<Rightarrow> Inr b
           | Some s \<Rightarrow>
               (let m = cancel_reason s; r = [(''cancelled_by'', PStr (uuid_str actor)), (''reason'', PStr m)]
                in and_then (json_sha256 sha r) (\<lambda>h.
                     Inr (b\<lparr>act_error_code := Some ''cancelled'', act_error_message := Some m, act_result := Some r,
                       act_result_sha := Some h\<rparr>))))"

definition cancel_action ::
  "(string \<Rightarrow> string) \<Rightarrow> (db \<Rightarrow> db) \<Rightarrow> db \<Rightarrow> uuid \<Rightarrow> uuid \<Rightarrow> uuid \<Rightarrow> string option \<Rightarrow> time option \<Rightarrow>
   enf_action outcome \<times> db" where
  "cancel_action sha others db tenant i actor reason now =
     change_action others db tenant i (cancelled_action sha actor reason (given now (db_now db)))"

end
