(* ===== verification/Actions_Safety.thy ===== *)
theory Actions_Safety
  imports Actions Samples
begin

text \<open>
  What the action queue guarantees: each operation keeps the rows well formed and moves an action only along its life
  cycle, an action is leased at most \<open>max_attempts\<close> times, the lease takes the action that is due first, and a claim is
  exclusive whatever other transactions commit in between.
\<close>

section \<open>The life of an action\<close>

inductive act_step :: "int \<Rightarrow> action_status \<times> int \<Rightarrow> action_status \<times> int \<Rightarrow> bool" for m where
  lease: "n < m \<Longrightarrow> act_step m (QUEUED, n) (RUNNING, n + 1)"
| retry: "n < m \<Longrightarrow> act_step m (RUNNING, n) (QUEUED, n)"
| succeed: "act_step m (RUNNING, n) (SUCCEEDED, n)"
| give_up: "act_step m (RUNNING, n) (FAILED, n)"
| cancel: "\<not> terminal s \<Longrightarrow> act_step m (s, n) (CANCELLED, n)"

inductive_cases act_stepE: "act_step m x y"
inductive_simps act_step_simps: "act_step m (s, n) y"

fun act_rank :: "int \<Rightarrow> action_status \<times> int \<Rightarrow> nat" where
  "act_rank m (s, n) = nat (2 * (m - n)) + (case s of QUEUED \<Rightarrow> 1 | RUNNING \<Rightarrow> 2 | _ \<Rightarrow> 0)"

lemma terminal_simps [simp]:
  "\<not> terminal QUEUED" "\<not> terminal RUNNING" "terminal SUCCEEDED" "terminal FAILED" "terminal CANCELLED"
  by (simp_all add: terminal_def)

interpretation action_life: lifecycle "act_step m" "act_rank m" "\<lambda>x. terminal (fst x)" for m
proof
  show "act_rank m y < act_rank m x" if "act_step m x y" for x y
    using that
  proof cases
    case (cancel s n)
    then show ?thesis by (cases s) simp_all
  qed simp_all
  show "\<not> act_step m x y" if "terminal (fst x)" for x y
    using that by (auto elim: act_stepE)
qed

definition stage :: "enf_action \<Rightarrow> action_status \<times> int" where
  "stage a = (act_status a, act_attempts a)"

section \<open>Well-formed rows\<close>

definition hashed :: "(string \<Rightarrow> string) \<Rightarrow> enf_action \<Rightarrow> bool" where
  "hashed sha a = (act_request_sha a = payload_sha256 sha (act_request a) \<and>
     act_result_sha a = map_option (payload_sha256 sha) (act_result a))"

definition action_ok :: "enf_action \<Rightarrow> bool" where
  "action_ok a =
     (act_type a \<noteq> [] \<and> length (act_type a) \<le> 64 \<and> act_target a \<noteq> [] \<and> length (act_target a) \<le> 512 \<and>
      act_max_attempts a \<in> {1..10} \<and> act_backoff a \<in> {1..86400} \<and> act_lease_ttl a \<in> {30..3600} \<and>
      0 \<le> act_attempts a \<and> act_attempts a \<le> act_max_attempts a \<and>
      (act_status a = QUEUED \<longrightarrow> act_attempts a < act_max_attempts a) \<and>
      (act_status a = RUNNING \<longleftrightarrow> act_worker a \<noteq> None) \<and> (act_status a = RUNNING \<longleftrightarrow> act_lease a \<noteq> None) \<and>
      (act_status a = RUNNING \<longrightarrow> 0 < act_attempts a \<and> act_started a \<noteq> None) \<and>
      (terminal (act_status a) \<longleftrightarrow> act_completed a \<noteq> None))"

definition actions_ok :: "(string \<Rightarrow> string) \<Rightarrow> db \<Rightarrow> bool" where
  "actions_ok sha db = (distinct (map act_id (actions db)) \<and> distinct (map unique_action (actions db)) \<and>
     (\<forall>a\<in>set (actions db). act_id a < db_next db \<and> action_ok a \<and> hashed sha a))"

definition same_action :: "enf_action \<Rightarrow> enf_action \<Rightarrow> bool" where
  \<comment> \<open>what is fixed when the action is created\<close>
  "same_action a b = (act_id b = act_id a \<and> unique_action b = unique_action a \<and> act_target b = act_target a \<and>
     act_request b = act_request a \<and> act_max_attempts b = act_max_attempts a \<and> act_backoff b = act_backoff a \<and>
     act_lease_ttl b = act_lease_ttl a \<and> act_approval b = act_approval a \<and> act_created b = act_created a)"

lemma same_action_refl [simp]: "same_action a a"
  by (simp add: same_action_def)

lemma same_action_trans: "same_action a b \<Longrightarrow> same_action b c \<Longrightarrow> same_action a c"
  by (simp add: same_action_def)

definition moves_to :: "(string \<Rightarrow> string) \<Rightarrow> enf_action \<Rightarrow> enf_action \<Rightarrow> bool" where
  \<comment> \<open>one step of the life of an action\<close>
  "moves_to sha a b = (same_action a b \<and> act_step (act_max_attempts a) (stage a) (stage b) \<and> action_ok b \<and> hashed sha b)"

lemma json_sha256_Inr: "json_sha256 sha p = Inr h \<longleftrightarrow> plain_json (PDict p) \<and> h = payload_sha256 sha p"
  by (auto simp: json_sha256_def)

lemma owned_by_Inr: "owned_by w what a = Inr u \<longleftrightarrow> act_status a = RUNNING \<and> (act_worker a = None \<or> act_worker a = Some w)"
  by (auto simp: owned_by_def)

lemma flush_own: "flush a (a\<lparr>act_status := s, act_next_retry := t, act_worker := w, act_lease := l, act_error_code := c,
    act_error_message := m, act_result := r, act_result_sha := h, act_completed := f\<rparr>) a =
  a\<lparr>act_status := s, act_next_retry := t, act_worker := w, act_lease := l, act_error_code := c,
    act_error_message := m, act_result := r, act_result_sha := h, act_completed := f\<rparr>"
  by (simp add: flush_def)

definition writes :: "(enf_action \<Rightarrow> enf_action outcome) \<Rightarrow> (string \<Rightarrow> string) \<Rightarrow> bool" where
  \<comment> \<open>a successful computation is a step, and writing its changed columns to the row gives its result\<close>
  "writes f sha = (\<forall>a b. action_ok a \<longrightarrow> hashed sha a \<longrightarrow> f a = Inr b \<longrightarrow> moves_to sha a b \<and> flush a b a = b)"

lemma completed_writes: "writes (completed_action sha worker payload t) sha"
  by (auto simp: writes_def completed_action_def Let_def and_then_Inr owned_by_Inr json_sha256_Inr moves_to_def
      same_action_def unique_action_def action_ok_def hashed_def stage_def act_step_simps flush_def)

lemma failed_writes: "writes (failed_action sha worker code msg retryable payload t) sha"
  by (auto simp: writes_def failed_action_def Let_def and_then_Inr owned_by_Inr json_sha256_Inr moves_to_def
      same_action_def unique_action_def action_ok_def hashed_def stage_def act_step_simps flush_def)

lemma cancelled_row:
  assumes "action_ok a" "hashed sha a" "\<not> terminal (act_status a)" "r = None \<and> h = None \<or> (\<exists>x. r = Some x \<and> h = Some (payload_sha256 sha x))"
  shows "moves_to sha a (a\<lparr>act_status := CANCELLED, act_worker := None, act_lease := None, act_completed := Some t,
      act_next_retry := t, act_error_code := c, act_error_message := m, act_result := r, act_result_sha := h\<rparr>)"
  using assms by (auto simp: moves_to_def same_action_def unique_action_def action_ok_def hashed_def stage_def act_step_simps)

lemma cancelled_writes: "writes (cancelled_action sha actor reason t) sha"
  unfolding writes_def
proof (intro allI impI)
  fix a b
  assume a: "action_ok a" "hashed sha a" and r: "cancelled_action sha actor reason t a = Inr b"
  then have q: "\<not> terminal (act_status a)" by (auto simp: cancelled_action_def)
  show "moves_to sha a b \<and> flush a b a = b"
  proof (cases reason)
    case None
    then have b: "b = a\<lparr>act_status := CANCELLED, act_worker := None, act_lease := None, act_completed := Some t,
      act_next_retry := t\<rparr>" using r q by (simp add: cancelled_action_def Let_def)
    have "moves_to sha a b"
      using a q by (simp add: b moves_to_def same_action_def unique_action_def action_ok_def hashed_def stage_def act_step_simps)
    then show ?thesis by (simp add: b flush_def)
  next
    case (Some s)
    then obtain m x where b: "b = a\<lparr>act_status := CANCELLED, act_worker := None, act_lease := None, act_completed := Some t,
      act_next_retry := t, act_error_code := Some ''cancelled'', act_error_message := Some m, act_result := Some x,
      act_result_sha := Some (payload_sha256 sha x)\<rparr>"
      using r q by (auto simp: cancelled_action_def Let_def and_then_Inr json_sha256_Inr)
    have "moves_to sha a b" unfolding b by (rule cancelled_row [OF a q]) simp
    then show ?thesis by (simp add: b flush_def)
  qed
qed

lemma leased_moves:
  assumes "action_ok a" "hashed sha a" "act_status a = QUEUED"
  shows "moves_to sha a (leased_action worker as_of a a)"
  using assms by (simp add: moves_to_def leased_action_def same_action_def unique_action_def action_ok_def hashed_def
      stage_def act_step_simps)

section \<open>One row of the table\<close>

lemma action_found:
  assumes "actions_ok sha db" "a \<in> set (actions db)"
  shows "get_action db (act_tenant a) (act_id a) = Inr a"
proof -
  have "first_match (\<lambda>b. act_tenant b = act_tenant a \<and> act_id b = act_id a) (actions db) = Some a"
    using assms by (intro first_match_unique [where k = act_id]) (auto simp: actions_ok_def)
  then show ?thesis by (simp add: get_action_def)
qed

lemma get_action_Inr:
  assumes "get_action db t i = Inr a"
  shows "a \<in> set (actions db)" "act_id a = i" "act_tenant a = t"
  using assms by (auto simp: get_action_def split: option.splits dest: first_match_SomeD)

definition put_action :: "enf_action \<Rightarrow> db \<Rightarrow> db" where
  "put_action b db = db\<lparr>actions := update_rows (\<lambda>r. act_id r = act_id b) (\<lambda>_. b) (actions db)\<rparr>"

lemma action_unique: "actions_ok sha db \<Longrightarrow> a \<in> set (actions db) \<Longrightarrow> b \<in> set (actions db) \<Longrightarrow> act_id a = act_id b \<Longrightarrow> a = b"
  unfolding actions_ok_def by (metis distinct_map inj_onD)

lemma update_one:
  assumes ok: "actions_ok sha db" and a: "a \<in> set (actions db)" and P: "\<And>r. P r \<Longrightarrow> act_id r = act_id a" "P a"
    and f: "f a = b" "act_id b = act_id a"
  shows "db\<lparr>actions := update_rows P f (actions db)\<rparr> = put_action b db"
proof -
  have "update_rows P f (actions db) = update_rows (\<lambda>r. act_id r = act_id b) (\<lambda>_. b) (actions db)"
    unfolding update_rows_def
  proof (rule map_cong [OF refl])
    fix r assume r: "r \<in> set (actions db)"
    show "(if P r then f r else r) = (if act_id r = act_id b then b else r)"
    proof (cases "act_id r = act_id a")
      case True
      then have "r = a" by (rule action_unique [OF ok r a])
      then show ?thesis using P(2) f by simp
    next
      case False
      then show ?thesis using P(1) [of r] f(2) by metis
    qed
  qed
  then show ?thesis by (simp add: put_action_def)
qed

lemma put_action_ok:
  assumes ok: "actions_ok sha db" and a: "a \<in> set (actions db)" and m: "moves_to sha a b"
  shows "actions_ok sha (put_action b db)" "b \<in> set (actions (put_action b db))"
    "\<forall>c\<in>set (actions db). c \<noteq> a \<longrightarrow> c \<in> set (actions (put_action b db))"
proof -
  have s: "act_id b = act_id a" "unique_action b = unique_action a" using m by (simp_all add: moves_to_def same_action_def)
  have u: "r = a" if "r \<in> set (actions db)" "act_id r = act_id b" for r
    using action_unique [OF ok that(1) a] that(2) s by simp
  have "map act_id (actions (put_action b db)) = map act_id (actions db)"
    "map unique_action (actions (put_action b db)) = map unique_action (actions db)"
    using u s by (auto simp: put_action_def update_rows_def)
  moreover have "act_id c < db_next db \<and> action_ok c \<and> hashed sha c" if "c \<in> set (actions (put_action b db))" for c
    using that ok m s a by (auto simp: put_action_def in_update_rows actions_ok_def moves_to_def split: if_splits)
  ultimately show "actions_ok sha (put_action b db)" using ok by (simp add: actions_ok_def put_action_def)
  show "b \<in> set (actions (put_action b db))" using a s by (auto simp: put_action_def in_update_rows)
  show "\<forall>c\<in>set (actions db). c \<noteq> a \<longrightarrow> c \<in> set (actions (put_action b db))"
    using u by (auto simp: put_action_def in_update_rows)
qed

lemma change_found:
  assumes ok: "actions_ok sha db" and w: "writes f sha" and a: "a \<in> set (actions db)" and f: "f a = Inr b"
  shows "moves_to sha a b" "change_action (\<lambda>s. s) db (act_tenant a) (act_id a) f = (Inr b, put_action b db)"
proof -
  have rows: "action_ok a" "hashed sha a" using ok a by (simp_all add: actions_ok_def)
  then have m: "moves_to sha a b" "flush a b a = b" using w f unfolding writes_def by blast+
  have s: "act_id b = act_id a" "act_tenant b = act_tenant a"
    using m(1) by (simp_all add: moves_to_def same_action_def unique_action_def)
  have "db\<lparr>actions := update_rows (\<lambda>r. act_id r = act_id a) (flush a b) (actions db)\<rparr> = put_action b db"
    by (intro update_one [where P = "\<lambda>r. act_id r = act_id a" and f = "flush a b", OF ok a _ _ m(2) s(1)]) simp_all
  moreover have "get_action (put_action b db) (act_tenant a) (act_id a) = Inr b"
    using action_found [OF put_action_ok(1,2) [OF ok a m(1)]] s by simp
  ultimately show "change_action (\<lambda>s. s) db (act_tenant a) (act_id a) f = (Inr b, put_action b db)"
    using action_found [OF ok a] f by (simp add: change_action_def Let_def)
  show "moves_to sha a b" by (rule m(1))
qed

lemma change_serial:
  assumes ok: "actions_ok sha db" and f: "writes f sha"
  shows "(\<exists>e. change_action (\<lambda>s. s) db t i f = (Inl e, db)) \<or>
    (\<exists>a b. a \<in> set (actions db) \<and> moves_to sha a b \<and> change_action (\<lambda>s. s) db t i f = (Inr b, put_action b db))"
proof (cases "get_action db t i")
  case (Inl e)
  then show ?thesis by (simp add: change_action_def)
next
  case get: (Inr a)
  note a = get_action_Inr [OF get]
  show ?thesis
  proof (cases "f a")
    case (Inl e)
    then show ?thesis using get by (simp add: change_action_def)
  next
    case (Inr b)
    show ?thesis using change_found [OF ok f a(1) Inr] a by blast
  qed
qed

section \<open>Creation\<close>

lemma check_limits_Inr: "check_limits n b l = Inr u \<longleftrightarrow> n \<in> {1..10} \<and> b \<in> {1..86400} \<and> l \<in> {30..3600}"
  by (auto simp: check_limits_def)

lemma check_labels_Inr: "check_labels ty target = Inr u \<longleftrightarrow> ty \<noteq> [] \<and> length ty \<le> 64 \<and> target \<noteq> [] \<and> length target \<le> 512"
  by (auto simp: check_labels_def)

lemma requested_ok:
  assumes "requested_action env db t actor i = Inr a"
  shows "action_ok a" "hashed (pe_sha env) a"
proof -
  have "action_ok a \<and> hashed (pe_sha env) a"
    using assms by (auto simp: requested_action_def Let_def and_then_Inr check_limits_Inr check_labels_Inr json_sha256_Inr
        action_ok_def hashed_def split: prod.splits sum.splits)
  then show "action_ok a" "hashed (pe_sha env) a" by simp_all
qed

lemma existing_action_Some: "existing_action db a = Some b \<Longrightarrow> b \<in> set (actions db) \<and> unique_action b = unique_action a"
  by (auto simp: existing_action_def dest: first_match_SomeD)

lemma existing_action_None: "existing_action db a = None \<longleftrightarrow> unique_action a \<notin> unique_action ` set (actions db)"
  by (auto simp: existing_action_def first_match_None image_iff)

lemma numbered [simp]:
  "action_ok (a\<lparr>act_id := i\<rparr>) = action_ok a" "hashed sha (a\<lparr>act_id := i\<rparr>) = hashed sha a"
  "unique_action (a\<lparr>act_id := i\<rparr>) = unique_action a"
  by (simp_all add: action_ok_def hashed_def unique_action_def)

lemma inserted_ok:
  assumes ok: "actions_ok sha db" and new: "existing_action db a = None" and a: "action_ok a" "hashed sha a"
  shows "actions_ok sha (db\<lparr>actions := actions db @ [a\<lparr>act_id := db_next db\<rparr>], db_next := Suc (db_next db)\<rparr>)"
proof -
  have "db_next db \<notin> act_id ` set (actions db)" using ok unfolding actions_ok_def by force
  moreover have "act_id x < Suc (db_next db)" if "x \<in> set (actions db)" for x
    using ok that unfolding actions_ok_def by (simp add: less_SucI)
  ultimately show ?thesis using ok new a unfolding actions_ok_def existing_action_None by simp
qed

lemma create_cases:
  "snd (create_action env (\<lambda>s. s) db t actor i) = db \<or>
   (\<exists>a. requested_action env db t actor i = Inr a \<and> existing_action db a = None \<and>
      snd (create_action env (\<lambda>s. s) db t actor i) =
        db\<lparr>actions := actions db @ [a\<lparr>act_id := db_next db\<rparr>], db_next := Suc (db_next db)\<rparr>)"
  by (cases "requested_action env db t actor i")
    (simp_all add: create_action_def insert_action_def Let_def split: option.split)

lemma create_serial:
  assumes ok: "actions_ok (pe_sha env) db"
  shows "actions_ok (pe_sha env) (snd (create_action env (\<lambda>s. s) db t actor i)) \<and>
    set (actions db) \<subseteq> set (actions (snd (create_action env (\<lambda>s. s) db t actor i)))"
  using create_cases [of env db t actor i]
proof (elim disjE exE conjE)
  assume "snd (create_action env (\<lambda>s. s) db t actor i) = db"
  then show ?thesis using ok by simp
next
  fix a
  assume a: "requested_action env db t actor i = Inr a" "existing_action db a = None"
    and db': "snd (create_action env (\<lambda>s. s) db t actor i) =
        db\<lparr>actions := actions db @ [a\<lparr>act_id := db_next db\<rparr>], db_next := Suc (db_next db)\<rparr>"
  have "set (actions db) \<subseteq> set (actions (db\<lparr>actions := actions db @ [a\<lparr>act_id := db_next db\<rparr>], db_next := Suc (db_next db)\<rparr>))"
    by auto
  then show ?thesis unfolding db' using inserted_ok [OF ok a(2) requested_ok [OF a(1)]] by (rule conjI [rotated])
qed

section \<open>The lease\<close>

lemma order_by_head:
  assumes "order_by [f, g] xs = c # cs" "x \<in> set xs"
  shows "f c < f x \<or> f c = f x \<and> g c \<le> g x"
proof -
  let ?ys = "sort_key g xs"
  have s: "sort_key f ?ys = c # cs" using assms(1) by (simp add: order_by_def)
  have "sorted (map f (c # cs))" by (simp only: s [symmetric] sorted_sort_key)
  moreover have x: "x \<in> set (c # cs)" using assms(2) by (simp add: s [symmetric])
  ultimately have le: "f c \<le> f x" by auto
  have "sorted (map g (filter (\<lambda>y. f y = f c) ?ys))" by (rule sorted_filter) simp
  moreover have "filter (\<lambda>y. f y = f c) ?ys = filter (\<lambda>y. f y = f c) (c # cs)"
    by (simp only: s [symmetric] sort_key_stable)
  ultimately have "sorted (map g (c # filter (\<lambda>y. f y = f c) cs))" by simp
  then have "g c \<le> g x" if "f x = f c" using x that by auto
  then show ?thesis using le by fastforce
qed

lemma lease_candidate_None: "lease_candidate db t ty as_of = None \<longleftrightarrow> (\<forall>a\<in>set (actions db). \<not> due_action t ty as_of a)"
proof -
  have "order_by ks (filter P xs) = [] \<longleftrightarrow> (\<forall>a\<in>set xs. \<not> P a)" for ks and P :: "enf_action \<Rightarrow> bool" and xs
    by (metis filter_empty_conv set_empty set_order_by)
  moreover have "lease_candidate db t ty as_of = None \<longleftrightarrow>
      order_by [act_next_retry, act_created] (filter (due_action t ty as_of) (actions db)) = []"
    by (simp add: lease_candidate_def split: list.split)
  ultimately show ?thesis by simp
qed

lemma lease_candidate_Some:
  assumes "lease_candidate db t ty as_of = Some c"
  shows "c \<in> set (actions db)" "due_action t ty as_of c"
    "\<forall>a\<in>set (actions db). due_action t ty as_of a \<longrightarrow>
       act_next_retry c < act_next_retry a \<or> act_next_retry c = act_next_retry a \<and> act_created c \<le> act_created a"
proof -
  obtain cs where o: "order_by [act_next_retry, act_created] (filter (due_action t ty as_of) (actions db)) = c # cs"
    using assms by (auto simp: lease_candidate_def split: list.splits)
  have "set (c # cs) = set (filter (due_action t ty as_of) (actions db))" by (simp only: o [symmetric] set_order_by)
  then show "c \<in> set (actions db)" "due_action t ty as_of c" by auto
  show "\<forall>a\<in>set (actions db). due_action t ty as_of a \<longrightarrow>
      act_next_retry c < act_next_retry a \<or> act_next_retry c = act_next_retry a \<and> act_created c \<le> act_created a"
    using order_by_head [OF o] by simp
qed

lemma lease_write:
  assumes ok: "actions_ok sha db" and c: "c \<in> set (actions db)" "act_tenant c = t" "act_status c = QUEUED" "lease_free as_of c"
  shows "db\<lparr>actions := update_rows (claims_action t as_of c) (leased_action w as_of c) (actions db)\<rparr> =
      put_action (leased_action w as_of c c) db"
    "list_ex (claims_action t as_of c) (actions db)"
    "get_action (put_action (leased_action w as_of c c) db) t (act_id c) = Inr (leased_action w as_of c c)"
    "moves_to sha c (leased_action w as_of c c)"
proof -
  have claim: "claims_action t as_of c c" using c by (simp add: claims_action_def)
  show m: "moves_to sha c (leased_action w as_of c c)"
    using ok c by (intro leased_moves) (simp_all add: actions_ok_def)
  have s: "act_id (leased_action w as_of c c) = act_id c" "act_tenant (leased_action w as_of c c) = t"
    using c by (simp_all add: leased_action_def)
  show "db\<lparr>actions := update_rows (claims_action t as_of c) (leased_action w as_of c) (actions db)\<rparr> =
      put_action (leased_action w as_of c c) db"
    by (rule update_one [where P = "claims_action t as_of c" and f = "leased_action w as_of c", OF ok c(1) _ claim refl s(1)])
      (simp add: claims_action_def)
  show "list_ex (claims_action t as_of c) (actions db)" using claim c(1) by (auto simp: list_ex_iff)
  show "get_action (put_action (leased_action w as_of c c) db) t (act_id c) = Inr (leased_action w as_of c c)"
    using action_found [OF put_action_ok(1,2) [OF ok c(1) m]] s by simp
qed

lemma lease_serial:
  assumes ok: "actions_ok sha db"
  shows "lease_loop (Suc n) (\<lambda>_ s. s) db t w ty as_of =
    (case lease_candidate db t ty as_of of None \<Rightarrow> (Inr None, db)
     | Some c \<Rightarrow> (Inr (Some (leased_action w as_of c c)), put_action (leased_action w as_of c c) db))"
proof (cases "lease_candidate db t ty as_of")
  case (Some c)
  note c = lease_candidate_Some(1,2) [OF Some]
  have "act_tenant c = t" "act_status c = QUEUED" "lease_free as_of c" using c(2) by (simp_all add: due_action_def)
  note l = lease_write [OF ok c(1) this]
  show ?thesis using Some l(1-3) by (simp add: Let_def)
qed simp

lemma lease_next_serial:
  assumes "actions_ok sha db"
  shows "lease_next_action (\<lambda>_ s. s) db t w ty now =
    (case lease_candidate db t (map_option norm_key ty) (given now (db_now db)) of None \<Rightarrow> (Inr None, db)
     | Some c \<Rightarrow> (Inr (Some (leased_action w (given now (db_now db)) c c)),
         put_action (leased_action w (given now (db_now db)) c c) db))"
proof -
  have "lease_next_action (\<lambda>_ s. s) db t w ty now =
      lease_loop (Suc 4) (\<lambda>_ s. s) db t w (map_option norm_key ty) (given now (db_now db))"
    by (simp add: lease_next_action_def eval_nat_numeral del: lease_loop.simps)
  then show ?thesis by (simp only: lease_serial [OF assms])
qed

section \<open>Runs of the queue\<close>

datatype action_op =
    Create uuid uuid action_input
  | Lease uuid uuid "string option" "time option"
  | Complete uuid uuid uuid "pydict option" "time option"
  | Fail uuid uuid uuid string string bool "pydict option" "time option"
  | Cancel uuid uuid uuid "string option" "time option"
  | Wait nat

fun run_op :: "policy_env \<Rightarrow> action_op \<Rightarrow> db \<Rightarrow> db" where
  "run_op env (Create t actor i) db = snd (create_action env (\<lambda>s. s) db t actor i)"
| "run_op env (Lease t w ty now) db = snd (lease_next_action (\<lambda>_ s. s) db t w ty now)"
| "run_op env (Complete t i w r now) db = snd (complete_action (pe_sha env) (\<lambda>s. s) db t i w r now)"
| "run_op env (Fail t i w code msg retryable r now) db =
     snd (fail_action (pe_sha env) (\<lambda>s. s) db t i w code msg retryable r now)"
| "run_op env (Cancel t i actor reason now) db = snd (cancel_action (pe_sha env) (\<lambda>s. s) db t i actor reason now)"
| "run_op env (Wait n) db = db\<lparr>db_now := db_now db + int n\<rparr>"

definition run_ops :: "policy_env \<Rightarrow> action_op list \<Rightarrow> db \<Rightarrow> db" where
  "run_ops env ops db = foldl (\<lambda>s op. run_op env op s) db ops"

lemma run_ops_simps [simp]: "run_ops env [] db = db" "run_ops env (op # ops) db = run_ops env ops (run_op env op db)"
  by (simp_all add: run_ops_def)

lemma run_ops_append: "run_ops env (xs @ ys) db = run_ops env ys (run_ops env xs db)"
  by (simp add: run_ops_def)

definition progress :: "(string \<Rightarrow> string) \<Rightarrow> db \<Rightarrow> db \<Rightarrow> bool" where
  \<comment> \<open>the table is well formed and every action is still there, as it was or one step further\<close>
  "progress sha db db' = (actions_ok sha db' \<and>
     (\<forall>x\<in>set (actions db). \<exists>y\<in>set (actions db'). y = x \<or> moves_to sha x y))"

lemma progress_refl: "actions_ok sha db \<Longrightarrow> progress sha db db"
  by (auto simp: progress_def)

lemma put_action_progress:
  assumes ok: "actions_ok sha db" and a: "a \<in> set (actions db)" "moves_to sha a b"
  shows "progress sha db (put_action b db)"
  unfolding progress_def
proof (intro conjI ballI)
  fix x assume x: "x \<in> set (actions db)"
  show "\<exists>y\<in>set (actions (put_action b db)). y = x \<or> moves_to sha x y"
    using put_action_ok(2,3) [OF ok a] a(2) x by (cases "x = a") blast+
qed (rule put_action_ok(1) [OF ok a])

lemma change_progress:
  assumes ok: "actions_ok sha db" and f: "writes f sha"
  shows "progress sha db (snd (change_action (\<lambda>s. s) db t i f))"
  using change_serial [OF ok f, of t i]
proof (elim disjE exE conjE)
  fix e assume "change_action (\<lambda>s. s) db t i f = (Inl e, db)"
  then show ?thesis using progress_refl [OF ok] by simp
next
  fix a b assume a: "a \<in> set (actions db)" "moves_to sha a b" and r: "change_action (\<lambda>s. s) db t i f = (Inr b, put_action b db)"
  show ?thesis unfolding r snd_conv by (rule put_action_progress [OF ok a])
qed

lemma lease_progress:
  assumes ok: "actions_ok sha db"
  shows "progress sha db (snd (lease_next_action (\<lambda>_ s. s) db t w ty now))"
proof (cases "lease_candidate db t (map_option norm_key ty) (given now (db_now db))")
  case None
  then show ?thesis using progress_refl [OF ok] by (simp add: lease_next_serial [OF ok])
next
  case (Some c)
  note c = lease_candidate_Some(1,2) [OF Some]
  have "act_tenant c = t" "act_status c = QUEUED" "lease_free (given now (db_now db)) c" using c(2) by (simp_all add: due_action_def)
  note m = lease_write(4) [OF ok c(1) this]
  show ?thesis using put_action_progress [OF ok c(1) m] Some by (simp add: lease_next_serial [OF ok])
qed

lemma op_progress:
  assumes ok: "actions_ok (pe_sha env) db"
  shows "progress (pe_sha env) db (run_op env op db)"
proof (cases op)
  case (Create t actor i)
  then have "run_op env op db = snd (create_action env (\<lambda>s. s) db t actor i)" by simp
  then show ?thesis using create_serial [OF ok, of t actor i] unfolding progress_def by (simp only:) blast
next
  case (Wait n)
  then show ?thesis using ok by (auto simp: actions_ok_def progress_def)
qed (simp_all only: run_op.simps complete_action_def fail_action_def cancel_action_def lease_progress [OF ok]
    change_progress [OF ok completed_writes] change_progress [OF ok failed_writes] change_progress [OF ok cancelled_writes])

lemma run_ok: "actions_ok (pe_sha env) db \<Longrightarrow> actions_ok (pe_sha env) (run_ops env ops db)"
  by (induction ops arbitrary: db) (use op_progress in \<open>auto simp: progress_def\<close>)

lemma moves_same: "(moves_to sha)\<^sup>*\<^sup>* a b \<Longrightarrow> same_action a b"
  by (induction rule: rtranclp_induct) (auto simp: moves_to_def intro: same_action_trans)

lemma moves_relpow:
  "(moves_to sha ^^ n) a b \<Longrightarrow> (act_step (act_max_attempts a) ^^ n) (stage a) (stage b) \<and> act_max_attempts b = act_max_attempts a"
proof (induction n arbitrary: b)
  case (Suc n)
  then obtain c where c: "(moves_to sha ^^ n) a c" "moves_to sha c b" by auto
  have "act_step (act_max_attempts c) (stage c) (stage b)" "act_max_attempts b = act_max_attempts c"
    using c(2) by (simp_all add: moves_to_def same_action_def)
  then show ?case using Suc.IH [OF c(1)] by (auto intro: relcomppI)
qed simp

lemma moves_steps: "(moves_to sha)\<^sup>*\<^sup>* a b \<Longrightarrow> (act_step (act_max_attempts a))\<^sup>*\<^sup>* (stage a) (stage b)"
  using moves_relpow by (metis rtranclp_power)

lemma moves_back:
  assumes "(moves_to sha)\<^sup>*\<^sup>* a b" "stage b = stage a"
  shows "b = a"
  using assms(1)
proof (cases rule: converse_rtranclpE)
  case (step z)
  then have "act_step (act_max_attempts a) (stage a) (stage z)" "act_max_attempts z = act_max_attempts a"
    by (simp_all add: moves_to_def same_action_def)
  then show ?thesis
    using moves_steps [OF step(2)] assms(2) action_life.reach_rank action_life.descends by (metis leD)
qed simp

lemma attempts_grow: "(act_step m)\<^sup>*\<^sup>* x y \<Longrightarrow> snd x \<le> snd y"
  by (induction rule: rtranclp_induct) (auto elim!: act_stepE)

lemma run_rows:
  assumes "actions_ok (pe_sha env) db" "a \<in> set (actions db)"
  shows "\<exists>b\<in>set (actions (run_ops env ops db)). (moves_to (pe_sha env))\<^sup>*\<^sup>* a b"
  using assms
proof (induction ops arbitrary: db a)
  case (Cons op ops)
  have p: "progress (pe_sha env) db (run_op env op db)" by (rule op_progress [OF Cons.prems(1)])
  then obtain b where b: "b \<in> set (actions (run_op env op db))" "b = a \<or> moves_to (pe_sha env) a b"
    using Cons.prems(2) unfolding progress_def by blast
  then have "(moves_to (pe_sha env))\<^sup>*\<^sup>* a b" by auto
  moreover obtain c where "c \<in> set (actions (run_ops env ops (run_op env op db)))" "(moves_to (pe_sha env))\<^sup>*\<^sup>* b c"
    using Cons.IH [OF _ b(1)] p unfolding progress_def by blast
  ultimately show ?case using run_ops_simps(2) by (metis rtranclp_trans)
qed auto

definition queue_others :: "policy_env \<Rightarrow> (nat \<Rightarrow> db \<Rightarrow> db) \<Rightarrow> bool" where
  \<comment> \<open>what other transactions commit in between is itself a run of queue operations\<close>
  "queue_others env others = (\<forall>n s. \<exists>ops. others n s = run_ops env ops s)"

definition claimed :: "policy_env \<Rightarrow> uuid \<Rightarrow> uuid \<Rightarrow> time \<Rightarrow> db \<Rightarrow> enf_action option outcome \<times> db \<Rightarrow> db \<Rightarrow> enf_action \<Rightarrow> bool" where
  \<comment> \<open>the claim of row \<open>c\<close> of \<open>mid\<close>, reached from \<open>db\<close> by others\<close>
  "claimed env t w as_of db r mid c = (c \<in> set (actions mid) \<and> act_tenant c = t \<and> act_status c = QUEUED \<and>
     act_attempts c < act_max_attempts c \<and> lease_free as_of c \<and> (\<exists>ops. mid = run_ops env ops db) \<and>
     r = (Inr (Some (leased_action w as_of c c)), put_action (leased_action w as_of c c) mid))"

lemma lease_loop_claims:
  assumes oth: "queue_others env others" and ok: "actions_ok (pe_sha env) db"
  shows "(\<exists>ops. lease_loop n others db t w ty as_of = (Inr None, run_ops env ops db)) \<or>
    (\<exists>mid c. claimed env t w as_of db (lease_loop n others db t w ty as_of) mid c)"
  using ok
proof (induction n arbitrary: db)
  case 0
  show ?case by (intro disjI1 exI [of _ "[]"]) simp
next
  case (Suc n)
  show ?case
  proof (cases "lease_candidate db t ty as_of")
    case None
    then show ?thesis by (intro disjI1 exI [of _ "[]"]) simp
  next
    case (Some c)
    note c = lease_candidate_Some(1,2) [OF Some]
    obtain ops where mid: "others n db = run_ops env ops db" using oth unfolding queue_others_def by blast
    let ?mid = "run_ops env ops db"
    have okm: "actions_ok (pe_sha env) ?mid" by (rule run_ok [OF Suc.prems])
    show ?thesis
    proof (cases "list_ex (claims_action t as_of c) (actions ?mid)")
      case False
      have "lease_loop (Suc n) others db t w ty as_of = lease_loop n others ?mid t w ty as_of"
        using Some False mid by (simp add: Let_def)
      then show ?thesis using Suc.IH [OF okm] unfolding claimed_def by (metis run_ops_append)
    next
      case True
      then obtain a where a: "a \<in> set (actions ?mid)" "claims_action t as_of c a" by (auto simp: list_ex_iff)
      obtain b where b: "b \<in> set (actions ?mid)" "(moves_to (pe_sha env))\<^sup>*\<^sup>* c b"
        using run_rows [OF Suc.prems c(1)] by blast
      have "act_id b = act_id a" using moves_same [OF b(2)] a(2) by (simp add: same_action_def claims_action_def)
      then have "b = a" by (rule action_unique [OF okm b(1) a(1)])
      moreover have "stage a = stage c" using a(2) c(2) by (simp add: stage_def claims_action_def due_action_def)
      ultimately have "a = c" using moves_back [OF b(2)] by simp
      then have cm: "c \<in> set (actions ?mid)" using a(1) by simp
      have d: "act_tenant c = t" "act_status c = QUEUED" "lease_free as_of c" "act_attempts c < act_max_attempts c"
        using c(2) by (simp_all add: due_action_def)
      note l = lease_write [OF okm cm d(1,2,3)]
      have "lease_loop (Suc n) others db t w ty as_of =
          (Inr (Some (leased_action w as_of c c)), put_action (leased_action w as_of c c) ?mid)"
        using Some mid l(1-3) by (simp add: Let_def)
      then have "claimed env t w as_of db (lease_loop (Suc n) others db t w ty as_of) ?mid c"
        using cm d unfolding claimed_def by blast
      then show ?thesis by blast
    qed
  qed
qed

section \<open>The guarantees of the queue\<close>

definition sample_action :: enf_action where
  "sample_action = \<lparr>act_id = 60, act_tenant = 7, act_decision = 5, act_approval = None, act_type = ''stop'',
     act_target = ''vm'', act_idempotency = ''k'', act_request = [], act_request_sha = [], act_status = QUEUED,
     act_attempts = 0, act_max_attempts = 3, act_backoff = 60, act_lease_ttl = 300, act_next_retry = 0,
     act_worker = None, act_lease = None, act_error_code = None, act_error_message = None, act_result = None,
     act_result_sha = None, act_created_by = None, act_started = None, act_completed = None, act_created = 0\<rparr>"

definition sample_queue :: db where
  "sample_queue = (empty_db 0)\<lparr>actions := [sample_action], db_next := 61\<rparr>"

definition sample_queue_env :: policy_env where
  "sample_queue_env = \<lparr>pe_validate = (\<lambda>_. None), pe_validate_rule = (\<lambda>_. None), pe_sha = (\<lambda>_. [])\<rparr>"

lemma sample_queue_ok: "actions_ok (pe_sha sample_queue_env) sample_queue"
  by (simp add: actions_ok_def sample_queue_def sample_action_def sample_queue_env_def action_ok_def hashed_def
      payload_sha256_def empty_db_def)

lemma sample_queue_tables [simp]: "actions sample_queue = [sample_action]" "db_now sample_queue = 0"
  by (simp_all add: sample_queue_def empty_db_def)

lemma sample_due: "due_action 7 None 0 sample_action"
  by (simp add: due_action_def sample_action_def lease_free_def)

lemma sample_candidate: "lease_candidate sample_queue 7 None 0 = Some sample_action"
  by (simp add: lease_candidate_def sample_due order_by_def)

lemma sample_lease:
  "lease_next_action (\<lambda>_ s. s) sample_queue 7 9 None None =
     (Inr (Some (leased_action 9 0 sample_action sample_action)), put_action (leased_action 9 0 sample_action sample_action) sample_queue)"
  by (simp add: lease_next_serial [OF sample_queue_ok] given_def sample_candidate)

text \<open>C17: Every operation of the queue, run on its own, keeps every row well formed: the bounds of its columns, an owner and a lease exactly
  while it runs, an end exactly when it is over, an attempt left while it is queued, hashes that match the payloads,
  and unique identifiers and idempotency keys.  It moves each action by at most one step of its life cycle and never
  changes what was fixed at its creation.\<close>

theorem queue_rows_well_formed:
  assumes "actions_ok (pe_sha env) db"
  shows "actions_ok (pe_sha env) (run_op env op db) \<and>
    (\<forall>a\<in>set (actions db). \<exists>b\<in>set (actions (run_op env op db)).
       b = a \<or> same_action a b \<and> act_step (act_max_attempts a) (stage a) (stage b))"
  using op_progress [OF assms, of op] unfolding progress_def moves_to_def by blast

theorem queue_rows_well_formed_witness:
  "actions_ok (\<lambda>_. []) (run_op sample_queue_env (Lease 7 9 None None) sample_queue) \<and>
   actions (run_op sample_queue_env (Lease 7 9 None None) sample_queue) = [leased_action 9 0 sample_action sample_action]"
  using queue_rows_well_formed [OF sample_queue_ok, of "Lease 7 9 None None"]
  by (simp add: sample_lease put_action_def leased_action_def sample_queue_env_def)

text \<open>An operation that overlaps with others is the serial run of the others first and the operation after them, as long as
  the others leave its row and the clock alone.\<close>

lemma interleaved_change_is_serial:
  assumes "get_action (others db) t i = get_action db t i" "get_action db t i = Inr a" "f a = Inr b"
  shows "change_action others db t i f = change_action (\<lambda>s. s) (others db) t i f"
  using assms by (simp add: change_action_def)

fun changes :: "policy_env \<Rightarrow> uuid \<Rightarrow> action_op list \<Rightarrow> db \<Rightarrow> nat" where
  \<comment> \<open>how many operations of a run change the action\<close>
  "changes env i [] db = 0"
| "changes env i (op # ops) db =
     (if first_match (\<lambda>a. act_id a = i) (actions (run_op env op db)) = first_match (\<lambda>a. act_id a = i) (actions db)
      then 0 else 1) + changes env i ops (run_op env op db)"

lemma find_action:
  assumes "actions_ok sha db" "a \<in> set (actions db)"
  shows "first_match (\<lambda>b. act_id b = act_id a) (actions db) = Some a"
  using assms by (intro first_match_unique [where k = act_id]) (auto simp: actions_ok_def)

lemma changes_relpow:
  assumes "actions_ok (pe_sha env) db" "a \<in> set (actions db)"
  shows "\<exists>b\<in>set (actions (run_ops env ops db)). (moves_to (pe_sha env) ^^ changes env (act_id a) ops db) a b"
  using assms
proof (induction ops arbitrary: db a)
  case (Cons op ops)
  let ?db = "run_op env op db"
  have p: "progress (pe_sha env) db ?db" by (rule op_progress [OF Cons.prems(1)])
  then have ok: "actions_ok (pe_sha env) ?db" by (simp add: progress_def)
  obtain b where b: "b \<in> set (actions ?db)" "b = a \<or> moves_to (pe_sha env) a b"
    using p Cons.prems(2) unfolding progress_def by blast
  have i: "act_id b = act_id a" using b(2) by (auto simp: moves_to_def same_action_def)
  obtain c where c: "c \<in> set (actions (run_ops env ops ?db))" "(moves_to (pe_sha env) ^^ changes env (act_id a) ops ?db) b c"
    using Cons.IH [OF ok b(1)] i by auto
  have "first_match (\<lambda>x. act_id x = act_id a) (actions ?db) = Some b" using find_action [OF ok b(1)] i by simp
  then have n: "changes env (act_id a) (op # ops) db = (if b = a then 0 else 1) + changes env (act_id a) ops ?db"
    using find_action [OF Cons.prems] by simp
  show ?case
  proof (cases "b = a")
    case True
    then show ?thesis using c n by auto
  next
    case False
    then have "(moves_to (pe_sha env) ^^ Suc (changes env (act_id a) ops ?db)) a c"
      using b(2) c(2) by (blast intro: relpowp_Suc_I2)
    then show ?thesis using c(1) n False by auto
  qed
qed auto

text \<open>C16: Work on an action ends: in any run of the queue, of any length, whose operations run one after the other - each
  reads and commits before the next one reads - an action changes at most twice per attempt it has left and twice more, its
  attempts never exceed its maximum and never go down, and once it has succeeded, failed or been cancelled its row does not
  change any more.  A run whose overlapping operations leave each other's row and clock alone is such a run
  (\<open>interleaved_change_is_serial\<close>); without that restriction the last part is false, since completion, failure and
  cancellation read without a lock (\<open>completion_overwrites_cancellation\<close>).\<close>

theorem action_work_terminates:
  assumes "actions_ok (pe_sha env) db" "a \<in> set (actions db)"
  shows "\<exists>b\<in>set (actions (run_ops env ops db)). same_action a b \<and>
    int (changes env (act_id a) ops db) \<le> 2 * (act_max_attempts a - act_attempts a) + 2 \<and>
    act_attempts a \<le> act_attempts b \<and> act_attempts b \<le> act_max_attempts a \<and> (terminal (act_status a) \<longrightarrow> b = a)"
proof -
  let ?n = "changes env (act_id a) ops db"
  obtain b where b: "b \<in> set (actions (run_ops env ops db))" "(moves_to (pe_sha env) ^^ ?n) a b"
    using changes_relpow [OF assms] by blast
  have star: "(moves_to (pe_sha env))\<^sup>*\<^sup>* a b" using b(2) by (rule relpowp_imp_rtranclp)
  note s = moves_same [OF star] moves_steps [OF star]
  have "action_ok b" "action_ok a" using run_ok [OF assms(1)] b(1) assms by (auto simp: actions_ok_def)
  then have ab: "act_attempts b \<le> act_max_attempts a" "act_attempts a \<le> act_max_attempts a"
    using s(1) by (simp_all add: action_ok_def same_action_def)
  have "?n + act_rank (act_max_attempts a) (stage b) \<le> act_rank (act_max_attempts a) (stage a)"
    using moves_relpow [OF b(2)] by (blast intro: action_life.run_bounded)
  moreover have "act_rank (act_max_attempts a) (stage a) \<le> nat (2 * (act_max_attempts a - act_attempts a)) + 2"
    by (cases "act_status a") (simp_all add: stage_def)
  ultimately have "int ?n \<le> 2 * (act_max_attempts a - act_attempts a) + 2" using ab(2) by (simp add: nat_le_iff)
  moreover have "act_attempts a \<le> act_attempts b" using attempts_grow [OF s(2)] by (simp add: stage_def)
  moreover have "b = a" if "terminal (act_status a)"
    using action_life.final_stays [OF s(2)] that moves_back [OF star] by (simp add: stage_def)
  ultimately show ?thesis using b(1) s(1) ab(1) by blast
qed

theorem action_work_terminates_witness:
  "int (changes sample_queue_env 60 [Lease 7 9 None None, Wait 1, Lease 7 8 None None] sample_queue) \<le> 8"
proof -
  have a: "sample_action \<in> set (actions sample_queue)" by simp
  show ?thesis
    using action_work_terminates [OF sample_queue_ok a, of "[Lease 7 9 None None, Wait 1, Lease 7 8 None None]"]
    by (auto simp: sample_action_def simp del: changes.simps run_ops_simps)
qed

text \<open>The lease takes the action that is due first: without interference it returns an action exactly when the tenant
  has one that is due (of the requested type), namely one with the least retry time and among those the earliest created,
  gives it to the worker for its lease time, counts the attempt, and leaves every other row as it was.\<close>

theorem lease_takes_first_due:
  assumes "actions_ok (pe_sha env) db"
    "as_of = given now (db_now db)" "x = map_option norm_key ty"
  shows "(lease_next_action (\<lambda>_ s. s) db t w ty now = (Inr None, db) \<and> (\<forall>a\<in>set (actions db). \<not> due_action t x as_of a)) \<or>
    (\<exists>c\<in>set (actions db). due_action t x as_of c \<and>
       (\<forall>a\<in>set (actions db). due_action t x as_of a \<longrightarrow>
          act_next_retry c < act_next_retry a \<or> act_next_retry c = act_next_retry a \<and> act_created c \<le> act_created a) \<and>
       lease_next_action (\<lambda>_ s. s) db t w ty now =
         (Inr (Some (leased_action w as_of c c)), put_action (leased_action w as_of c c) db))"
proof (cases "lease_candidate db t x as_of")
  case None
  then have "lease_next_action (\<lambda>_ s. s) db t w ty now = (Inr None, db)"
    using assms(2,3) lease_next_serial [OF assms(1), of t w ty now] by simp
  then show ?thesis using None lease_candidate_None by blast
next
  case (Some c)
  note l = lease_candidate_Some [OF Some]
  have "lease_next_action (\<lambda>_ s. s) db t w ty now =
      (Inr (Some (leased_action w as_of c c)), put_action (leased_action w as_of c c) db)"
    using lease_next_serial [OF assms(1), of t w ty now] Some assms(2,3) by simp
  then show ?thesis using l by blast
qed

theorem lease_takes_first_due_witness:
  "lease_next_action (\<lambda>_ s. s) sample_queue 7 9 None None =
     (Inr (Some (leased_action 9 0 sample_action sample_action)), put_action (leased_action 9 0 sample_action sample_action) sample_queue)"
  using lease_takes_first_due [OF sample_queue_ok, of 0 None None None 7 9] sample_due by (simp add: given_def)

text \<open>C15: A claim is exclusive: whatever queue operations other transactions commit between the reads and the writes of a
  lease, the action it returns was queued with an attempt left when it was claimed, belongs to the worker afterwards, and
  no other row changes; and whenever that action is leased again, by anyone and after any run, it is a later attempt.\<close>

theorem lease_is_exclusive:
  assumes "queue_others env others" "actions_ok (pe_sha env) db" "lease_next_action others db t w ty now = (Inr (Some a), db')"
  shows "(\<exists>ops. \<exists>c\<in>set (actions (run_ops env ops db)). act_status c = QUEUED \<and> act_attempts c < act_max_attempts c \<and>
      act_tenant c = t \<and> a = leased_action w (given now (db_now db)) c c \<and>
      db' = put_action a (run_ops env ops db)) \<and>
    actions_ok (pe_sha env) db' \<and> a \<in> set (actions db') \<and>
    (\<forall>ops w' ty' now' b db2. lease_next_action (\<lambda>_ s. s) (run_ops env ops db') t w' ty' now' = (Inr (Some b), db2) \<and>
       act_id b = act_id a \<longrightarrow> act_attempts a < act_attempts b)"
proof -
  let ?as_of = "given now (db_now db)"
  obtain mid c where "claimed env t w ?as_of db (Inr (Some a), db') mid c"
    using lease_loop_claims [OF assms(1,2), of 5 t w "map_option norm_key ty" ?as_of] assms(3)
    by (auto simp: lease_next_action_def)
  then obtain ops where c: "c \<in> set (actions mid)" "act_tenant c = t" "act_status c = QUEUED" "act_attempts c < act_max_attempts c"
      "lease_free ?as_of c" and mid: "mid = run_ops env ops db" and a: "a = leased_action w ?as_of c c" and db': "db' = put_action a mid"
    unfolding claimed_def by blast
  have okm: "actions_ok (pe_sha env) mid" unfolding mid by (rule run_ok [OF assms(2)])
  note m = lease_write(4) [OF okm c(1,2,3,5), of w, folded a]
  have ok': "actions_ok (pe_sha env) db'" "a \<in> set (actions db')"
    using put_action_ok(1,2) [OF okm c(1) m] by (simp_all add: db')
  have "act_attempts a < act_attempts b"
    if run: "lease_next_action (\<lambda>_ s. s) (run_ops env ops' db') t w' ty' now' = (Inr (Some b), db2)" and i: "act_id b = act_id a"
    for ops' w' ty' now' b db2
  proof -
    let ?later = "run_ops env ops' db'"
    have okl: "actions_ok (pe_sha env) ?later" by (rule run_ok [OF ok'(1)])
    obtain d where cand: "lease_candidate ?later t (map_option norm_key ty') (given now' (db_now ?later)) = Some d"
        and b: "b = leased_action w' (given now' (db_now ?later)) d d"
      using run unfolding lease_next_serial [OF okl] by (auto split: option.splits)
    note d = lease_candidate_Some(1) [OF cand]
    obtain e where e: "e \<in> set (actions ?later)" "(moves_to (pe_sha env))\<^sup>*\<^sup>* a e" using run_rows [OF ok'] by blast
    have "act_id e = act_id d" using moves_same [OF e(2)] i b by (simp add: same_action_def leased_action_def)
    then have "e = d" by (rule action_unique [OF okl e(1) d])
    then have "act_attempts a \<le> act_attempts d" using attempts_grow [OF moves_steps [OF e(2)]] by (simp add: stage_def)
    then show ?thesis by (simp add: b leased_action_def)
  qed
  moreover have "\<exists>ops. \<exists>c\<in>set (actions (run_ops env ops db)). act_status c = QUEUED \<and> act_attempts c < act_max_attempts c \<and>
      act_tenant c = t \<and> a = leased_action w ?as_of c c \<and> db' = put_action a (run_ops env ops db)"
    using c a db' unfolding mid by (intro exI [of _ ops] bexI [of _ c] conjI)
  ultimately show ?thesis using ok' by (intro conjI allI impI) blast+
qed

theorem lease_is_exclusive_witness:
  "\<exists>a db'. lease_next_action (\<lambda>_ s. s) sample_queue 7 9 None None = (Inr (Some a), db') \<and>
     actions_ok (pe_sha sample_queue_env) db' \<and> a \<in> set (actions db')"
proof -
  have "queue_others sample_queue_env (\<lambda>_ s. s)" unfolding queue_others_def by (metis run_ops_simps(1))
  then show ?thesis using lease_is_exclusive [OF _ sample_queue_ok sample_lease] sample_lease by blast
qed

text \<open>
  Completion reads the row without a lock and writes only its changed columns: a cancellation that commits in between
  is overwritten, although a cancelled action is terminal.
\<close>

theorem completion_overwrites_cancellation:
  assumes ok: "actions_ok sha db" and a: "a \<in> set (actions db)" "act_status a = RUNNING" "act_worker a = Some w"
    and r: "plain_json (PDict (given payload []))"
  shows "\<exists>b db'. complete_action sha (\<lambda>s. snd (cancel_action sha (\<lambda>s. s) s (act_tenant a) (act_id a) actor None None)) db
      (act_tenant a) (act_id a) w payload None = (Inr b, db') \<and> act_status b = SUCCEEDED"
proof -
  let ?c = "a\<lparr>act_status := CANCELLED, act_worker := None, act_lease := None, act_completed := Some (db_now db),
      act_next_retry := db_now db\<rparr>"
  have c: "cancelled_action sha actor None (db_now db) a = Inr ?c" by (simp add: cancelled_action_def a Let_def)
  have get: "get_action db (act_tenant a) (act_id a) = Inr a" by (rule action_found [OF ok a(1)])
  have m: "moves_to sha a ?c" using cancelled_writes c ok a(1) unfolding writes_def actions_ok_def by blast
  have cancelled: "snd (cancel_action sha (\<lambda>s. s) db (act_tenant a) (act_id a) actor None None) = put_action ?c db"
    using change_found(2) [OF ok cancelled_writes a(1) c] by (simp add: cancel_action_def given_def)
  obtain b where b: "completed_action sha w payload (db_now db) a = Inr b" "act_status b = SUCCEEDED"
    using a r by (auto simp: completed_action_def owned_by_def json_sha256_def Let_def)
  have row: "?c \<in> set (actions (put_action ?c db))" by (rule put_action_ok(2) [OF ok a(1) m])
  let ?db = "(put_action ?c db)\<lparr>actions := update_rows (\<lambda>r. act_id r = act_id a) (flush a b) (actions (put_action ?c db))\<rparr>"
  have f: "act_id (flush a b x) = act_id x \<and> act_tenant (flush a b x) = act_tenant x \<and> act_status (flush a b x) = SUCCEEDED" for x
    using a(2) b(2) by (simp add: flush_def)
  have "get_action ?db (act_tenant a) (act_id a) = Inr (flush a b ?c)"
    using action_found [OF put_action_ok(1) [OF ok a(1) m] row] f
    by (simp add: get_action_def first_match_update_rows split: option.splits)
  then show ?thesis using get b cancelled f by (simp add: complete_action_def change_action_def given_def Let_def)
qed

end
