(* ===== verification/Control_Plane.thy ===== *)
theory Control_Plane
  imports Reconciliation_Safety Actions_Safety
begin

text \<open>
  The whole control plane as one transition system: every operation of the enforcement service on one database, in any
  order and for any tenants, with the operations that other transactions commit while a gate waits for its lock.  What
  holds in every state it reaches, and what a redeemed token is worth afterwards.
\<close>

section \<open>The transition system\<close>

record plane =
  pn_gate :: gate_env
  pn_flow :: flow_env

abbreviation plane_sha :: "plane \<Rightarrow> string \<Rightarrow> string" where
  "plane_sha E \<equiv> pe_sha (ge_policy (pn_gate E))"

inductive plane_step :: "plane \<Rightarrow> db \<Rightarrow> db \<Rightarrow> bool" for E where
  gate: "(\<forall>s. s = db \<or> (\<exists>p. get_or_create_policy (ge_policy (pn_gate E)) db t = Inr (p, s)) \<longrightarrow> (plane_step E)\<^sup>*\<^sup>* s (f s)) \<Longrightarrow>
    plane_step E db (snd (evaluate_gate ((pn_gate E)\<lparr>ge_others := f\<rparr>) db t actor source g))"
| fail_safe: "plane_step E db (snd (resolve_fail_safe_gate (pn_gate E) db t actor source g code meta))"
| open_request: "plane_step E db (snd (create_approval (pn_flow E) db t actor i nt))"
| approve: "plane_step E db (snd (approve_request (pn_flow E) db t i reviewer nt))"
| deny: "plane_step E db (snd (deny_request (pn_flow E) db t i reviewer nt))"
| redeem: "plane_step E db (snd (consume_token (pn_flow E) db t token who x))"
| reconcile: "plane_step E db (snd (reconcile_reservation (plane_sha E) (\<lambda>s. s) db t i actor actual nt key))"
| sweep: "plane_step E db (snd (reconcile_overdue (plane_sha E) db t actor older limit))"
| budget: "plane_step E db (snd (upsert_budget db t actor scope amount active))"
| grant: "plane_step E db (snd (create_credit_grant db t actor pool scope amount expires reason))"
| policy: "plane_step E db (snd (update_policy (ge_policy (pn_gate E)) db t inp))"
| queue: "plane_step E db (run_op (ge_policy (pn_gate E)) op db)"
| costs: "plane_step E db (db\<lparr>costs := cs\<rparr>)"

section \<open>The invariant of the system\<close>

definition grant_ids :: "db \<Rightarrow> bool" where
  "grant_ids db = (\<forall>g\<in>set (grants db). gr_id g < db_next db)"

definition sound :: "plane \<Rightarrow> db \<Rightarrow> bool" where
  "sound E db = (world db \<and> rows_ok db \<and> actions_ok (plane_sha E) db \<and> grant_ids db)"

definition keeps :: "db \<Rightarrow> db \<Rightarrow> bool" where
  \<comment> \<open>the actions and the identities of the grants are as before\<close>
  "keeps db db' = (actions db' = actions db \<and> map gr_id (grants db') = map gr_id (grants db) \<and> db_next db \<le> db_next db')"

lemma keeps_refl [simp]: "keeps db db"
  by (simp add: keeps_def)

lemma keeps_trans [trans]: "keeps a b \<Longrightarrow> keeps b c \<Longrightarrow> keeps a c"
  by (simp add: keeps_def)

lemma keeps_same: "same_tables db db' \<Longrightarrow> keeps db db'"
  by (simp add: keeps_def same_tables_def)

lemma keeps_frame: "credit_frame db db' \<Longrightarrow> keeps db db'"
  by (simp add: keeps_def credit_frame_def)

lemma keeps_policy: "get_or_create_policy env db t = Inr (p, db1) \<Longrightarrow> keeps db db1"
  by (rule keeps_same [OF get_or_create_tables])

lemma keeps_simps [simp]:
  "keeps db (update_approval i f db1) = keeps db db1" "keeps db (update_decision i g db1) = keeps db db1"
  by (simp_all add: keeps_def)

lemma keeps_ledger: "keeps db db1 \<Longrightarrow> keeps db (append_ledger sha d a db1)"
  by (simp add: keeps_def)

lemma keeps_sound:
  assumes "sound E db" "world db' \<and> evolves db db'" "keeps db db'"
  shows "sound E db' \<and> evolves db db'"
proof -
  have "actions_ok (plane_sha E) db'"
    using assms(1,3) by (force simp: sound_def actions_ok_def keeps_def)
  moreover have "gr_id g < db_next db'" if "g \<in> set (grants db')" for g
  proof -
    have "gr_id g \<in> set (map gr_id (grants db))" using that assms(3) by (metis keeps_def image_eqI list.set_map)
    then show ?thesis using assms(1,3) by (force simp: sound_def grant_ids_def keeps_def)
  qed
  ultimately show ?thesis using assms evolvesD(1) by (auto simp: sound_def grant_ids_def)
qed

section \<open>Settlements\<close>

lemma settle_loop_frame: "settle_loop t now rows c r db = Inr (diags, c', r', db') \<Longrightarrow> credit_frame db db'"
proof (induction rows arbitrary: c r db diags)
  case (Cons a rows)
  let ?one = "\<lambda>g c r. settle_one now g a c r db"
  obtain g c1 r1 c2 r2 ds where "settle_loop t now rows c1 r1 (settle_one now g a c2 r2 db) = Inr (ds, c', r', db')"
    using Cons.prems by (auto simp: Let_def and_then_Inr settle_one_def split: option.splits)
  from Cons.IH [OF this] show ?case by (rule credit_frame_trans [OF settle_one_frame])
qed simp

lemma settle_frame: "settle_credit_reservations db t d c now = Inr (diags, db1) \<Longrightarrow> credit_frame db db1"
  by (auto simp: settle_credit_reservations_def Let_def and_then_Inr split: if_splits dest: settle_loop_frame)

lemma settle_keeps: "settle_credit_reservations db t d c now = Inr (diags, db1) \<Longrightarrow> keeps db db1"
  by (rule keeps_frame [OF settle_frame])

section \<open>What each operation keeps\<close>

lemma approve_keeps: "keeps db (snd (approve_request env db t i u n))"
proof -
  obtain res db' where run: "approve_request env db t i u n = (res, db')" by fastforce
  then have "keeps db db'"
  proof (cases rule: approve_request_cases)
    case (expired a d)
    then show ?thesis by (auto simp: expire_request_def and_then_Inr intro!: keeps_ledger dest: settle_keeps)
  next
    case (granted a d r)
    from granted(3) show ?thesis
      by (cases rule: grant_request_steps) (auto intro!: keeps_ledger dest: keeps_policy)
  qed simp
  then show ?thesis by (simp add: run)
qed

lemma deny_keeps: "keeps db (snd (deny_request env db t i u n))"
proof -
  obtain res db' where run: "deny_request env db t i u n = (res, db')" by fastforce
  have "keeps db db'"
  proof (cases res)
    case (Inl e)
    with run show ?thesis by (simp add: deny_request_def commit_eq)
  next
    case (Inr x)
    with run have "deny_request env db t i u n = (Inr (fst x, snd x), db')" by simp
    then show ?thesis
      by (cases rule: deny_request_steps) (auto intro!: keeps_ledger dest!: keeps_policy settle_keeps intro: keeps_trans)
  qed
  then show ?thesis by (simp add: run)
qed

lemma redeem_keeps: "keeps db (snd (consume_token env db t token who x))"
  by (auto simp: consume_token_def commit_def mark_consumed_def Let_def and_then_def keeps_def split: sum.splits prod.splits if_splits)

lemma open_keeps: "keeps db (snd (create_approval env db t actor i n))"
proof -
  have "keeps db db1" if "open_approval p d actor now ttl n z = Inr (a, db1)" "keeps db z" for p d now ttl z a db1
    using that by (auto simp: open_approval_def and_then_Inr Let_def request_approval_def keeps_def)
  moreover have "keeps db z" if "get_or_create_policy (fe_policy env) db t = Inr (p, z)" for p z by (rule keeps_policy [OF that])
  ultimately show ?thesis
    using commit_state [of db] unfolding create_approval_def
    by (auto split: option.split simp: commit_def and_then_def intro!: keeps_ledger split: sum.split prod.split)
qed

lemma reconcile_keeps: "keeps db (snd (reconcile_reservation sha (\<lambda>s. s) db t i actor actual n k))"
proof -
  have "keeps db db'" if "settle_reconciliation sha db t d actor x n' k' = Inr (r, db')" for d x n' k' r db'
    using that by (auto simp: settle_reconciliation_def Let_def and_then_Inr intro!: keeps_ledger dest: settle_keeps)
  then show ?thesis
    by (auto simp: reconcile_reservation_def Let_def commit_def split: option.split sum.split)
qed

lemma sweep_loop_keeps: "overdue_loop sha t actor age now ds db = Inr (x, db') \<Longrightarrow> keeps db db'"
proof (induction ds arbitrary: db x)
  case (Cons d ds)
  show ?case
  proof (cases "claimable db t (dec_id d)")
    case True
    then obtain diags db1 y z where s: "settle_credit_reservations db t d 0 now = Inr (diags, db1)"
      and loop: "overdue_loop sha t actor age now ds (append_ledger sha z (get_approval_by_decision db1 (dec_id d))
          (update_decision (dec_id d) (overdue_decision actor age (quantize4 (dec_reserved_alloc d + dec_reserved_credit d)) diags now) db1)) = Inr (y, db')"
      using Cons.prems by (auto simp: Let_def and_then_Inr)
    have "keeps db (append_ledger sha z (get_approval_by_decision db1 (dec_id d))
          (update_decision (dec_id d) (overdue_decision actor age (quantize4 (dec_reserved_alloc d + dec_reserved_credit d)) diags now) db1))"
      by (rule keeps_ledger) (simp add: settle_keeps [OF s])
    then show ?thesis using Cons.IH [OF loop] by (rule keeps_trans)
  next
    case False
    with Cons show ?thesis by auto
  qed
qed simp

lemma sweep_keeps: "keeps db (snd (reconcile_overdue sha db t actor older limit))"
  by (auto simp: reconcile_overdue_def Let_def split: sum.split dest: sweep_loop_keeps)

lemma policy_keeps: "keeps db (snd (update_policy env db t inp))"
  using keeps_policy [of env db t]
  by (auto simp: update_policy_def Let_def put_policy_def keeps_def split: sum.split)

lemma store_keeps:
  assumes w: "world db" and ok: "pending_ok t source key pending"
    and run: "store_decision sha db t pending g mode p actor now ttl = Inr (r, db')"
  shows "keeps db db'"
  using run
proof (cases rule: store_decision_steps)
  case (1 rows db2 d0 d a db4)
  have "moved (insert_decision d0 db) db2 t (dec_id d0) (due_hold d0)"
    using reserve_pending_moved [OF 1(3) ok 1(1) books_insert refs_insert] worldD [OF w] by auto
  then have "keeps (insert_decision d0 db) db2" unfolding moved_def by (intro keeps_frame) blast
  then have "keeps db db2" by (simp add: keeps_def insert_decision_def)
  moreover have "keeps db2 db4"
    using optional_approval_Inr [OF 1(4)] request_approval_Inr [of p d actor now ttl "set_response (dec_id d) (dec_response d) db2"]
    by (cases a) (auto simp: keeps_def)
  ultimately show ?thesis unfolding 1(6) by (intro keeps_ledger) (rule keeps_trans)
qed

section \<open>Every step keeps the invariant\<close>

lemma sound_world: "sound E db \<Longrightarrow> world db"
  by (simp add: sound_def)

lemma policy_sound:
  assumes "sound E db" "get_or_create_policy env db t = Inr (p, db1)"
  shows "sound E db1 \<and> evolves db db1"
  using keeps_sound [OF assms(1) _ keeps_policy [OF assms(2)]] policy_step(1,2) [OF sound_world [OF assms(1)] assms(2)]
  by (simp add: evolves_same)

lemma store_sound:
  assumes s: "sound E db" and ok: "pending_ok t source key pending" and new: "get_decision_by_idempotency db t source key = None"
    and run: "store_decision sha db t pending g mode p actor now ttl = Inr (r, db')"
  shows "sound E db' \<and> evolves db db'"
proof -
  note w = sound_world [OF s]
  note st = store_decision_world(1,2) [OF w ok new run]
  have "evolves db db'"
    using run
  proof (cases rule: store_decision_steps)
    case (1 rows db2 d0 d a db4)
    have "apr_token_hash x = None \<and> apr_token_consumed x = None" if "a = Some x" for x
      using optional_approval_Inr [OF 1(4)] that
        request_approval_Inr [of p d actor now ttl "set_response (dec_id d) (dec_response d) db2" x db4] by simp
    then show ?thesis
      using st(2) by (intro evolves_new [where as = "case res_approval r of None \<Rightarrow> [] | Some a \<Rightarrow> [a]"])
        (auto simp: stored_def 1(5) row_ok_def split: option.splits)
  qed
  then show ?thesis using keeps_sound [OF s _ store_keeps [OF w ok run]] st(1) by blast
qed

lemma gate_sound:
  assumes s: "sound E db" and f: "\<And>x. x = db \<or> (\<exists>p. get_or_create_policy (ge_policy (pn_gate E)) db t = Inr (p, x)) \<Longrightarrow> sound E x \<Longrightarrow>
      sound E (f x) \<and> evolves x (f x)"
  shows "sound E (snd (evaluate_gate ((pn_gate E)\<lparr>ge_others := f\<rparr>) db t actor source g)) \<and>
    evolves db (snd (evaluate_gate ((pn_gate E)\<lparr>ge_others := f\<rparr>) db t actor source g))"
proof -
  let ?env = "(pn_gate E)\<lparr>ge_others := f\<rparr>"
  obtain res db' where run: "evaluate_gate ?env db t actor source g = (res, db')" by fastforce
  have f0: "sound E (f db) \<and> evolves db (f db)" using f [of db] s by simp
  have same: "sound E db \<and> evolves db db" using s by (simp add: evolves_same)
  from run have "sound E db' \<and> evolves db db'"
  proof (cases rule: evaluate_gate_cases)
    case (failed e)
    from failed(2) show ?thesis
    proof
      assume "db' = ge_others ?env db"
      then show ?thesis using f0 by simp
    qed (use same in simp)
  next
    case (replayed gc db1 r)
    then show ?thesis using same by simp
  next
    case (replayed_late gc db1 r)
    then show ?thesis using f0 by simp
  next
    case (stored gc db1 db2 r)
    obtain p where p: "get_or_create_policy (ge_policy (pn_gate E)) db t = Inr (p, db1)"
      using build_context_Inr(1) [OF stored(1)] by auto
    have 1: "sound E db1 \<and> evolves db db1" by (rule policy_sound [OF s p])
    have 2: "sound E db2 \<and> evolves db1 db2" using f [of db1] p 1 stored(2) by simp
    have 3: "sound E db' \<and> evolves db2 db'"
      by (rule store_sound [OF conjunct1 [OF 2] gate_pending_ok stored(3,4)])
    show ?thesis using 1 2 3 by (blast intro: evolves_trans)
  qed
  then show ?thesis by (simp add: run)
qed

lemma fail_safe_sound:
  assumes s: "sound E db"
  shows "sound E (snd (resolve_fail_safe_gate env db t actor source g code meta)) \<and>
    evolves db (snd (resolve_fail_safe_gate env db t actor source g code meta))"
proof -
  obtain res db' where run: "resolve_fail_safe_gate env db t actor source g code meta = (res, db')" by fastforce
  then have "sound E db' \<and> evolves db db'"
  proof (cases rule: fail_safe_gate_cases)
    case (stored gc db1 r)
    obtain p where "get_or_create_policy (ge_policy env) db t = Inr (p, db1)" using build_context_Inr(1) [OF stored(1)] by auto
    from policy_sound [OF s this] have 1: "sound E db1 \<and> evolves db db1" .
    have "sound E db' \<and> evolves db1 db'" by (rule store_sound [OF conjunct1 [OF 1] fail_safe_pending_ok stored(2,3)])
    then show ?thesis using 1 by (blast intro: evolves_trans)
  qed (use s in \<open>simp_all add: evolves_same\<close>)
  then show ?thesis by (simp add: run)
qed

lemma reconcile_world:
  assumes w: "world db"
  shows "world (snd (reconcile_reservation sha (\<lambda>s. s) db t i actor actual n k)) \<and>
    approvals (snd (reconcile_reservation sha (\<lambda>s. s) db t i actor actual n k)) = approvals db"
proof -
  have "world db' \<and> approvals db' = approvals db"
    if "settle_reconciliation sha db t d actor x n' k' = Inr (r, db')" "d \<in> set (decisions db)" "dec_id d = i" "dec_tenant d = t"
      "dec_reservation_active d" "on_grid 4 x" "0 \<le> x" for d x n' k' r db'
  proof
    show "world db'" using settle_reconciliation_ok [OF w that(2,5,3,4,3) refl refl that(6,7), of sha actor n' k'] that(1) by auto
    show "approvals db' = approvals db"
      using that(1) by (auto simp: settle_reconciliation_def Let_def and_then_Inr credit_frame_def dest!: settle_frame)
  qed
  then show ?thesis
    using w by (auto simp: reconcile_reservation_def Let_def commit_def not_less split: option.split sum.split dest!: first_match_SomeD)
qed

lemma sweep_world:
  assumes w: "world db"
  shows "world (snd (reconcile_overdue sha db t actor older limit)) \<and>
    approvals (snd (reconcile_overdue sha db t actor older limit)) = approvals db"
proof -
  let ?ds = "overdue_rows db t (clamp 60 604800 older) (clamp 1 1000 limit)"
  obtain x db' where run: "overdue_loop sha t actor (clamp 60 604800 older) (db_now db) ?ds db = Inr (x, db')" and "swept db db' ?ds"
    using overdue_loop_ok [OF w overdue_rows_distinct [OF w]] overdue_rows_in(1) [OF w] by blast
  then have "world db'" "approvals db' = approvals db" using sweptD(1,7) by blast+
  then show ?thesis using w run by (cases x) (simp add: reconcile_overdue_def Let_def)
qed

lemma policy_update_world:
  assumes w: "world db"
  shows "world (snd (update_policy env db t inp)) \<and> approvals (snd (update_policy env db t inp)) = approvals db"
proof -
  have "world (put_policy (apply_materialization m True p) db1) \<and> approvals (put_policy (apply_materialization m True p) db1) = approvals db"
    if g: "get_or_create_policy env db t = Inr (p, db1)" for m p db1
  proof -
    note b = policy_step [OF w g] and found = get_or_create_found [OF worldD(1) [OF w] g]
    have "policies_ok (put_policy (apply_materialization m True p) db1)"
      using found by (intro find_policy_put(2) [of db1 t p]) (simp_all add: apply_materialization_def)
    then have "world (put_policy (apply_materialization m True p) db1)"
      by (rule world_cong [OF b(1)]) (simp_all add: put_policy_def)
    then show ?thesis using b(2) by (simp add: put_policy_def)
  qed
  then show ?thesis using w by (auto simp: update_policy_def Let_def split: sum.split)
qed

lemma budget_world:
  assumes w: "world db"
  shows "world (snd (upsert_budget db t actor scope x a)) \<and> approvals (snd (upsert_budget db t actor scope x a)) = approvals db \<and>
    keeps db (snd (upsert_budget db t actor scope x a))"
  using w by (auto simp: upsert_budget_def Let_def keeps_def intro!: world_cong [OF w] policies_ok_cong [OF worldD(1) [OF w]]
      split: option.split)

lemma created_grant:
  obtains "snd (create_credit_grant db t actor pool scope x expires reason) = db"
  | g where "snd (create_credit_grant db t actor pool scope x expires reason) = db\<lparr>grants := grants db @ [g], db_next := db_next db + 1\<rparr>"
      "gr_id g = db_next db" "gr_total g = quantize4 x" "gr_remaining g = quantize4 x" "0 < quantize4 x"
proof -
  let ?g = "\<lparr>gr_id = db_next db, gr_tenant = t, gr_pool = pool, gr_scope = normalize_scope scope,
      gr_total = quantize4 x, gr_remaining = quantize4 x, gr_expires = expires,
      gr_reason = (case reason of None \<Rightarrow> None | Some r \<Rightarrow> if r = [] then None else Some (strip r)),
      gr_active = True, gr_created_by = Some actor, gr_created = db_now db\<rparr>"
  show thesis
    by (cases "quantize4 x \<le> 0 \<or> (case expires of None \<Rightarrow> False | Some e \<Rightarrow> e \<le> db_now db)")
      (auto simp: create_credit_grant_def Let_def intro: that(1) that(2) [of ?g])
qed

lemma grant_sound:
  assumes s: "sound E db"
  shows "sound E (snd (create_credit_grant db t actor pool scope x expires reason)) \<and>
    evolves db (snd (create_credit_grant db t actor pool scope x expires reason))"
proof -
  let ?db' = "snd (create_credit_grant db t actor pool scope x expires reason)"
  show ?thesis
  proof (cases rule: created_grant [of db t actor pool scope x expires reason])
    case 1
    then show ?thesis using s by (simp add: evolves_same)
  next
    case (2 g)
    note db' = 2(1) and g = 2(2-5)
    note w = sound_world [OF s]
    have ids: "gr_id h < db_next db" if "h \<in> set (grants db)" for h using s that by (simp add: sound_def grant_ids_def)
    have al: "al_grant a \<noteq> db_next db" if "a \<in> set (allocs db)" for a
      using worldD(3) [OF w] that ids unfolding alloc_refs_def by (metis less_irrefl)
    have "total (held_on (gr_id g)) (allocs db) = total (\<lambda>_. 0) (allocs db)"
         "total (spent_on (gr_id g)) (allocs db) = total (\<lambda>_. 0) (allocs db)"
      using al by (auto intro!: total_cong simp: held_on_def spent_on_def g(1))
    moreover have "total (\<lambda>_. 0) xs = 0" for xs :: "credit_alloc list" by (induction xs) simp_all
    ultimately have "grant_ok ?db' g" using g by (simp add: grant_ok_def db')
    moreover have "grant_ok ?db' h" if "h \<in> set (grants db)" for h
      using worldD(2) [OF w] that unfolding books_def by (simp add: grant_ok_def db')
    moreover have "distinct (map gr_id (grants ?db'))"
    proof -
      have "db_next db \<notin> gr_id ` set (grants db)" using ids by fastforce
      then show ?thesis using booksD(1) [OF worldD(2) [OF w]] g(1) by (simp add: db')
    qed
    ultimately have "books ?db'" using worldD(2) [OF w] by (auto simp: books_def db' less_SucI)
    moreover have "alloc_refs ?db'" using worldD(3) [OF w] by (auto simp: alloc_refs_def db')
    moreover have "policies_ok ?db'" using worldD(1) [OF w] by (rule policies_ok_cong) (simp_all add: db')
    moreover have "decisions_ok ?db'" using worldD(4) [OF w] by (rule decisions_ok_cong) (simp_all add: db')
    moreover have "approvals_ok ?db'" using worldD(5) [OF w] by (rule approvals_ok_cong) (simp_all add: db')
    ultimately have "world ?db'" by (simp add: world_def)
    moreover have "actions_ok (plane_sha E) ?db'" using s by (force simp: sound_def actions_ok_def db')
    moreover have "grant_ids ?db'" using ids g(1) by (auto simp: grant_ids_def db' less_SucI)
    moreover have "evolves db ?db'" by (rule evolves_same) (simp add: db')
    moreover have "rows_ok ?db'" using s by (simp add: sound_def rows_ok_def db')
    ultimately show ?thesis by (simp add: sound_def)
  qed
qed

lemma queue_frame:
  "\<exists>as n. run_op env op db = db\<lparr>actions := as, db_next := db_next db + n, db_now := db_now (run_op env op db)\<rparr>"
proof -
  have refresh: "\<exists>as n. db = db\<lparr>actions := as, db_next := db_next db + n, db_now := db_now db\<rparr>"
    by (intro exI [of _ "actions db"] exI [of _ 0]) simp
  have change: "\<exists>as n. snd (change_action (\<lambda>s. s) db t i f) = db\<lparr>actions := as, db_next := db_next db + n,
      db_now := db_now (snd (change_action (\<lambda>s. s) db t i f))\<rparr>" for t i f
    using refresh by (auto simp: change_action_def Let_def split: sum.split intro!: exI [of _ 0])
  have lease: "\<exists>as n. snd (lease_loop k (\<lambda>_ s. s) db t w ty m) = db\<lparr>actions := as, db_next := db_next db + n,
      db_now := db_now (snd (lease_loop k (\<lambda>_ s. s) db t w ty m))\<rparr>" for k t w ty m
    using refresh by (induction k) (auto simp: Let_def split: option.split intro!: exI [of _ 0])
  show ?thesis
  proof (cases op)
    case (Create t actor i)
    then show ?thesis
      using create_cases [of env db t actor i]
    proof (elim disjE exE conjE)
      assume "snd (create_action env (\<lambda>s. s) db t actor i) = db"
      then show ?thesis using Create by (intro exI [of _ "actions db"] exI [of _ 0]) simp
    next
      fix a
      assume "snd (create_action env (\<lambda>s. s) db t actor i) =
        db\<lparr>actions := actions db @ [a\<lparr>act_id := db_next db\<rparr>], db_next := Suc (db_next db)\<rparr>"
      then show ?thesis using Create
        by (intro exI [of _ "actions db @ [a\<lparr>act_id := db_next db\<rparr>]"] exI [of _ 1]) simp
    qed
  next
    case (Lease t w ty now)
    then show ?thesis using lease by (simp add: lease_next_action_def)
  next
    case (Wait n)
    then show ?thesis by (intro exI [of _ "actions db"] exI [of _ 0]) simp
  qed (use change in \<open>simp_all add: complete_action_def fail_action_def cancel_action_def\<close>)
qed

lemma queue_sound:
  assumes s: "sound E db"
  shows "sound E (run_op (ge_policy (pn_gate E)) op db) \<and> evolves db (run_op (ge_policy (pn_gate E)) op db)"
proof -
  let ?db' = "run_op (ge_policy (pn_gate E)) op db"
  obtain as n where db': "?db' = db\<lparr>actions := as, db_next := db_next db + n, db_now := db_now ?db'\<rparr>"
    using queue_frame by blast
  have t: "policies ?db' = policies db" "grants ?db' = grants db" "allocs ?db' = allocs db" "decisions ?db' = decisions db"
    "approvals ?db' = approvals db" "db_next db \<le> db_next ?db'"
    by (subst db', simp)+
  note w = sound_world [OF s]
  have "world ?db'" by (rule world_cong [OF w policies_ok_cong [OF worldD(1) [OF w]]]) (simp_all add: t)
  moreover have "actions_ok (plane_sha E) ?db'"
    using op_progress [of "ge_policy (pn_gate E)" db op] s by (simp add: sound_def progress_def)
  moreover have "grant_ids ?db'" using s t(6) by (auto simp: sound_def grant_ids_def t(2) intro: less_le_trans)
  moreover have "rows_ok ?db'" using s by (simp add: sound_def rows_ok_def t(5))
  ultimately show ?thesis using evolves_same [OF t(5)] by (simp add: sound_def)
qed

lemma run_sound:
  assumes "(\<lambda>a b. plane_step E a b \<and> (sound E a \<longrightarrow> sound E b \<and> evolves a b))\<^sup>*\<^sup>* x y" "sound E x"
  shows "sound E y \<and> evolves x y"
  using assms
proof (induction rule: rtranclp_induct)
  case base
  then show ?case by (simp add: evolves_same)
next
  case (step y z)
  then show ?case by (blast intro: evolves_trans)
qed

lemma step_sound: "plane_step E db db' \<Longrightarrow> sound E db \<longrightarrow> sound E db' \<and> evolves db db'"
proof (induction rule: plane_step.induct)
  case (gate db t f actor source g)
  show ?case
  proof
    assume s: "sound E db"
    show "sound E (snd (evaluate_gate ((pn_gate E)\<lparr>ge_others := f\<rparr>) db t actor source g)) \<and>
        evolves db (snd (evaluate_gate ((pn_gate E)\<lparr>ge_others := f\<rparr>) db t actor source g))"
      by (rule gate_sound [OF s]) (use gate run_sound in blast)
  qed
next
  case (fail_safe db t actor source g code meta)
  then show ?case using fail_safe_sound by blast
next
  case (open_request db t actor i nt)
  then show ?case using keeps_sound [OF _ create_approval_ok open_keeps] sound_world by (metis prod.collapse)
next
  case (approve db t i reviewer nt)
  then show ?case using keeps_sound [OF _ approve_request_ok approve_keeps] sound_world by (metis prod.collapse)
next
  case (deny db t i reviewer nt)
  then show ?case using keeps_sound [OF _ deny_request_any deny_keeps] sound_world by (metis prod.collapse)
next
  case (redeem db t token who x)
  then show ?case using keeps_sound [OF _ consume_token_ok redeem_keeps] sound_world by (metis prod.collapse)
next
  case (reconcile db t i actor actual nt key)
  then show ?case using keeps_sound [OF _ _ reconcile_keeps] reconcile_world [OF sound_world] evolves_same by metis
next
  case (sweep db t actor older limit)
  then show ?case using keeps_sound [OF _ _ sweep_keeps] sweep_world [OF sound_world] evolves_same by metis
next
  case (budget db t actor scope amount active)
  then show ?case using keeps_sound budget_world [OF sound_world] evolves_same by metis
next
  case (grant db t actor pool scope amount expires reason)
  then show ?case using grant_sound by blast
next
  case (policy db t inp)
  then show ?case using keeps_sound [OF _ _ policy_keeps] policy_update_world [OF sound_world] evolves_same by metis
next
  case (queue op db)
  then show ?case using queue_sound by blast
next
  case (costs db cs)
  have "world (db\<lparr>costs := cs\<rparr>)" if "world db"
    by (rule world_cong [OF that policies_ok_cong [OF worldD(1) [OF that]]]) simp_all
  then show ?case by (auto simp: sound_def rows_ok_def actions_ok_def grant_ids_def intro: evolves_same)
qed

lemma steps_sound:
  assumes "(plane_step E)\<^sup>*\<^sup>* db db'" "sound E db"
  shows "sound E db'" "evolves db db'"
proof -
  have "sound E db' \<and> evolves db db'"
    using assms
  proof (induction rule: rtranclp_induct)
    case base
    then show ?case by (simp add: evolves_same)
  next
    case (step y z)
    then show ?case using step_sound by (blast intro: evolves_trans)
  qed
  then show "sound E db'" "evolves db db'" by blast+
qed

lemma empty_sound: "sound E (empty_db t)"
  by (simp add: sound_def world_def policies_ok_def books_def alloc_refs_def decisions_ok_def approvals_ok_def rows_ok_def
      actions_ok_def grant_ids_def empty_db_def)

section \<open>Where the money is\<close>

lemma total_point:
  assumes "distinct (map k ds)" "d \<in> set ds"
  shows "total (\<lambda>e. if k e = k d then (x::usd) else 0) ds = x"
  using assms
proof (induction ds)
  case (Cons e ds)
  show ?case
  proof (cases "k e = k d")
    case True
    then have "e = d" using Cons.prems by (auto simp: image_iff)
    moreover have "total (\<lambda>e. if k e = k d then x else 0) ds = total (\<lambda>_. 0) ds"
      using Cons.prems True by (intro total_cong) (auto simp: image_iff)
    moreover have "total (\<lambda>_. 0) ds = 0" by (induction ds) simp_all
    ultimately show ?thesis by simp
  next
    case False
    then show ?thesis using Cons by auto
  qed
qed simp

lemma total_partition:
  assumes "distinct (map k ds)" "\<forall>a\<in>set as. \<exists>d\<in>set ds. k d = p a"
  shows "total (\<lambda>d. total (\<lambda>a. if p a = k d then f a else 0) as) ds = total f as"
  using assms(2)
proof (induction as)
  case Nil
  have "total (\<lambda>_. 0) ds = 0" by (induction ds) simp_all
  then show ?case by simp
next
  case (Cons a as)
  obtain d where d: "d \<in> set ds" "k d = p a" using Cons.prems by auto
  have "total (\<lambda>d. (if p a = k d then f a else 0) + g d) ds = total (\<lambda>e. if k e = k d then f a else 0) ds + total g ds" for g
    unfolding d(2) by (induction ds) (auto simp: eq_commute)
  then show ?case using Cons total_point [OF assms(1) d(1)] by simp
qed

lemma money_located:
  assumes w: "world db"
  shows "total gr_total (grants db) = available db + on_hold db + used_up db" "on_hold db = total due_hold (decisions db)"
proof -
  note b = worldD(2) [OF w] and r = worldD(3) [OF w] and d = worldD(4) [OF w]
  have ex: "\<forall>a\<in>set (allocs db). \<exists>g\<in>set (grants db). gr_id g = al_grant a" using r by (auto simp: alloc_refs_def)
  have split: "held_on i = (\<lambda>a. if al_grant a = i then held a else 0)" "spent_on i = (\<lambda>a. if al_grant a = i then spent a else 0)" for i
    by (auto simp: held_on_def spent_on_def held_def spent_def)
  have parts: "total (\<lambda>g. total (held_on (gr_id g)) (allocs db)) (grants db) = on_hold db"
      "total (\<lambda>g. total (spent_on (gr_id g)) (allocs db)) (grants db) = used_up db"
    using total_partition [OF booksD(1) [OF b] ex, of held] total_partition [OF booksD(1) [OF b] ex, of spent]
    by (simp_all add: on_hold_def used_up_def split)
  have "total gr_total (grants db) = total (\<lambda>g. gr_remaining g + total (held_on (gr_id g)) (allocs db) +
      total (spent_on (gr_id g)) (allocs db)) (grants db)"
    by (rule total_cong) (use booksD(5) [OF b] in \<open>simp add: grant_ok_def\<close>)
  moreover have "total (\<lambda>g. f g + x g + y g) gs = total f gs + total x gs + total y gs" for f x y and gs :: "credit_grant list"
    by (induction gs) simp_all
  ultimately show "total gr_total (grants db) = available db + on_hold db + used_up db"
    using parts by (simp add: available_def)
  have "distinct (map (\<lambda>d. (dec_tenant d, dec_id d)) (decisions db))"
    using d by (simp add: decisions_ok_def distinct_map inj_on_def)
  moreover have "\<forall>a\<in>set (allocs db). \<exists>d\<in>set (decisions db). (dec_tenant d, dec_id d) = (al_tenant a, al_decision a)"
    using r by (auto simp: alloc_refs_def)
  ultimately have "total (\<lambda>d. total (\<lambda>a. if (al_tenant a, al_decision a) = (dec_tenant d, dec_id d) then held a else 0) (allocs db))
      (decisions db) = on_hold db"
    unfolding on_hold_def by (rule total_partition)
  moreover have "total due_hold (decisions db) = total (\<lambda>d. total (\<lambda>a. if (al_tenant a, al_decision a) = (dec_tenant d, dec_id d)
      then held a else 0) (allocs db)) (decisions db)"
  proof (rule total_cong)
    fix x assume "x \<in> set (decisions db)"
    then have "due_hold x = total (held_for (dec_tenant x) (dec_id x)) (allocs db)" using d by (simp add: decisions_ok_def holds_ok_def)
    also have "\<dots> = total (\<lambda>a. if (al_tenant a, al_decision a) = (dec_tenant x, dec_id x) then held a else 0) (allocs db)"
      by (rule total_cong) (simp add: held_for_def held_def)
    finally show "due_hold x = \<dots>" .
  qed
  ultimately show "on_hold db = total due_hold (decisions db)" by simp
qed

section \<open>What holds in every reachable state\<close>

text \<open>C2: Whatever the control plane does, in whatever order, for whichever tenants and with whatever costs, starting from the
  empty database (operations run one after the other, except that others commit while a gate waits for its lock):
  every table satisfies its invariant, the granted money is exactly what is available, on hold or used up, and what is on
  hold is exactly the credit of the reservations that are active.\<close>

theorem reachable_states_sound:
  assumes "(plane_step E)\<^sup>*\<^sup>* (empty_db t) db"
  shows "sound E db \<and> total gr_total (grants db) = available db + on_hold db + used_up db \<and>
    on_hold db = total due_hold (decisions db)"
proof -
  have "sound E db" by (rule steps_sound(1) [OF assms empty_sound])
  then show ?thesis using money_located [OF sound_world] by blast
qed

definition sample_plane :: "pydict \<Rightarrow> plane" where
  "sample_plane p = \<lparr>pn_gate = sample_gate_env, pn_flow = sample_flow_env p\<rparr>"

theorem reachable_states_sound_witness:
  "\<exists>db. (plane_step (sample_plane []))\<^sup>*\<^sup>* (empty_db 0) db \<and> total gr_total (grants db) = 100 \<and>
     available db + on_hold db + used_up db = 100"
proof -
  let ?db = "snd (create_credit_grant (empty_db 0) 7 1 RESERVED ''default'' 100 None None)"
  have step: "(plane_step (sample_plane []))\<^sup>*\<^sup>* (empty_db 0) ?db" by (rule r_into_rtranclp) (rule plane_step.grant)
  have "quantize4 100 = (100::rat)" using q4.q_grid [of 100] by code_simp
  then have "total gr_total (grants ?db) = 100" by (simp add: create_credit_grant_def Let_def empty_db_def)
  then show ?thesis using reachable_states_sound [OF step] step by auto
qed

text \<open>C3: An approval is worth one change: once a token of an approval has been redeemed, no token of it is ever redeemed
  again, by anyone, after any operations of the control plane.\<close>

theorem token_redeemed_at_most_once:
  assumes s: "sound E db" and first: "consume_token (pn_flow E) db t token who x = (Inr (a, d), db1)"
    and later: "(plane_step E)\<^sup>*\<^sup>* db1 db2"
  shows "\<not> (\<exists>t' token' who' x' b e db3. consume_token (pn_flow E) db2 t' token' who' x' = (Inr (b, e), db3) \<and> apr_id b = apr_id a)"
proof
  assume "\<exists>t' token' who' x' b e db3. consume_token (pn_flow E) db2 t' token' who' x' = (Inr (b, e), db3) \<and> apr_id b = apr_id a"
  then obtain t' token' who' x' b e db3 where second: "consume_token (pn_flow E) db2 t' token' who' x' = (Inr (b, e), db3)"
    and ids: "apr_id b = apr_id a" by blast
  have s1: "sound E db1" using step_sound [OF plane_step.redeem [of E db t token who x]] s first by simp
  have s2: "sound E db2" and ev: "evolves db1 db2" using steps_sound [OF later s1] by blast+
  from first obtain tc a0 d0 where l: "load_approval_with_decision db t (tc_approval tc) = Inr (a0, d0)"
    and ok: "\<forall>c\<in>set (state_checks (flow_sha (pn_flow E) (strip token)) (db_now db) tc a0 d0). \<not> fst c"
    and m: "mark_consumed db t a0 d0 who = Inr ((a, d), db1)"
    by (cases rule: consume_token_steps) blast
  note st = mark_consumed_steps [OF sound_world [OF s] l m] and p = load_Inr [OF l]
  have "a \<in> set (approvals db1)"
    unfolding st(5) st(2) using update_rowsI [OF p(1), of "\<lambda>y. apr_id y = tc_approval tc \<and> apr_tenant y = t \<and> apr_token_consumed y = None"
        "consumed_row (db_now db)"] p st(1) by simp
  then obtain y where y: "y \<in> set (approvals db2)" "same_request a y" "life_step\<^sup>*\<^sup>* (life_of a) (life_of y)"
    using evolvesD(2) [OF ev] s1 by (auto simp: sound_def)
  have "apr_status a0 = APPROVED" using ok by (simp add: state_checks_def)
  then have over: "life_of a = Granted (Some (db_now db))" by (simp add: st(2) life_of_def consumed_row_def)
  then have "life_of y = life_of a" using approval_life.final_stays [OF y(3)] by (simp add: life_over_def)
  then have "apr_token_consumed y \<noteq> None" using over by (auto simp: life_of_def split: approval_status.splits)
  moreover obtain tc' :: token_context and b0 e0 where l': "load_approval_with_decision db2 t' (tc_approval tc') = Inr (b0, e0)"
    and m': "mark_consumed db2 t' b0 e0 who' = Inr ((b, e), db3)"
    by (rule consume_token_steps [OF second]) (erule that)
  note st' = mark_consumed_steps [OF sound_world [OF s2] l' m'] and p' = load_Inr [OF l']
  have "apr_id b0 = apr_id y" using ids y(2) by (simp add: st'(2) consumed_row_def same_request_def)
  then have "b0 = y" using approval_unique [OF worldD(5) [OF sound_world [OF s2]] p'(1) y(1)] by blast
  ultimately show False using st'(1) by simp
qed

theorem token_redeemed_at_most_once_witness:
  "\<exists>p db a d db1. consume_token (sample_flow_env p) db 7 ''jwt'' None no_expectations = (Inr (a, d), db1) \<and>
     \<not> (\<exists>b e db3. consume_token (sample_flow_env p) db1 7 ''jwt'' None no_expectations = (Inr (b, e), db3) \<and> apr_id b = apr_id a)"
proof -
  obtain p db a d db1 where run: "consume_token (sample_flow_env p) db 7 ''jwt'' None no_expectations = (Inr (a, d), db1)"
    and "world db" "rows_ok db" "actions db = []" "grants db = grants sample_held" "db_next db = 50"
    by (rule sample_redeem)
  then have "sound (sample_plane p) db"
    by (simp add: sound_def actions_ok_def grant_ids_def sample_held_def sample_grant_def)
  moreover have "pn_flow (sample_plane p) = sample_flow_env p" by (simp add: sample_plane_def)
  ultimately have "\<not> (\<exists>t' token' who' x' b e db3. consume_token (sample_flow_env p) db1 t' token' who' x' = (Inr (b, e), db3) \<and> apr_id b = apr_id a)"
    using token_redeemed_at_most_once [of "sample_plane p" db 7 "''jwt''" None no_expectations a d db1 db1] run by simp
  then show ?thesis using run by blast
qed

text \<open>C4: Every approval request that exists stays, for the same decision and tenant, and only moves along its life cycle: a
  pending one may be granted, refused or lapse, a granted one may be redeemed once, and what is refused, lapsed,
  withdrawn or redeemed stays so.\<close>

theorem approvals_follow_life_cycle:
  assumes "sound E db" "(plane_step E)\<^sup>*\<^sup>* db db'" "a \<in> set (approvals db)"
  shows "\<exists>b\<in>set (approvals db'). same_request a b \<and> life_step\<^sup>*\<^sup>* (life_of a) (life_of b) \<and>
    (life_over (life_of a) \<longrightarrow> life_of b = life_of a)"
proof -
  obtain b where "b \<in> set (approvals db')" "same_request a b" "life_step\<^sup>*\<^sup>* (life_of a) (life_of b)"
    using evolvesD(2) [OF steps_sound(2) [OF assms(2,1)] _ assms(3)] assms(1) by (auto simp: sound_def)
  then show ?thesis using approval_life.final_stays by blast
qed

lemma sample_waiting_sound: "sound (sample_plane p) (sample_waiting now)"
  using sample_waiting_world [of now] sample_waiting_rows [of now]
  by (simp add: sound_def actions_ok_def grant_ids_def)
    (simp add: sample_waiting_def sample_held_def sample_grant_def empty_db_def)

theorem approvals_follow_life_cycle_witness:
  "\<exists>b\<in>set (approvals (snd (deny_request (sample_flow_env []) (sample_waiting 0) 7 40 sample_owner None))).
     same_request waiting_approval b \<and> life_step\<^sup>*\<^sup>* (life_of waiting_approval) (life_of b)"
proof -
  have "plane_step (sample_plane []) (sample_waiting 0) (snd (deny_request (pn_flow (sample_plane [])) (sample_waiting 0) 7 40 sample_owner None))"
    by (rule plane_step.deny)
  then have "(plane_step (sample_plane []))\<^sup>*\<^sup>* (sample_waiting 0) (snd (deny_request (sample_flow_env []) (sample_waiting 0) 7 40 sample_owner None))"
    by (simp add: sample_plane_def)
  from approvals_follow_life_cycle [OF sample_waiting_sound this, of waiting_approval] show ?thesis by auto
qed

end
