(* ===== verification/Export_Csv.thy ===== *)
theory Export_Csv
  imports Service_Utils
begin

text \<open>
  \<open>app/modules/enforcement/domain/export_bundle_csv.py\<close>: the two CSV files of an export bundle, written with
  \<open>csv.writer\<close> in its default dialect (comma, double quotes only where needed, CR LF).

  \<open>read_csv\<close> is the reader of that dialect, as a state machine over the characters: it is what a consumer of
  the files does, and the specification of the writer.
\<close>

section \<open>The writer\<close>

definition quote_char :: char where
  "quote_char = CHR 0x22"

definition needs_quotes :: "string \<Rightarrow> bool" where
  "needs_quotes s = list_ex (\<lambda>c. c = CHR '','' \<or> c = quote_char \<or> c = CHR 0x0D \<or> c = CHR 0x0A) s"

definition csv_field :: "string \<Rightarrow> string" where
  "csv_field s =
     (if needs_quotes s
      then quote_char # concat (map (\<lambda>c. if c = quote_char then [c, c] else [c]) s) @ [quote_char] else s)"

definition csv_row :: "string list \<Rightarrow> string" where
  \<comment> \<open>\<open>writer.writerow(cells)\<close>; a single empty cell is quoted\<close>
  "csv_row cells =
     (if cells = [[]] then [quote_char, quote_char] else commas (map csv_field cells)) @ [CHR 0x0D, CHR 0x0A]"

definition csv_text :: "string list list \<Rightarrow> string" where
  "csv_text rows = concat (map csv_row rows)"

section \<open>The rows\<close>

definition iso_or_empty :: "time option \<Rightarrow> string" where
  "iso_or_empty t = (case t of None \<Rightarrow> [] | Some x \<Rightarrow> iso_str x)"

definition py_or :: "pyval \<Rightarrow> pyval \<Rightarrow> pyval" where
  \<comment> \<open>\<open>v or w\<close>\<close>
  "py_or v w = (if truthy v then v else w)"

definition decision_value :: "decision_type \<Rightarrow> string" where
  "decision_value t = (case t of ALLOW \<Rightarrow> ''ALLOW'' | DENY \<Rightarrow> ''DENY'' | REQUIRE_APPROVAL \<Rightarrow> ''REQUIRE_APPROVAL''
     | ALLOW_WITH_CREDITS \<Rightarrow> ''ALLOW_WITH_CREDITS'')"

definition decision_headers :: "string list" where
  "decision_headers =
     [''decision_id'', ''source'', ''environment'', ''project_id'', ''action'', ''resource_reference'', ''decision'',
      ''reason_codes'', ''policy_version'', ''policy_document_schema_version'', ''policy_document_sha256'',
      ''computed_context_version'', ''computed_context_generated_at'', ''computed_context_month_start'',
      ''computed_context_month_end'', ''computed_context_month_elapsed_days'', ''computed_context_month_total_days'',
      ''computed_context_observed_cost_days'', ''computed_context_latest_cost_date'',
      ''computed_context_data_source_mode'', ''request_fingerprint'', ''idempotency_key'',
      ''estimated_monthly_delta_usd'', ''estimated_hourly_delta_usd'', ''allocation_available_usd'',
      ''credits_available_usd'', ''reserved_allocation_usd'', ''reserved_credit_usd'', ''reservation_active'',
      ''approval_required'', ''approval_token_issued'', ''token_expires_at'', ''created_by_user_id'', ''created_at'',
      ''request_payload'', ''response_payload'']"

definition decision_cells :: "decision \<Rightarrow> pyval list" where
  "decision_cells d =
     (let c = computed_context_snapshot (dec_response d)
      in [PUuid (dec_id d), PStr (source_value (dec_source d)), PStr (dec_environment d), PStr (dec_project d),
          PStr (dec_action d), PStr (dec_resource d), PStr (decision_value (dec_decision d)),
          PStr (json (PList (map PStr (dec_reasons d)))), PInt (dec_policy_version d),
          PStr (normalize_schema_version (Some (dec_schema_version d))),
          PStr (normalize_sha256 (Some (dec_sha256 d))),
          dget c ''context_version'', dget c ''generated_at'', dget c ''month_start'', dget c ''month_end'',
          dget c ''month_elapsed_days'', dget c ''month_total_days'', dget c ''observed_cost_days'',
          dget c ''latest_cost_date'', dget c ''data_source_mode'',
          PStr (dec_fingerprint d), PStr (dec_idempotency d),
          PStr (fixed_str 4 (dec_monthly d)), PStr (fixed_str 6 (dec_hourly d)),
          PStr (case dec_alloc_available d of None \<Rightarrow> [] | Some x \<Rightarrow> fixed_str 4 x),
          PStr (case dec_credits_available d of None \<Rightarrow> [] | Some x \<Rightarrow> fixed_str 4 x),
          PStr (fixed_str 4 (dec_reserved_alloc d)), PStr (fixed_str 4 (dec_reserved_credit d)),
          PBool (dec_reservation_active d), PBool (dec_approval_required d), PBool (dec_token_issued d),
          PStr (iso_or_empty (dec_token_expires d)), py_or (opt_val PUuid (dec_created_by d)) (PStr []),
          PStr (iso_or_empty (Some (dec_created d))),
          PStr (json (PDict (dec_request d))), PStr (json (PDict (dec_response d)))])"

definition render_decisions_csv :: "decision list \<Rightarrow> string" where
  "render_decisions_csv ds =
     csv_text (decision_headers # map (\<lambda>d. map sanitize_csv_cell (decision_cells d)) ds)"

definition approval_headers :: "string list" where
  "approval_headers =
     [''approval_id'', ''decision_id'', ''status'', ''requested_by_user_id'', ''reviewed_by_user_id'', ''review_notes'',
      ''routing_rule_id'', ''routing_required_permission'', ''routing_allowed_reviewer_roles'',
      ''routing_require_requester_reviewer_separation'', ''approval_token_expires_at'', ''approval_token_consumed_at'',
      ''expires_at'', ''approved_at'', ''denied_at'', ''created_at'', ''updated_at'']"

definition listed_roles :: "pydict \<Rightarrow> string" where
  \<comment> \<open>\<open>",".join(str(role) for role in routing_roles)\<close>\<close>
  "listed_roles trace = (case dget trace ''allowed_reviewer_roles'' of PList vs \<Rightarrow> commas (map py_str vs) | _ \<Rightarrow> [])"

definition approval_cells :: "approval \<Rightarrow> pyval list" where
  "approval_cells a =
     [PUuid (apr_id a), PUuid (apr_decision a), PStr (approval_status_value (apr_status a)),
      py_or (opt_val PUuid (apr_requested_by a)) (PStr []), py_or (opt_val PUuid (apr_reviewed_by a)) (PStr []),
      py_or (opt_val PStr (apr_notes a)) (PStr []), py_or (opt_val PStr (apr_rule_id a)) (PStr []),
      py_or (dget (apr_trace a) ''required_permission'') (PStr []), PStr (listed_roles (apr_trace a)),
      PBool (truthy (dget (apr_trace a) ''require_requester_reviewer_separation'')),
      PStr (iso_or_empty (apr_token_expires a)), PStr (iso_or_empty (apr_token_consumed a)),
      PStr (iso_or_empty (Some (apr_expires a))), PStr (iso_or_empty (apr_approved_at a)),
      PStr (iso_or_empty (apr_denied_at a)), PStr (iso_or_empty (Some (apr_created a))),
      PStr (iso_or_empty (Some (apr_updated a)))]"

definition render_approvals_csv :: "approval list \<Rightarrow> string" where
  "render_approvals_csv as =
     csv_text (approval_headers # map (\<lambda>a. map sanitize_csv_cell (approval_cells a)) as)"

section \<open>The reader\<close>

datatype csv_state = Field_start | In_field | In_quotes | After_quote

fun read_csv :: "csv_state \<Rightarrow> string \<Rightarrow> string list \<Rightarrow> string \<Rightarrow> string list list" where
  \<comment> \<open>the field and the row read so far, and the rest of the file\<close>
  "read_csv q fld cells [] = (if q = Field_start \<and> cells = [] then [] else [cells @ [fld]])"
| "read_csv q fld cells (c # cs) =
     (if q = In_quotes
      then (if c = quote_char then read_csv After_quote fld cells cs else read_csv In_quotes (fld @ [c]) cells cs)
      else if c = quote_char \<and> q = After_quote then read_csv In_quotes (fld @ [c]) cells cs
      else if c = quote_char \<and> q = Field_start then read_csv In_quotes fld cells cs
      else if c = CHR '','' then read_csv Field_start [] (cells @ [fld]) cs
      else if c = CHR 0x0D then read_csv q fld cells cs
      else if c = CHR 0x0A then (cells @ [fld]) # read_csv Field_start [] [] cs
      else read_csv In_field (fld @ [c]) cells cs)"

lemma read_quoted:
  "read_csv In_quotes fld cells (concat (map (\<lambda>c. if c = quote_char then [c, c] else [c]) s) @ quote_char # cs) =
    read_csv After_quote (fld @ s) cells cs"
  by (induction s arbitrary: fld) auto

lemma read_plain:
  assumes "\<not> needs_quotes s" "q \<noteq> In_quotes" "q \<noteq> After_quote"
  shows "read_csv q fld cells (s @ cs) = read_csv (if s = [] then q else In_field) (fld @ s) cells cs"
  using assms
proof (induction s arbitrary: fld q)
  case (Cons c s)
  then have "\<not> needs_quotes s" "c \<noteq> quote_char" "c \<noteq> CHR '',''" "c \<noteq> CHR 0x0D" "c \<noteq> CHR 0x0A"
    by (simp_all add: needs_quotes_def)
  with Cons.IH [of In_field "fld @ [c]"] Cons.prems show ?case by simp
qed simp

lemma read_field:
  "\<exists>q. q \<noteq> In_quotes \<and> (\<forall>cs. read_csv Field_start [] cells (csv_field s @ cs) = read_csv q s cells cs)"
proof (cases "needs_quotes s")
  case True
  then have "read_csv Field_start [] cells (csv_field s @ cs) = read_csv After_quote s cells cs" for cs
    using read_quoted [of "[]" cells s cs] by (simp add: csv_field_def)
  then show ?thesis by (intro exI [of _ After_quote]) simp
next
  case False
  then have "read_csv Field_start [] cells (csv_field s @ cs) =
      read_csv (if s = [] then Field_start else In_field) s cells cs" for cs
    using read_plain [of s Field_start "[]"] by (simp add: csv_field_def)
  then show ?thesis by (intro exI [of _ "if s = [] then Field_start else In_field"]) simp
qed

lemma read_field_comma:
  "read_csv Field_start [] cells (csv_field s @ CHR '','' # cs) = read_csv Field_start [] (cells @ [s]) cs"
proof -
  obtain q where "q \<noteq> In_quotes" "read_csv Field_start [] cells (csv_field s @ CHR '','' # cs) = read_csv q s cells (CHR '','' # cs)"
    using read_field by blast
  then show ?thesis by (simp add: quote_char_def)
qed

lemma read_field_end:
  "read_csv Field_start [] cells (csv_field s @ CHR 0x0D # CHR 0x0A # cs) = (cells @ [s]) # read_csv Field_start [] [] cs"
proof -
  obtain q where "q \<noteq> In_quotes"
    "read_csv Field_start [] cells (csv_field s @ CHR 0x0D # CHR 0x0A # cs) = read_csv q s cells (CHR 0x0D # CHR 0x0A # cs)"
    using read_field by blast
  then show ?thesis by (simp add: quote_char_def)
qed

lemma read_fields:
  "fs \<noteq> [] \<Longrightarrow> read_csv Field_start [] cells (commas (map csv_field fs) @ CHR 0x0D # CHR 0x0A # cs) =
    (cells @ fs) # read_csv Field_start [] [] cs"
proof (induction fs arbitrary: cells)
  case (Cons f fs)
  show ?case
  proof (cases fs)
    case Nil
    then show ?thesis by (simp add: read_field_end)
  next
    case (Cons g gs)
    then show ?thesis using Cons.IH [of "cells @ [f]"] by (simp add: read_field_comma)
  qed
qed simp

lemma read_row:
  "fs \<noteq> [] \<Longrightarrow> read_csv Field_start [] [] (csv_row fs @ cs) = fs # read_csv Field_start [] [] cs"
  using read_fields [of fs "[]" cs] by (auto simp: csv_row_def quote_char_def)

lemma read_rows:
  "[] \<notin> set rows \<Longrightarrow> read_csv Field_start [] [] (csv_text rows) = rows"
  by (induction rows) (auto simp: csv_text_def read_row)

lemma decision_row_width: "length (decision_cells d) = 36" "length decision_headers = 36"
  by (simp_all add: decision_cells_def decision_headers_def Let_def)

lemma approval_row_width: "length (approval_cells a) = 17" "length approval_headers = 17"
  by (simp_all add: approval_cells_def approval_headers_def)

text \<open>C35: A reader of the exported files gets back exactly the header and one row per decision or approval, with
  the sanitised cells in their columns; no cell that is read starts with a formula character or contains a line
  break, so that a spreadsheet takes every cell as text and every physical line is one row.\<close>

theorem exported_csv_reads_back:
  "read_csv Field_start [] [] (render_decisions_csv ds) =
     decision_headers # map (\<lambda>d. map sanitize_csv_cell (decision_cells d)) ds \<and>
   read_csv Field_start [] [] (render_approvals_csv as) =
     approval_headers # map (\<lambda>a. map sanitize_csv_cell (approval_cells a)) as \<and>
   (\<forall>d. length (decision_cells d) = length decision_headers) \<and> (\<forall>a. length (approval_cells a) = length approval_headers) \<and>
   (\<forall>v. \<not> (\<exists>c s. sanitize_csv_cell v = c # s \<and> c \<in> set formula_chars) \<and>
     set (sanitize_csv_cell v) \<inter> {CHR 0x0D, CHR 0x0A} = {})"
proof -
  have "read_csv Field_start [] [] (render_decisions_csv ds) =
      decision_headers # map (\<lambda>d. map sanitize_csv_cell (decision_cells d)) ds"
    unfolding render_decisions_csv_def
    by (rule read_rows) (auto simp: decision_headers_def decision_cells_def Let_def)
  moreover have "read_csv Field_start [] [] (render_approvals_csv as) =
      approval_headers # map (\<lambda>a. map sanitize_csv_cell (approval_cells a)) as"
    unfolding render_approvals_csv_def
    by (rule read_rows) (auto simp: approval_headers_def approval_cells_def)
  ultimately show ?thesis
    using sanitize_csv_cell_safe sanitize_csv_cell_one_line
    by (simp add: decision_row_width approval_row_width) (metis list.distinct(1) list.sel(1))
qed

end
