(* ===== verification/Canonical_Json.thy ===== *)
theory Canonical_Json
  imports Service_Utils
begin

text \<open>
  Canonical JSON is readable in one way only: \<open>json.dumps\<close> with sorted keys gives two payloads
  the same text exactly when they are the same JSON document.  The request fingerprint, the payload
  hashes and the signed manifest rest on it, each up to collisions of the hash.

  A number is read up to the next delimiter, a string up to its closing quote, and a list or an object
  element by element; so no text is a proper prefix of another at a delimiter.
\<close>

section \<open>The document a value denotes\<close>

fun document :: "pyval \<Rightarrow> pyval" where
  \<comment> \<open>what is left of a value in its JSON text: keys are sorted, decimals, identifiers and times are strings\<close>
  "document (PDec c e) = PStr (dec_str c e)"
| "document (PUuid u) = PStr (uuid_str u)"
| "document (PTime t) = PStr (iso_str t)"
| "document (PList vs) = PList (map document vs)"
| "document (PDict kvs) = PDict (sort_key fst (map (\<lambda>kv. (fst kv, document (snd kv))) kvs))"
| "document v = v"

definition num_char :: "char \<Rightarrow> bool" where
  "num_char c = (is_digit c \<or> c \<in> set ''-+.e'')"

definition float_text :: "string \<Rightarrow> bool" where
  \<comment> \<open>the \<open>repr\<close> of a finite float: it has a point or an exponent\<close>
  "float_text s = (s \<noteq> [] \<and> list_all num_char s \<and> (CHR ''.'' \<in> set s \<or> CHR ''e'' \<in> set s))"

fun finite_floats :: "pyval \<Rightarrow> bool" where
  "finite_floats (PFloat s) = float_text s"
| "finite_floats (PList vs) = list_all finite_floats vs"
| "finite_floats (PDict kvs) = list_all (\<lambda>kv. finite_floats (snd kv)) kvs"
| "finite_floats v = True"

fun doc_text :: "pyval \<Rightarrow> string" where
  \<comment> \<open>the text of a document as it stands\<close>
  "doc_text (PList vs) = ''['' @ commas (map doc_text vs) @ '']''"
| "doc_text (PDict kvs) = ''{'' @ commas (map (\<lambda>kv. json_str (fst kv) @ '':'' @ doc_text (snd kv)) kvs) @ ''}''"
| "doc_text v = json v"

fun plain_document :: "pyval \<Rightarrow> bool" where
  "plain_document (PFloat s) = float_text s"
| "plain_document (PList vs) = list_all plain_document vs"
| "plain_document (PDict kvs) = list_all (\<lambda>kv. plain_document (snd kv)) kvs"
| "plain_document (PDec c e) = False"
| "plain_document (PUuid u) = False"
| "plain_document (PTime t) = False"
| "plain_document v = True"

lemma insort_values:
  "map (\<lambda>kv. (fst kv, f (snd kv))) (insort_key fst x xs) =
    insort_key fst (fst x, f (snd x)) (map (\<lambda>kv. (fst kv, f (snd kv))) xs)"
  by (induction xs) auto

lemma sort_values:
  "sort_key fst (map (\<lambda>kv. (fst kv, f (snd kv))) xs) = map (\<lambda>kv. (fst kv, f (snd kv))) (sort_key fst xs)"
  by (induction xs) (auto simp: insort_values)

lemma json_document: "json v = doc_text (document v)"
proof (induction v)
  case (PDict kvs)
  then have "map (\<lambda>kv. (fst kv, json (snd kv))) kvs = map (\<lambda>kv. (fst kv, doc_text (document (snd kv)))) kvs"
    by (auto simp: snds.simps)
  then show ?case
    by (simp only: json.simps document.simps doc_text.simps sort_values [of document]
        sort_values [of "\<lambda>v. doc_text (document v)"] map_map o_def fst_conv snd_conv)
qed (auto cong: map_cong)

lemma document_plain: "finite_floats v \<Longrightarrow> plain_document (document v)"
  by (induction v) (auto simp: list_all_iff snds.simps)

section \<open>Characters, strings and numbers\<close>

lemma hex_char_value: "d < 16 \<Longrightarrow> (of_char (hex_char d) :: nat) = (if d < 10 then 48 + d else 87 + d)"
  by (simp add: hex_char_def)

lemma hex_char_inj:
  assumes "a < 16" "b < 16" "hex_char a = hex_char b"
  shows "a = b"
proof -
  have "(if a < 10 then 48 + a else 87 + a) = (if b < 10 then 48 + b else 87 + b)"
    using hex_char_value [OF assms(1)] hex_char_value [OF assms(2)] assms(3) by metis
  then show ?thesis by (simp split: if_splits)
qed

lemma hex_text_inj: "hex_digits k m = hex_digits k n \<Longrightarrow> m mod 16 ^ k = n mod 16 ^ k"
proof (induction k arbitrary: m n)
  case (Suc k)
  have "m mod 16 = n mod 16"
    by (rule hex_char_inj) (use Suc.prems in simp_all)
  moreover have "m div 16 mod 16 ^ k = n div 16 mod 16 ^ k"
    by (rule Suc.IH) (use Suc.prems in simp)
  ultimately show ?case by (simp add: mod_mult2_eq)
qed simp

lemma hex_text_length: "length (hex_digits k n) = k"
  by (induction k arbitrary: n) auto

lemma char_code_eq: "c = d" if "of_char c = (of_char d :: nat)"
  using that by (rule of_char_eqI)

definition short_escape :: "char \<Rightarrow> char" where
  \<comment> \<open>what a backslash and one letter stand for\<close>
  "short_escape e = (if e = CHR ''n'' then CHR 0x0A else if e = CHR ''r'' then CHR 0x0D
     else if e = CHR ''t'' then CHR 0x09 else if e = CHR ''f'' then CHR 0x0C
     else if e = CHR ''b'' then CHR 0x08 else e)"

lemma char_from_code: "of_char c = (n :: nat) \<Longrightarrow> c = char_of n"
  by auto

lemma json_char_shape:
  "(json_char c = [c] \<and> c \<noteq> CHR 0x5C) \<or>
   (json_char c = [CHR 0x5C, last (json_char c)] \<and> last (json_char c) \<noteq> CHR ''u''
     \<and> c = short_escape (last (json_char c))) \<or>
   json_char c = CHR 0x5C # CHR ''u'' # hex_digits 4 (of_char c)"
proof -
  let ?n = "of_char c :: nat"
  show ?thesis
  proof (cases "?n \<in> {34, 92, 10, 13, 9, 12, 8}")
    case True
    then have "c \<in> {CHR 0x22, CHR 0x5C, CHR 0x0A, CHR 0x0D, CHR 0x09, CHR 0x0C, CHR 0x08}"
      using char_from_code [of c] by (elim insertE emptyE) (simp_all add: char_of_def bit_0)
    then show ?thesis
      by (elim insertE emptyE) (simp_all add: json_char_def short_escape_def Let_def)
  next
    case False
    moreover have "c \<noteq> CHR 0x5C" using False by auto
    ultimately show ?thesis by (simp add: json_char_def Let_def)
  qed
qed

lemma json_char_readable:
  assumes "json_char c @ x = json_char d @ y"
  shows "c = d \<and> x = y"
proof -
  have "c = d" if "hex_digits 4 (of_char c) = hex_digits 4 (of_char d)"
  proof -
    have "of_char a mod 16 ^ 4 = (of_char a :: nat)" for a :: char
    proof -
      have "of_char a < (256 :: nat)" by simp
      then have "of_char a < (16 ^ 4 :: nat)" by (rule less_le_trans) simp
      then show ?thesis by (rule mod_less)
    qed
    then have "of_char c = (of_char d :: nat)" using hex_text_inj [OF that] by metis
    then show ?thesis by (rule of_char_eqI)
  qed
  moreover have shape: "(json_char a = [a] \<and> a \<noteq> CHR 0x5C) \<or>
      (\<exists>e. json_char a = [CHR 0x5C, e] \<and> e \<noteq> CHR ''u'' \<and> a = short_escape e) \<or>
      json_char a = CHR 0x5C # CHR ''u'' # hex_digits 4 (of_char a)" for a
    using json_char_shape [of a] by blast
  ultimately show ?thesis
    using assms shape [of c] shape [of d] by (elim disjE exE conjE) (simp_all add: hex_text_length)
qed

lemma json_char_start: "json_char c \<noteq> [] \<and> hd (json_char c) \<noteq> CHR 0x22"
  by (auto simp: json_char_def Let_def)

lemma json_str_readable:
  assumes "json_str a @ x = json_str b @ y"
  shows "a = b \<and> x = y"
proof -
  have "concat (map json_char a) @ CHR 0x22 # x = concat (map json_char b) @ CHR 0x22 # y \<Longrightarrow> a = b \<and> x = y"
  proof (induction a arbitrary: b)
    case Nil
    then show ?case using json_char_start [of "hd b"] by (cases b) (auto simp: hd_append dest: arg_cong [of _ _ hd])
  next
    case (Cons c a)
    show ?case
    proof (cases b)
      case Nil
      with Cons.prems show ?thesis using json_char_start [of c] by (auto simp: hd_append dest: arg_cong [of _ _ hd])
    next
      case (Cons d b')
      then show ?thesis using Cons.IH [of b'] Cons.prems json_char_readable by fastforce
    qed
  qed
  with assms show ?thesis by (simp add: json_str_def)
qed

definition stops :: "string \<Rightarrow> bool" where
  \<comment> \<open>what may follow a value\<close>
  "stops r = (r = [] \<or> hd r \<in> set '',]}'')"

lemma number_readable:
  assumes "x @ r = y @ s" "list_all num_char x" "list_all num_char y" "stops r" "stops s"
  shows "x = y \<and> r = s"
proof -
  have "takeWhile num_char (z @ t) = z" if "list_all num_char z" "stops t" for z t
    using that by (cases t) (auto simp: takeWhile_append2 list_all_iff stops_def num_char_def is_digit_def)
  then have "x = y" using assms by metis
  then show ?thesis using assms(1) by simp
qed

lemma int_text: "list_all num_char (int_str n)" "CHR ''.'' \<notin> set (int_str n)" "CHR ''e'' \<notin> set (int_str n)" "int_str n \<noteq> []"
  using nat_digits_all [of "nat n"] nat_digits_all [of "nat (- n)"]
  by (auto simp: int_str_def num_char_def list_all_iff is_digit_def Let_def)

lemma int_text_inj: "int_str m = int_str n \<Longrightarrow> m = n"
proof -
  have start: "CHR ''-'' # s \<noteq> nat_digits k" for s k
    using nat_digits_all [of k] digit_not_special [of "CHR ''-''"]
    by (metis (full_types) list.set_intros(1) list_all_iff)
  have nat: "nat a = nat b" if "nat_digits (nat a) = nat_digits (nat b)" for a b
    using arg_cong [OF that, of digits_val] by simp
  assume eq: "int_str m = int_str n"
  consider "m < 0" "n < 0" | "m < 0" "0 \<le> n" | "0 \<le> m" "n < 0" | "0 \<le> m" "0 \<le> n" by linarith
  then show "m = n"
  proof cases
    case 1
    with eq have "nat (- m) = nat (- n)" by (intro nat) (simp add: int_str_def)
    with 1 show ?thesis by simp
  next
    case 2
    with eq start show ?thesis by (simp add: int_str_def)
  next
    case 3
    with eq start [symmetric] show ?thesis by (simp add: int_str_def)
  next
    case 4
    with eq have "nat m = nat n" by (intro nat) (simp add: int_str_def)
    with 4 show ?thesis by simp
  qed
qed

section \<open>Sequences\<close>

lemma commas_Cons: "commas (x # xs) = x @ concat (map (\<lambda>y. CHR '','' # y) xs)"
  by (induction xs arbitrary: x) auto

lemma sequence_readable:
  assumes read: "\<And>v w r s. v \<in> set vs \<Longrightarrow> w \<in> set ws \<Longrightarrow> f v @ r = f w @ s \<Longrightarrow> stops r \<Longrightarrow> stops s \<Longrightarrow> v = w \<and> r = s"
    and start: "\<And>v. v \<in> set vs \<union> set ws \<Longrightarrow> f v \<noteq> [] \<and> \<not> stops (f v)"
    and c: "c \<in> set '']}''"
    and eq: "commas (map f vs) @ c # r = commas (map f ws) @ c # s"
  shows "vs = ws \<and> r = s"
proof -
  let ?tail = "\<lambda>vs. concat (map (\<lambda>v. CHR '','' # f v) vs)"
  have st: "stops (?tail us @ c # t)" for us t
    using c by (cases us) (auto simp: stops_def)
  have c': "c \<noteq> CHR '',''" using c by auto
  have tails: "us = ts \<and> r = s"
    if "?tail us @ c # r = ?tail ts @ c # s" "set us \<subseteq> set vs" "set ts \<subseteq> set ws" for us ts
    using that
  proof (induction us arbitrary: ts)
    case Nil
    then show ?case using c' by (cases ts) simp_all
  next
    case (Cons u us)
    show ?case
    proof (cases ts)
      case Nil
      with Cons.prems(1) c' show ?thesis by simp
    next
      case ts: (Cons t ts')
      have "u = t \<and> ?tail us @ c # r = ?tail ts' @ c # s"
        by (rule read [OF _ _ _ st st]) (use Cons.prems ts in simp_all)
      moreover from this have "us = ts' \<and> r = s"
        by (intro Cons.IH) (use Cons.prems ts in simp_all)
      ultimately show ?thesis using ts by simp
    qed
  qed
  have hd: "f v @ t \<noteq> c # u" if "v \<in> set vs \<union> set ws" for v t u
    using start [OF that] c by (cases "f v") (auto simp: stops_def)
  show ?thesis
  proof (cases vs)
    case Nil
    with eq hd [symmetric] show ?thesis by (cases ws) (simp_all add: commas_Cons o_def)
  next
    case vs: (Cons v vs')
    show ?thesis
    proof (cases ws)
      case Nil
      with eq vs hd show ?thesis by (simp add: commas_Cons o_def)
    next
      case ws: (Cons w ws')
      have "v = w \<and> ?tail vs' @ c # r = ?tail ws' @ c # s"
        by (rule read [OF _ _ _ st st]) (use eq vs ws in \<open>simp_all add: commas_Cons o_def\<close>)
      moreover from this have "vs' = ws' \<and> r = s"
        by (intro tails) (use vs ws in auto)
      ultimately show ?thesis using vs ws by simp
    qed
  qed
qed

section \<open>Documents\<close>

lemma float_text_start: "float_text s \<Longrightarrow> s \<noteq> [] \<and> list_all num_char s"
  by (simp add: float_text_def)

lemma num_not_special: "num_char c \<Longrightarrow> c \<notin> set ''[{ntf,]}'' \<and> c \<noteq> CHR 0x22"
  by (auto simp: num_char_def is_digit_def)

lemma num_start: "list_all num_char s \<Longrightarrow> s \<noteq> [] \<Longrightarrow> hd s \<notin> set ''[{ntf,]}'' \<and> hd s \<noteq> CHR 0x22"
  by (cases s) (simp_all add: num_not_special del: set_simps)

fun class_char :: "pyval \<Rightarrow> char \<Rightarrow> bool" where
  \<comment> \<open>the characters the text of a document may start with\<close>
  "class_char PNone c = (c = CHR ''n'')"
| "class_char (PBool b) c = (c = (if b then CHR ''t'' else CHR ''f''))"
| "class_char (PInt n) c = num_char c"
| "class_char (PFloat s) c = num_char c"
| "class_char (PList vs) c = (c = CHR ''['')"
| "class_char (PDict d) c = (c = CHR ''{'')"
| "class_char v c = (c = CHR 0x22)"

lemma doc_text_start:
  assumes "plain_document v"
  shows "doc_text v \<noteq> [] \<and> class_char v (hd (doc_text v))"
  using assms int_text(1,4)
  by (cases v) (auto simp: json_str_def float_text_def list_all_iff intro: hd_in_set)

lemma class_not_stop: "class_char v c \<Longrightarrow> c \<notin> set '',]}''"
  by (cases v) (auto dest: num_not_special)

lemma doc_text_not_stop: "plain_document v \<Longrightarrow> doc_text v \<noteq> [] \<and> \<not> stops (doc_text v)"
  using doc_text_start [of v] class_not_stop [of v "hd (doc_text v)"] by (auto simp: stops_def)

lemma class_disjoint:
  assumes "class_char v c" "class_char w c" "plain_document v" "plain_document w"
  shows "(\<exists>m n. v = PInt m \<and> w = PInt n) \<or> (\<exists>m s. v = PInt m \<and> w = PFloat s) \<or> (\<exists>s n. v = PFloat s \<and> w = PInt n)
    \<or> (\<exists>s t. v = PFloat s \<and> w = PFloat t) \<or> (\<exists>s t. v = PStr s \<and> w = PStr t)
    \<or> (\<exists>vs ws. v = PList vs \<and> w = PList ws) \<or> (\<exists>vs ws. v = PDict vs \<and> w = PDict ws) \<or> v = w"
  using assms by (cases v; cases w) (auto dest: num_not_special split: if_splits)

lemma class_agree:
  assumes "plain_document v" "plain_document w" "doc_text v @ r = doc_text w @ s"
  shows "class_char v (hd (doc_text v)) \<and> class_char w (hd (doc_text v))"
  using doc_text_start [OF assms(1)] doc_text_start [OF assms(2)] assms(3) by (metis hd_append2)

lemma leaf_readable:
  assumes "plain_document v" "plain_document w" "doc_text v @ r = doc_text w @ s" "stops r" "stops s"
    and leaf: "\<forall>vs. v \<noteq> PList vs" "\<forall>kvs. v \<noteq> PDict kvs"
  shows "v = w \<and> r = s"
proof -
  have num: "x = y \<and> r = s" if "x @ r = y @ s" "list_all num_char x" "list_all num_char y" for x y
    using number_readable [OF that assms(4,5)] .
  have "(\<exists>m n. v = PInt m \<and> w = PInt n) \<or> (\<exists>m t. v = PInt m \<and> w = PFloat t) \<or> (\<exists>t n. v = PFloat t \<and> w = PInt n)
    \<or> (\<exists>t u. v = PFloat t \<and> w = PFloat u) \<or> (\<exists>t u. v = PStr t \<and> w = PStr u) \<or> v = w"
    using class_disjoint [OF class_agree [THEN conjunct1] class_agree [THEN conjunct2], OF assms(1-3) assms(1-3) assms(1,2)]
      leaf by blast
  then show ?thesis
  proof (elim disjE exE conjE)
    fix m n
    assume vw: "v = PInt m" "w = PInt n"
    then have "int_str m = int_str n \<and> r = s" using assms(3) by (intro num) (simp_all add: int_text)
    then show ?thesis using vw int_text_inj by blast
  next
    fix m t
    assume vw: "v = PInt m" "w = PFloat t"
    then have "int_str m = t" using assms(2,3) num [of "int_str m" t] by (simp add: int_text float_text_def)
    then show ?thesis using vw assms(2) int_text(2,3) [of m] by (simp add: float_text_def)
  next
    fix t n
    assume vw: "v = PFloat t" "w = PInt n"
    then have "t = int_str n" using assms(1,3) num [of t "int_str n"] by (simp add: int_text float_text_def)
    then show ?thesis using vw assms(1) int_text(2,3) [of n] by (simp add: float_text_def)
  next
    fix t u
    assume vw: "v = PFloat t" "w = PFloat u"
    then show ?thesis using assms(1-3) num [of t u] by (simp add: float_text_def)
  next
    fix t u
    assume vw: "v = PStr t" "w = PStr u"
    then show ?thesis using assms(3) json_str_readable [of t r u s] by simp
  next
    assume "v = w"
    then show ?thesis using assms(3) by simp
  qed
qed

lemma document_readable:
  assumes "plain_document v" "plain_document w" "doc_text v @ r = doc_text w @ s" "stops r" "stops s"
  shows "v = w \<and> r = s"
  using assms
proof (induction v arbitrary: w r s rule: doc_text.induct)
  case (1 vs)
  have "(\<exists>ws. w = PList ws) \<or> PList vs = w"
    using class_disjoint [OF class_agree [THEN conjunct1] class_agree [THEN conjunct2], OF 1(2-4) 1(2-4) 1(2,3)]
    by simp
  then obtain ws where w: "w = PList ws" by blast
  have "vs = ws \<and> r = s"
  proof (rule sequence_readable [of vs ws doc_text])
    show "commas (map doc_text vs) @ CHR '']'' # r = commas (map doc_text ws) @ CHR '']'' # s"
      using 1 w by simp
    show "doc_text v \<noteq> [] \<and> \<not> stops (doc_text v)" if "v \<in> set vs \<union> set ws" for v
      by (rule doc_text_not_stop) (use that 1 w in \<open>auto simp: list_all_iff\<close>)
  qed (use 1 w in \<open>auto simp: list_all_iff\<close>)
  with w show ?case by simp
next
  case (2 kvs)
  have "(\<exists>kws. w = PDict kws) \<or> PDict kvs = w"
    using class_disjoint [OF class_agree [THEN conjunct1] class_agree [THEN conjunct2], OF 2(2-4) 2(2-4) 2(2,3)]
    by simp
  then obtain kws where w: "w = PDict kws" by blast
  let ?f = "\<lambda>kv. json_str (fst kv) @ '':'' @ doc_text (snd kv)"
  have "kvs = kws \<and> r = s"
  proof (rule sequence_readable [of kvs kws ?f])
    show "commas (map ?f kvs) @ CHR ''}'' # r = commas (map ?f kws) @ CHR ''}'' # s"
      using 2 w by simp
    fix kv kw x y
    assume mem: "kv \<in> set kvs" "kw \<in> set kws" and eq: "?f kv @ x = ?f kw @ y" and st: "stops x" "stops y"
    from eq have "json_str (fst kv) @ '':'' @ doc_text (snd kv) @ x = json_str (fst kw) @ '':'' @ doc_text (snd kw) @ y"
      by simp
    from json_str_readable [OF this] have "fst kv = fst kw" "doc_text (snd kv) @ x = doc_text (snd kw) @ y" by auto
    moreover from this(2) have "snd kv = snd kw \<and> x = y"
      by (intro "2.IH") (use 2 w mem st in \<open>auto simp: list_all_iff\<close>)
    ultimately show "kv = kw \<and> x = y" by (simp add: prod_eq_iff)
  qed (auto simp: json_str_def stops_def)
  with w show ?case by simp
qed (erule (4) leaf_readable; simp)+

lemma json_same_iff:
  assumes "finite_floats v" "finite_floats w"
  shows "json v = json w \<longleftrightarrow> document v = document w"
  using document_readable [OF document_plain [OF assms(1)] document_plain [OF assms(2)], of "[]" "[]"]
  by (auto simp: json_document stops_def)

section \<open>What a request fingerprint identifies\<close>


text \<open>C34: Two requests have the same fingerprint exactly when they agree on the source, the project, the
  normalised environment, the action, the resource, the two estimated costs as quantized to four and to six
  places and on the metadata as a JSON document, provided the hash does not collide on their two texts: the
  idempotency key derived from a fingerprint never merges two different requests, and no difference of
  spelling (the alias of an environment, the order of the metadata keys, more decimal places) separates two
  equal ones.\<close>

theorem fingerprint_identifies_request:
  assumes "finite_floats (PDict (gi_metadata g))" "finite_floats (PDict (gi_metadata h))"
    and "inj_on sha {stable_fingerprint (\<lambda>t. t) s g, stable_fingerprint (\<lambda>t. t) s' h}"
  shows "stable_fingerprint sha s g = stable_fingerprint sha s' h \<longleftrightarrow>
    s = s' \<and> gi_project g = gi_project h \<and> normalize_environment (gi_environment g) = normalize_environment (gi_environment h) \<and>
    gi_action g = gi_action h \<and> gi_resource g = gi_resource h \<and> quantize4 (gi_monthly g) = quantize4 (gi_monthly h) \<and>
    quantize6 (gi_hourly g) = quantize6 (gi_hourly h) \<and>
    document (PDict (gi_metadata g)) = document (PDict (gi_metadata h))"
proof -
  have "stable_fingerprint sha s g = stable_fingerprint sha s' h \<longleftrightarrow>
      stable_fingerprint (\<lambda>t. t) s g = stable_fingerprint (\<lambda>t. t) s' h"
    using inj_on_eq_iff [OF assms(3)] by (simp add: stable_fingerprint_def)
  moreover have "source_value s = source_value s' \<longleftrightarrow> s = s'"
    by (metis option.inject source_of_value_value)
  ultimately show ?thesis
    using assms(1,2) unfolding stable_fingerprint_def
    by (subst (asm) json_same_iff) (auto simp: fixed_str_inj less_list_code)
qed

definition sample_request :: gate_input where
  "sample_request = \<lparr>gi_project = ''p'', gi_environment = ''live'', gi_action = ''apply'', gi_resource = ''r'',
     gi_monthly = 10, gi_hourly = 0, gi_metadata = [(''b'', PFloat ''1.5''), (''a'', PInt 1)], gi_idempotency = None,
     gi_dry_run = False\<rparr>"

lemma fingerprint_identifies_request_witness:
  "stable_fingerprint rev TERRAFORM sample_request = stable_fingerprint rev TERRAFORM
     (sample_request\<lparr>gi_environment := '' PROD'', gi_metadata := [(''a'', PInt 1), (''b'', PFloat ''1.5'')]\<rparr>)
   \<and> stable_fingerprint rev TERRAFORM sample_request \<noteq> stable_fingerprint rev CLOUD_EVENT sample_request"
proof -
  let ?h = "sample_request\<lparr>gi_environment := '' PROD'', gi_metadata := [(''a'', PInt 1), (''b'', PFloat ''1.5'')]\<rparr>"
  have fin: "finite_floats (PDict (gi_metadata sample_request))" "finite_floats (PDict (gi_metadata ?h))"
    by (simp_all add: sample_request_def float_text_def num_char_def is_digit_def)
  have inj: "inj_on rev A" for A :: "string set" by (simp add: inj_on_def)
  have "normalize_environment ''live'' = normalize_environment '' PROD''" by code_simp
  moreover have "document (PDict (gi_metadata sample_request)) = document (PDict (gi_metadata ?h))"
    by (simp add: sample_request_def)
  ultimately show ?thesis
    using fingerprint_identifies_request [OF fin inj, of TERRAFORM TERRAFORM]
      fingerprint_identifies_request [OF fin(1) fin(1) inj, of TERRAFORM CLOUD_EVENT]
    by (simp add: sample_request_def)
qed

end
