(* ===== verification/Export_Bundle.thy ===== *)
theory Export_Bundle
  imports Export_Csv Canonical_Json Reconciliation "HOL-Library.AList" "HOL-Library.Product_Lexorder"
begin

text \<open>
  \<open>app/modules/enforcement/domain/export_bundle_ops.py\<close>: the export of a tenant's decisions and approvals over a
  time window, with the lineage of the policies and of the computed contexts behind them, and the signed manifest.

  The export runs four queries; \<open>view i\<close> is the database that query \<open>i\<close> sees, so that what other
  transactions commit in between is part of the model.  \<open>sha\<close> and \<open>hmac key\<close> are the digests of \<open>hashlib\<close>
  and \<open>hmac\<close> as hexadecimal text.
\<close>

section \<open>The rows of the window\<close>

definition in_export :: "uuid \<Rightarrow> time \<Rightarrow> time \<Rightarrow> decision \<Rightarrow> bool" where
  "in_export tenant start fin d = (dec_tenant d = tenant \<and> start \<le> dec_created d \<and> dec_created d \<le> fin)"

definition export_decisions :: "db \<Rightarrow> uuid \<Rightarrow> time \<Rightarrow> time \<Rightarrow> decision list" where
  "export_decisions db tenant start fin =
     order_by [dec_created, \<lambda>d. int (dec_id d)] (filter (in_export tenant start fin) (decisions db))"

definition count_approvals :: "db \<Rightarrow> uuid \<Rightarrow> time \<Rightarrow> time \<Rightarrow> nat" where
  \<comment> \<open>the join of the approval requests with their decisions\<close>
  "count_approvals db tenant start fin =
     length [(a, d). a \<leftarrow> approvals db, d \<leftarrow> decisions db,
             dec_id d = apr_decision a \<and> apr_tenant a = tenant \<and> in_export tenant start fin d]"

definition export_approvals :: "db \<Rightarrow> uuid \<Rightarrow> decision list \<Rightarrow> approval list" where
  "export_approvals db tenant ds =
     (if ds = [] then []
      else order_by [apr_created, \<lambda>a. int (apr_id a)]
        (filter (\<lambda>a. apr_tenant a = tenant \<and> apr_decision a \<in> dec_id ` set ds) (approvals db)))"

section \<open>Lineage\<close>

definition policy_key :: "decision \<Rightarrow> string \<times> string" where
  "policy_key d = (normalize_schema_version (Some (dec_schema_version d)), normalize_sha256 (Some (dec_sha256 d)))"

definition count_policy :: "((string \<times> string) \<times> int) list \<Rightarrow> decision \<Rightarrow> ((string \<times> string) \<times> int) list" where
  "count_policy counts d =
     (let key = policy_key d
      in AList.update key ((case map_of counts key of None \<Rightarrow> 0 | Some n \<Rightarrow> n) + 1) counts)"

definition policy_entry :: "(string \<times> string) \<times> int \<Rightarrow> pyval" where
  "policy_entry e = (case e of ((version, hash), n) \<Rightarrow>
     PDict [(''policy_document_schema_version'', PStr version), (''policy_document_sha256'', PStr hash),
            (''decision_count'', PInt n)])"

definition policy_lineage :: "decision list \<Rightarrow> pyval list" where
  "policy_lineage ds = map policy_entry (sort_key fst (foldl count_policy [] ds))"

type_synonym context_key = "string \<times> string \<times> string \<times> int \<times> int \<times> int \<times> string \<times> string"

definition context_key :: "decision \<Rightarrow> context_key" where
  "context_key d =
     (let ctx = as_dict (dget (dec_response d) ''computed_context'')
      in (ctx_str ctx ''context_version'', ctx_str ctx ''month_start'', ctx_str ctx ''month_end'',
          ctx_int ctx ''month_elapsed_days'', ctx_int ctx ''month_total_days'', ctx_int ctx ''observed_cost_days'',
          ctx_str ctx ''latest_cost_date'', ctx_str ctx ''data_source_mode''))"

definition context_generated :: "decision \<Rightarrow> string" where
  "context_generated d = ctx_str (as_dict (dget (dec_response d) ''computed_context'')) ''generated_at''"

definition count_context ::
  "(context_key \<times> int \<times> string) list \<Rightarrow> decision \<Rightarrow> (context_key \<times> int \<times> string) list" where
  \<comment> \<open>the earliest \<open>generated_at\<close>, compared as text\<close>
  "count_context counts d =
     (let key = context_key d; g = context_generated d
      in AList.update key
           (case map_of counts key of None \<Rightarrow> (1, g) | Some (n, g0) \<Rightarrow> (n + 1, if g < g0 then g else g0)) counts)"

definition context_entry :: "context_key \<times> int \<times> string \<Rightarrow> pyval" where
  "context_entry e = (case e of ((version, first, fin, elapsed, all, observed, late, mode), n, g) \<Rightarrow>
     PDict [(''context_version'', PStr version), (''generated_at'', PStr g), (''month_start'', PStr first),
            (''month_end'', PStr fin), (''month_elapsed_days'', PInt elapsed), (''month_total_days'', PInt all),
            (''observed_cost_days'', PInt observed), (''latest_cost_date'', PStr late),
            (''data_source_mode'', PStr mode), (''decision_count'', PInt n)])"

definition context_lineage :: "decision list \<Rightarrow> pyval list" where
  "context_lineage ds = map context_entry (sort_key fst (foldl count_context [] ds))"

section \<open>The bundle\<close>

record export_bundle =
  xb_generated :: time
  xb_start :: time
  xb_end :: time
  xb_decisions_db :: nat
  xb_decisions_exported :: nat
  xb_approvals_db :: nat
  xb_approvals_exported :: nat
  xb_decisions_sha :: string
  xb_approvals_sha :: string
  xb_policy_sha :: string
  xb_policy_lineage :: "pyval list"
  xb_context_sha :: string
  xb_context_lineage :: "pyval list"
  xb_decisions_csv :: string
  xb_approvals_csv :: string
  xb_parity :: bool

definition generated_candidates :: "decision list \<Rightarrow> approval list \<Rightarrow> time list" where
  "generated_candidates ds as =
     concat (map (\<lambda>d. dec_created d # (case parse_iso_datetime (PStr (context_generated d)) of None \<Rightarrow> [] | Some t \<Rightarrow> [t])) ds)
     @ map apr_created as"

fun latest :: "time \<Rightarrow> time list \<Rightarrow> time" where
  "latest dflt [] = dflt"
| "latest dflt (t # ts) = foldl max t ts"

definition build_export_bundle ::
  "(string \<Rightarrow> string) \<Rightarrow> (nat \<Rightarrow> db) \<Rightarrow> uuid \<Rightarrow> time \<Rightarrow> time \<Rightarrow> int \<Rightarrow> export_bundle outcome" where
  "build_export_bundle sha view tenant start fin max_rows =
     (if max_rows < 1 then Inl (DomainError 422 ''max_rows must be >= 1'')
      else if 50000 < max_rows then Inl (DomainError 422 ''max_rows must be <= 50000'')
      else if fin \<le> start then Inl (DomainError 422 ''window_start must be before window_end'')
      else let n = length (filter (in_export tenant start fin) (decisions (view 0)))
      in if max_rows < int n
         then Inl (DomainError 422 (''Export window exceeds max_rows ('' @ int_str max_rows @
                ''). Narrow the date range or increase max_rows.''))
      else let ds = export_decisions (view 1) tenant start fin; m = count_approvals (view 2) tenant start fin;
               as = export_approvals (view 3) tenant ds; lineage = policy_lineage ds; contexts = context_lineage ds;
               dcsv = render_decisions_csv ds; acsv = render_approvals_csv as
      in Inr \<lparr>xb_generated = latest fin (generated_candidates ds as), xb_start = start, xb_end = fin,
              xb_decisions_db = n, xb_decisions_exported = length ds, xb_approvals_db = m,
              xb_approvals_exported = length as, xb_decisions_sha = sha dcsv, xb_approvals_sha = sha acsv,
              xb_policy_sha = sha (json (PList lineage)), xb_policy_lineage = lineage,
              xb_context_sha = sha (json (PList contexts)), xb_context_lineage = contexts,
              xb_decisions_csv = dcsv, xb_approvals_csv = acsv,
              xb_parity = (n = length ds \<and> m = length as)\<rparr>)"

section \<open>The signed manifest\<close>

record signing_settings =
  ss_secret :: "string option"
  ss_key_id :: "string option"
  ss_jwt_key_id :: "string option"

record export_manifest =
  mf_content :: pydict
  mf_content_sha :: string
  mf_key_id :: string
  mf_signature :: string
  mf_canonical :: string

definition manifest_schema :: string where
  "manifest_schema = ''valdrics.enforcement.export_manifest.v1''"

definition manifest_content :: "uuid \<Rightarrow> export_bundle \<Rightarrow> pydict" where
  "manifest_content tenant b =
     [(''schema_version'', PStr manifest_schema), (''generated_at'', PTime (xb_generated b)),
      (''tenant_id'', PUuid tenant), (''window_start'', PTime (xb_start b)), (''window_end'', PTime (xb_end b)),
      (''decision_count_db'', PInt (int (xb_decisions_db b))),
      (''decision_count_exported'', PInt (int (xb_decisions_exported b))),
      (''approval_count_db'', PInt (int (xb_approvals_db b))),
      (''approval_count_exported'', PInt (int (xb_approvals_exported b))),
      (''decisions_sha256'', PStr (xb_decisions_sha b)), (''approvals_sha256'', PStr (xb_approvals_sha b)),
      (''policy_lineage_sha256'', PStr (xb_policy_sha b)), (''policy_lineage'', PList (xb_policy_lineage b)),
      (''computed_context_lineage_sha256'', PStr (xb_context_sha b)),
      (''computed_context_lineage'', PList (xb_context_lineage b)), (''parity_ok'', PBool (xb_parity b))]"

definition resolve_signing_secret :: "signing_settings \<Rightarrow> string outcome" where
  "resolve_signing_secret s =
     (let configured = strip (opt_str (ss_secret s))
      in if 32 \<le> length configured then Inr configured
         else Inl (DomainError 503 ''Export manifest signing key is not configured''))"

definition resolve_signing_key_id :: "signing_settings \<Rightarrow> string" where
  "resolve_signing_key_id s =
     (let explicit = strip (opt_str (ss_key_id s)); jwt_kid = strip (opt_str (ss_jwt_key_id s))
      in if explicit \<noteq> [] then take 64 explicit else if jwt_kid \<noteq> [] then take 64 jwt_kid
         else ''enforcement-export-hmac-v1'')"

definition build_signed_manifest ::
  "(string \<Rightarrow> string) \<Rightarrow> (string \<Rightarrow> string \<Rightarrow> string) \<Rightarrow> signing_settings \<Rightarrow> uuid \<Rightarrow> export_bundle \<Rightarrow>
   export_manifest outcome" where
  "build_signed_manifest sha hmac s tenant b =
     (let content = manifest_content tenant b; canonical = canonical_json content
      in and_then (resolve_signing_secret s) (\<lambda>secret.
         Inr \<lparr>mf_content = content, mf_content_sha = sha canonical, mf_key_id = resolve_signing_key_id s,
              mf_signature = hmac secret canonical, mf_canonical = canonical\<rparr>))"

definition manifest_payload :: "export_manifest \<Rightarrow> pydict" where
  \<comment> \<open>\<open>to_payload\<close>\<close>
  "manifest_payload m =
     mf_content m @
     [(''manifest_content_sha256'', PStr (mf_content_sha m)), (''manifest_signature_algorithm'', PStr ''hmac-sha256''),
      (''manifest_signature_key_id'', PStr (mf_key_id m)), (''manifest_signature'', PStr (mf_signature m))]"

end
