(* ===== verification/Export_Integrity.thy ===== *)
theory Export_Integrity
  imports Export_Bundle Flow_Guarantees
begin

text \<open>
  What an export promises: with nothing committed between its queries it holds exactly the decisions of the
  window and their approvals and says so; its lineage accounts for every exported decision; and the signature of
  the manifest binds what the bundle says.
\<close>

section \<open>Tallies\<close>

lemma foldl_tally:
  fixes step :: "('k \<times> 'v) list \<Rightarrow> 'a \<Rightarrow> ('k \<times> 'v) list"
  assumes "\<And>counts x. step counts x = AList.update (key x) (f (map_of counts (key x)) x) counts"
  shows "distinct (map fst counts) \<Longrightarrow> distinct (map fst (foldl step counts xs))"
    and "set (map fst (foldl step counts xs)) = set (map fst counts) \<union> key ` set xs"
    and "map_of (foldl step counts xs) k =
      foldl (\<lambda>v x. Some (f v x)) (map_of counts k) (filter (\<lambda>x. key x = k) xs)"
proof (induction xs arbitrary: counts)
  case (Cons x xs)
  {
    case 1
    then show ?case using Cons.IH(1) by (simp add: assms distinct_update)
  next
    case 2
    show ?case using Cons.IH(2) by (auto simp: assms dom_update)
  next
    case 3
    show ?case using Cons.IH(3) by (simp add: assms update_conv')
  }
qed simp_all

lemma sorted_tally:
  fixes kvs :: "('k::linorder \<times> 'v) list"
  assumes "distinct (map fst kvs)"
  shows "sort_key fst kvs = map (\<lambda>k. (k, the (map_of kvs k))) (sorted_list_of_set (set (map fst kvs)))"
proof -
  let ?s = "sort_key fst kvs"
  have keys: "map fst ?s = sorted_list_of_set (set (map fst kvs))"
    using assms by (intro sorted_distinct_set_unique) (simp_all add: distinct_map_order_by [of fst "[]" kvs] distinct_map)
  have "the (map_of kvs k) = v" if "(k, v) \<in> set ?s" for k v
    using that assms by simp
  then have "map (\<lambda>kv. (fst kv, the (map_of kvs (fst kv)))) ?s = ?s"
    by (intro map_idI) (auto simp: prod_eq_iff)
  then show ?thesis unfolding keys [symmetric] by (simp add: o_def)
qed

lemma count_all: "foldl (\<lambda>v x. Some ((case v of None \<Rightarrow> 0 | Some n \<Rightarrow> n) + 1)) v xs =
    (if xs = [] then v else Some ((case v of None \<Rightarrow> 0 | Some n \<Rightarrow> n) + int (length xs)))"
  by (induction xs arbitrary: v) auto

definition lineage_table :: "('a \<Rightarrow> 'k::linorder) \<Rightarrow> ('k \<Rightarrow> 'a list \<Rightarrow> 'b) \<Rightarrow> 'a list \<Rightarrow> 'b list" where
  \<comment> \<open>the reference: one row per key, in the order of the keys, from the items with that key\<close>
  "lineage_table key row xs =
     map (\<lambda>k. row k (filter (\<lambda>x. key x = k) xs)) (sorted_list_of_set (key ` set xs))"

lemma policy_lineage_table:
  "policy_lineage ds = lineage_table policy_key (\<lambda>k es. policy_entry (k, int (length es))) ds"
proof -
  let ?c = "foldl count_policy [] ds"
  note t = foldl_tally [where step = count_policy and key = policy_key and
    f = "\<lambda>v d. (case v of None \<Rightarrow> 0 | Some n \<Rightarrow> n) + 1" and counts = "[]" and xs = ds]
  have st: "count_policy counts d = AList.update (policy_key d) ((case map_of counts (policy_key d) of None \<Rightarrow> 0 | Some n \<Rightarrow> n) + 1) counts"
    for counts d by (simp add: count_policy_def Let_def)
  have look: "the (map_of ?c k) = int (length (filter (\<lambda>d. policy_key d = k) ds))" if "k \<in> policy_key ` set ds" for k
    using that by (auto simp: t(3) [OF st] count_all filter_empty_conv)
  have keys: "fst ` set ?c = policy_key ` set ds" using t(2) [OF st] by simp
  have "sort_key fst ?c = map (\<lambda>k. (k, int (length (filter (\<lambda>d. policy_key d = k) ds)))) (sorted_list_of_set (policy_key ` set ds))"
    using sorted_tally [OF t(1) [OF st]] look by (simp add: keys)
  then show ?thesis by (simp add: policy_lineage_def lineage_table_def)
qed

lemma earliest_all:
  fixes g :: "'a \<Rightarrow> 'b::linorder"
  shows "foldl (\<lambda>v x. Some (case v of None \<Rightarrow> (1, g x) | Some (n, g0) \<Rightarrow> (n + 1, if g x < g0 then g x else g0))) (Some (n, g0)) xs =
    Some (n + int (length xs), Min (insert g0 (g ` set xs)))"
proof (induction xs arbitrary: n g0)
  case (Cons x xs)
  have "Min (insert (if g x < g0 then g x else g0) (g ` set xs)) = Min (insert g0 (insert (g x) (g ` set xs)))"
    by (cases "g ` set xs = {}") (auto simp: min_def)
  then show ?case by (simp add: Cons.IH)
qed simp

lemma context_lineage_table:
  "context_lineage ds =
    lineage_table context_key (\<lambda>k es. context_entry (k, int (length es), Min (context_generated ` set es))) ds"
proof -
  let ?c = "foldl count_context [] ds"
  let ?f = "\<lambda>v d. case v of None \<Rightarrow> (1, context_generated d) | Some (n, g0) \<Rightarrow> (n + 1, if context_generated d < g0 then context_generated d else g0)"
  note t = foldl_tally [where step = count_context and key = context_key and f = ?f and counts = "[]" and xs = ds]
  have st: "count_context counts d = AList.update (context_key d) (?f (map_of counts (context_key d)) d) counts"
    for counts d by (simp add: count_context_def Let_def)
  have look: "the (map_of ?c k) = (int (length es), Min (context_generated ` set es))"
    if "k \<in> context_key ` set ds" "es = filter (\<lambda>d. context_key d = k) ds" for k es
  proof -
    from that have "es \<noteq> []" by (auto simp: filter_empty_conv)
    then obtain e es' where "es = e # es'" by (cases es) auto
    then show ?thesis
      using earliest_all [of context_generated 1 "context_generated e" es'] that(2) [symmetric] by (simp add: t(3) [OF st])
  qed
  have keys: "fst ` set ?c = context_key ` set ds" using t(2) [OF st] by simp
  have "sort_key fst ?c = map (\<lambda>k. (k, int (length (filter (\<lambda>d. context_key d = k) ds)),
      Min (context_generated ` set (filter (\<lambda>d. context_key d = k) ds)))) (sorted_list_of_set (context_key ` set ds))"
    using sorted_tally [OF t(1) [OF st]] look by (simp add: keys)
  then show ?thesis by (simp add: context_lineage_def lineage_table_def)
qed

lemma tally_sum:
  "sum_list (map (\<lambda>k. length (filter (\<lambda>x. key x = k) xs)) (sorted_list_of_set (key ` set xs))) = length xs"
proof -
  have "(\<Sum>k\<in>key ` set xs. count_list (map key xs) k) = length (map key xs)"
    using sum_count_set [of "map key xs" "key ` set xs"] by simp
  moreover have "length (filter (\<lambda>x. key x = k) xs) = count_list (map key xs) k" for k
    by (induction xs) auto
  ultimately show ?thesis
    by (simp add: sum_list_distinct_conv_sum_set)
qed

section \<open>Completeness\<close>

lemma length_picks: "length (concat (map (\<lambda>x. if Q x then [f x] else []) xs)) = length (filter Q xs)"
  by (induction xs) auto

lemma length_filter_key:
  assumes "distinct (map k xs)"
  shows "length (filter (\<lambda>x. k x = i \<and> R x) xs) = (if \<exists>x\<in>set xs. k x = i \<and> R x then 1 else 0)"
  using assms by (induction xs) (auto simp: filter_empty_conv image_iff)

lemma length_singles:
  "(\<And>x. length (g x) = (if P x then 1 else 0)) \<Longrightarrow> length (concat (map g xs)) = length (filter P xs)"
  by (induction xs) simp_all

lemma count_approvals_eq:
  assumes "distinct (map dec_id (decisions db))"
  shows "count_approvals db tenant start fin =
    length (filter (\<lambda>a. apr_tenant a = tenant \<and>
      (\<exists>d\<in>set (decisions db). dec_id d = apr_decision a \<and> in_export tenant start fin d)) (approvals db))"
proof -
  have "length (concat (map (\<lambda>d. if dec_id d = apr_decision a \<and> apr_tenant a = tenant \<and> in_export tenant start fin d
      then [(a, d)] else []) (decisions db))) =
    (if apr_tenant a = tenant \<and> (\<exists>d\<in>set (decisions db). dec_id d = apr_decision a \<and> in_export tenant start fin d) then 1 else 0)" for a
    using length_filter_key [OF assms, of "apr_decision a" "\<lambda>d. apr_tenant a = tenant \<and> in_export tenant start fin d"]
    by (auto simp: length_picks)
  from length_singles [OF this] show ?thesis by (simp add: count_approvals_def)
qed

lemma export_decisions_rows:
  "set (export_decisions db tenant start fin) = {d \<in> set (decisions db). in_export tenant start fin d}"
  "length (export_decisions db tenant start fin) = length (filter (in_export tenant start fin) (decisions db))"
  "sorted (map dec_created (export_decisions db tenant start fin))"
  by (simp_all add: export_decisions_def sorted_order_by_first)

lemma export_approvals_rows:
  "set (export_approvals db tenant (export_decisions db tenant start fin)) =
    {a \<in> set (approvals db). apr_tenant a = tenant \<and>
      (\<exists>d\<in>set (decisions db). dec_id d = apr_decision a \<and> in_export tenant start fin d)}"
  "length (export_approvals db tenant (export_decisions db tenant start fin)) =
    length (filter (\<lambda>a. apr_tenant a = tenant \<and>
      (\<exists>d\<in>set (decisions db). dec_id d = apr_decision a \<and> in_export tenant start fin d)) (approvals db))"
proof -
  let ?ds = "export_decisions db tenant start fin"
  have mem: "apr_decision a \<in> dec_id ` set ?ds \<longleftrightarrow>
      (\<exists>d\<in>set (decisions db). dec_id d = apr_decision a \<and> in_export tenant start fin d)" for a
    by (auto simp: export_decisions_rows image_iff)
  have none: "?ds = [] \<Longrightarrow> \<not> (\<exists>d\<in>set (decisions db). dec_id d = apr_decision a \<and> in_export tenant start fin d)" for a
    using mem [of a] by simp
  show "set (export_approvals db tenant ?ds) = {a \<in> set (approvals db). apr_tenant a = tenant \<and>
      (\<exists>d\<in>set (decisions db). dec_id d = apr_decision a \<and> in_export tenant start fin d)}"
    using none by (auto simp: export_approvals_def mem)
  show "length (export_approvals db tenant ?ds) = length (filter (\<lambda>a. apr_tenant a = tenant \<and>
      (\<exists>d\<in>set (decisions db). dec_id d = apr_decision a \<and> in_export tenant start fin d)) (approvals db))"
    using none by (auto simp: export_approvals_def mem filter_empty_conv)
qed

definition exports :: "(string \<Rightarrow> string) \<Rightarrow> uuid \<Rightarrow> time \<Rightarrow> time \<Rightarrow> decision list \<Rightarrow> approval list \<Rightarrow> export_bundle \<Rightarrow> bool" where
  \<comment> \<open>the bundle of these rows, with parity\<close>
  "exports sha tenant start fin ds as b =
     (xb_parity b \<and> xb_start b = start \<and> xb_end b = fin \<and>
      xb_decisions_db b = length ds \<and> xb_decisions_exported b = length ds \<and>
      xb_approvals_db b = length as \<and> xb_approvals_exported b = length as \<and>
      xb_decisions_csv b = render_decisions_csv ds \<and> xb_decisions_sha b = sha (render_decisions_csv ds) \<and>
      xb_approvals_csv b = render_approvals_csv as \<and> xb_approvals_sha b = sha (render_approvals_csv as) \<and>
      xb_policy_lineage b = lineage_table policy_key (\<lambda>k es. policy_entry (k, int (length es))) ds \<and>
      xb_context_lineage b = lineage_table context_key
        (\<lambda>k es. context_entry (k, int (length es), Min (context_generated ` set es))) ds)"

lemma build_serial:
  assumes "distinct (map dec_id (decisions db))"
  shows "build_export_bundle sha (\<lambda>_. db) tenant start fin m = Inr b \<Longrightarrow>
      exports sha tenant start fin (export_decisions db tenant start fin)
        (export_approvals db tenant (export_decisions db tenant start fin)) b"
    and "(\<exists>b. build_export_bundle sha (\<lambda>_. db) tenant start fin m = Inr b) \<longleftrightarrow>
      1 \<le> m \<and> m \<le> 50000 \<and> start < fin \<and> int (length (export_decisions db tenant start fin)) \<le> m"
proof -
  assume "build_export_bundle sha (\<lambda>_. db) tenant start fin m = Inr b"
  then show "exports sha tenant start fin (export_decisions db tenant start fin)
        (export_approvals db tenant (export_decisions db tenant start fin)) b"
    by (auto simp: build_export_bundle_def Let_def exports_def count_approvals_eq [OF assms] export_decisions_rows(2)
        export_approvals_rows(2) policy_lineage_table context_lineage_table split: if_splits)
next
  show "(\<exists>b. build_export_bundle sha (\<lambda>_. db) tenant start fin m = Inr b) \<longleftrightarrow>
      1 \<le> m \<and> m \<le> 50000 \<and> start < fin \<and> int (length (export_decisions db tenant start fin)) \<le> m"
    by (auto simp: build_export_bundle_def Let_def export_decisions_rows(2))
qed

text \<open>C32: When nothing is committed between its queries, an export over a database that satisfies the invariant
  succeeds exactly when the row limit is between 1 and 50000, the window is not empty and holds no more
  decisions than the limit.  It then holds exactly the tenant's decisions of the window, each once and oldest first,
  and exactly the approval requests of those decisions; its counts agree (parity), and its two lineages are the
  reference tables: one row per policy version or computed context in key order, with the number of decisions and
  the earliest generation text, so that their counts add up to the decisions exported.\<close>

theorem export_is_complete:
  assumes "world db"
  shows "let ds = export_decisions db tenant start fin; as = export_approvals db tenant ds in
    ((\<exists>b. build_export_bundle sha (\<lambda>_. db) tenant start fin m = Inr b) \<longleftrightarrow>
      1 \<le> m \<and> m \<le> 50000 \<and> start < fin \<and> int (length ds) \<le> m) \<and>
    (\<forall>b. build_export_bundle sha (\<lambda>_. db) tenant start fin m = Inr b \<longrightarrow> exports sha tenant start fin ds as b) \<and>
    set ds = {d \<in> set (decisions db). in_export tenant start fin d} \<and> distinct ds \<and> sorted (map dec_created ds) \<and>
    set as = {a \<in> set (approvals db). \<exists>d\<in>set ds. dec_id d = apr_decision a} \<and> distinct as \<and>
    sum_list (map (\<lambda>k. length (filter (\<lambda>d. policy_key d = k) ds)) (sorted_list_of_set (policy_key ` set ds))) = length ds \<and>
    sum_list (map (\<lambda>k. length (filter (\<lambda>d. context_key d = k) ds)) (sorted_list_of_set (context_key ` set ds))) = length ds"
proof -
  have dd: "decisions_ok db" and ad: "approvals_ok db" using worldD [OF assms(1)] by auto
  then have ids: "distinct (map dec_id (decisions db))" "distinct (map apr_id (approvals db))"
    by (simp_all add: decisions_ok_def approvals_ok_def)
  have ten: "apr_tenant a = tenant" if "a \<in> set (approvals db)" "d \<in> set (decisions db)" "dec_id d = apr_decision a"
    "in_export tenant start fin d" for a d
    using ad that decision_unique [OF dd] by (fastforce simp: approvals_ok_def in_export_def)
  let ?ds = "export_decisions db tenant start fin"
  let ?as = "export_approvals db tenant ?ds"
  have "distinct (map dec_id ?ds)" "distinct (map apr_id ?as)"
    using ids by (simp_all add: export_decisions_def export_approvals_def distinct_map_filter)
  then have dist: "distinct ?ds" "distinct ?as" by (simp_all add: distinct_map)
  have set_as: "set ?as = {a \<in> set (approvals db). \<exists>d\<in>set ?ds. dec_id d = apr_decision a}"
    using ten by (auto simp: export_decisions_rows export_approvals_rows)
  show ?thesis
    unfolding Let_def
    by (intro conjI allI impI build_serial [OF ids(1)] export_decisions_rows dist set_as tally_sum)
qed

theorem export_is_complete_witness:
  "\<exists>b. build_export_bundle id (\<lambda>_. sample_waiting 0) 7 (- 1) 1 5 = Inr b \<and> xb_parity b \<and> xb_decisions_exported b = 1 \<and>
    xb_approvals_exported b = 1"
proof -
  let ?ds = "export_decisions (sample_waiting 0) 7 (- 1) 1"
  have created: "in_export 7 (- 1) 1 waiting_decision"
    by (simp add: in_export_def) (simp add: waiting_decision_def sample_decision_def)
  then have ds: "?ds = [waiting_decision]" by (simp add: export_decisions_def order_by_def)
  then have as: "export_approvals (sample_waiting 0) 7 ?ds = [waiting_approval]"
    by (simp add: export_approvals_def order_by_def)
  from export_is_complete [OF sample_waiting_world [of 0], where tenant = 7 and start = "- 1" and fin = 1 and sha = id and m = 5]
  obtain b where "build_export_bundle id (\<lambda>_. sample_waiting 0) 7 (- 1) 1 5 = Inr b"
    and "exports id 7 (- 1) 1 ?ds (export_approvals (sample_waiting 0) 7 ?ds) b"
    unfolding Let_def by (auto simp: ds)
  then show ?thesis using as by (auto simp: exports_def ds)
qed

section \<open>The signature\<close>

lemma by_keys: "distinct (map fst xs) \<Longrightarrow> map (\<lambda>k. (k, the (map_of xs k))) (map fst xs) = xs"
  by (auto intro!: map_idI simp: o_def)

lemma sorted_keys_inj:
  assumes "map fst xs = map fst ys" "distinct (map fst xs)" "sort_key fst xs = sort_key fst ys"
  shows "xs = ys"
proof -
  have "set xs = set ys" using arg_cong [OF assms(3), of set] by simp
  then have "map_of xs = map_of ys" using map_of_inject_set [of xs ys] assms(1,2) by simp
  then show ?thesis using by_keys [OF assms(2)] by_keys [of ys] assms(1,2) by simp
qed

lemma keys_values: "map (\<lambda>kv. (fst kv, f (snd kv))) d = zip (map fst d) (map (\<lambda>kv. f (snd kv)) d)"
  by (induction d) auto

lemma document_dict_inj:
  assumes "map fst d = map fst e" "distinct (map fst d)"
  shows "document (PDict d) = document (PDict e) \<longleftrightarrow> map (\<lambda>kv. document (snd kv)) d = map (\<lambda>kv. document (snd kv)) e"
proof -
  let ?v = "map (\<lambda>kv. (fst kv, document (snd kv)))"
  have keys: "map fst (?v x) = map fst x" for x by (simp only: map_map o_def fst_conv)
  have "document (PDict d) = document (PDict e) \<longleftrightarrow> sort_key fst (?v d) = sort_key fst (?v e)"
    by (simp only: document.simps pyval.inject)
  also have "\<dots> \<longleftrightarrow> ?v d = ?v e"
    using sorted_keys_inj [of "?v d" "?v e"] assms by (auto simp only: keys)
  also have "\<dots> \<longleftrightarrow> map (\<lambda>kv. document (snd kv)) d = map (\<lambda>kv. document (snd kv)) e"
    unfolding keys_values assms(1) using assms(1) by (auto simp: zip_eq_conv map_equality_iff)
  finally show ?thesis .
qed

lemma policy_entry_inj:
  assumes "document (policy_entry e) = document (policy_entry e')"
  shows "e = e'"
proof -
  obtain k n k' n' where kn: "e = (k, n)" "e' = (k', n')" by (cases e; cases e') auto
  obtain v h v' h' where "k = (v, h)" "k' = (v', h')" by (cases k; cases k') auto
  with kn have e: "e = ((v, h), n)" "e' = ((v', h'), n')" by simp_all
  have "map (\<lambda>kv. document (snd kv)) [(''policy_document_schema_version'', PStr v), (''policy_document_sha256'', PStr h),
      (''decision_count'', PInt n)] = map (\<lambda>kv. document (snd kv)) [(''policy_document_schema_version'', PStr v'),
      (''policy_document_sha256'', PStr h'), (''decision_count'', PInt n')]"
    by (rule document_dict_inj [THEN iffD1])
      (use assms in \<open>simp_all add: e policy_entry_def del: document.simps(5)\<close>)
  then show ?thesis by (simp add: e)
qed

lemma context_entry_inj:
  assumes "document (context_entry e) = document (context_entry e')"
  shows "e = e'"
proof -
  have parts: "\<exists>v a b i j k l m n g. x = ((v, a, b, i, j, k, l, m), n, g)" for x :: "context_key \<times> int \<times> string"
  proof -
    obtain key n g where x: "x = (key, n, g)" by (rule prod_cases3)
    obtain v a b i j k lm where "key = (v, a, b, i, j, k, lm)" by (rule prod_cases7)
    moreover obtain l m where "lm = (l, m)" by (rule prod.exhaust)
    ultimately show ?thesis using x by blast
  qed
  obtain v a b i j k l m n g where e: "e = ((v, a, b, i, j, k, l, m), n, g)" using parts [of e] by blast
  obtain v' a' b' i' j' k' l' m' n' g' where e': "e' = ((v', a', b', i', j', k', l', m'), n', g')"
    using parts [of e'] by blast
  let ?d = "\<lambda>e. case e of ((version, first, fin, elapsed, all, observed, late, mode), n, g) \<Rightarrow>
     [(''context_version'', PStr version), (''generated_at'', PStr g), (''month_start'', PStr first),
      (''month_end'', PStr fin), (''month_elapsed_days'', PInt elapsed), (''month_total_days'', PInt all),
      (''observed_cost_days'', PInt observed), (''latest_cost_date'', PStr late),
      (''data_source_mode'', PStr mode), (''decision_count'', PInt n)]"
  have "map (\<lambda>kv. document (snd kv)) (?d e) = map (\<lambda>kv. document (snd kv)) (?d e')"
    by (rule document_dict_inj [THEN iffD1])
      (use assms in \<open>simp_all add: e e' context_entry_def del: document.simps(5)\<close>)
  then show ?thesis by (simp add: e e')
qed

definition same_signed :: "uuid \<Rightarrow> export_bundle \<Rightarrow> uuid \<Rightarrow> export_bundle \<Rightarrow> bool" where
  \<comment> \<open>the two bundles say the same, of the same tenant; a time or an identifier is what its text says\<close>
  "same_signed tenant b tenant' b' =
     (uuid_str tenant = uuid_str tenant' \<and> iso_str (xb_generated b) = iso_str (xb_generated b') \<and>
      iso_str (xb_start b) = iso_str (xb_start b') \<and> iso_str (xb_end b) = iso_str (xb_end b') \<and>
      xb_decisions_db b = xb_decisions_db b' \<and> xb_decisions_exported b = xb_decisions_exported b' \<and>
      xb_approvals_db b = xb_approvals_db b' \<and> xb_approvals_exported b = xb_approvals_exported b' \<and>
      xb_decisions_sha b = xb_decisions_sha b' \<and> xb_approvals_sha b = xb_approvals_sha b' \<and>
      xb_policy_sha b = xb_policy_sha b' \<and> xb_policy_lineage b = xb_policy_lineage b' \<and>
      xb_context_sha b = xb_context_sha b' \<and> xb_context_lineage b = xb_context_lineage b' \<and>
      xb_parity b = xb_parity b')"

definition lineage_rows :: "export_bundle \<Rightarrow> bool" where
  "lineage_rows b = (xb_policy_lineage b \<in> range (map policy_entry) \<and> xb_context_lineage b \<in> range (map context_entry))"

lemma built_lineage: "build_export_bundle sha view tenant start fin m = Inr b \<Longrightarrow> lineage_rows b"
  by (auto simp: build_export_bundle_def Let_def lineage_rows_def policy_lineage_def context_lineage_def split: if_splits)

lemma entries_finite: "finite_floats (PList (map policy_entry xs))" "finite_floats (PList (map context_entry ys))"
  by (auto simp: list_all_iff policy_entry_def context_entry_def split: prod.splits)

lemma entries_inj:
  assumes "\<And>e e'. document (f e) = document (f e') \<Longrightarrow> e = e'" "map (\<lambda>e. document (f e)) xs = map (\<lambda>e. document (f e)) ys"
  shows "xs = ys"
  using assms(2) by (rule map_injective) (auto intro: injI assms(1))

lemma content_keys:
  "map fst (manifest_content tenant b) = map fst (manifest_content tenant' b')"
  "distinct (map fst (manifest_content tenant b))"
  by (simp_all add: manifest_content_def)

lemma content_finite: "lineage_rows b \<Longrightarrow> finite_floats (PDict (manifest_content tenant b))"
  using entries_finite by (auto simp: manifest_content_def lineage_rows_def)

lemma content_same:
  assumes "lineage_rows b" "lineage_rows b'"
  shows "document (PDict (manifest_content tenant b)) = document (PDict (manifest_content tenant' b')) \<longleftrightarrow>
    same_signed tenant b tenant' b'"
proof -
  obtain ps cs ps' cs' where l: "xb_policy_lineage b = map policy_entry ps" "xb_context_lineage b = map context_entry cs"
    "xb_policy_lineage b' = map policy_entry ps'" "xb_context_lineage b' = map context_entry cs'"
    using assms by (auto simp: lineage_rows_def)
  have "map (\<lambda>e. document (policy_entry e)) ps = map (\<lambda>e. document (policy_entry e)) ps' \<longleftrightarrow> ps = ps'"
    "map (\<lambda>e. document (context_entry e)) cs = map (\<lambda>e. document (context_entry e)) cs' \<longleftrightarrow> cs = cs'"
    "map policy_entry ps = map policy_entry ps' \<longleftrightarrow> ps = ps'" "map context_entry cs = map context_entry cs' \<longleftrightarrow> cs = cs'"
    using entries_inj [of policy_entry, OF policy_entry_inj] entries_inj [of context_entry, OF context_entry_inj]
    by (auto simp: o_def dest: arg_cong [of _ _ "map document"])
  then show ?thesis
    unfolding document_dict_inj [OF content_keys]
    by (simp add: manifest_content_def same_signed_def l o_def) blast
qed

lemma signed_Inr:
  "build_signed_manifest sha hmac s tenant b = Inr m \<Longrightarrow>
    \<exists>secret. resolve_signing_secret s = Inr secret \<and> mf_signature m = hmac secret (mf_canonical m) \<and>
      mf_content m = manifest_content tenant b \<and> mf_canonical m = canonical_json (manifest_content tenant b) \<and>
      mf_content_sha m = sha (mf_canonical m)"
  by (auto simp: build_signed_manifest_def Let_def and_then_Inr)

text \<open>C33: Two manifests signed under the same settings carry the same signature exactly when their bundles say the
  same: tenant, window, generation time, counts, parity, lineage and the hashes of the two CSV files; this rests
  on the keyed digest having no collision on the two canonical texts.  Without a signing secret of 32 characters
  nothing is signed.\<close>

theorem signature_binds_export:
  assumes "build_export_bundle sha view tenant start fin m = Inr b" "build_export_bundle sha view' tenant' start' fin' m' = Inr b'"
    and "build_signed_manifest sha hmac s tenant b = Inr mf" "build_signed_manifest sha hmac s tenant' b' = Inr mf'"
    and "inj_on (hmac (strip (opt_str (ss_secret s)))) {mf_canonical mf, mf_canonical mf'}"
  shows "(mf_signature mf = mf_signature mf' \<longleftrightarrow> same_signed tenant b tenant' b') \<and>
    32 \<le> length (strip (opt_str (ss_secret s)))"
proof -
  have rows: "lineage_rows b" "lineage_rows b'" using built_lineage assms(1,2) by blast+
  obtain secret where sec: "resolve_signing_secret s = Inr secret"
    and sig: "mf_signature mf = hmac secret (mf_canonical mf)" "mf_signature mf' = hmac secret (mf_canonical mf')"
    and canon: "mf_canonical mf = json (PDict (manifest_content tenant b))" "mf_canonical mf' = json (PDict (manifest_content tenant' b'))"
    using signed_Inr [OF assms(3)] signed_Inr [OF assms(4)] by (auto simp: canonical_json_def)
  from sec have long: "secret = strip (opt_str (ss_secret s))" "32 \<le> length secret"
    by (auto simp: resolve_signing_secret_def Let_def split: if_splits)
  have "mf_signature mf = mf_signature mf' \<longleftrightarrow> mf_canonical mf = mf_canonical mf'"
    using inj_on_eq_iff [OF assms(5)] by (simp add: sig long)
  also have "\<dots> \<longleftrightarrow> same_signed tenant b tenant' b'"
    using json_same_iff [OF content_finite [OF rows(1)] content_finite [OF rows(2)]] content_same [OF rows]
    by (simp add: canon)
  finally show ?thesis using long by simp
qed

theorem signature_binds_export_witness:
  "\<exists>b b' mf mf'. build_export_bundle id (\<lambda>_. sample_waiting 0) 7 (- 1) 1 5 = Inr b \<and>
    build_export_bundle id (\<lambda>_. sample_waiting 0) 7 2 3 5 = Inr b' \<and>
    build_signed_manifest id (@) (signing_settings.make (Some (replicate 32 CHR ''k'')) None None) 7 b = Inr mf \<and>
    build_signed_manifest id (@) (signing_settings.make (Some (replicate 32 CHR ''k'')) None None) 7 b' = Inr mf' \<and>
    mf_signature mf \<noteq> mf_signature mf'"
proof -
  let ?s = "signing_settings.make (Some (replicate 32 CHR ''k'')) None None"
  let ?x = "export_decisions (sample_waiting 0) 7"
  have ids: "distinct (map dec_id (decisions (sample_waiting 0)))" by simp
  have created: "dec_created waiting_decision = 0" by (simp add: waiting_decision_def sample_decision_def)
  then have ds: "?x (- 1) 1 = [waiting_decision]" "?x 2 3 = []"
    by (simp_all add: export_decisions_def order_by_def in_export_def)
  obtain b where b: "build_export_bundle id (\<lambda>_. sample_waiting 0) 7 (- 1) 1 5 = Inr b"
    using build_serial(2) [OF ids, where sha = id and tenant = 7 and start = "- 1" and fin = 1 and m = 5] by (auto simp: ds)
  obtain b' where b': "build_export_bundle id (\<lambda>_. sample_waiting 0) 7 2 3 5 = Inr b'"
    using build_serial(2) [OF ids, where sha = id and tenant = 7 and start = 2 and fin = 3 and m = 5] by (auto simp: ds)
  have strip: "strip (opt_str (ss_secret ?s)) = replicate 32 CHR ''k''"
    by (simp add: signing_settings.make_def opt_str_def) (rule strip_no_space, simp add: is_space_def)
  then have sec: "resolve_signing_secret ?s = Inr (replicate 32 CHR ''k'')" by (simp add: resolve_signing_secret_def)
  obtain mf where mf: "build_signed_manifest id (@) ?s 7 b = Inr mf" by (simp add: build_signed_manifest_def Let_def sec)
  obtain mf' where mf': "build_signed_manifest id (@) ?s 7 b' = Inr mf'" by (simp add: build_signed_manifest_def Let_def sec)
  have "\<not> same_signed 7 b 7 b'"
    using build_serial(1) [OF ids b] build_serial(1) [OF ids b'] by (simp add: same_signed_def exports_def ds)
  then show ?thesis
    using signature_binds_export [OF b b' mf mf'] b b' mf mf' by (auto simp: inj_on_def)
qed

end
