(* ===== verification/Circuit_Breakers.thy ===== *)
theory Circuit_Breakers
  imports Service_Utils
begin

text \<open>
  The two circuit breakers: the one around calls to external services (\<open>shared/core/circuit_breaker.py\<close>) and the one per
  tenant that guards automatic remediation (\<open>shared/remediation/circuit_breaker.py\<close>), with their registries.

  An instant is the pair of the monotonic clock and the wall clock, in microseconds; the float amounts of the daily budget
  are exact numbers.
\<close>

type_synonym clocks = "time \<times> time"

datatype circuit_state = CLOSED | OPEN | HALF_OPEN

section \<open>The contract of a breaker\<close>

definition recent :: "time \<Rightarrow> clocks \<Rightarrow> clocks \<Rightarrow> bool" where
  "recent cool t now = (fst now - fst t < cool \<and> snd now - snd t < cool)"

locale breaker =
  fixes allow :: "clocks \<Rightarrow> 's \<Rightarrow> bool \<times> 's"
    and fail :: "clocks \<Rightarrow> 's \<Rightarrow> 's"
    and open_now :: "'s \<Rightarrow> bool"
    and failures :: "'s \<Rightarrow> int"
    and last_failure :: "'s \<Rightarrow> clocks option"
    and threshold :: int
    and cool :: time
  assumes counts: "failures (fail t s) = failures s + 1"
    and stamps: "last_failure (fail t s) = Some t"
    and trips: "threshold \<le> failures s + 1 \<Longrightarrow> open_now (fail t s)"
    and holds: "open_now s \<Longrightarrow> last_failure s = Some t \<Longrightarrow> recent cool t now \<Longrightarrow> allow now s = (False, s)"
begin

definition burst :: "clocks list \<Rightarrow> 's \<Rightarrow> 's" where
  "burst ts s = foldl (\<lambda>s t. fail t s) s ts"

lemma burst_failures: "failures (burst ts s) = failures s + int (length ts)"
  unfolding burst_def by (induction ts arbitrary: s) (simp_all add: counts)

lemma burst_trips:
  assumes "ts \<noteq> []" "threshold \<le> failures s + int (length ts)"
  shows "open_now (burst ts s)" "last_failure (burst ts s) = Some (last ts)"
proof -
  obtain us t where ts: "ts = us @ [t]" using assms(1) by (metis rev_exhaust)
  have b: "burst ts s = fail t (burst us s)" by (simp add: burst_def ts)
  show "open_now (burst ts s)" unfolding b by (rule trips) (use assms(2) in \<open>simp add: burst_failures ts\<close>)
  show "last_failure (burst ts s) = Some (last ts)" using b by (simp add: stamps ts)
qed

lemma burst_refused:
  assumes "ts \<noteq> []" "threshold \<le> failures s + int (length ts)" "recent cool (last ts) now"
  shows "allow now (burst ts s) = (False, burst ts s)"
  by (rule holds [OF burst_trips [OF assms(1,2)] assms(3)])

end

section \<open>The breaker of external calls\<close>

record core_config =
  cc_failures :: int
  cc_successes :: int
  cc_timeout :: time

record core_breaker =
  cb_state :: circuit_state
  cb_requests :: int
  cb_failed :: int
  cb_succeeded :: int
  cb_run_failed :: int
  cb_run_succeeded :: int
  cb_last_failure :: "clocks option"
  cb_last_success :: "clocks option"
  cb_changes :: int
  cb_probe :: bool

definition new_core :: core_breaker where
  "new_core = \<lparr>cb_state = CLOSED, cb_requests = 0, cb_failed = 0, cb_succeeded = 0, cb_run_failed = 0,
     cb_run_succeeded = 0, cb_last_failure = None, cb_last_success = None, cb_changes = 0, cb_probe = False\<rparr>"

definition change_state :: "circuit_state \<Rightarrow> core_breaker \<Rightarrow> core_breaker" where
  "change_state s b = b\<lparr>cb_state := s, cb_changes := cb_changes b + 1\<rparr>"

definition should_attempt_reset :: "core_config \<Rightarrow> clocks \<Rightarrow> core_breaker \<Rightarrow> bool" where
  \<comment> \<open>both clocks are recorded together, so the wall clock is never consulted\<close>
  "should_attempt_reset cfg now b =
     (cb_state b = OPEN \<and> (case cb_last_failure b of None \<Rightarrow> True | Some t \<Rightarrow> cc_timeout cfg \<le> fst now - fst t))"

definition record_core_success :: "core_config \<Rightarrow> clocks \<Rightarrow> core_breaker \<Rightarrow> core_breaker" where
  "record_core_success cfg now b =
     (let b1 = b\<lparr>cb_requests := cb_requests b + 1, cb_succeeded := cb_succeeded b + 1,
                 cb_run_succeeded := cb_run_succeeded b + 1, cb_run_failed := 0, cb_last_success := Some now\<rparr>
      in if cb_state b1 = HALF_OPEN \<and> cc_successes cfg \<le> cb_run_succeeded b1 then change_state CLOSED b1 else b1)"

definition record_core_failure :: "core_config \<Rightarrow> clocks \<Rightarrow> core_breaker \<Rightarrow> core_breaker" where
  "record_core_failure cfg now b =
     (let b1 = b\<lparr>cb_requests := cb_requests b + 1, cb_failed := cb_failed b + 1,
                 cb_run_failed := cb_run_failed b + 1, cb_run_succeeded := 0, cb_last_failure := Some now\<rparr>
      in if cb_state b1 = CLOSED \<and> cc_failures cfg \<le> cb_run_failed b1 then change_state OPEN b1
         else if cb_state b1 = HALF_OPEN then change_state OPEN b1 else b1)"

datatype refusal = Refused_open | Refused_half_open

definition core_admit :: "core_config \<Rightarrow> clocks \<Rightarrow> core_breaker \<Rightarrow> (refusal + bool) \<times> core_breaker" where
  \<comment> \<open>under the lock: a refusal, or whether the call holds the probe lock\<close>
  "core_admit cfg now b =
     (let b1 = (if cb_state b = OPEN \<and> should_attempt_reset cfg now b then change_state HALF_OPEN b else b)
      in if cb_state b1 = OPEN then (Inl Refused_open, b1)
         else if cb_state b1 = HALF_OPEN
         then (if cb_probe b1 then (Inl Refused_half_open, b1) else (Inr True, b1\<lparr>cb_probe := True\<rparr>))
         else (Inr False, b1))"

datatype call_end = Call_ok | Call_failed | Call_unexpected

definition core_finish :: "core_config \<Rightarrow> clocks \<Rightarrow> bool \<Rightarrow> call_end \<Rightarrow> core_breaker \<Rightarrow> core_breaker" where
  \<comment> \<open>an exception outside \<open>expected_exception\<close> is not counted; the \<open>finally\<close> releases the probe lock\<close>
  "core_finish cfg now probe e b =
     (let b1 = (case e of Call_ok \<Rightarrow> record_core_success cfg now b | Call_failed \<Rightarrow> record_core_failure cfg now b
                | Call_unexpected \<Rightarrow> b)
      in if probe \<and> cb_probe b1 then b1\<lparr>cb_probe := False\<rparr> else b1)"

definition core_allow :: "core_config \<Rightarrow> clocks \<Rightarrow> core_breaker \<Rightarrow> bool \<times> core_breaker" where
  "core_allow cfg now b = (case core_admit cfg now b of (Inl _, b') \<Rightarrow> (False, b') | (Inr _, b') \<Rightarrow> (True, b'))"

interpretation core: breaker "core_allow cfg" "record_core_failure cfg" "\<lambda>b. cb_state b = OPEN" cb_run_failed cb_last_failure
    "cc_failures cfg" "cc_timeout cfg" for cfg
proof
  show "cb_run_failed (record_core_failure cfg t s) = cb_run_failed s + 1" for t s
    by (simp add: record_core_failure_def change_state_def Let_def)
  show "cb_last_failure (record_core_failure cfg t s) = Some t" for t s
    by (simp add: record_core_failure_def change_state_def Let_def)
  show "cb_state (record_core_failure cfg t s) = OPEN" if "cc_failures cfg \<le> cb_run_failed s + 1" for t s
    using that by (cases "cb_state s") (simp_all add: record_core_failure_def change_state_def Let_def)
  show "core_allow cfg now s = (False, s)" if "cb_state s = OPEN" "cb_last_failure s = Some t" "recent (cc_timeout cfg) t now" for s t now
    using that by (simp add: core_allow_def core_admit_def should_attempt_reset_def recent_def)
qed

definition get_core_breaker :: "(string \<times> core_config \<times> core_breaker) list \<Rightarrow> string \<Rightarrow> core_config \<Rightarrow>
    (string \<times> core_config \<times> core_breaker) list" where
  \<comment> \<open>the registry afterwards; a breaker whose configuration changed is replaced by a new one\<close>
  "get_core_breaker reg name cfg =
     (case map_of reg name of
        Some (c, b) \<Rightarrow> if c = cfg then reg else map (\<lambda>x. if fst x = name then (name, cfg, new_core) else x) reg
      | None \<Rightarrow> reg @ [(name, cfg, new_core)])"

section \<open>The breaker of remediation\<close>

record tenant_config =
  tc_failures :: int
  tc_recovery :: time
  tc_max_savings :: usd

record tenant_breaker =
  tb_state :: circuit_state
  tb_failures :: int
  tb_savings :: usd
  tb_day :: "int option"
  tb_last_at :: "time option"
  tb_last_monotonic :: "time option"
  tb_error :: "string option"

definition new_tenant_breaker :: tenant_breaker where
  "new_tenant_breaker = \<lparr>tb_state = CLOSED, tb_failures = 0, tb_savings = 0, tb_day = None, tb_last_at = None,
     tb_last_monotonic = None, tb_error = None\<rparr>"

definition utc_day :: "clocks \<Rightarrow> int" where
  "utc_day now = snd now div day_us"

definition reset_daily_budget :: "clocks \<Rightarrow> tenant_breaker \<Rightarrow> tenant_breaker" where
  "reset_daily_budget now b =
     (if tb_day b \<noteq> Some (utc_day now) then b\<lparr>tb_savings := 0, tb_day := Some (utc_day now)\<rparr> else b)"

definition expired_at :: "time option \<Rightarrow> time \<Rightarrow> time \<Rightarrow> bool" where
  \<comment> \<open>\<open>last and (now - last) > recovery\<close>: zero counts as absent\<close>
  "expired_at since now recovery = (case since of None \<Rightarrow> False | Some t \<Rightarrow> t \<noteq> 0 \<and> recovery < now - t)"

definition can_execute :: "tenant_config \<Rightarrow> clocks \<Rightarrow> usd \<Rightarrow> tenant_breaker \<Rightarrow> bool \<times> tenant_breaker" where
  "can_execute cfg now estimate b =
     (if tb_state b = OPEN
      then if expired_at (tb_last_monotonic b) (fst now) (tc_recovery cfg) \<or> expired_at (tb_last_at b) (snd now) (tc_recovery cfg)
           then (True, b\<lparr>tb_state := HALF_OPEN\<rparr>) else (False, b)
      else let b1 = reset_daily_budget now b
           in (tb_savings b1 + estimate \<le> tc_max_savings cfg, b1))"

definition reset_breaker :: "tenant_breaker \<Rightarrow> tenant_breaker" where
  "reset_breaker b =
     b\<lparr>tb_state := CLOSED, tb_failures := 0, tb_last_at := None, tb_last_monotonic := None, tb_error := None\<rparr>"

definition record_tenant_success :: "clocks \<Rightarrow> usd \<Rightarrow> tenant_breaker \<Rightarrow> tenant_breaker" where
  "record_tenant_success now savings b =
     (let b1 = (if tb_state b = HALF_OPEN then reset_breaker b else b);
          b2 = reset_daily_budget now (b1\<lparr>tb_failures := 0\<rparr>)
      in b2\<lparr>tb_savings := tb_savings b2 + savings\<rparr>)"

definition record_tenant_failure :: "tenant_config \<Rightarrow> string \<Rightarrow> clocks \<Rightarrow> tenant_breaker \<Rightarrow> tenant_breaker" where
  "record_tenant_failure cfg msg now b =
     (let b1 = b\<lparr>tb_failures := tb_failures b + 1, tb_last_at := Some (snd now), tb_last_monotonic := Some (fst now),
                 tb_error := Some msg\<rparr>
      in if tc_failures cfg \<le> tb_failures b1 then b1\<lparr>tb_state := OPEN\<rparr> else b1)"

record breaker_status =
  bs_state :: circuit_state
  bs_failures :: int
  bs_savings :: usd
  bs_can_execute :: bool
  bs_error :: "string option"

definition tenant_status :: "tenant_config \<Rightarrow> clocks \<Rightarrow> tenant_breaker \<Rightarrow> breaker_status \<times> tenant_breaker" where
  \<comment> \<open>the status asks \<open>can_execute\<close>, which may change the state\<close>
  "tenant_status cfg now b =
     (let (ok, b1) = can_execute cfg now 0 b
      in (\<lparr>bs_state = tb_state b, bs_failures = tb_failures b, bs_savings = tb_savings b, bs_can_execute = ok,
           bs_error = tb_error b1\<rparr>, b1))"

definition tenant_last :: "tenant_breaker \<Rightarrow> clocks option" where
  "tenant_last b = (case (tb_last_monotonic b, tb_last_at b) of (Some m, Some w) \<Rightarrow> Some (m, w) | _ \<Rightarrow> None)"

interpretation tenant: breaker "\<lambda>now. can_execute cfg now estimate" "record_tenant_failure cfg msg" "\<lambda>b. tb_state b = OPEN" tb_failures
    tenant_last "tc_failures cfg" "tc_recovery cfg" for cfg estimate msg
proof
  show "tb_failures (record_tenant_failure cfg msg t s) = tb_failures s + 1" for t s
    by (simp add: record_tenant_failure_def Let_def)
  show "tenant_last (record_tenant_failure cfg msg t s) = Some t" for t s
    by (simp add: record_tenant_failure_def Let_def tenant_last_def)
  show "tb_state (record_tenant_failure cfg msg t s) = OPEN" if "tc_failures cfg \<le> tb_failures s + 1" for t s
    using that by (simp add: record_tenant_failure_def Let_def)
  show "can_execute cfg now estimate s = (False, s)"
    if "tb_state s = OPEN" "tenant_last s = Some t" "recent (tc_recovery cfg) t now" for s t now
    using that by (auto simp: can_execute_def recent_def tenant_last_def expired_at_def split: option.splits)
qed

type_synonym breaker_cache = "(string \<times> tenant_config \<times> tenant_breaker) list"

definition evicted :: "int \<Rightarrow> breaker_cache \<Rightarrow> breaker_cache" where
  "evicted cache_size cache = drop (length cache - nat (max 1 cache_size)) cache"

definition get_tenant_breaker ::
  "tenant_config \<Rightarrow> int \<Rightarrow> breaker_cache \<Rightarrow> string \<Rightarrow> tenant_breaker outcome \<times> breaker_cache" where
  \<comment> \<open>oldest first; a hit moves to the end, a miss replaces in place or appends, then the oldest are evicted\<close>
  "get_tenant_breaker cfg cache_size cache tenant =
     (case map_of cache tenant of
        Some (c, b) \<Rightarrow>
          if c = cfg then (Inr b, filter (\<lambda>x. fst x \<noteq> tenant) cache @ [(tenant, c, b)])
          else (let cache1 = evicted cache_size
                      (map (\<lambda>x. if fst x = tenant then (tenant, cfg, new_tenant_breaker) else x) cache)
                in (case map_of cache1 tenant of None \<Rightarrow> Inl (RuntimeErr ''KeyError'') | Some (_, b') \<Rightarrow> Inr b', cache1))
      | None \<Rightarrow> (Inr new_tenant_breaker, evicted cache_size (cache @ [(tenant, cfg, new_tenant_breaker)])))"

section \<open>A breaker with calls in flight\<close>

record core_system =
  cy_breaker :: core_breaker
  cy_probes :: nat
  cy_plain :: nat

inductive core_step :: "core_config \<Rightarrow> core_system \<Rightarrow> core_system \<Rightarrow> bool" for cfg where
  admitted: "core_admit cfg now (cy_breaker s) = (Inr probe, b) \<Longrightarrow>
    core_step cfg s \<lparr>cy_breaker = b, cy_probes = cy_probes s + (if probe then 1 else 0), cy_plain = cy_plain s + (if probe then 0 else 1)\<rparr>"
| refused: "core_admit cfg now (cy_breaker s) = (Inl r, b) \<Longrightarrow> core_step cfg s (s\<lparr>cy_breaker := b\<rparr>)"
| plain_ends: "cy_plain s = Suc n \<Longrightarrow>
    core_step cfg s (s\<lparr>cy_breaker := core_finish cfg now False e (cy_breaker s), cy_plain := n\<rparr>)"
| probe_ends: "cy_probes s = Suc n \<Longrightarrow>
    core_step cfg s (s\<lparr>cy_breaker := core_finish cfg now True e (cy_breaker s), cy_probes := n\<rparr>)"

definition core_idle :: core_system where
  "core_idle = \<lparr>cy_breaker = new_core, cy_probes = 0, cy_plain = 0\<rparr>"

definition core_counts :: "core_config \<Rightarrow> core_breaker \<Rightarrow> bool" where
  "core_counts cfg b = (cb_requests b = cb_failed b + cb_succeeded b \<and> 0 \<le> cb_run_failed b \<and> cb_run_failed b \<le> cb_failed b \<and>
     0 \<le> cb_run_succeeded b \<and> cb_run_succeeded b \<le> cb_succeeded b \<and>
     (cb_state b = CLOSED \<longrightarrow> cb_run_failed b = 0 \<or> cb_run_failed b < cc_failures cfg) \<and>
     (cb_state b \<noteq> CLOSED \<longrightarrow> cb_last_failure b \<noteq> None))"

definition core_inv :: "core_config \<Rightarrow> core_system \<Rightarrow> bool" where
  "core_inv cfg s = (core_counts cfg (cy_breaker s) \<and> cy_probes s = (if cb_probe (cy_breaker s) then 1 else 0))"

lemma success_counts: "core_counts cfg b \<Longrightarrow> core_counts cfg (record_core_success cfg now b)"
  by (auto simp: core_counts_def record_core_success_def change_state_def Let_def)

lemma failure_counts: "core_counts cfg b \<Longrightarrow> core_counts cfg (record_core_failure cfg now b)"
  by (cases "cb_state b") (auto simp: core_counts_def record_core_failure_def change_state_def Let_def)

lemma record_probe [simp]:
  "cb_probe (record_core_success cfg now b) = cb_probe b" "cb_probe (record_core_failure cfg now b) = cb_probe b"
  by (simp_all add: record_core_success_def record_core_failure_def change_state_def Let_def)

lemma probe_counts [simp]: "core_counts cfg (b\<lparr>cb_probe := p\<rparr>) = core_counts cfg b"
  by (simp add: core_counts_def)

lemma finish_counts: "core_counts cfg b \<Longrightarrow> core_counts cfg (core_finish cfg now p e b)"
  using success_counts [of cfg b now] failure_counts [of cfg b now]
  by (cases e) (simp_all add: core_finish_def Let_def)

lemma finish_probe: "cb_probe (core_finish cfg now p e b) = (cb_probe b \<and> \<not> p)"
  by (cases e) (auto simp: core_finish_def Let_def)

lemma admit_counts: "core_counts cfg b \<Longrightarrow> core_admit cfg now b = (r, b') \<Longrightarrow> core_counts cfg b'"
  by (auto simp: core_admit_def change_state_def core_counts_def Let_def split: if_splits)

lemma admit_probe: "core_admit cfg now b = (r, b') \<Longrightarrow>
    (case r of Inl _ \<Rightarrow> cb_probe b' = cb_probe b | Inr p \<Rightarrow> cb_probe b' = (cb_probe b \<or> p) \<and> (p \<longrightarrow> \<not> cb_probe b))"
  by (auto simp: core_admit_def change_state_def Let_def split: if_splits)

lemma core_step_inv: "core_step cfg s s' \<Longrightarrow> core_inv cfg s \<Longrightarrow> core_inv cfg s'"
proof (induction rule: core_step.induct)
  case (admitted now s probe b)
  then show ?case using admit_counts [OF _ admitted(1)] admit_probe [OF admitted(1)] by (auto simp: core_inv_def)
next
  case (refused now s r b)
  then show ?case using admit_counts [OF _ refused(1)] admit_probe [OF refused(1)] by (auto simp: core_inv_def)
next
  case (plain_ends s n now e)
  then show ?case by (simp add: core_inv_def finish_counts finish_probe)
next
  case (probe_ends s n now e)
  then show ?case by (auto simp: core_inv_def finish_counts finish_probe split: if_splits)
qed

text \<open>C36: Whatever calls are admitted, refused and finished, in any interleaving and with any outcomes, at most one probe is
  in flight, and it holds the probe lock; every counted request is a success or a failure; while the circuit is closed the
  current run of failures is below the threshold; and while it is not closed the time of the failure that opened it is known.\<close>

theorem core_breaker_invariant:
  assumes "(core_step cfg)\<^sup>*\<^sup>* core_idle s"
  shows "cy_probes s \<le> 1 \<and> (cy_probes s = 1 \<longleftrightarrow> cb_probe (cy_breaker s)) \<and>
    cb_requests (cy_breaker s) = cb_failed (cy_breaker s) + cb_succeeded (cy_breaker s) \<and>
    (cb_state (cy_breaker s) = CLOSED \<longrightarrow> cb_run_failed (cy_breaker s) < max 1 (cc_failures cfg)) \<and>
    (cb_state (cy_breaker s) \<noteq> CLOSED \<longrightarrow> cb_last_failure (cy_breaker s) \<noteq> None)"
proof -
  have "core_inv cfg core_idle" by (simp add: core_inv_def core_counts_def core_idle_def new_core_def)
  with assms have "core_inv cfg s" by (induction rule: rtranclp_induct) (auto intro: core_step_inv)
  then show ?thesis by (auto simp: core_inv_def core_counts_def)
qed

theorem core_breaker_invariant_witness:
  "\<exists>s. (core_step \<lparr>cc_failures = 1, cc_successes = 1, cc_timeout = 5\<rparr>)\<^sup>*\<^sup>* core_idle s \<and> cy_probes s = 1 \<and> cb_probe (cy_breaker s)"
proof -
  let ?cfg = "\<lparr>cc_failures = 1, cc_successes = 1, cc_timeout = 5\<rparr>"
  let ?s1 = "core_idle\<lparr>cy_plain := 1\<rparr>"
  let ?b2 = "core_finish ?cfg (0, 0) False Call_failed new_core"
  let ?s2 = "core_idle\<lparr>cy_breaker := ?b2\<rparr>"
  have "core_step ?cfg core_idle ?s1"
    using core_step.admitted [of ?cfg "(0, 0)" core_idle False new_core]
    by (simp add: core_idle_def core_admit_def new_core_def)
  moreover have "core_step ?cfg ?s1 ?s2"
    using core_step.plain_ends [of ?s1 0 ?cfg "(0, 0)" Call_failed] by (simp add: core_idle_def)
  moreover obtain b3 where b3: "core_admit ?cfg (9, 9) ?b2 = (Inr True, b3)"
    by (simp add: core_admit_def core_finish_def record_core_failure_def change_state_def new_core_def should_attempt_reset_def Let_def)
  then have "core_step ?cfg ?s2 \<lparr>cy_breaker = b3, cy_probes = 1, cy_plain = 0\<rparr>"
    using core_step.admitted [of ?cfg "(9, 9)" ?s2 True b3] by (simp add: core_idle_def)
  ultimately have run: "(core_step ?cfg)\<^sup>*\<^sup>* core_idle \<lparr>cy_breaker = b3, cy_probes = 1, cy_plain = 0\<rparr>"
    by (meson converse_rtranclp_into_rtranclp rtranclp.rtrancl_refl)
  from core_breaker_invariant [OF run] run show ?thesis by auto
qed

text \<open>C37: Both breakers trip and hold: once the failures of a run reach the threshold, however they are spaced, every request
  is refused, and the breaker does not change, until the cooling time after the last of them has passed on a clock.\<close>

theorem breakers_trip_and_hold:
  assumes "ts \<noteq> []"
  shows "(cc_failures ccfg \<le> cb_run_failed b + int (length ts) \<and> recent (cc_timeout ccfg) (last ts) now \<longrightarrow>
      core_allow ccfg now (foldl (\<lambda>s t. record_core_failure ccfg t s) b ts) =
        (False, foldl (\<lambda>s t. record_core_failure ccfg t s) b ts)) \<and>
    (tc_failures tcfg \<le> tb_failures c + int (length ts) \<and> recent (tc_recovery tcfg) (last ts) now \<longrightarrow>
      can_execute tcfg now estimate (foldl (\<lambda>s t. record_tenant_failure tcfg msg t s) c ts) =
        (False, foldl (\<lambda>s t. record_tenant_failure tcfg msg t s) c ts))"
  using core.burst_refused [OF assms, of ccfg b now] tenant.burst_refused [OF assms, of tcfg c now estimate msg]
  by (simp add: core.burst_def tenant.burst_def)

theorem breakers_trip_and_hold_witness:
  "fst (can_execute \<lparr>tc_failures = 3, tc_recovery = 300, tc_max_savings = 1000\<rparr> (12, 12) 0
     (foldl (\<lambda>s t. record_tenant_failure \<lparr>tc_failures = 3, tc_recovery = 300, tc_max_savings = 1000\<rparr> ''x'' t s)
       new_tenant_breaker [(1, 1), (2, 2), (3, 3)])) = False"
proof -
  have "[(1, 1), (2, 2), (3, 3)] \<noteq> ([] :: clocks list)" by simp
  from breakers_trip_and_hold [OF this, of undefined undefined "(12, 12)" "\<lparr>tc_failures = 3, tc_recovery = 300, tc_max_savings = 1000\<rparr>"
      new_tenant_breaker 0 "''x''"]
  show ?thesis by (simp add: new_tenant_breaker_def recent_def del: foldl.simps)
qed

text \<open>
  A success that arrives late, from a remediation that was admitted before the breaker opened, clears the failure count of
  the open breaker; its next probe may then fail without opening it again.
\<close>

theorem failed_probe_leaves_tenant_breaker_half_open:
  assumes "tb_state b = OPEN" "1 < tc_failures cfg" "expired_at (tb_last_monotonic b) (fst later) (tc_recovery cfg)"
  shows "let b1 = record_tenant_success t saved b; (admitted, b2) = can_execute cfg later estimate b1;
      b3 = record_tenant_failure cfg msg t' b2 in admitted \<and> tb_state b3 = HALF_OPEN"
proof -
  have "tb_state (record_tenant_success t saved b) = OPEN" "tb_failures (record_tenant_success t saved b) = 0"
    "tb_last_monotonic (record_tenant_success t saved b) = tb_last_monotonic b"
    using assms(1) by (simp_all add: record_tenant_success_def reset_daily_budget_def Let_def)
  then show ?thesis using assms(2,3) by (simp add: can_execute_def record_tenant_failure_def Let_def)
qed

end
