(* ===== verification/Job_Queue.thy ===== *)
theory Job_Queue
  imports Actions
begin

text \<open>
  The background job queue (\<open>jobs/processor.py\<close>, \<open>models/background_job.py\<close>): enqueueing with deduplication, the recovery of
  abandoned jobs, the locked fetch of a batch, the execution of a job with its failure transitions, and a whole batch.

  The handler of a job type is a parameter: what a run observes of it is one \<open>handler_result\<close>.
\<close>

section \<open>Data\<close>

datatype job_status = PENDING_JOB | RUNNING_JOB | COMPLETED_JOB | FAILED_JOB | DEAD_LETTER

record job =
  jb_id :: uuid
  jb_type :: string
  jb_tenant :: "uuid option"
  jb_dedup :: "string option"
  jb_status :: job_status
  jb_payload :: "pydict option"
  jb_result :: pyval
  jb_attempts :: int
  jb_max :: int
  jb_priority :: int
  jb_scheduled :: time
  jb_started :: "time option"
  jb_completed :: "time option"
  jb_error :: "string option"
  jb_created :: time
  jb_deleted :: bool

record job_store =
  jobs :: "job list"
  jobs_next :: uuid

datatype handler_result =
    Unknown_type string
  | Returned pyval
  | Raised_permanent string
  | Timed_out
  | Was_cancelled
  | Raised string
  | Raised_unexpected string string
  | Escaped string   \<comment> \<open>an exception of none of the two tuples, such as \<open>ValdricsException\<close>\<close>

section \<open>Failures\<close>

definition lock_timeout_minutes :: "int option \<Rightarrow> int" where
  \<comment> \<open>the setting, \<open>None\<close> where it is no integer\<close>
  "lock_timeout_minutes setting = max 1 (given setting 30)"

definition is_stale :: "int option \<Rightarrow> time \<Rightarrow> job \<Rightarrow> bool" where
  "is_stale setting now j =
     (case jb_started j of None \<Rightarrow> False | Some t \<Rightarrow> t \<le> now - seconds (lock_timeout_minutes setting * 60))"

definition backoff_seconds :: "int \<Rightarrow> int" where
  \<comment> \<open>\<open>BACKOFF_BASE_SECONDS * 2 ** max(int(attempts or 1) - 1, 0)\<close>\<close>
  "backoff_seconds attempts = 60 * 2 ^ nat ((if attempts = 0 then 1 else attempts) - 1)"

definition failure_transition :: "time \<Rightarrow> bool \<Rightarrow> string \<Rightarrow> job \<Rightarrow> job" where
  "failure_transition now permanent message j =
     (let j1 = j\<lparr>jb_error := Some message, jb_completed := None\<rparr>
      in if permanent \<or> jb_max j \<le> jb_attempts j
         then j1\<lparr>jb_status := DEAD_LETTER, jb_completed := Some now\<rparr>
         else j1\<lparr>jb_status := PENDING_JOB, jb_scheduled := now + seconds (backoff_seconds (jb_attempts j)), jb_started := None\<rparr>)"

section \<open>Results\<close>

fun json_plain :: "pyval \<Rightarrow> string" where
  \<comment> \<open>\<open>json.dumps(v, separators=(",", ":"))\<close> on what \<open>plain_json\<close> accepts\<close>
  "json_plain (PList vs) = ''['' @ commas (map json_plain vs) @ '']''"
| "json_plain (PDict kvs) = ''{'' @ commas (map (\<lambda>kv. json_str (fst kv) @ '':'' @ json_plain (snd kv)) kvs) @ ''}''"
| "json_plain v = json v"

definition type_name :: "pyval \<Rightarrow> string" where
  \<comment> \<open>\<open>type(v).__name__\<close>\<close>
  "type_name v = (case v of PNone \<Rightarrow> ''NoneType'' | PBool b \<Rightarrow> ''bool'' | PInt n \<Rightarrow> ''int'' | PFloat s \<Rightarrow> ''float''
     | PDec c e \<Rightarrow> ''Decimal'' | PStr s \<Rightarrow> ''str'' | PUuid u \<Rightarrow> ''UUID'' | PTime t \<Rightarrow> ''datetime'' | PList vs \<Rightarrow> ''list''
     | PDict d \<Rightarrow> ''dict'')"

definition truncated_result :: "pyval \<Rightarrow> string \<Rightarrow> pydict" where
  "truncated_result v text =
     [(''_truncated'', PBool True), (''_reason'', PStr ''result_too_large''), (''_actual_bytes'', PInt (int (length text))),
      (''_max_bytes'', PInt 262144), (''_original_type'', PStr (type_name v)), (''_preview_json'', PStr (take 4096 text)),
      (''_preview_truncated'', PBool (4096 < length text))] @
     (case v of PDict d \<Rightarrow> [(''_original_keys'', PList (take 50 (map (PStr \<circ> fst) d)))] | _ \<Rightarrow> [])"

definition prepare_result :: "pyval \<Rightarrow> pyval outcome" where
  "prepare_result v =
     (if v = PNone then Inr PNone
      else if \<not> plain_json v then Inl (ValueErr ''Job result must be JSON serializable'')
      else let text = json_plain v
           in if length text \<le> 262144 then Inr v else Inr (PDict (truncated_result v text)))"

definition failed_result :: "pyval \<Rightarrow> (bool \<times> string) option" where
  \<comment> \<open>\<open>_raise_for_failed_result\<close>: whether the failure is permanent, and its message\<close>
  "failed_result v =
     (case v of
        PDict d \<Rightarrow>
          (let s = norm_key (if has_key d ''status'' then py_str (dget d ''status'') else [])
           in if s \<notin> {''error'', ''failed'', ''enqueue_failed''} then None
              else Some (truthy (dget d ''permanent''),
                ''Handler returned '' @ s @ '': '' @
                (if truthy (dget d ''error'') then py_str (dget d ''error'')
                 else if truthy (dget d ''reason'') then py_str (dget d ''reason'') else s)))
      | _ \<Rightarrow> None)"

section \<open>Recovery\<close>

definition recovery_note :: "int option \<Rightarrow> time \<Rightarrow> pyval" where
  "recovery_note setting now =
     PDict [(''status'', PStr ''recovered_stale_running_job''), (''recovered_at'', PStr (iso_str now)),
       (''lock_timeout_minutes'', PInt (lock_timeout_minutes setting))]"

definition recovered_job :: "int option \<Rightarrow> time \<Rightarrow> job \<Rightarrow> job" where
  "recovered_job setting now j =
     failure_transition now False
       (''Recovered stale RUNNING job after lock timeout ('' @ int_str (lock_timeout_minutes setting) @ '' minutes)'')
       (j\<lparr>jb_result := recovery_note setting now, jb_started := None\<rparr>)"

definition abandoned :: "int option \<Rightarrow> time \<Rightarrow> job \<Rightarrow> bool" where
  "abandoned setting now j = (jb_status j = RUNNING_JOB \<and> is_stale setting now j \<and> \<not> jb_deleted j)"

definition recover_stale :: "int option \<Rightarrow> time \<Rightarrow> job_store \<Rightarrow> job_store" where
  "recover_stale setting now s = s\<lparr>jobs := update_rows (abandoned setting now) (recovered_job setting now) (jobs s)\<rparr>"

section \<open>A batch\<close>

definition due_job :: "uuid option \<Rightarrow> string option \<Rightarrow> time \<Rightarrow> job \<Rightarrow> bool" where
  "due_job tenant ty now j =
     (jb_status j = PENDING_JOB \<and> jb_scheduled j \<le> now \<and> jb_attempts j < jb_max j \<and> \<not> jb_deleted j \<and>
      (tenant = None \<or> jb_tenant j = tenant) \<and> (case ty of None \<Rightarrow> True | Some x \<Rightarrow> jb_type j = x))"

definition batch_rows :: "uuid option \<Rightarrow> string option \<Rightarrow> time \<Rightarrow> int \<Rightarrow> job_store \<Rightarrow> job list" where
  "batch_rows tenant ty now limit s =
     take (nat limit) (order_by [\<lambda>j. - jb_priority j, jb_scheduled] (filter (due_job tenant ty now) (jobs s)))"

definition started_job :: "string \<Rightarrow> time \<Rightarrow> job \<Rightarrow> job" where
  "started_job worker now j =
     j\<lparr>jb_status := RUNNING_JOB, jb_started := Some now, jb_attempts := jb_attempts j + 1, jb_completed := None,
       jb_error := None, jb_result := PDict (dset (as_dict (jb_result j)) ''last_worker'' (PStr worker))\<rparr>"

definition fetch_batch ::
  "int option \<Rightarrow> string \<Rightarrow> uuid option \<Rightarrow> string option \<Rightarrow> time \<Rightarrow> int \<Rightarrow> job_store \<Rightarrow> job list \<times> job_store" where
  "fetch_batch setting worker tenant ty now limit s0 =
     (let s = recover_stale setting now s0; rows = batch_rows tenant ty now limit s
      in (map (started_job worker now) rows,
          s\<lparr>jobs := update_rows (\<lambda>j. jb_id j \<in> set (map jb_id rows)) (started_job worker now) (jobs s)\<rparr>))"

section \<open>One job\<close>

definition cancelled_job :: "time \<Rightarrow> job \<Rightarrow> job" where
  "cancelled_job now j =
     j\<lparr>jb_error := Some ''Job was cancelled'', jb_status := PENDING_JOB, jb_scheduled := now + seconds 60, jb_started := None\<rparr>"

definition completed_job :: "time \<Rightarrow> pyval \<Rightarrow> job \<Rightarrow> job" where
  "completed_job now v j = j\<lparr>jb_status := COMPLETED_JOB, jb_completed := Some now, jb_result := v, jb_error := None\<rparr>"

definition running_job :: "time \<Rightarrow> job \<Rightarrow> job" where
  \<comment> \<open>a job that was not fetched by a batch\<close>
  "running_job now j =
     (if jb_status j \<noteq> RUNNING_JOB
      then j\<lparr>jb_status := RUNNING_JOB, jb_started := Some now, jb_attempts := jb_attempts j + 1\<rparr> else j)"

definition finished_job :: "handler_result \<Rightarrow> time \<Rightarrow> job \<Rightarrow> job" where
  \<comment> \<open>the \<open>try\<close> and its handlers; an exception that escapes them leaves the row as it was committed\<close>
  "finished_job h now j =
     (case h of
        Unknown_type m \<Rightarrow> failure_transition now True m j
      | Raised_permanent m \<Rightarrow> failure_transition now True m j
      | Timed_out \<Rightarrow> failure_transition now False ''Job timed out after 300s'' j
      | Was_cancelled \<Rightarrow> cancelled_job now j
      | Raised m \<Rightarrow> failure_transition now False m j
      | Raised_unexpected t m \<Rightarrow> failure_transition now False (t @ '': '' @ m) j
      | Escaped m \<Rightarrow> j
      | Returned v \<Rightarrow>
          (case failed_result v of
             Some (permanent, m) \<Rightarrow> failure_transition now permanent m j
           | None \<Rightarrow>
               (case prepare_result v of
                  Inl _ \<Rightarrow> failure_transition now False ''ValueError: Job result must be JSON serializable''
                    (j\<lparr>jb_status := COMPLETED_JOB, jb_completed := Some now\<rparr>)
                | Inr r \<Rightarrow> completed_job now r j)))"

definition process_job :: "handler_result \<Rightarrow> time \<Rightarrow> job \<Rightarrow> job" where
  "process_job h now j = finished_job h now (running_job now j)"

definition save_job :: "job \<Rightarrow> job_store \<Rightarrow> job_store" where
  "save_job j s = s\<lparr>jobs := update_rows (\<lambda>r. jb_id r = jb_id j) (\<lambda>_. j) (jobs s)\<rparr>"

record batch_report =
  br_processed :: int
  br_succeeded :: int
  br_failed :: int
  br_errors :: "(uuid \<times> string) list"

definition reported :: "job \<Rightarrow> batch_report \<Rightarrow> batch_report" where
  "reported j r =
     (if jb_status j = COMPLETED_JOB
      then r\<lparr>br_succeeded := br_succeeded r + 1, br_processed := br_processed r + 1\<rparr>
      else r\<lparr>br_failed := br_failed r + 1, br_processed := br_processed r + 1,
             br_errors := br_errors r @ (case jb_error j of None \<Rightarrow> [] | Some m \<Rightarrow> if m = [] then [] else [(jb_id j, m)])\<rparr>)"

definition escapes :: "handler_result \<Rightarrow> string option" where
  "escapes h = (case h of Escaped m \<Rightarrow> Some m | _ \<Rightarrow> None)"

fun process_batch ::
  "(job \<Rightarrow> handler_result) \<Rightarrow> (job \<Rightarrow> time) \<Rightarrow> job list \<Rightarrow> batch_report \<Rightarrow> job_store \<Rightarrow> (string + batch_report) \<times> job_store" where
  \<comment> \<open>\<open>clock j\<close> is when the run of \<open>j\<close> ends; an exception that escapes a job ends the batch and its caller\<close>
  "process_batch handler clock [] r s = (Inr r, s)"
| "process_batch handler clock (j # js) r s =
     (case escapes (handler j) of
        Some m \<Rightarrow> (Inl m, s)
      | None \<Rightarrow>
          let j' = process_job (handler j) (clock j) j
          in process_batch handler clock js (reported j' r) (save_job j' s))"

definition process_pending_jobs ::
  "int option \<Rightarrow> string \<Rightarrow> (job \<Rightarrow> handler_result) \<Rightarrow> (job \<Rightarrow> time) \<Rightarrow> uuid option \<Rightarrow> string option \<Rightarrow> time \<Rightarrow> int option
    \<Rightarrow> job_store \<Rightarrow> (string + batch_report) \<times> job_store" where
  "process_pending_jobs setting worker handler clock tenant ty now limit s =
     (let n = (if given limit 0 = 0 then 10 else given limit 0); (js, s1) = fetch_batch setting worker tenant ty now n s
      in process_batch handler clock js \<lparr>br_processed = 0, br_succeeded = 0, br_failed = 0, br_errors = []\<rparr> s1)"

section \<open>Enqueueing\<close>

definition new_job ::
  "string \<Rightarrow> uuid option \<Rightarrow> pydict option \<Rightarrow> time option \<Rightarrow> int \<Rightarrow> string option \<Rightarrow> time \<Rightarrow> uuid \<Rightarrow> job" where
  "new_job ty tenant payload scheduled max_attempts dedup now i =
     \<lparr>jb_id = i, jb_type = ty, jb_tenant = tenant, jb_dedup = dedup, jb_status = PENDING_JOB, jb_payload = payload,
      jb_result = PNone, jb_attempts = 0, jb_max = max_attempts, jb_priority = 0,
      jb_scheduled = given scheduled now, jb_started = None, jb_completed = None, jb_error = None, jb_created = now,
      jb_deleted = False\<rparr>"

definition enqueue_job ::
  "string \<Rightarrow> uuid option \<Rightarrow> pydict option \<Rightarrow> time option \<Rightarrow> int \<Rightarrow> string option \<Rightarrow> time \<Rightarrow> job_store
    \<Rightarrow> (job \<times> bool) outcome \<times> job_store" where
  \<comment> \<open>the job and whether it was created; the unique deduplication key makes the flush raise \<open>IntegrityError\<close>\<close>
  "enqueue_job ty tenant payload scheduled max_attempts dedup now s =
     (case (case dedup of None \<Rightarrow> None | Some k \<Rightarrow> first_match (\<lambda>j. jb_dedup j = Some k) (jobs s)) of
        None \<Rightarrow>
          (let j = new_job ty tenant payload scheduled max_attempts dedup now (jobs_next s)
           in (Inr (j, True), s\<lparr>jobs := jobs s @ [j], jobs_next := Suc (jobs_next s)\<rparr>))
      | Some j \<Rightarrow> if dedup = Some [] then (Inl IntegrityError, s) else (Inr (j, False), s))"

end
