(* ===== verification/Billing.thy ===== *)
theory Billing
  imports Job_Queue Pricing Reconciliation
begin

text \<open>
  The subscription billing of \<open>app/modules/billing/domain/billing\<close>: prices and currencies, charge references, the next
  payment date, the renewal charge (\<open>paystack_service_impl.py\<close>, \<open>paystack_service_runtime_ops.py\<close>), the
  cancellation, and the synchronisation of a tenant's plan (\<open>entitlement_policy.py\<close>).

  The payment provider, decryption, the exchange rate and the price table are parameters (\<open>billing_env\<close>).  A float is
  the rational number it prints as.  What a call sent to the provider is its list of charges: a rollback does not undo it.
\<close>

section \<open>Data\<close>

datatype sub_status = SUB_ACTIVE | SUB_NON_RENEWING | SUB_ATTENTION | SUB_COMPLETED | SUB_CANCELLED

primrec sub_status_value :: "sub_status \<Rightarrow> string" where
  "sub_status_value SUB_ACTIVE = ''active''"
| "sub_status_value SUB_NON_RENEWING = ''non-renewing''"
| "sub_status_value SUB_ATTENTION = ''attention''"
| "sub_status_value SUB_COMPLETED = ''completed''"
| "sub_status_value SUB_CANCELLED = ''cancelled''"

record subscription =
  sb_id :: uuid
  sb_tenant :: uuid
  sb_customer :: "string option"
  sb_code :: "string option"
  sb_email_token :: "string option"
  sb_auth :: "string option"
  sb_tier :: string
  sb_status :: sub_status
  sb_next_payment :: "time option"
  sb_currency :: string
  sb_cycle :: string
  sb_amount :: "int option"
  sb_fx_rate :: "rat option"
  sb_fx_provider :: "string option"
  sb_reference :: "string option"
  sb_charged_at :: "time option"
  sb_canceled_at :: "time option"
  sb_attempts :: int
  sb_last_dunning :: "time option"
  sb_next_retry :: "time option"

record billing =
  bl_subs :: "subscription list"
  bl_plans :: "(uuid \<times> string) list"
  bl_cache :: tier_cache
  bl_queue :: job_store
  bl_next :: uuid

record charge =
  ch_tenant :: uuid
  ch_email :: string
  ch_amount :: int
  ch_auth :: string
  ch_plan :: string
  ch_cycle :: string
  ch_currency :: string
  ch_rate :: rat
  ch_fx :: string
  ch_reference :: string

record checkout =
  co_tenant :: uuid
  co_email :: string
  co_amount :: int
  co_plan_code :: "string option"
  co_callback :: string
  co_tier :: pricing_tier
  co_cycle :: string
  co_currency :: string
  co_rate :: rat
  co_fx :: string

datatype billing_error =
    Operational string
  | Deferred string
  | Job_failed string
  | Job_permanent string
  | Attribute_error
  | Python exn

type_synonym 'a billed = "billing_error + 'a"

record billing_env =
  be_sha :: "string \<Rightarrow> string"
  be_decrypt :: "string \<Rightarrow> string"
  be_encrypt :: "string \<Rightarrow> string"
  be_plan_price :: "string \<Rightarrow> rat option"
  be_ngn_rate :: "rat outcome"
  be_contact :: "uuid \<Rightarrow> string option"
  be_charge :: "charge \<Rightarrow> pydict outcome"
  be_fetch :: "string \<Rightarrow> pyval outcome"
  be_disable :: "string \<Rightarrow> string \<Rightarrow> unit outcome"
  be_enqueue_fails :: bool
  be_default_currency :: string
  be_usd_checkout :: bool
  be_plan_code :: "pricing_tier \<Rightarrow> string \<Rightarrow> string option"
  be_initialize :: "checkout \<Rightarrow> pydict outcome"
  be_json :: "string \<Rightarrow> pyval option"

section \<open>Amounts\<close>

definition half_up :: "rat \<Rightarrow> int" where
  \<comment> \<open>\<open>ROUND_HALF_UP\<close> to an integer: half away from zero\<close>
  "half_up x = (if x < 0 then - \<lfloor>- x + 1 / 2\<rfloor> else \<lfloor>x + 1 / 2\<rfloor>)"

definition usd_amount :: "usd \<Rightarrow> usd outcome" where
  "usd_amount a =
     (if a < 0 then Inl (ValueErr ''Invalid USD amount'') else Inr (of_int (half_up (a * 100)) / 100))"

definition to_decimal_usd :: "pyval \<Rightarrow> usd outcome" where
  "to_decimal_usd v =
     (case parse_decimal (py_str v) of
        None \<Rightarrow> Inl (ValueErr ''Invalid USD amount'')
      | Some a \<Rightarrow> usd_amount a)"

definition usd_to_subunit_cents :: "usd \<Rightarrow> int" where
  "usd_to_subunit_cents a = half_up (a * 100)"

definition convert_usd_to_ngn_subunits :: "usd \<Rightarrow> rat \<Rightarrow> int" where
  "convert_usd_to_ngn_subunits a rate = half_up (a * rate * 100)"

definition normalize_billing_cycle :: "string \<Rightarrow> string outcome" where
  "normalize_billing_cycle c =
     (let n = norm_key (or_default c ''monthly'')
      in if n \<in> {''monthly'', ''annual''} then Inr n
         else Inl (ValueErr (''Invalid billing cycle: '' @ c)))"

definition catalogue_price :: "pricing_tier \<Rightarrow> string \<Rightarrow> pyval" where
  "catalogue_price t cycle =
     (case tc_price (tier_config_of t) of
        PDict d \<Rightarrow> dget d (if cycle = ''annual'' then ''annual'' else ''monthly'')
      | p \<Rightarrow> p)"

definition resolve_usd_price :: "billing_env \<Rightarrow> pricing_tier \<Rightarrow> string \<Rightarrow> usd outcome" where
  "resolve_usd_price E t cycle =
     and_then (normalize_billing_cycle cycle) (\<lambda>c.
       case be_plan_price E (tier_value t) of
         Some p \<Rightarrow> and_then (usd_amount p) (\<lambda>m. if c = ''annual'' then usd_amount (m * 10) else Inr m)
       | None \<Rightarrow> to_decimal_usd (catalogue_price t c))"

definition upper_char :: "char \<Rightarrow> char" where
  "upper_char c = (let n = of_char c :: nat in if 97 \<le> n \<and> n \<le> 122 then char_of (n - 32) else c)"

definition upper :: "string \<Rightarrow> string" where
  \<comment> \<open>\<open>str.upper\<close> on ASCII\<close>
  "upper s = map upper_char s"

definition renewal_cycle :: "string \<Rightarrow> string" where
  "renewal_cycle raw =
     (if strip raw = [] then ''monthly''
      else case normalize_billing_cycle raw of Inl _ \<Rightarrow> ''monthly'' | Inr c \<Rightarrow> c)"

definition renewal_terms :: "billing_env \<Rightarrow> string \<Rightarrow> usd \<Rightarrow> (string \<times> int \<times> rat \<times> string) outcome" where
  \<comment> \<open>currency, amount in its subunit, exchange rate and its provider; an unsupported currency falls back to NGN\<close>
  "renewal_terms E raw price =
     (let currency = (if strip raw = [] then ''NGN'' else upper (strip raw))
      in if currency = ''USD'' then Inr (''USD'', usd_to_subunit_cents price, 1, ''native_usd'')
         else and_then (be_ngn_rate E) (\<lambda>rate.
                Inr (''NGN'', convert_usd_to_ngn_subunits price rate, rate, ''cbn_nfem'')))"

section \<open>Charge references\<close>

definition is_slug_char :: "char \<Rightarrow> bool" where
  "is_slug_char c = (is_digit c \<or> (CHR ''a'' \<le> c \<and> c \<le> CHR ''z''))"

fun dashed :: "bool \<Rightarrow> string \<Rightarrow> string" where
  \<comment> \<open>\<open>re.sub("[^a-z0-9]+", "-", s)\<close>; the flag: the previous character was replaced\<close>
  "dashed gap [] = []"
| "dashed gap (c # s) =
     (if is_slug_char c then c # dashed False s
      else if gap then dashed True s else CHR ''-'' # dashed True s)"

definition strip_dashes :: "string \<Rightarrow> string" where
  "strip_dashes s = rev (dropWhile (\<lambda>c. c = CHR ''-'') (rev (dropWhile (\<lambda>c. c = CHR ''-'') s)))"

definition slug :: "string \<Rightarrow> string \<Rightarrow> string" where
  "slug fallback s = or_default (strip_dashes (dashed False (norm_key s))) fallback"

definition build_charge_reference :: "(string \<Rightarrow> string) \<Rightarrow> uuid \<Rightarrow> string \<Rightarrow> string \<Rightarrow> string" where
  "build_charge_reference sha subscription_id kind sequence =
     (let k = slug ''charge'' kind; n = slug ''1'' sequence;
          fingerprint = take 20 (sha (uuid_str subscription_id @ '':'' @ k @ '':'' @ n))
      in take 96 (''valdrics-'' @ take 18 k @ ''-'' @ take 24 n @ ''-'' @ fingerprint))"

definition renewal_reference :: "(string \<Rightarrow> string) \<Rightarrow> subscription \<Rightarrow> string" where
  "renewal_reference sha sub =
     build_charge_reference sha (sb_id sub) ''renewal''
       (case sb_next_payment sub of None \<Rightarrow> ''immediate'' | Some t \<Rightarrow> date_str (date_of t))"

section \<open>The next payment date\<close>

definition days :: "int \<Rightarrow> time" where
  "days n = seconds (n * 86400)"

definition parse_paystack_datetime :: "pyval \<Rightarrow> time option" where
  "parse_paystack_datetime v =
     (case v of
        PStr s \<Rightarrow> if strip s = [] then None
                  else from_isoformat (concat (map (\<lambda>c. if c = CHR ''Z'' then ''+00:00'' else [c]) s))
      | _ \<Rightarrow> None)"

definition infer_interval_days :: "pydict \<Rightarrow> int" where
  "infer_interval_days d =
     (let plan = (case dget d ''plan'' of PDict p \<Rightarrow> dget p ''interval'' | _ \<Rightarrow> PNone);
          raw = (if plan \<noteq> PNone then plan
                 else case dget d ''metadata'' of PDict m \<Rightarrow> dget m ''billing_cycle'' | _ \<Rightarrow> PNone)
      in if norm_key (str_or_empty raw) \<in> {''annual'', ''annually'', ''year'', ''yearly''} then 365 else 30)"

definition fetch_provider_next_payment_date :: "billing_env \<Rightarrow> subscription \<Rightarrow> time option" where
  "fetch_provider_next_payment_date E sub =
     (let code = strip (opt_str (sb_code sub))
      in if code = [] then None
         else case be_fetch E code of
                Inr (PDict p) \<Rightarrow>
                  (case dget p ''data'' of
                     PDict d \<Rightarrow> first_match (\<lambda>_. True) (List.map_filter parse_paystack_datetime
                       [dget d ''next_payment_date'', dget d ''next_payment'', dget d ''current_period_end''])
                   | _ \<Rightarrow> None)
              | _ \<Rightarrow> None)"

definition compute_fallback_next_payment_date :: "time \<Rightarrow> subscription \<Rightarrow> int \<Rightarrow> time" where
  "compute_fallback_next_payment_date now sub interval =
     (let anchor = (case sb_next_payment sub of
             None \<Rightarrow> now
           | Some t \<Rightarrow> if t < now - days interval then now else t);
          candidate = anchor + days interval
      in if candidate \<le> now then now + days interval else candidate)"

definition resolve_renewal_next_payment_date :: "billing_env \<Rightarrow> time \<Rightarrow> subscription \<Rightarrow> pydict \<Rightarrow> time" where
  "resolve_renewal_next_payment_date E now sub d =
     (case fetch_provider_next_payment_date E sub of
        Some t \<Rightarrow> t
      | None \<Rightarrow>
          (case parse_paystack_datetime (dget d ''next_payment_date'') of
             Some t \<Rightarrow> t
           | None \<Rightarrow> compute_fallback_next_payment_date now sub (infer_interval_days d)))"

section \<open>The renewal charge\<close>

definition charged_cycle :: "string \<Rightarrow> pydict \<Rightarrow> string \<Rightarrow> string outcome" where
  \<comment> \<open>the billing cycle the row has after the charge: \<open>cycle\<close> is that of the charge, \<open>old\<close> that of the row\<close>
  "charged_cycle cycle d old =
     (case (if has_key d ''metadata'' then dget d ''metadata'' else PDict []) of
        PDict m \<Rightarrow>
          (if truthy (dget m ''billing_cycle'') then normalize_billing_cycle (py_str (dget m ''billing_cycle'')) else Inr old)
      | _ \<Rightarrow> Inr cycle)"

definition renewal_failed :: "'a billed" where
  "renewal_failed = Inl (Operational ''Paystack renewal request failed'')"

definition settle_charge ::
  "billing_env \<Rightarrow> time \<Rightarrow> charge \<Rightarrow> pydict \<Rightarrow> subscription \<Rightarrow> bool billed \<times> subscription" where
  \<comment> \<open>the provider answered that the charge succeeded, with data \<open>d\<close>\<close>
  "settle_charge E now c d sub =
     (let sub1 = sub\<lparr>sb_next_payment := Some (resolve_renewal_next_payment_date E now sub d)\<rparr>
      in case charged_cycle (ch_cycle c) d (sb_cycle sub) of
           Inl _ \<Rightarrow> (renewal_failed, sub1)
         | Inr cycle \<Rightarrow>
             (Inr True,
              sub1\<lparr>sb_cycle := cycle, sb_currency := ch_currency c, sb_amount := Some (ch_amount c),
                   sb_fx_rate := Some (ch_rate c), sb_fx_provider := Some (ch_fx c),
                   sb_reference := Some (if truthy (dget d ''reference'') then py_str (dget d ''reference'') else ch_reference c),
                   sb_charged_at := Some now\<rparr>))"

definition send_charge ::
  "billing_env \<Rightarrow> time \<Rightarrow> charge \<Rightarrow> subscription \<Rightarrow> bool billed \<times> subscription" where
  "send_charge E now c sub =
     (case be_charge E c of
        Inl _ \<Rightarrow> (renewal_failed, sub)
      | Inr response \<Rightarrow>
          if \<not> truthy (dget response ''status'') then (Inr False, sub)
          else if \<not> has_key response ''data'' then (renewal_failed, sub)
          else case dget response ''data'' of
                 PDict d \<Rightarrow> if dget d ''status'' = PStr ''success'' then settle_charge E now c d sub else (Inr False, sub)
               | _ \<Rightarrow> (Inl Attribute_error, sub))"

definition charge_renewal ::
  "billing_env \<Rightarrow> time \<Rightarrow> string option \<Rightarrow> subscription \<Rightarrow> bool billed \<times> subscription \<times> charge list" where
  "charge_renewal E now reference sub =
     (let auth = be_decrypt E (opt_str (sb_auth sub)); cycle = renewal_cycle (sb_cycle sub) in
      if opt_str (sb_auth sub) = [] \<or> auth = [] then (Inr False, sub, [])
      else case tier_of_value (sb_tier sub) of
        None \<Rightarrow> (Inl (Operational ''Invalid subscription tier for renewal''), sub, [])
      | Some tier \<Rightarrow>
      (case resolve_usd_price E tier cycle of
        Inl _ \<Rightarrow> (Inl (Operational ''Subscription pricing unavailable for renewal''), sub, [])
      | Inr price \<Rightarrow>
      (case renewal_terms E (sb_currency sub) price of
        Inl e \<Rightarrow> (Inl (Python e), sub, [])
      | Inr (currency, amount, rate, fx) \<Rightarrow>
      (let ref = (if opt_str reference = [] then renewal_reference (be_sha E) sub else opt_str reference) in
       if sb_reference sub = Some ref then (Inr True, sub, [])
       else case be_contact E (sb_tenant sub) of
         None \<Rightarrow> (Inl (Operational ''No billing contact found for renewal''), sub, [])
       | Some email \<Rightarrow>
       if email = [] then (Inl (Operational ''Billing contact email unavailable for renewal''), sub, [])
       else
         (let c = \<lparr>ch_tenant = sb_tenant sub, ch_email = email, ch_amount = amount, ch_auth = auth, ch_plan = sb_tier sub,
                   ch_cycle = cycle, ch_currency = currency, ch_rate = rate, ch_fx = fx, ch_reference = ref\<rparr>;
              (r, sub1) = send_charge E now c sub
          in (r, sub1, [c]))))))"

section \<open>The tenant's plan\<close>

definition normalize_pricing_tier_value :: "string \<Rightarrow> string outcome" where
  "normalize_pricing_tier_value tier =
     (case tier_of_value (norm_key tier) of
        None \<Rightarrow> Inl (ValueErr ''Unsupported pricing tier value'')
      | Some t \<Rightarrow> Inr (tier_value t))"

definition sync_tenant_plan :: "uuid \<Rightarrow> string \<Rightarrow> billing \<Rightarrow> unit outcome \<times> billing" where
  \<comment> \<open>the \<open>UPDATE\<close> has happened when the row count is checked\<close>
  "sync_tenant_plan tenant tier B =
     (case normalize_pricing_tier_value tier of
        Inl e \<Rightarrow> (Inl e, B)
      | Inr plan \<Rightarrow>
          (let B1 = B\<lparr>bl_plans := update_rows (\<lambda>p. fst p = tenant) (\<lambda>p. (tenant, plan)) (bl_plans B)\<rparr>
           in if length (filter (\<lambda>p. fst p = tenant) (bl_plans B)) \<noteq> 1
              then (Inl (RuntimeErr ''Tenant plan sync failed due to missing or duplicated tenant row''), B1)
              else (Inr (), B1\<lparr>bl_cache := clear_tenant_tier_cache (bl_cache B) (Some (uuid_str tenant))\<rparr>)))"

section \<open>Subscriptions as rows\<close>

definition find_sub :: "(subscription \<Rightarrow> bool) \<Rightarrow> billing \<Rightarrow> subscription option" where
  "find_sub P B = first_match P (bl_subs B)"

definition save_sub :: "subscription \<Rightarrow> billing \<Rightarrow> billing" where
  "save_sub sub B = B\<lparr>bl_subs := update_rows (\<lambda>r. sb_id r = sb_id sub) (\<lambda>_. sub) (bl_subs B)\<rparr>"

definition empty_subscription :: "uuid \<Rightarrow> uuid \<Rightarrow> subscription" where
  \<comment> \<open>the column defaults\<close>
  "empty_subscription i tenant =
     \<lparr>sb_id = i, sb_tenant = tenant, sb_customer = None, sb_code = None, sb_email_token = None, sb_auth = None,
      sb_tier = ''free'', sb_status = SUB_ACTIVE, sb_next_payment = None, sb_currency = ''NGN'', sb_cycle = ''monthly'',
      sb_amount = None, sb_fx_rate = None, sb_fx_provider = None, sb_reference = None, sb_charged_at = None,
      sb_canceled_at = None, sb_attempts = 0, sb_last_dunning = None, sb_next_retry = None\<rparr>"

definition add_sub :: "subscription \<Rightarrow> billing \<Rightarrow> billing" where
  "add_sub sub B = B\<lparr>bl_subs := bl_subs B @ [sub], bl_next := Suc (bl_next B)\<rparr>"

definition cancel_subscription :: "billing_env \<Rightarrow> time \<Rightarrow> uuid \<Rightarrow> billing \<Rightarrow> unit outcome \<times> billing" where
  "cancel_subscription E now tenant B =
     (case find_sub (\<lambda>r. sb_tenant r = tenant) B of
        None \<Rightarrow> (Inl (ValueErr ''No active subscription to cancel''), B)
      | Some sub \<Rightarrow>
          if opt_str (sb_code sub) = [] \<or> opt_str (sb_email_token sub) = []
          then (Inl (ValueErr ''No active subscription to cancel''), B)
          else case be_disable E (opt_str (sb_code sub)) (opt_str (sb_email_token sub)) of
                 Inl e \<Rightarrow> (Inl e, B)
               | Inr _ \<Rightarrow> (Inr (), save_sub (sub\<lparr>sb_status := SUB_CANCELLED, sb_canceled_at := Some now\<rparr>) B))"

section \<open>Checkout\<close>

definition resolve_checkout_currency :: "billing_env \<Rightarrow> string option \<Rightarrow> string outcome" where
  "resolve_checkout_currency E requested =
     (let configured = upper (strip (or_default (be_default_currency E) ''NGN''));
          standard = (if configured \<in> {''NGN'', ''USD''} then configured else ''NGN'');
          resolved = (if strip (opt_str requested) = [] then standard else upper (strip (opt_str requested)))
      in if resolved = ''USD'' \<and> \<not> be_usd_checkout E then Inl (ValueErr ''USD checkout is not enabled'')
         else if resolved \<notin> {''NGN'', ''USD''} then Inl (ValueErr (''Unsupported checkout currency: '' @ resolved))
         else Inr resolved)"

definition checkout_terms :: "billing_env \<Rightarrow> string \<Rightarrow> usd \<Rightarrow> (int \<times> rat \<times> string) outcome" where
  "checkout_terms E currency price =
     (if currency = ''NGN''
      then and_then (be_ngn_rate E) (\<lambda>rate. Inr (convert_usd_to_ngn_subunits price rate, rate, ''cbn_nfem''))
      else Inr (usd_to_subunit_cents price, 1, ''native_usd''))"

definition resolve_plan_code :: "billing_env \<Rightarrow> pricing_tier \<Rightarrow> string \<Rightarrow> string option" where
  \<comment> \<open>\<open>be_plan_code\<close>: the setting for a paid tier, by whether the cycle is annual\<close>
  "resolve_plan_code E tier cycle =
     (if tier = FREE then None
      else case be_plan_code E tier (if lower cycle = ''annual'' then ''annual'' else ''monthly'') of
             None \<Rightarrow> None | Some v \<Rightarrow> or_none (strip v))"

definition checkout_row :: "time \<Rightarrow> checkout \<Rightarrow> pyval \<Rightarrow> subscription \<Rightarrow> subscription" where
  "checkout_row now c reference sub =
     sub\<lparr>sb_cycle := co_cycle c, sb_currency := co_currency c, sb_amount := Some (co_amount c),
         sb_fx_rate := Some (co_rate c), sb_fx_provider := Some (co_fx c),
         sb_reference := (if reference = PNone then None else Some (py_str reference)), sb_charged_at := Some now\<rparr>"

definition record_checkout :: "time \<Rightarrow> checkout \<Rightarrow> pyval \<Rightarrow> billing \<Rightarrow> billing" where
  "record_checkout now c reference B =
     (case find_sub (\<lambda>r. sb_tenant r = co_tenant c) B of
        Some sub \<Rightarrow> save_sub (checkout_row now c reference sub) B
      | None \<Rightarrow> add_sub (checkout_row now c reference
                  ((empty_subscription (bl_next B) (co_tenant c))\<lparr>sb_tier := tier_value (co_tier c)\<rparr>)) B)"

definition create_checkout_session ::
  "billing_env \<Rightarrow> time \<Rightarrow> uuid \<Rightarrow> pricing_tier \<Rightarrow> string \<Rightarrow> string \<Rightarrow> string \<Rightarrow> string option \<Rightarrow> billing
    \<Rightarrow> (pyval \<times> pyval) outcome \<times> billing" where
  "create_checkout_session E now tenant tier email callback cycle currency B =
     (if tier = FREE then (Inl (ValueErr ''Cannot checkout free tier''), B)
      else case and_then (normalize_billing_cycle cycle) (\<lambda>n.
             and_then (resolve_checkout_currency E currency) (\<lambda>cur.
             and_then (resolve_usd_price E tier n) (\<lambda>price.
             and_then (checkout_terms E cur price) (\<lambda>(amount, rate, fx).
               Inr \<lparr>co_tenant = tenant, co_email = email, co_amount = amount,
                    co_plan_code = (if cur = ''NGN'' then resolve_plan_code E tier n else None), co_callback = callback,
                    co_tier = tier, co_cycle = n, co_currency = cur, co_rate = rate, co_fx = fx\<rparr>)))) of
        Inl e \<Rightarrow> (Inl e, B)
      | Inr c \<Rightarrow>
      (case be_initialize E c of
        Inl e \<Rightarrow> (Inl e, B)
      | Inr response \<Rightarrow>
          (case dget response ''data'' of
             PDict d \<Rightarrow>
               if has_key d ''authorization_url'' \<and> has_key d ''reference''
               then (Inr (dget d ''authorization_url'', dget d ''reference''), record_checkout now c (dget d ''reference'') B)
               else (Inl (RuntimeErr ''KeyError''), B)
           | _ \<Rightarrow> (Inl (if has_key response ''data'' then TypeErr else RuntimeErr ''KeyError''), B))))"

end
