(* ===== verification/Dunning.thy ===== *)
theory Dunning
  imports Billing Approval_Token
begin

text \<open>
  What happens when a payment fails (\<open>dunning_service.py\<close>), the two jobs that charge (\<open>jobs/handlers/dunning.py\<close>,
  \<open>jobs/handlers/billing.py\<close>), and the provider's webhooks (\<open>paystack_webhook_impl.py\<close>).

  A job runs in a savepoint: what it did to the database is undone when it raises or reports a failure, what it sent to the
  provider is not.  The e-mails, the audit log and the growth funnel are not modelled.
\<close>

section \<open>A failed payment\<close>

definition retry_delay_days :: "int \<Rightarrow> int" where
  \<comment> \<open>\<open>DUNNING_RETRY_SCHEDULE_DAYS[min(attempt - 1, 2)]\<close>\<close>
  "retry_delay_days attempt = (if attempt \<le> 1 then 1 else if attempt = 2 then 3 else 7)"

definition retry_key :: "subscription \<Rightarrow> int \<Rightarrow> string" where
  "retry_key sub n = ''dunning:'' @ uuid_str (sb_id sub) @ '':attempt:'' @ int_str n"

definition retry_payload :: "(string \<Rightarrow> string) \<Rightarrow> subscription \<Rightarrow> int \<Rightarrow> pydict" where
  "retry_payload sha sub n =
     [(''subscription_id'', PStr (uuid_str (sb_id sub))), (''attempt'', PInt n),
      (''charge_reference'', PStr (build_charge_reference sha (sb_id sub) ''dunning'' (int_str n)))]"

definition enqueue_retry ::
  "billing_env \<Rightarrow> time \<Rightarrow> subscription \<Rightarrow> int \<Rightarrow> time \<Rightarrow> job_store \<Rightarrow> (job \<times> bool) outcome \<times> job_store" where
  "enqueue_retry E now sub n due q =
     (if be_enqueue_fails E then (Inl (RuntimeErr ''enqueue failed''), q)
      else enqueue_job ''dunning'' (Some (sb_tenant sub)) (Some (retry_payload (be_sha E) sub n)) (Some due) 3
             (Some (retry_key sub n)) now q)"

definition handle_final_failure :: "time \<Rightarrow> subscription \<Rightarrow> billing \<Rightarrow> pyval billed \<times> billing" where
  "handle_final_failure now sub B =
     (let B1 = save_sub (sub\<lparr>sb_status := SUB_CANCELLED, sb_tier := ''free'', sb_canceled_at := Some now,
                             sb_next_retry := None\<rparr>) B
      in case sync_tenant_plan (sb_tenant sub) ''free'' B1 of
           (Inl e, B2) \<Rightarrow> (Inl (Python e), B2)
         | (Inr _, B2) \<Rightarrow>
             (Inr (PDict [(''status'', PStr ''downgraded''), (''action'', PStr ''tier_changed_to_free''),
                          (''reason'', PStr ''max_dunning_attempts_exhausted'')]), B2))"

definition debounced :: "time \<Rightarrow> subscription \<Rightarrow> bool" where
  "debounced now sub = (case sb_last_dunning sub of None \<Rightarrow> False | Some t \<Rightarrow> now - t < seconds 300)"

definition schedule_retry :: "billing_env \<Rightarrow> time \<Rightarrow> subscription \<Rightarrow> billing \<Rightarrow> pyval billed \<times> billing" where
  \<comment> \<open>\<open>sub\<close> with the failure counted; an enqueueing that fails rolls it back\<close>
  "schedule_retry E now sub B =
     (let due = now + days (retry_delay_days (sb_attempts sub)) in
      case enqueue_retry E now sub (sb_attempts sub + 1) due (bl_queue B) of
        (Inl _, _) \<Rightarrow>
          (Inr (PDict [(''status'', PStr ''enqueue_failed''), (''attempt'', PInt (sb_attempts sub)),
                       (''next_retry_at'', PStr (iso_str due)), (''state_reverted'', PBool True)]), B)
      | (Inr (j, created), q) \<Rightarrow>
          (Inr (PDict ([(''status'', PStr ''scheduled_retry''), (''attempt'', PInt (sb_attempts sub)),
                        (''next_retry_at'', PStr (iso_str due))] @
                       (if created then [] else [(''queue_state'', PStr ''deduplicated_existing_retry'')]))),
           (save_sub (sub\<lparr>sb_next_retry := Some due\<rparr>) B)\<lparr>bl_queue := q\<rparr>))"

definition process_failed_payment :: "billing_env \<Rightarrow> time \<Rightarrow> uuid \<Rightarrow> bool \<Rightarrow> billing \<Rightarrow> pyval billed \<times> billing" where
  "process_failed_payment E now i is_webhook B =
     (case find_sub (\<lambda>r. sb_id r = i) B of
        None \<Rightarrow> (Inr (PDict [(''status'', PStr ''error''), (''reason'', PStr ''subscription_not_found'')]), B)
      | Some sub \<Rightarrow>
          if is_webhook \<and> debounced now sub
          then (Inr (PDict [(''status'', PStr ''duplicate_ignored''), (''attempt'', PInt (sb_attempts sub)),
                            (''reason'', PStr ''webhook_debounce'')]), B)
          else (let sub1 = sub\<lparr>sb_attempts := sb_attempts sub + 1, sb_last_dunning := Some now, sb_status := SUB_ATTENTION\<rparr>
                in if 3 \<le> sb_attempts sub1 then handle_final_failure now sub1 B else schedule_retry E now sub1 B))"

section \<open>A retry\<close>

definition error_text :: "billing_error \<Rightarrow> string" where
  "error_text e =
     (case e of Operational m \<Rightarrow> m | Deferred m \<Rightarrow> m | Job_failed m \<Rightarrow> m | Job_permanent m \<Rightarrow> m | Attribute_error \<Rightarrow> []
      | Python x \<Rightarrow> (case x of DomainError n m \<Rightarrow> m | ValueErr m \<Rightarrow> m | RuntimeErr m \<Rightarrow> m | _ \<Rightarrow> []))"

definition deferred :: "billing_error \<Rightarrow> billing_error" where
  \<comment> \<open>\<open>except DUNNING_RECOVERABLE_ERRORS\<close>\<close>
  "deferred e =
     (case e of
        Attribute_error \<Rightarrow> e
      | Python (DomainError _ _) \<Rightarrow> e
      | _ \<Rightarrow> Deferred (''Dunning retry deferred due to operational failure: '' @ error_text e))"

definition handle_retry_success :: "subscription \<Rightarrow> billing \<Rightarrow> pyval billed \<times> billing" where
  "handle_retry_success sub B =
     (let B1 = save_sub (sub\<lparr>sb_status := SUB_ACTIVE, sb_attempts := 0, sb_last_dunning := None, sb_next_retry := None\<rparr>) B
      in case sync_tenant_plan (sb_tenant sub) (sb_tier sub) B1 of
           (Inl e, B2) \<Rightarrow> (Inl (Python e), B2)
         | (Inr _, B2) \<Rightarrow>
             (Inr (PDict [(''status'', PStr ''success''), (''action'', PStr ''subscription_reactivated'')]), B2))"

definition retry_payment ::
  "billing_env \<Rightarrow> time \<Rightarrow> uuid \<Rightarrow> string option \<Rightarrow> billing \<Rightarrow> pyval billed \<times> billing \<times> charge list" where
  "retry_payment E now i reference B =
     (case find_sub (\<lambda>r. sb_id r = i) B of
        None \<Rightarrow> (Inr (PDict [(''status'', PStr ''error''), (''reason'', PStr ''subscription_not_found'')]), B, [])
      | Some sub \<Rightarrow>
          (case charge_renewal E now reference sub of (charged, sub1, sent) \<Rightarrow>
             (let B1 = save_sub sub1 B;
                  (r, B2) = (case charged of
                               Inl e \<Rightarrow> (Inl e, B1)
                             | Inr True \<Rightarrow> handle_retry_success sub1 B1
                             | Inr False \<Rightarrow> process_failed_payment E now i False B1)
              in (case r of Inl e \<Rightarrow> Inl (deferred e) | Inr v \<Rightarrow> Inr v, B2, sent))))"

section \<open>The jobs\<close>

definition handler_error :: "billing_error \<Rightarrow> handler_result" where
  "handler_error e =
     (case e of
        Job_permanent m \<Rightarrow> Raised_permanent m
      | Attribute_error \<Rightarrow> Raised_unexpected ''AttributeError'' []
      | Python (ValueErr m) \<Rightarrow> Raised_unexpected ''ValueError'' m
      | _ \<Rightarrow> Raised (error_text e))"

definition in_savepoint :: "handler_result \<Rightarrow> billing \<Rightarrow> billing \<Rightarrow> billing" where
  \<comment> \<open>\<open>begin_nested\<close> around the handler and the check of its result\<close>
  "in_savepoint h before after =
     (case h of Returned v \<Rightarrow> if failed_result v = None then after else before | _ \<Rightarrow> before)"

definition payload_of :: "job \<Rightarrow> pydict" where
  "payload_of j = (case jb_payload j of None \<Rightarrow> [] | Some d \<Rightarrow> d)"

definition payload_reference :: "job \<Rightarrow> string option" where
  "payload_reference j =
     (let r = dget (payload_of j) ''charge_reference'' in if truthy r then Some (py_str r) else None)"

definition payload_subscription :: "string \<Rightarrow> job \<Rightarrow> uuid billed" where
  "payload_subscription kind j =
     (let v = dget (payload_of j) ''subscription_id''
      in if \<not> truthy v then Inl (Job_permanent (''subscription_id required for '' @ kind))
         else case uuid_of_text (py_str v) of
                None \<Rightarrow> Inl (Job_permanent (''subscription_id must be a valid UUID for '' @ kind))
              | Some i \<Rightarrow> Inr i)"

definition dunning_result :: "job \<Rightarrow> pyval \<Rightarrow> pyval" where
  "dunning_result j v =
     PDict (dmerge [(''status'', dget (as_dict v) ''status''),
                    (''attempt'', if has_key (payload_of j) ''attempt'' then dget (payload_of j) ''attempt'' else PInt 1)]
              (as_dict v))"

definition dunning_execute :: "billing_env \<Rightarrow> time \<Rightarrow> job \<Rightarrow> billing \<Rightarrow> handler_result \<times> billing \<times> charge list" where
  "dunning_execute E now j B =
     (case payload_subscription ''dunning'' j of
        Inl e \<Rightarrow> (handler_error e, B, [])
      | Inr i \<Rightarrow>
          (case retry_payment E now i (payload_reference j) B of
             (Inl e, B1, sent) \<Rightarrow> (handler_error e, B1, sent)
           | (Inr v, B1, sent) \<Rightarrow>
               (if dget (as_dict v) ''reason'' = PStr ''subscription_not_found''
                then Raised_permanent ''Dunning subscription not found'' else Returned (dunning_result j v), B1, sent)))"

definition float_text :: "usd \<Rightarrow> string" where
  \<comment> \<open>\<open>repr(float(p))\<close> of a price with two decimals\<close>
  "float_text p = (let s = fixed_str 2 p in if last s = CHR ''0'' then butlast s else s)"

definition recurring_execute :: "billing_env \<Rightarrow> time \<Rightarrow> job \<Rightarrow> billing \<Rightarrow> handler_result \<times> billing \<times> charge list" where
  "recurring_execute E now j B =
     (case payload_subscription ''recurring_billing'' j of
        Inl e \<Rightarrow> (handler_error e, B, [])
      | Inr i \<Rightarrow>
          (case find_sub (\<lambda>r. sb_id r = i \<and> Some (sb_tenant r) = jb_tenant j) B of
             None \<Rightarrow> (Raised_permanent ''Recurring billing subscription not found'', B, [])
           | Some sub \<Rightarrow>
               if sb_status sub \<noteq> SUB_ACTIVE
               then (Returned (PDict [(''status'', PStr ''skipped''),
                       (''reason'', PStr (''subscription_status_is_'' @ sub_status_value (sb_status sub)))]), B, [])
               else (case charge_renewal E now (payload_reference j) sub of (charged, sub1, sent) \<Rightarrow>
                 (case charged of
                    Inl e \<Rightarrow> handler_error e
                  | Inr True \<Rightarrow> Returned (PDict [(''status'', PStr ''completed''),
                      (''amount_billed_usd'', PFloat (case be_plan_price E (sb_tier sub1) of None \<Rightarrow> ''0.0''
                         | Some p \<Rightarrow> float_text p))])
                  | Inr False \<Rightarrow> Raised ''Paystack charge failed or authorization missing'',
                  save_sub sub1 B, sent))))"

definition run_charging_job :: "billing_env \<Rightarrow> time \<Rightarrow> job \<Rightarrow> billing \<Rightarrow> handler_result \<times> billing \<times> charge list" where
  "run_charging_job E now j B =
     (case (if jb_type j = ''dunning'' then dunning_execute E now j B else recurring_execute E now j B) of
        (h, B1, sent) \<Rightarrow> (h, in_savepoint h B B1, sent))"

definition work_charging_job :: "billing_env \<Rightarrow> time \<Rightarrow> job \<Rightarrow> billing \<Rightarrow> billing \<times> charge list" where
  \<comment> \<open>\<open>_process_single_job\<close> with the handler's effect on the database\<close>
  "work_charging_job E now j B =
     (case run_charging_job E now j B of
        (h, B1, sent) \<Rightarrow> (B1\<lparr>bl_queue := save_job (process_job h now j) (bl_queue B1)\<rparr>, sent))"

end
