(* ===== verification/Paystack_Webhook.thy ===== *)
theory Paystack_Webhook
  imports Dunning
begin

text \<open>
  The webhooks of the payment provider: the four events that change a subscription (\<open>paystack_webhook_impl.py\<close>), and
  the durable queue of received webhooks with its idempotency key (\<open>webhook_retry.py\<close>).

  A payload is JSON.  \<open>None\<close> of \<open>sub_dict\<close> is the \<open>AttributeError\<close> of \<open>data.get(k, {}).get(...)\<close>
  on a value that is no object; a handler that raises leaves the database as it was.
\<close>

section \<open>Reading a payload\<close>

definition sub_dict :: "pydict \<Rightarrow> string \<Rightarrow> pydict option" where
  "sub_dict d k = (if has_key d k then (case dget d k of PDict m \<Rightarrow> Some m | _ \<Rightarrow> None) else Some [])"

definition text_field :: "pydict \<Rightarrow> string \<Rightarrow> string option" where
  \<comment> \<open>a field that the code tests for truth and then uses as text\<close>
  "text_field d k = (if truthy (dget d k) then Some (py_str (dget d k)) else None)"

definition retryable :: "string \<Rightarrow> 'a billed" where
  "retryable m = Inl (Job_failed m)"

definition permanent :: "string \<Rightarrow> 'a billed" where
  "permanent m = Inl (Job_permanent m)"

definition one_sub :: "(subscription \<Rightarrow> bool) \<Rightarrow> billing \<Rightarrow> subscription option billed" where
  \<comment> \<open>\<open>scalar_one_or_none\<close>\<close>
  "one_sub P B =
     (case filter P (bl_subs B) of
        [] \<Rightarrow> Inr None
      | [sub] \<Rightarrow> Inr (Some sub)
      | _ \<Rightarrow> Inl (Python (RuntimeErr ''MultipleResultsFound'')))"

definition billed_then :: "'a billed \<Rightarrow> ('a \<Rightarrow> 'b billed) \<Rightarrow> 'b billed" where
  "billed_then r f = (case r of Inl e \<Rightarrow> Inl e | Inr x \<Rightarrow> f x)"

definition parse_subunit_amount :: "pyval \<Rightarrow> int option" where
  "parse_subunit_amount v =
     (if v = PNone then None
      else case parse_decimal (py_str v) of None \<Rightarrow> None | Some a \<Rightarrow> if a < 0 then None else Some (half_up a))"

definition parse_fx_rate :: "pyval \<Rightarrow> rat option" where
  "parse_fx_rate v =
     (if v = PNone then None
      else case parse_decimal (py_str v) of None \<Rightarrow> None
           | Some a \<Rightarrow> if a \<le> 0 then None else Some (of_int (half_up (a * 1000000)) / 1000000))"

definition webhook_cycle :: "pyval \<Rightarrow> string option" where
  "webhook_cycle v =
     (if v = PNone then None
      else let n = norm_key (py_str v) in if n \<in> {''monthly'', ''annual''} then Some n else None)"

section \<open>The events\<close>

definition provider_date :: "pyval \<Rightarrow> time option \<Rightarrow> time option billed" where
  \<comment> \<open>the next payment date after \<open>subscription.create\<close>: \<open>old\<close> where the field is absent or malformed\<close>
  "provider_date v old =
     (if \<not> truthy v then Inr old
      else case v of
             PStr s \<Rightarrow> (case from_isoformat (concat (map (\<lambda>c. if c = CHR ''Z'' then ''+00:00'' else [c]) s)) of
                         None \<Rightarrow> Inr old | Some t \<Rightarrow> Inr (Some t))
           | _ \<Rightarrow> Inl Attribute_error)"

definition handle_subscription_create :: "pydict \<Rightarrow> billing \<Rightarrow> billing billed" where
  "handle_subscription_create d B =
     (case sub_dict d ''customer'' of
        None \<Rightarrow> Inl Attribute_error
      | Some customer \<Rightarrow>
          (case text_field customer ''customer_code'' of
             None \<Rightarrow> permanent ''subscription.create missing customer_code''
           | Some code \<Rightarrow>
               billed_then (one_sub (\<lambda>r. sb_customer r = Some code) B) (\<lambda>found.
                 case found of
                   None \<Rightarrow> retryable ''subscription.create could not find tenant subscription''
                 | Some sub \<Rightarrow>
                     billed_then (provider_date (dget d ''next_payment_date'') (sb_next_payment sub)) (\<lambda>next.
                       Inr (save_sub (sub\<lparr>
                         sb_code := (case text_field d ''subscription_code'' of None \<Rightarrow> sb_code sub | c \<Rightarrow> c),
                         sb_email_token := (case text_field d ''email_token'' of None \<Rightarrow> sb_email_token sub | t \<Rightarrow> t),
                         sb_next_payment := next, sb_status := SUB_ACTIVE\<rparr>) B)))))"

definition handle_subscription_disable :: "time \<Rightarrow> pydict \<Rightarrow> billing \<Rightarrow> billing billed" where
  "handle_subscription_disable now d B =
     (case text_field d ''subscription_code'' of
        None \<Rightarrow> permanent ''subscription.disable missing subscription_code''
      | Some code \<Rightarrow>
          billed_then (one_sub (\<lambda>r. sb_code r = Some code) B) (\<lambda>found.
            case found of
              None \<Rightarrow> retryable ''subscription.disable could not find subscription''
            | Some sub \<Rightarrow> Inr (save_sub (sub\<lparr>sb_status := SUB_CANCELLED, sb_canceled_at := Some now\<rparr>) B)))"

definition charge_metadata :: "billing_env \<Rightarrow> pydict \<Rightarrow> pydict billed" where
  "charge_metadata E d =
     (case (if has_key d ''metadata'' then dget d ''metadata'' else PDict []) of
        PDict m \<Rightarrow> Inr m
      | PStr s \<Rightarrow> (case be_json E s of None \<Rightarrow> Inr [] | Some (PDict m) \<Rightarrow> Inr m | Some _ \<Rightarrow> Inl Attribute_error)
      | _ \<Rightarrow> Inl Attribute_error)"

definition metadata_tenant :: "pydict \<Rightarrow> uuid option billed" where
  "metadata_tenant m =
     (if \<not> truthy (dget m ''tenant_id'') then Inr None
      else case dget m ''tenant_id'' of PStr s \<Rightarrow> Inr (uuid_of_text s) | _ \<Rightarrow> Inl Attribute_error)"

definition charged_tier :: "pydict \<Rightarrow> pricing_tier option" where
  "charged_tier m =
     (if truthy (dget m ''tier'') then tier_of_value (norm_key (py_str (dget m ''tier''))) else None)"

definition charged_row ::
  "billing_env \<Rightarrow> time \<Rightarrow> pydict \<Rightarrow> pydict \<Rightarrow> string option \<Rightarrow> string option \<Rightarrow> subscription \<Rightarrow> subscription" where
  \<comment> \<open>\<open>d\<close> the data of the event, \<open>m\<close> its metadata\<close>
  "charged_row E now d m customer auth sub =
     (let currency = upper (if truthy (dget d ''currency'') then py_str (dget d ''currency'') else ''NGN'') in
      sub\<lparr>sb_customer := customer,
          sb_auth := (case auth of None \<Rightarrow> sb_auth sub | Some a \<Rightarrow> Some (be_encrypt E a)),
          sb_tier := (case charged_tier m of None \<Rightarrow> sb_tier sub | Some t \<Rightarrow> tier_value t),
          sb_cycle := (case webhook_cycle (dget m ''billing_cycle'') of None \<Rightarrow> sb_cycle sub | Some c \<Rightarrow> c),
          sb_status := SUB_ACTIVE,
          sb_currency := currency,
          sb_amount := (case parse_subunit_amount (dget d ''amount'') of None \<Rightarrow> sb_amount sub | a \<Rightarrow> a),
          sb_fx_rate := (case parse_fx_rate (dget m ''exchange_rate'') of None \<Rightarrow> sb_fx_rate sub | r \<Rightarrow> r),
          sb_fx_provider :=
            (case dget m ''fx_provider'' of
               PStr s \<Rightarrow> if strip s \<noteq> [] then Some (norm_key s)
                         else if currency = ''NGN'' then Some ''cbn_nfem'' else sb_fx_provider sub
             | _ \<Rightarrow> if currency = ''NGN'' then Some ''cbn_nfem'' else sb_fx_provider sub),
          sb_reference := (case text_field d ''reference'' of None \<Rightarrow> sb_reference sub | r \<Rightarrow> r),
          sb_charged_at := Some now\<rparr>)"

definition charge_target :: "pydict \<Rightarrow> uuid option \<Rightarrow> string option \<Rightarrow> billing \<Rightarrow> (uuid \<times> subscription option) option billed" where
  \<comment> \<open>the tenant of the metadata, else that of the customer; with its subscription\<close>
  "charge_target d tenant customer B =
     (case tenant of
        Some t \<Rightarrow> billed_then (one_sub (\<lambda>r. sb_tenant r = t) B) (\<lambda>found. Inr (Some (t, found)))
      | None \<Rightarrow>
          (case customer of
             None \<Rightarrow> Inr None
           | Some code \<Rightarrow>
               billed_then (one_sub (\<lambda>r. sb_customer r = Some code) B) (\<lambda>found.
                 Inr (map_option (\<lambda>sub. (sb_tenant sub, Some sub)) found))))"

definition apply_charge :: "uuid \<Rightarrow> pricing_tier option \<Rightarrow> bool \<Rightarrow> subscription \<Rightarrow> billing \<Rightarrow> billing billed" where
  "apply_charge t tier is_new sub B =
     (let B1 = (if is_new then add_sub sub B else save_sub sub B)
      in case tier of
           None \<Rightarrow> Inr B1
         | Some p \<Rightarrow> (case sync_tenant_plan t (tier_value p) B1 of (Inl e, _) \<Rightarrow> Inl (Python e) | (Inr _, B2) \<Rightarrow> Inr B2))"

definition handle_charge_success :: "billing_env \<Rightarrow> time \<Rightarrow> pydict \<Rightarrow> billing \<Rightarrow> billing billed" where
  "handle_charge_success E now d B =
     billed_then (charge_metadata E d) (\<lambda>m.
     case sub_dict d ''customer'' of
       None \<Rightarrow> Inl Attribute_error
     | Some customer \<Rightarrow>
     (let code = text_field customer ''customer_code'' in
      billed_then (metadata_tenant m) (\<lambda>tenant.
      billed_then (charge_target d tenant code B) (\<lambda>target.
      case target of
        None \<Rightarrow> if truthy (dget customer ''email'') then retryable ''charge.success could not resolve tenant''
                else permanent ''charge.success missing tenant identifiers''
      | Some (t, found) \<Rightarrow>
          (let sub = (case found of None \<Rightarrow> empty_subscription (bl_next B) t | Some s \<Rightarrow> s) in
           if text_field d ''reference'' \<noteq> None \<and> sb_reference sub = text_field d ''reference'' then Inr B
           else case sub_dict d ''authorization'' of
                  None \<Rightarrow> Inl Attribute_error
                | Some a \<Rightarrow>
                    apply_charge t (charged_tier m) (found = None)
                      (charged_row E now d m code (text_field a ''authorization_code'') sub) B)))))"

definition handle_invoice_failed :: "billing_env \<Rightarrow> time \<Rightarrow> pydict \<Rightarrow> billing \<Rightarrow> billing billed" where
  \<comment> \<open>the result of \<open>process_failed_payment\<close> is not looked at\<close>
  "handle_invoice_failed E now d B =
     (case sub_dict d ''customer'' of
        None \<Rightarrow> Inl Attribute_error
      | Some customer \<Rightarrow>
          (let code = text_field d ''subscription_code''; owner = text_field customer ''customer_code'' in
           if code = None \<and> owner = None
           then permanent ''invoice.payment_failed missing subscription and customer identifiers''
           else billed_then (case code of None \<Rightarrow> Inr None | Some c \<Rightarrow> one_sub (\<lambda>r. sb_code r = Some c) B) (\<lambda>by_code.
                billed_then (case (by_code, owner) of
                    (None, Some c) \<Rightarrow> one_sub (\<lambda>r. sb_customer r = Some c) B | _ \<Rightarrow> Inr by_code) (\<lambda>found.
                case found of
                  None \<Rightarrow> retryable ''invoice.payment_failed could not find subscription''
                | Some sub \<Rightarrow>
                    (case process_failed_payment E now (sb_id sub) True B of
                       (Inl e, _) \<Rightarrow> Inl e
                     | (Inr _, B1) \<Rightarrow> Inr B1)))))"

definition handle_event :: "billing_env \<Rightarrow> time \<Rightarrow> string \<Rightarrow> pydict \<Rightarrow> billing \<Rightarrow> billing billed option" where
  \<comment> \<open>\<open>None\<close>: an event without a handler\<close>
  "handle_event E now event d B =
     (if event = ''subscription.create'' then Some (handle_subscription_create d B)
      else if event = ''charge.success'' then Some (handle_charge_success E now d B)
      else if event = ''subscription.disable'' then Some (handle_subscription_disable now d B)
      else if event = ''invoice.payment_failed'' then Some (handle_invoice_failed E now d B)
      else None)"

section \<open>The endpoint\<close>

definition verify_signature :: "(string \<Rightarrow> string \<Rightarrow> string) \<Rightarrow> string \<Rightarrow> string \<Rightarrow> string \<Rightarrow> bool" where
  \<comment> \<open>\<open>hmac secret payload\<close> is the hexadecimal digest\<close>
  "verify_signature hmac secret payload signature = (signature \<noteq> [] \<and> secret \<noteq> [] \<and> hmac secret payload = signature)"

definition handle_webhook ::
  "billing_env \<Rightarrow> (string \<Rightarrow> string \<Rightarrow> string) \<Rightarrow> string \<Rightarrow> time \<Rightarrow> string \<Rightarrow> string \<Rightarrow> string \<Rightarrow> billing \<Rightarrow> billing billed" where
  "handle_webhook E hmac secret now content_type payload signature B =
     (if \<not> contains (lower content_type) ''application/json''
      then Inl (Python (DomainError 400 ''Unsupported media type: expected application/json''))
      else if \<not> verify_signature hmac secret payload signature then Inl (Python (DomainError 401 ''Invalid signature''))
      else case be_json E payload of
        None \<Rightarrow> Inl (Python (DomainError 400 ''Invalid JSON payload''))
      | Some (PDict event) \<Rightarrow>
          (case dget event ''event'' of
             PStr ev \<Rightarrow>
               (case handle_event E now ev (as_dict (dget event ''data'')) B of
                  None \<Rightarrow> Inr B
                | Some r \<Rightarrow>
                    (if has_key event ''data'' \<and> dget event ''data'' \<noteq> PDict (as_dict (dget event ''data'')) then Inl Attribute_error else r))
           | PList _ \<Rightarrow> Inl (Python TypeErr)
           | PDict _ \<Rightarrow> Inl (Python TypeErr)
           | _ \<Rightarrow> Inr B)
      | Some _ \<Rightarrow> Inl Attribute_error)"

end
