(* ===== verification/Billing_Queue.thy ===== *)
theory Billing_Queue
  imports Paystack_Webhook
begin

text \<open>
  How billing work gets into the job queue: the daily sweep of due renewals (\<open>tasks/scheduler_sweep_ops.py\<close>) and the
  durable storage of received webhooks (\<open>webhook_retry.py\<close>), and the job that replays a stored webhook.

  The signature check of the provider is a parameter (\<open>verify\<close>), as is the time to live of a processed webhook.
\<close>

section \<open>The daily sweep\<close>

definition due_for_renewal :: "time \<Rightarrow> subscription \<Rightarrow> bool" where
  "due_for_renewal now sub =
     (sb_status sub = SUB_ACTIVE \<and> (case sb_next_payment sub of None \<Rightarrow> False | Some t \<Rightarrow> t \<le> now) \<and> sb_auth sub \<noteq> None)"

definition sweep_key :: "time \<Rightarrow> subscription \<Rightarrow> string" where
  "sweep_key now sub = uuid_str (sb_tenant sub) @ '':recurring_billing:'' @ date_str (date_of now)"

definition sweep_payload :: "(string \<Rightarrow> string) \<Rightarrow> time \<Rightarrow> subscription \<Rightarrow> pydict" where
  "sweep_payload sha now sub =
     [(''subscription_id'', PStr (uuid_str (sb_id sub))),
      (''charge_reference'', PStr (build_charge_reference sha (sb_id sub) ''renewal'' (date_str (date_of now))))]"

definition enqueue_renewal :: "(string \<Rightarrow> string) \<Rightarrow> time \<Rightarrow> subscription \<Rightarrow> job_store \<Rightarrow> job_store" where
  \<comment> \<open>\<open>INSERT ... ON CONFLICT (deduplication_key) DO NOTHING\<close>\<close>
  "enqueue_renewal sha now sub q =
     snd (enqueue_job ''recurring_billing'' (Some (sb_tenant sub)) (Some (sweep_payload sha now sub)) (Some now) 3
            (Some (sweep_key now sub)) now q)"

definition billing_sweep :: "(string \<Rightarrow> string) \<Rightarrow> time \<Rightarrow> billing \<Rightarrow> billing" where
  "billing_sweep sha now B =
     B\<lparr>bl_queue := fold (enqueue_renewal sha now) (filter (due_for_renewal now) (bl_subs B)) (bl_queue B)\<rparr>"

section \<open>Storing a webhook\<close>

definition payload_ident :: "pydict \<Rightarrow> string list \<Rightarrow> string option" where
  \<comment> \<open>the first of the keys whose value has text\<close>
  "payload_ident d ks =
     first_match (\<lambda>_. True) (List.map_filter (\<lambda>k.
       if dget d k = PNone then None else or_none (strip (py_str (dget d k)))) ks)"

definition resolve_reference :: "(string \<Rightarrow> string) \<Rightarrow> pydict \<Rightarrow> string option \<Rightarrow> string" where
  "resolve_reference sha payload reference =
     (let explicit = strip (opt_str reference) in
      if explicit \<noteq> [] then explicit
      else case payload_ident (as_dict (dget payload ''data'')) [''reference'', ''id''] of
             Some r \<Rightarrow> r
           | None \<Rightarrow>
               (case payload_ident payload [''id'', ''event_id''] of
                  Some r \<Rightarrow> r
                | None \<Rightarrow> ''payload_sha256:'' @ take 24 (sha (canonical_json payload))))"

definition idempotency_key :: "(string \<Rightarrow> string) \<Rightarrow> string \<Rightarrow> string \<Rightarrow> string \<Rightarrow> string" where
  "idempotency_key sha provider event reference = take 32 (sha (provider @ '':'' @ event @ '':'' @ reference))"

definition webhook_key :: "(string \<Rightarrow> string) \<Rightarrow> string \<Rightarrow> string \<Rightarrow> pydict \<Rightarrow> string option \<Rightarrow> string" where
  "webhook_key sha provider event payload reference =
     ''webhook:'' @ provider @ '':'' @ idempotency_key sha provider event (resolve_reference sha payload reference)"

definition webhook_payload ::
  "(string \<Rightarrow> string) \<Rightarrow> string \<Rightarrow> string \<Rightarrow> pydict \<Rightarrow> string option \<Rightarrow> pyval \<Rightarrow> pyval \<Rightarrow> pydict" where
  "webhook_payload sha provider event payload reference signature raw =
     (let ref = resolve_reference sha payload reference
      in [(''provider'', PStr provider), (''event_type'', PStr event), (''payload'', PDict payload),
          (''idempotency_key'', PStr (idempotency_key sha provider event ref)), (''reference'', PStr ref),
          (''signature'', signature), (''raw_payload'', raw)])"

definition completed_within_ttl :: "int \<Rightarrow> time \<Rightarrow> job \<Rightarrow> bool" where
  \<comment> \<open>\<open>ttl\<close> in hours\<close>
  "completed_within_ttl ttl now j = (now - seconds (ttl * 3600) \<le> given (jb_completed j) (jb_created j))"

definition requeued_job :: "time \<Rightarrow> string \<Rightarrow> bool \<Rightarrow> job \<Rightarrow> job" where
  "requeued_job now reason reset j =
     j\<lparr>jb_attempts := (if reset then 0 else jb_attempts j), jb_status := PENDING_JOB, jb_scheduled := now,
       jb_started := None, jb_completed := None, jb_error := None,
       jb_result := PDict [(''status'', PStr ''requeued''), (''reason'', PStr reason), (''requeued_at'', PStr (iso_str now))]\<rparr>"

definition redelivery :: "int \<Rightarrow> int option \<Rightarrow> time \<Rightarrow> job \<Rightarrow> (string \<times> bool) option" where
  \<comment> \<open>what a redelivery does with the job already stored: \<open>None\<close> ignores it, else why it runs again and whether its attempts are reset\<close>
  "redelivery ttl setting now j =
     (case jb_status j of
        COMPLETED_JOB \<Rightarrow> if completed_within_ttl ttl now j then None else Some (''dedupe_ttl_expired'', True)
      | PENDING_JOB \<Rightarrow> None
      | RUNNING_JOB \<Rightarrow> if is_stale setting now j then Some (''stale_running_redelivery'', False) else None
      | _ \<Rightarrow> Some (''duplicate_redelivery_requeued'', True))"

definition store_webhook ::
  "(string \<Rightarrow> string) \<Rightarrow> int \<Rightarrow> int option \<Rightarrow> time \<Rightarrow> string \<Rightarrow> string \<Rightarrow> pydict \<Rightarrow> string option \<Rightarrow> pyval \<Rightarrow> pyval
    \<Rightarrow> job_store \<Rightarrow> job option outcome \<times> job_store" where
  "store_webhook sha ttl setting now provider event payload reference signature raw q =
     (if \<not> plain_json (PDict payload) then (Inl (ValueErr ''Webhook payload must be JSON serializable''), q)
      else case enqueue_job ''webhook_retry'' None
                  (Some (webhook_payload sha provider event payload reference signature raw)) None 5
                  (Some (webhook_key sha provider event payload reference)) now q of
             (Inl e, q1) \<Rightarrow> (Inl e, q1)
           | (Inr (j, True), q1) \<Rightarrow> (Inr (Some j), q1)
           | (Inr (j, False), q1) \<Rightarrow>
               (case redelivery ttl setting now j of
                  None \<Rightarrow> (Inr None, q1)
                | Some (reason, reset) \<Rightarrow>
                    (let j1 = requeued_job now reason reset j in (Inr (Some j1), save_job j1 q1))))"

definition mark_inline_processed :: "time \<Rightarrow> pydict option \<Rightarrow> job \<Rightarrow> job" where
  "mark_inline_processed now result j =
     j\<lparr>jb_status := COMPLETED_JOB, jb_completed := Some now, jb_error := None,
       jb_result := (case result of Some (kv # d) \<Rightarrow> PDict (kv # d)
                     | _ \<Rightarrow> PDict [(''status'', PStr ''success''), (''mode'', PStr ''inline'')]),
       jb_attempts := jb_attempts j + 1\<rparr>"

definition is_duplicate :: "int \<Rightarrow> time \<Rightarrow> string \<Rightarrow> job_store \<Rightarrow> bool" where
  "is_duplicate ttl now key q =
     (\<exists>j\<in>set (jobs q). jb_type j = ''webhook_retry'' \<and> dget (payload_of j) ''idempotency_key'' = PStr key \<and>
        jb_status j = COMPLETED_JOB \<and> (case jb_completed j of None \<Rightarrow> False | Some t \<Rightarrow> now - seconds (ttl * 3600) \<le> t))"

definition get_pending_webhooks :: "string option \<Rightarrow> job_store \<Rightarrow> job list" where
  "get_pending_webhooks provider q =
     order_by [jb_scheduled] (filter (\<lambda>j. jb_type j = ''webhook_retry'' \<and> jb_status j = PENDING_JOB \<and>
        (opt_str provider = [] \<or> dget (payload_of j) ''provider'' = PStr (opt_str provider))) (jobs q))"

section \<open>Replaying a stored webhook\<close>

definition stored_event ::
  "billing_env \<Rightarrow> (string \<Rightarrow> string \<Rightarrow> bool) \<Rightarrow> pydict \<Rightarrow> (pyval \<times> pyval) billed" where
  \<comment> \<open>the event and its data, from the raw payload whose signature is checked again\<close>
  "stored_event E verify payload =
     (let raw = dget payload ''raw_payload''; signature = dget payload ''signature'' in
      if \<not> (truthy raw \<and> truthy signature) then permanent ''Stored webhook signature material is missing''
      else case (raw, signature) of
        (PStr r, PStr s) \<Rightarrow>
          (if \<not> verify r s then permanent ''Stored Paystack signature verification failed''
           else case be_json E r of
             None \<Rightarrow> permanent ''Stored webhook payload could not be parsed''
           | Some (PDict p) \<Rightarrow>
               Inr (if has_key p ''event'' then dget p ''event'' else dget payload ''event_type'',
                    if has_key p ''data'' then dget p ''data'' else PDict [])
           | Some _ \<Rightarrow> permanent ''Stored webhook payload is not a JSON object'')
      | _ \<Rightarrow> permanent ''Stored webhook payload could not be parsed'')"

definition webhook_result :: "bool \<Rightarrow> pyval \<Rightarrow> handler_result" where
  "webhook_result handled event =
     Returned (PDict (if handled then [(''status'', PStr ''processed''), (''event'', event)]
       else [(''status'', PStr ''ignored''), (''event'', event), (''reason'', PStr (''Unknown event type: '' @ py_str event))]))"

definition webhook_execute ::
  "billing_env \<Rightarrow> (string \<Rightarrow> string \<Rightarrow> bool) \<Rightarrow> time \<Rightarrow> job \<Rightarrow> billing \<Rightarrow> handler_result \<times> billing" where
  "webhook_execute E verify now j B =
     (if payload_of j = [] then (Raised_permanent ''Missing stored webhook payload'', B)
      else case stored_event E verify (payload_of j) of
        Inl e \<Rightarrow> (handler_error e, B)
      | Inr (event, d) \<Rightarrow>
          (case event of
             PStr ev \<Rightarrow>
               (case handle_event E now ev (as_dict d) B of
                  None \<Rightarrow> (webhook_result False event, B)
                | Some r \<Rightarrow>
                    (case d of
                       PDict _ \<Rightarrow> (case r of Inl e \<Rightarrow> (handler_error e, B) | Inr B1 \<Rightarrow> (webhook_result True event, B1))
                     | _ \<Rightarrow> (handler_error Attribute_error, B)))
           | _ \<Rightarrow> (webhook_result False event, B)))"

definition work_webhook_job ::
  "billing_env \<Rightarrow> (string \<Rightarrow> string \<Rightarrow> bool) \<Rightarrow> time \<Rightarrow> job \<Rightarrow> billing \<Rightarrow> billing" where
  "work_webhook_job E verify now j B =
     (case webhook_execute E verify now j B of
        (h, B1) \<Rightarrow> (let B2 = in_savepoint h B B1 in B2\<lparr>bl_queue := save_job (process_job h now j) (bl_queue B2)\<rparr>))"

end
