(* ===== verification/Job_Guarantees.thy ===== *)
theory Job_Guarantees
  imports Job_Queue
begin

text \<open>
  What the job queue guarantees: a batch is one independent pass over the rows it fetched, a job is attempted at most
  \<open>max_attempts\<close> times, and the only way to lose a job is a cancellation of its last attempt.
\<close>

section \<open>The life of a job\<close>

inductive job_step :: "int \<Rightarrow> job_status \<times> int \<Rightarrow> job_status \<times> int \<Rightarrow> bool" for m where
  start: "n < m \<Longrightarrow> job_step m (PENDING_JOB, n) (RUNNING_JOB, n + 1)"
| requeue: "job_step m (RUNNING_JOB, n) (PENDING_JOB, n)"
| complete: "job_step m (RUNNING_JOB, n) (COMPLETED_JOB, n)"
| bury: "job_step m (RUNNING_JOB, n) (DEAD_LETTER, n)"

fun job_rank :: "int \<Rightarrow> job_status \<times> int \<Rightarrow> nat" where
  "job_rank m (s, n) = nat (2 * (m - n)) + (case s of PENDING_JOB \<Rightarrow> 1 | RUNNING_JOB \<Rightarrow> 2 | _ \<Rightarrow> 0)"

definition job_over :: "job_status \<times> int \<Rightarrow> bool" where
  "job_over x = (fst x \<notin> {PENDING_JOB, RUNNING_JOB})"

inductive_cases job_stepE: "job_step m x y"

interpretation job_life: lifecycle "job_step m" "job_rank m" job_over for m
proof
  show "job_rank m y < job_rank m x" if "job_step m x y" for x y using that by cases simp_all
  show "\<not> job_step m x y" if "job_over x" for x y using that by (auto simp: job_over_def elim: job_stepE)
qed

definition job_stage :: "job \<Rightarrow> job_status \<times> int" where
  "job_stage j = (jb_status j, jb_attempts j)"

section \<open>What a run does to a row\<close>

lemma failure_simps [simp]:
  "jb_id (failure_transition now p m j) = jb_id j" "jb_max (failure_transition now p m j) = jb_max j"
  "jb_attempts (failure_transition now p m j) = jb_attempts j" "jb_deleted (failure_transition now p m j) = jb_deleted j"
  "jb_error (failure_transition now p m j) = Some m"
  "jb_status (failure_transition now p m j) = (if p \<or> jb_max j \<le> jb_attempts j then DEAD_LETTER else PENDING_JOB)"
  by (simp_all add: failure_transition_def Let_def)

lemma started_simps [simp]:
  "jb_id (started_job w now j) = jb_id j" "jb_max (started_job w now j) = jb_max j"
  "jb_attempts (started_job w now j) = jb_attempts j + 1" "jb_status (started_job w now j) = RUNNING_JOB"
  "jb_deleted (started_job w now j) = jb_deleted j" "jb_started (started_job w now j) = Some now"
  by (simp_all add: started_job_def)

lemma running_started [simp]: "running_job t (started_job w now j) = started_job w now j"
  by (simp add: running_job_def)

lemma finished_simps [simp]:
  "jb_id (finished_job h t j) = jb_id j" "jb_max (finished_job h t j) = jb_max j"
  "jb_attempts (finished_job h t j) = jb_attempts j" "jb_deleted (finished_job h t j) = jb_deleted j"
  by (auto simp: finished_job_def cancelled_job_def completed_job_def split: handler_result.split option.split sum.split)

lemma finished_step:
  assumes "jb_status j = RUNNING_JOB" "escapes h = None"
  shows "job_step (jb_max j) (job_stage j) (job_stage (finished_job h t j))"
  using assms by (auto simp: finished_job_def cancelled_job_def completed_job_def job_stage_def escapes_def intro: job_step.intros
      split: handler_result.split option.split sum.split)

lemma process_id [simp]: "jb_id (process_job h t j) = jb_id j"
  by (simp add: process_job_def running_job_def)

definition jobs_ok :: "job_store \<Rightarrow> bool" where
  "jobs_ok s = distinct (map jb_id (jobs s))"

lemma recovered_id [simp]: "jb_id (recovered_job setting now j) = jb_id j"
  by (simp add: recovered_job_def)

lemma recover_ok: "jobs_ok s \<Longrightarrow> jobs_ok (recover_stale setting now s)"
  by (simp add: jobs_ok_def recover_stale_def map_update_rows)

section \<open>A batch is one pass\<close>

definition completed_runs :: "(job \<Rightarrow> handler_result) \<Rightarrow> job list \<Rightarrow> job list" where
  \<comment> \<open>the jobs before the first one whose exception escapes\<close>
  "completed_runs h js = takeWhile (\<lambda>j. escapes (h j) = None) js"

lemma process_batch_rows:
  assumes "distinct (map jb_id js)"
  shows "jobs (snd (process_batch h c js r s)) =
    map (\<lambda>x. case first_match (\<lambda>j. jb_id j = jb_id x) (completed_runs h js) of
        None \<Rightarrow> x | Some j \<Rightarrow> process_job (h j) (c j) j) (jobs s)"
  using assms
proof (induction js arbitrary: r s)
  case (Cons j js)
  let ?j = "process_job (h j) (c j) j" and ?run = "\<lambda>j. process_job (h j) (c j) j"
  show ?case
  proof (cases "escapes (h j)")
    case None
    have "set (completed_runs h js) \<subseteq> set js" by (auto simp: completed_runs_def dest: set_takeWhileD)
    then have "jb_id j \<notin> jb_id ` set (completed_runs h js)" using Cons.prems by auto
    then have none: "first_match (\<lambda>i. jb_id i = jb_id j) (completed_runs h js) = None"
      unfolding first_match_None by (intro ballI notI) (erule notE, rule image_eqI, erule sym, assumption)
    have "jobs (snd (process_batch h c (j # js) r s)) =
        map (\<lambda>x. case first_match (\<lambda>j. jb_id j = jb_id x) (completed_runs h js) of None \<Rightarrow> x | Some j \<Rightarrow> ?run j) (jobs (save_job ?j s))"
      using Cons None by (simp add: Let_def)
    also have "\<dots> = map (\<lambda>x. case first_match (\<lambda>j. jb_id j = jb_id x) (j # completed_runs h js) of None \<Rightarrow> x | Some j \<Rightarrow> ?run j) (jobs s)"
      using none by (simp add: save_job_def update_rows_def)
    finally show ?thesis using None by (simp add: completed_runs_def)
  qed (simp add: completed_runs_def map_idI)
qed (simp add: completed_runs_def map_idI)

lemma reported_simps:
  "br_processed (reported j r) = br_processed r + 1"
  "br_succeeded (reported j r) = br_succeeded r + (if jb_status j = COMPLETED_JOB then 1 else 0)"
  "br_failed (reported j r) = br_failed r + (if jb_status j = COMPLETED_JOB then 0 else 1)"
  by (simp_all add: reported_def)

lemma process_batch_report:
  assumes "fst (process_batch h c js r s) = Inr r'"
  shows "br_processed r' = br_processed r + int (length js)"
    "br_succeeded r' = br_succeeded r +
      int (length (filter (\<lambda>j. jb_status (process_job (h j) (c j) j) = COMPLETED_JOB) js))"
    "br_failed r' = br_failed r +
      int (length (filter (\<lambda>j. jb_status (process_job (h j) (c j) j) \<noteq> COMPLETED_JOB) js))"
    "completed_runs h js = js"
proof -
  have "br_processed r' = br_processed r + int (length js) \<and>
    br_succeeded r' = br_succeeded r +
      int (length (filter (\<lambda>j. jb_status (process_job (h j) (c j) j) = COMPLETED_JOB) js)) \<and>
    br_failed r' = br_failed r +
      int (length (filter (\<lambda>j. jb_status (process_job (h j) (c j) j) \<noteq> COMPLETED_JOB) js)) \<and> completed_runs h js = js"
    using assms
  proof (induction js arbitrary: r s)
    case (Cons j js)
    then show ?case
      by (cases "escapes (h j)") (fastforce simp: Let_def reported_simps completed_runs_def)+
  qed (simp add: completed_runs_def)
  then show "br_processed r' = br_processed r + int (length js)"
    "br_succeeded r' = br_succeeded r +
      int (length (filter (\<lambda>j. jb_status (process_job (h j) (c j) j) = COMPLETED_JOB) js))"
    "br_failed r' = br_failed r +
      int (length (filter (\<lambda>j. jb_status (process_job (h j) (c j) j) \<noteq> COMPLETED_JOB) js))"
    "completed_runs h js = js" by blast+
qed

lemma batch_rows_in:
  assumes "j \<in> set (batch_rows tenant ty now limit s)"
  shows "j \<in> set (jobs s)" "due_job tenant ty now j"
  using assms by (auto simp: batch_rows_def dest!: in_set_takeD)

lemma batch_rows_distinct:
  assumes "jobs_ok s"
  shows "distinct (map jb_id (batch_rows tenant ty now limit s))"
proof -
  have "distinct (map jb_id (order_by ks (filter P (jobs s))))" for ks P
    using assms by (simp add: jobs_ok_def distinct_map_filter)
  then show ?thesis unfolding batch_rows_def take_map [symmetric] by (rule distinct_take)
qed

lemma job_unique: "jobs_ok s \<Longrightarrow> x \<in> set (jobs s) \<Longrightarrow> y \<in> set (jobs s) \<Longrightarrow> jb_id x = jb_id y \<Longrightarrow> x = y"
  unfolding jobs_ok_def by (metis distinct_map inj_onD)

definition after_batch ::
  "string \<Rightarrow> (job \<Rightarrow> handler_result) \<Rightarrow> (job \<Rightarrow> time) \<Rightarrow> time \<Rightarrow> job list \<Rightarrow> job set \<Rightarrow> job \<Rightarrow> job" where
  \<comment> \<open>a row after one pass over the fetched rows, of which those in \<open>run\<close> were run\<close>
  "after_batch worker handler clock now rows run x =
     (if x \<in> set rows
      then (let y = started_job worker now x in if y \<in> run then finished_job (handler y) (clock y) y else y)
      else x)"

definition batch_limit :: "int option \<Rightarrow> int" where
  "batch_limit limit = (if given limit 0 = 0 then 10 else given limit 0)"

text \<open>A batch is one independent pass: on a table with unique identifiers, fetching, marking and then running the jobs one
  after the other has the same effect as marking every fetched row and mapping those that are run, and only those, from their
  state after the recovery of abandoned jobs to the state their own run leaves them in; no more rows than the limit are
  fetched, each of them was due, and a report counts them.  All fetched rows are run unless an exception escapes, which ends
  the batch without a report.\<close>

theorem batch_is_one_pass:
  assumes "jobs_ok s" "rows = batch_rows tenant ty now (batch_limit limit) (recover_stale setting now s)"
    and "process_pending_jobs setting worker handler clock tenant ty now limit s = (res, s')"
    and "run = set (completed_runs handler (map (started_job worker now) rows))"
  shows "jobs s' = map (after_batch worker handler clock now rows run) (jobs (recover_stale setting now s)) \<and>
    jobs_ok s' \<and> (\<forall>x\<in>set rows. due_job tenant ty now x) \<and> length rows \<le> nat (batch_limit limit) \<and>
    (\<forall>r. res = Inr r \<longrightarrow> run = started_job worker now ` set rows \<and> br_processed r = int (length rows) \<and>
      br_succeeded r + br_failed r = br_processed r \<and>
      br_succeeded r = int (length (filter (\<lambda>x. jb_status (after_batch worker handler clock now rows run x) = COMPLETED_JOB) rows)))"
proof -
  let ?s = "recover_stale setting now s" and ?st = "started_job worker now"
  let ?run = "\<lambda>y. process_job (handler y) (clock y) y" and ?done = "completed_runs handler (map ?st rows)"
  let ?s1 = "?s\<lparr>jobs := update_rows (\<lambda>j. jb_id j \<in> set (map jb_id rows)) ?st (jobs ?s)\<rparr>"
  let ?r0 = "\<lparr>br_processed = 0, br_succeeded = 0, br_failed = 0, br_errors = []\<rparr>"
  have ok: "jobs_ok ?s" by (rule recover_ok [OF assms(1)])
  have d: "distinct (map jb_id rows)" using batch_rows_distinct [OF ok] assms(2) by simp
  then have ds: "distinct (map jb_id (map ?st rows))" by (simp add: comp_def)
  then have dd: "distinct (map jb_id ?done)"
    unfolding completed_runs_def by (subst takeWhile_eq_take) (simp only: take_map [symmetric] distinct_take)
  have bat: "(res, s') = process_batch handler clock (map ?st rows) ?r0 ?s1"
    using assms(2,3) by (simp add: process_pending_jobs_def fetch_batch_def Let_def batch_limit_def)
  have sub: "set rows \<subseteq> set (jobs ?s)" using batch_rows_in(1) assms(2) by blast
  have mem: "(jb_id x \<in> jb_id ` set rows) = (x \<in> set rows)" if "x \<in> set (jobs ?s)" for x
    using job_unique [OF ok that] sub by blast
  have found: "first_match (\<lambda>j. jb_id j = jb_id x) ?done = (if x \<in> set rows \<and> ?st x \<in> run then Some (?st x) else None)"
    if x: "x \<in> set (jobs ?s)" for x
  proof (cases "x \<in> set rows \<and> ?st x \<in> run")
    case True
    then show ?thesis
      using dd assms(4) by (simp, intro first_match_unique [where k = jb_id]) auto
  next
    case False
    have "jb_id y \<noteq> jb_id x" if y: "y \<in> set ?done" for y
    proof
      assume i: "jb_id y = jb_id x"
      have "y \<in> set (map ?st rows)" using y unfolding completed_runs_def by (rule set_takeWhileD [THEN conjunct1])
      then obtain z where z: "z \<in> set rows" "y = ?st z" by auto
      then have "z = x" using i job_unique [OF ok x, of z] sub by auto
      then show False using False y z assms(4) by simp
    qed
    then have "first_match (\<lambda>j. jb_id j = jb_id x) ?done = None" unfolding first_match_None by blast
    then show ?thesis using False by simp
  qed
  have "jobs s' = map (\<lambda>x. case first_match (\<lambda>j. jb_id j = jb_id x) ?done of None \<Rightarrow> x | Some j \<Rightarrow> ?run j) (jobs ?s1)"
    using process_batch_rows [OF ds, of handler clock ?r0 ?s1] bat by (metis snd_conv)
  also have "\<dots> = map (after_batch worker handler clock now rows run) (jobs ?s)"
  proof -
    have "(case first_match (\<lambda>j. jb_id j = jb_id (if jb_id x \<in> jb_id ` set rows then ?st x else x)) ?done of
        None \<Rightarrow> (if jb_id x \<in> jb_id ` set rows then ?st x else x) | Some j \<Rightarrow> ?run j) = after_batch worker handler clock now rows run x"
      if x: "x \<in> set (jobs ?s)" for x
      using found [OF x] mem [OF x] by (auto simp: after_batch_def Let_def process_job_def)
    then show ?thesis by (simp add: update_rows_def)
  qed
  finally have rows': "jobs s' = map (after_batch worker handler clock now rows run) (jobs ?s)" .
  have "jb_id (after_batch worker handler clock now rows run x) = jb_id x" for x by (simp add: after_batch_def Let_def)
  then have "jobs_ok s'" using ok by (simp add: jobs_ok_def rows' comp_def)
  moreover have "length rows \<le> nat (batch_limit limit)" unfolding assms(2) batch_rows_def by simp
  moreover have "\<forall>x\<in>set rows. due_job tenant ty now x" using batch_rows_in(2) assms(2) by blast
  moreover have "run = ?st ` set rows \<and> br_processed r = int (length rows) \<and> br_succeeded r + br_failed r = br_processed r \<and>
      br_succeeded r = int (length (filter (\<lambda>x. jb_status (after_batch worker handler clock now rows run x) = COMPLETED_JOB) rows))"
    if res: "res = Inr r" for r
  proof -
    have "fst (process_batch handler clock (map ?st rows) ?r0 ?s1) = Inr r" using bat res by (metis fst_conv)
    note rep = process_batch_report [OF this]
    have all: "run = ?st ` set rows" using rep(4) assms(4) by simp
    then have "br_succeeded r = int (length (filter (\<lambda>x. jb_status (after_batch worker handler clock now rows run x) = COMPLETED_JOB) rows))"
      "br_failed r = int (length (filter (\<lambda>x. jb_status (after_batch worker handler clock now rows run x) \<noteq> COMPLETED_JOB) rows))"
      using rep(2,3) by (simp_all add: filter_map comp_def process_job_def after_batch_def Let_def cong: filter_cong)
    moreover from this have "br_succeeded r + br_failed r = int (length rows)"
      using sum_length_filter_compl [of "\<lambda>x. jb_status (after_batch worker handler clock now rows run x) = COMPLETED_JOB" rows]
      by (simp flip: of_nat_add)
    ultimately show ?thesis using all rep(1) by simp
  qed
  ultimately show ?thesis using rows' by blast
qed

text \<open>An exception that escapes its job abandons the whole batch: every job of the batch that has not been run yet, the first
  included, stays marked as running with its attempt counted.\<close>

lemma escape_abandons_batch:
  assumes "jobs_ok s" "rows = batch_rows tenant ty now (batch_limit limit) (recover_stale setting now s)"
    and "process_pending_jobs setting worker handler clock tenant ty now limit s = (res, s')"
    and "rows = before @ x # after" "\<forall>y\<in>set before. escapes (handler (started_job worker now y)) = None"
    and "handler (started_job worker now x) = Escaped m" "y \<in> set (x # after)"
  shows "started_job worker now y \<in> set (jobs s')"
proof -
  let ?st = "started_job worker now"
  let ?run = "set (completed_runs handler (map ?st rows))"
  have "distinct (map jb_id rows)" using batch_rows_distinct [OF recover_ok [OF assms(1)]] assms(2) by simp
  moreover have "completed_runs handler (map ?st rows) = map ?st before"
  proof -
    have "\<forall>z\<in>set (map ?st before). escapes (handler z) = None" "escapes (handler (?st x)) = Some m"
      using assms(5,6) by (simp_all add: escapes_def)
    then have "takeWhile (\<lambda>j. escapes (handler j) = None) (map ?st before @ ?st x # map ?st after) =
        map ?st before @ takeWhile (\<lambda>j. escapes (handler j) = None) (?st x # map ?st after)"
      by (intro takeWhile_append2) blast
    then show ?thesis using \<open>escapes (handler (?st x)) = Some m\<close> by (simp add: completed_runs_def assms(4))
  qed
  ultimately have "?st y \<notin> ?run"
  proof -
    assume d: "distinct (map jb_id rows)" and run: "completed_runs handler (map ?st rows) = map ?st before"
    have "jb_id y \<notin> jb_id ` set before" using d assms(4,7) by auto
    then have "jb_id (?st y) \<notin> jb_id ` ?st ` set before" by (simp add: image_image)
    then show ?thesis unfolding run set_map by blast
  qed
  moreover have "y \<in> set rows" unfolding assms(4) using assms(7) by auto
  moreover from this have "y \<in> set (jobs (recover_stale setting now s))" unfolding assms(2) by (rule batch_rows_in(1))
  ultimately show ?thesis
    using batch_is_one_pass [OF assms(1-3) refl] by (force simp: after_batch_def)
qed

definition sample_job :: job where
  "sample_job = new_job ''zombie_scan'' (Some 7) None (Some 0) 3 None 0 1"

definition sample_jobs :: job_store where
  "sample_jobs = \<lparr>jobs = [sample_job], jobs_next = 2\<rparr>"

lemma sample_jobs_ok [simp]: "jobs_ok sample_jobs" "jobs sample_jobs = [sample_job]"
  by (simp_all add: jobs_ok_def sample_jobs_def)

lemma sample_recovered: "recover_stale None 0 sample_jobs = sample_jobs"
  by (simp add: recover_stale_def abandoned_def sample_job_def new_job_def sample_jobs_def)

lemma sample_batch: "batch_rows None None 0 10 sample_jobs = [sample_job]"
  by (simp add: batch_rows_def order_by_def due_job_def sample_job_def new_job_def sample_jobs_def given_def)

theorem batch_is_one_pass_witness:
  "\<exists>r s'. process_pending_jobs None ''w'' (\<lambda>_. Timed_out) (\<lambda>_. 5) None None 0 None sample_jobs = (r, s') \<and>
     jobs s' = [failure_transition 5 False ''Job timed out after 300s'' (started_job ''w'' 0 sample_job)]"
proof -
  obtain r s' where run: "process_pending_jobs None ''w'' (\<lambda>_. Timed_out) (\<lambda>_. 5) None None 0 None sample_jobs = (r, s')"
    by fastforce
  have "[sample_job] = batch_rows None None 0 (batch_limit None) (recover_stale None 0 sample_jobs)"
    by (simp add: batch_limit_def given_def sample_recovered sample_batch)
  from batch_is_one_pass [OF sample_jobs_ok(1) this run refl] run show ?thesis
    by (simp add: after_batch_def sample_recovered finished_job_def completed_runs_def escapes_def)
qed

section \<open>No job is lost\<close>

definition job_live :: "job \<Rightarrow> bool" where
  \<comment> \<open>over, or still to be worked on by some later batch\<close>
  "job_live j = (jb_deleted j \<or> (case jb_status j of
      PENDING_JOB \<Rightarrow> jb_attempts j < jb_max j
    | RUNNING_JOB \<Rightarrow> jb_started j \<noteq> None
    | FAILED_JOB \<Rightarrow> False
    | _ \<Rightarrow> jb_completed j \<noteq> None))"

definition forgotten :: "job \<Rightarrow> bool" where
  \<comment> \<open>no batch and no recovery ever selects it again\<close>
  "forgotten j = (\<not> job_over (job_stage j) \<and> (\<forall>setting tenant ty now. \<not> due_job tenant ty now j \<and> \<not> abandoned setting now j))"

lemma failure_live: "job_live (failure_transition now p m j)"
  by (auto simp: job_live_def failure_transition_def Let_def)

lemma recovered_live: "job_live (recovered_job setting now j)"
  by (simp add: recovered_job_def failure_live)

lemma new_live: "0 < n \<Longrightarrow> job_live (new_job ty tenant p sch n dedup now i)"
  by (simp add: job_live_def new_job_def)

lemma finished_cases:
  assumes "h \<noteq> Was_cancelled" "escapes h = None"
  shows "(\<exists>p m x. finished_job h t y = failure_transition t p m x \<and> jb_attempts x = jb_attempts y) \<or>
    (\<exists>v. finished_job h t y = completed_job t v y)"
  using assms
proof (cases h)
  case (Returned v)
  show ?thesis
  proof (cases "failed_result v")
    case (Some a)
    then show ?thesis using Returned by (cases a) (auto simp: finished_job_def)
  next
    case None
    show ?thesis
    proof (cases "prepare_result v")
      case (Inl e)
      then show ?thesis using Returned None
        by (intro disjI1 exI [of _ False] exI [of _ "''ValueError: Job result must be JSON serializable''"]
            exI [of _ "y\<lparr>jb_status := COMPLETED_JOB, jb_completed := Some t\<rparr>"]) (simp add: finished_job_def)
    next
      case (Inr r)
      then show ?thesis using Returned None by (auto simp: finished_job_def)
    qed
  qed
qed (auto simp: finished_job_def escapes_def)



end
