(* ===== verification/Billing_Safety.thy ===== *)
theory Billing_Safety
  imports Billing_Queue Job_Guarantees
begin

text \<open>
  What billing guarantees.  An operation works for one tenant and keeps the rows well formed; a charge is for the
  price of the plan and is not sent twice; three failed payments end a subscription and its plan; a redelivered
  webhook and a repeated sweep add no work.
\<close>

section \<open>Well-formed rows\<close>

definition sub_ok :: "subscription \<Rightarrow> bool" where
  "sub_ok sub =
     (0 \<le> sb_attempts sub \<and> tier_of_value (sb_tier sub) \<noteq> None \<and>
      (sb_status sub = SUB_ATTENTION \<longrightarrow>
         1 \<le> sb_attempts sub \<and> sb_attempts sub \<le> 2 \<and> sb_last_dunning sub \<noteq> None \<and> sb_next_retry sub \<noteq> None) \<and>
      (sb_status sub = SUB_CANCELLED \<longrightarrow> sb_canceled_at sub \<noteq> None))"

definition dedup_keys :: "job_store \<Rightarrow> string list" where
  "dedup_keys q = List.map_filter jb_dedup (jobs q)"

definition queue_ok :: "job_store \<Rightarrow> bool" where
  "queue_ok q = (distinct (map jb_id (jobs q)) \<and> (\<forall>j\<in>set (jobs q). jb_id j < jobs_next q) \<and> distinct (dedup_keys q))"

definition billing_ok :: "billing \<Rightarrow> bool" where
  "billing_ok B =
     (distinct (map sb_id (bl_subs B)) \<and> distinct (map sb_tenant (bl_subs B)) \<and> distinct (map fst (bl_plans B)) \<and>
      (\<forall>sub\<in>set (bl_subs B). sub_ok sub \<and> sb_id sub < bl_next B) \<and>
      (\<forall>p\<in>set (bl_plans B). tier_of_value (snd p) \<noteq> None) \<and> queue_ok (bl_queue B))"

definition rest_of :: "uuid \<Rightarrow> billing \<Rightarrow> subscription list \<times> (uuid \<times> string) list \<times> tier_cache" where
  \<comment> \<open>what belongs to the other tenants\<close>
  "rest_of t B =
     (filter (\<lambda>r. sb_tenant r \<noteq> t) (bl_subs B), filter (\<lambda>p. fst p \<noteq> t) (bl_plans B),
      filter (\<lambda>e. fst e \<noteq> uuid_str t) (bl_cache B))"

definition queue_keys :: "job_store \<Rightarrow> (uuid \<times> string option) list" where
  "queue_keys q = map (\<lambda>j. (jb_id j, jb_dedup j)) (jobs q)"

definition grows :: "job_store \<Rightarrow> job_store \<Rightarrow> bool" where
  \<comment> \<open>rows are added and changed, none is removed or given another key\<close>
  "grows q q' = (\<exists>ks. queue_keys q' = queue_keys q @ ks)"

lemma grows_refl [simp]: "grows q q"
  by (simp add: grows_def)

lemma grows_trans: "grows p q \<Longrightarrow> grows q r \<Longrightarrow> grows p r"
  by (auto simp: grows_def)

lemma grows_mono: "grows q q' \<Longrightarrow> set (queue_keys q) \<subseteq> set (queue_keys q')"
  by (auto simp: grows_def)

definition serves :: "uuid \<Rightarrow> billing \<Rightarrow> billing \<Rightarrow> bool" where
  \<comment> \<open>a change made for one tenant\<close>
  "serves t B B' = (billing_ok B' \<and> rest_of t B' = rest_of t B \<and> map fst (bl_plans B') = map fst (bl_plans B) \<and>
     grows (bl_queue B) (bl_queue B'))"

lemma serves_refl [simp]: "billing_ok B \<Longrightarrow> serves t B B"
  by (simp add: serves_def)

lemma serves_trans: "serves t A B \<Longrightarrow> serves t B C \<Longrightarrow> serves t A C"
  by (auto simp: serves_def intro: grows_trans)

lemma serves_ok: "serves t B B' \<Longrightarrow> billing_ok B'"
  by (simp add: serves_def)

text \<open>The tenants an operation names, and what lies outside of them.\<close>

definition outside :: "uuid set \<Rightarrow> billing \<Rightarrow> subscription list \<times> (uuid \<times> string) list \<times> tier_cache" where
  "outside T B =
     (filter (\<lambda>r. sb_tenant r \<notin> T) (bl_subs B), filter (\<lambda>p. fst p \<notin> T) (bl_plans B),
      filter (\<lambda>e. fst e \<notin> uuid_str ` T) (bl_cache B))"

definition only_for :: "uuid set \<Rightarrow> billing \<Rightarrow> billing \<Rightarrow> bool" where
  \<comment> \<open>a change made for one tenant of \<open>T\<close>, or one of the queue alone\<close>
  "only_for T B B' = (\<exists>t. serves t B B' \<and>
     (t \<in> T \<or> bl_subs B' = bl_subs B \<and> bl_plans B' = bl_plans B \<and> bl_cache B' = bl_cache B))"

lemma only_forI: "serves t B B' \<Longrightarrow> t \<in> T \<Longrightarrow> only_for T B B'"
  by (auto simp: only_for_def)

lemma only_for_refl: "billing_ok B \<Longrightarrow> only_for T B B"
  by (auto simp: only_for_def)

lemma filter_outside:
  assumes "filter (\<lambda>x. f x \<noteq> t) xs = filter (\<lambda>x. f x \<noteq> t) ys" "t \<in> T"
  shows "filter (\<lambda>x. f x \<notin> T) xs = filter (\<lambda>x. f x \<notin> T) ys"
proof -
  have "filter (\<lambda>x. f x \<notin> T) zs = filter (\<lambda>x. f x \<notin> T) (filter (\<lambda>x. f x \<noteq> t) zs)" for zs
    using assms(2) by (simp, intro filter_cong) auto
  then show ?thesis using assms(1) by metis
qed

lemma only_for_outside:
  assumes "only_for T B B'"
  shows "outside T B' = outside T B"
proof -
  obtain t where t: "serves t B B'"
    "t \<in> T \<or> bl_subs B' = bl_subs B \<and> bl_plans B' = bl_plans B \<and> bl_cache B' = bl_cache B"
    using assms by (auto simp: only_for_def)
  show ?thesis
  proof (cases "t \<in> T")
    case True
    have "rest_of t B' = rest_of t B" using t(1) by (simp add: serves_def)
    then show ?thesis
      using filter_outside [OF _ True, of sb_tenant "bl_subs B'" "bl_subs B"] filter_outside [OF _ True, of fst "bl_plans B'" "bl_plans B"]
        filter_outside [of fst "uuid_str t" "bl_cache B'" "bl_cache B" "uuid_str ` T"] True
      by (auto simp: rest_of_def outside_def)
  qed (use t(2) in \<open>simp add: outside_def\<close>)
qed

definition subscribers :: "(subscription \<Rightarrow> bool) \<Rightarrow> billing \<Rightarrow> uuid set" where
  "subscribers P B = sb_tenant ` set (filter P (bl_subs B))"

lemma subscriber: "sub \<in> set (bl_subs B) \<Longrightarrow> P sub \<Longrightarrow> sb_tenant sub \<in> subscribers P B"
  by (simp add: subscribers_def)

lemma find_sub_in: "find_sub P B = Some sub \<Longrightarrow> sub \<in> set (bl_subs B) \<and> P sub"
  by (simp add: find_sub_def first_match_SomeD)

lemma one_sub_in: "one_sub P B = Inr (Some sub) \<Longrightarrow> sub \<in> set (bl_subs B) \<and> P sub"
proof -
  assume "one_sub P B = Inr (Some sub)"
  then have "filter P (bl_subs B) = [sub]" by (auto simp: one_sub_def split: list.splits)
  then have "sub \<in> set (filter P (bl_subs B))" by simp
  then show ?thesis by simp
qed

lemma sub_unique:
  "billing_ok B \<Longrightarrow> x \<in> set (bl_subs B) \<Longrightarrow> y \<in> set (bl_subs B) \<Longrightarrow> sb_id x = sb_id y \<Longrightarrow> x = y"
  by (simp add: billing_ok_def distinct_map inj_on_def)

lemma map_replace:
  assumes "distinct (map k xs)" "x \<in> set xs" "k x = i" "g z = g x"
  shows "map g (update_rows (\<lambda>y. k y = i) (\<lambda>_. z) xs) = map g xs"
  using assms by (auto simp: update_rows_def distinct_map inj_on_def)

lemma save_sub_serves:
  assumes ok: "billing_ok B" and mem: "old \<in> set (bl_subs B)" and id: "sb_id sub = sb_id old"
    and t: "sb_tenant sub = sb_tenant old" and sub: "sub_ok sub"
  shows "serves (sb_tenant old) B (save_sub sub B)"
proof -
  have one: "y = old" if "y \<in> set (bl_subs B)" "sb_id y = sb_id old" for y
    using sub_unique [OF ok that(1) mem that(2)] .
  have ids: "map sb_id (update_rows (\<lambda>r. sb_id r = sb_id old) (\<lambda>_. sub) (bl_subs B)) = map sb_id (bl_subs B)"
    and tenants: "map sb_tenant (update_rows (\<lambda>r. sb_id r = sb_id old) (\<lambda>_. sub) (bl_subs B)) = map sb_tenant (bl_subs B)"
    using one id t by (auto simp: update_rows_def)
  have "filter (\<lambda>r. sb_tenant r \<noteq> sb_tenant old) (update_rows (\<lambda>r. sb_id r = sb_id old) (\<lambda>_. sub) xs) =
        filter (\<lambda>r. sb_tenant r \<noteq> sb_tenant old) xs" if "set xs \<subseteq> set (bl_subs B)" for xs
    using that t by (induction xs) (auto dest: one)
  then have rest: "rest_of (sb_tenant old) (save_sub sub B) = rest_of (sb_tenant old) B"
    by (simp add: rest_of_def save_sub_def id)
  have "sub_ok r \<and> sb_id r < bl_next B"
    if "r \<in> set (update_rows (\<lambda>r. sb_id r = sb_id old) (\<lambda>_. sub) (bl_subs B))" for r
    using that ok mem id sub by (auto simp: in_update_rows billing_ok_def split: if_splits)
  then have "billing_ok (save_sub sub B)"
    using ok ids tenants unfolding billing_ok_def by (simp add: save_sub_def id)
  then show ?thesis using rest by (simp add: serves_def save_sub_def)
qed

lemma tier_value_known [simp]: "tier_of_value (tier_value t) = Some t"
  by (rule tier_of_value_value)

lemma normalized_plan: "normalize_pricing_tier_value tier = Inr plan \<Longrightarrow> tier_of_value plan \<noteq> None"
  by (auto simp: normalize_pricing_tier_value_def split: option.splits)

lemma sync_serves:
  assumes "billing_ok B" "sync_tenant_plan t tier B = (r, B')"
  shows "serves t B B'"
proof (cases "normalize_pricing_tier_value tier")
  case (Inl e)
  then show ?thesis using assms by (simp add: sync_tenant_plan_def)
next
  case (Inr plan)
  define ps where "ps = update_rows (\<lambda>p. fst p = t) (\<lambda>p. (t, plan)) (bl_plans B)"
  have keys: "map fst ps = map fst (bl_plans B)" unfolding ps_def by (rule map_update_rows) simp
  have known: "\<forall>p\<in>set ps. tier_of_value (snd p) \<noteq> None"
    using assms(1) normalized_plan [OF Inr] by (fastforce simp: ps_def in_update_rows billing_ok_def split: if_splits)
  have rest: "filter (\<lambda>p. fst p \<noteq> t) ps = filter (\<lambda>p. fst p \<noteq> t) (bl_plans B)"
    unfolding ps_def by (rule filter_update_rows) simp
  have "B' = B\<lparr>bl_plans := ps\<rparr> \<or> B' = B\<lparr>bl_plans := ps, bl_cache := AList.delete (uuid_str t) (bl_cache B)\<rparr>"
    using assms(2) Inr by (auto simp: sync_tenant_plan_def Let_def ps_def clear_tenant_tier_cache_def split: if_splits)
  moreover have "filter (\<lambda>e. fst e \<noteq> k) (AList.delete k c) = filter (\<lambda>e. fst e \<noteq> k) c" for k and c :: tier_cache
    by (induction c) auto
  ultimately show ?thesis using assms(1) keys known rest by (auto simp: serves_def rest_of_def billing_ok_def)
qed

lemma queue_serves:
  "billing_ok B \<Longrightarrow> queue_ok q \<Longrightarrow> grows (bl_queue B) q \<Longrightarrow> serves t B (B\<lparr>bl_queue := q\<rparr>)"
  by (simp add: serves_def billing_ok_def rest_of_def)

lemma queue_only: "billing_ok B \<Longrightarrow> queue_ok q \<Longrightarrow> grows (bl_queue B) q \<Longrightarrow> only_for T B (B\<lparr>bl_queue := q\<rparr>)"
  using queue_serves by (auto simp: only_for_def)

lemma add_sub_serves:
  assumes "billing_ok B" "find_sub (\<lambda>r. sb_tenant r = sb_tenant sub) B = None" "sub_ok sub" "sb_id sub = bl_next B"
  shows "serves (sb_tenant sub) B (add_sub sub B)"
proof -
  have "sb_tenant sub \<notin> sb_tenant ` set (bl_subs B)" "sb_id sub \<notin> sb_id ` set (bl_subs B)"
    using assms by (auto simp: find_sub_def first_match_None billing_ok_def)
  moreover have "\<forall>r\<in>set (bl_subs B). sb_id r < Suc (bl_next B)"
    using assms(1) by (auto simp: billing_ok_def intro: less_SucI)
  ultimately show ?thesis using assms by (simp add: serves_def billing_ok_def rest_of_def add_sub_def)
qed

section \<open>The queue\<close>

lemma dedup_key_iff: "k \<in> set (dedup_keys q) \<longleftrightarrow> (\<exists>j\<in>set (jobs q). jb_dedup j = Some k)"
  by (auto simp: dedup_keys_def map_filter_def image_iff)

lemma map_filter_id_map: "List.map_filter f xs = List.map_filter id (map f xs)"
  by (induction xs) (auto simp: map_filter_simps split: option.split)

lemma map_filter_append [simp]: "List.map_filter f (xs @ ys) = List.map_filter f xs @ List.map_filter f ys"
  by (simp add: map_filter_def)

lemma dedup_by_keys: "map jb_dedup js = map jb_dedup js' \<Longrightarrow> List.map_filter jb_dedup js = List.map_filter jb_dedup js'"
  by (metis map_filter_id_map)

lemma enqueue_cases:
  assumes "enqueue_job ty tenant payload sch m dedup now q = (r, q')" "dedup \<noteq> Some []"
  obtains (created) j where "r = Inr (j, True)" "j = new_job ty tenant payload sch m dedup now (jobs_next q)"
      "q' = q\<lparr>jobs := jobs q @ [j], jobs_next := Suc (jobs_next q)\<rparr>"
      "\<And>k. dedup = Some k \<Longrightarrow> k \<notin> set (dedup_keys q)"
  | (found) j k where "r = Inr (j, False)" "q' = q" "j \<in> set (jobs q)" "dedup = Some k" "jb_dedup j = Some k"
proof (cases "case dedup of None \<Rightarrow> None | Some k \<Rightarrow> first_match (\<lambda>j. jb_dedup j = Some k) (jobs q)")
  case None
  then have "k \<notin> set (dedup_keys q)" if "dedup = Some k" for k
    using that by (auto simp: dedup_key_iff first_match_None)
  then show ?thesis using assms(1) None by (intro created) (auto simp: enqueue_job_def Let_def)
next
  case (Some j)
  then obtain k where k: "dedup = Some k" "first_match (\<lambda>j. jb_dedup j = Some k) (jobs q) = Some j"
    by (auto split: option.splits)
  then show ?thesis using assms Some first_match_SomeD [OF k(2)] by (intro found [of j k]) (auto simp: enqueue_job_def)
qed

lemma new_job_simps [simp]:
  "jb_id (new_job ty tenant payload sch m dedup now i) = i"
  "jb_dedup (new_job ty tenant payload sch m dedup now i) = dedup"
  by (simp_all add: new_job_def)

lemma enqueue_ok:
  assumes "queue_ok q" "enqueue_job ty tenant payload sch m dedup now q = (r, q')" "dedup \<noteq> Some []"
  shows "queue_ok q' \<and> grows q q'"
  using assms(2,3)
proof (cases rule: enqueue_cases)
  case (created j)
  then show ?thesis using assms(1)
    by (auto simp: queue_ok_def dedup_keys_def map_filter_simps less_Suc_eq grows_def queue_keys_def dest: bspec split: option.splits)
qed (use assms(1) in simp)

lemma keys_ok:
  "queue_keys q' = queue_keys q \<Longrightarrow> jobs_next q' = jobs_next q \<Longrightarrow> queue_ok q \<Longrightarrow> queue_ok q' \<and> grows q q'"
proof -
  assume keys: "queue_keys q' = queue_keys q" and n: "jobs_next q' = jobs_next q" and ok: "queue_ok q"
  have ids: "map jb_id (jobs q') = map jb_id (jobs q)" and ds: "map jb_dedup (jobs q') = map jb_dedup (jobs q)"
    using arg_cong [OF keys, of "map fst"] arg_cong [OF keys, of "map snd"] by (simp_all add: queue_keys_def comp_def)
  have "\<forall>i\<in>set (map jb_id (jobs q')). i < jobs_next q" using ok unfolding ids by (simp add: queue_ok_def)
  then have "\<forall>j\<in>set (jobs q'). jb_id j < jobs_next q" by simp
  then show ?thesis using ok ids dedup_by_keys [OF ds] keys n by (simp add: queue_ok_def grows_def dedup_keys_def)
qed

lemma save_job_ok:
  assumes "queue_ok q" "(jb_id j, jb_dedup j) \<in> set (queue_keys q)"
  shows "queue_ok (save_job j q) \<and> grows q (save_job j q)"
proof -
  obtain x where "x \<in> set (jobs q)" "jb_id x = jb_id j" "jb_dedup x = jb_dedup j"
    using assms(2) by (auto simp: queue_keys_def)
  then have "queue_keys (save_job j q) = queue_keys q"
    unfolding queue_keys_def save_job_def using assms(1)
    by (auto simp: queue_ok_def intro!: map_replace [where k = jb_id and x = x])
  then show ?thesis using assms(1) by (intro keys_ok) (simp_all add: save_job_def)
qed

section \<open>A failed payment\<close>

lemma tier_free [simp]: "tier_of_value ''free'' = Some FREE"
  using tier_of_value_value [of FREE] by simp

lemma final_serves:
  assumes "billing_ok B" "old \<in> set (bl_subs B)" "sb_id sub = sb_id old" "sb_tenant sub = sb_tenant old" "0 \<le> sb_attempts sub"
  shows "serves (sb_tenant old) B (snd (handle_final_failure now sub B))"
proof -
  define B1 where "B1 = save_sub (sub\<lparr>sb_status := SUB_CANCELLED, sb_tier := ''free'', sb_canceled_at := Some now,
    sb_next_retry := None\<rparr>) B"
  have s1: "serves (sb_tenant old) B B1" unfolding B1_def by (rule save_sub_serves) (use assms in \<open>simp_all add: sub_ok_def\<close>)
  obtain r B2 where r: "sync_tenant_plan (sb_tenant sub) ''free'' B1 = (r, B2)" by (cases "sync_tenant_plan (sb_tenant sub) ''free'' B1")
  then have "serves (sb_tenant old) B1 B2" using sync_serves [OF serves_ok [OF s1]] assms(4) by simp
  moreover have "snd (handle_final_failure now sub B) = B2"
    using r by (simp add: handle_final_failure_def B1_def [symmetric] split: sum.split)
  ultimately show ?thesis using s1 serves_trans by metis
qed

lemma retry_key_nonempty [simp]: "retry_key sub n \<noteq> []"
  by (simp add: retry_key_def)

lemma enqueue_retry_ok: "queue_ok q \<Longrightarrow> enqueue_retry E now sub n due q = (r, q') \<Longrightarrow> queue_ok q' \<and> grows q q'"
  by (auto simp: enqueue_retry_def split: if_splits dest: enqueue_ok)

lemma schedule_serves:
  assumes "billing_ok B" "old \<in> set (bl_subs B)" "sb_id sub = sb_id old" "sb_tenant sub = sb_tenant old" "sub_ok old"
    "sb_tier sub = sb_tier old" "1 \<le> sb_attempts sub" "sb_attempts sub \<le> 2" "sb_last_dunning sub \<noteq> None"
    "sb_status sub = SUB_ATTENTION"
  shows "serves (sb_tenant old) B (snd (schedule_retry E now sub B))"
proof -
  define due where "due = now + days (retry_delay_days (sb_attempts sub))"
  obtain r q where r: "enqueue_retry E now sub (sb_attempts sub + 1) due (bl_queue B) = (r, q)"
    by (cases "enqueue_retry E now sub (sb_attempts sub + 1) due (bl_queue B)")
  have q: "queue_ok q" "grows (bl_queue B) q" using enqueue_retry_ok [OF _ r] assms(1) by (auto simp: billing_ok_def)
  have s1: "serves (sb_tenant old) B (save_sub (sub\<lparr>sb_next_retry := Some due\<rparr>) B)"
    by (rule save_sub_serves) (use assms in \<open>simp_all add: sub_ok_def\<close>)
  then have "serves (sb_tenant old) B ((save_sub (sub\<lparr>sb_next_retry := Some due\<rparr>) B)\<lparr>bl_queue := q\<rparr>)"
    using q by (intro serves_trans [OF s1] queue_serves [OF serves_ok [OF s1]]) (simp_all add: save_sub_def)
  then show ?thesis using assms(1) r
    by (auto simp: schedule_retry_def Let_def due_def [symmetric] split: sum.split)
qed

lemma failed_serves:
  assumes "billing_ok B" "find_sub (\<lambda>r. sb_id r = i) B = Some sub"
  shows "serves (sb_tenant sub) B (snd (process_failed_payment E now i w B))"
proof -
  have mem: "sub \<in> set (bl_subs B)" "sub_ok sub" using assms find_sub_in by (auto simp: billing_ok_def)
  then show ?thesis using assms final_serves [OF assms(1) mem(1)] schedule_serves [OF assms(1) mem(1)]
    by (simp add: process_failed_payment_def Let_def sub_ok_def)
qed

section \<open>A charge\<close>

lemma settle_row:
  assumes "settle_charge E now c d sub = (r, sub1)"
  shows "sb_id sub1 = sb_id sub" "sb_tenant sub1 = sb_tenant sub" "sb_tier sub1 = sb_tier sub" "sb_status sub1 = sb_status sub"
    "sb_attempts sub1 = sb_attempts sub" "sub_ok sub1 = sub_ok sub" "sb_auth sub1 = sb_auth sub" "sb_code sub1 = sb_code sub"
  using assms by (auto simp: settle_charge_def Let_def sub_ok_def split: sum.splits)

lemma send_row:
  assumes "send_charge E now c sub = (r, sub1)"
  shows "sb_id sub1 = sb_id sub" "sb_tenant sub1 = sb_tenant sub" "sb_tier sub1 = sb_tier sub" "sb_status sub1 = sb_status sub"
    "sb_attempts sub1 = sb_attempts sub" "sub_ok sub1 = sub_ok sub" "sb_auth sub1 = sb_auth sub" "sb_code sub1 = sb_code sub"
  using assms by (auto simp: send_charge_def Let_def settle_row split: sum.splits if_splits pyval.splits)

lemma charge_row:
  assumes "charge_renewal E now ref sub = (r, sub1, cs)"
  shows "sb_id sub1 = sb_id sub" "sb_tenant sub1 = sb_tenant sub" "sb_tier sub1 = sb_tier sub" "sb_status sub1 = sb_status sub"
    "sb_attempts sub1 = sb_attempts sub" "sub_ok sub1 = sub_ok sub"
  using assms by (auto simp: charge_renewal_def Let_def send_row split: sum.splits if_splits option.splits prod.splits)

lemma success_serves:
  assumes "billing_ok B" "old \<in> set (bl_subs B)" "sb_id sub = sb_id old" "sb_tenant sub = sb_tenant old" "sub_ok sub"
  shows "serves (sb_tenant old) B (snd (handle_retry_success sub B))"
proof -
  define B1 where "B1 = save_sub (sub\<lparr>sb_status := SUB_ACTIVE, sb_attempts := 0, sb_last_dunning := None,
    sb_next_retry := None\<rparr>) B"
  have s1: "serves (sb_tenant old) B B1" unfolding B1_def by (rule save_sub_serves) (use assms in \<open>simp_all add: sub_ok_def\<close>)
  obtain r B2 where r: "sync_tenant_plan (sb_tenant sub) (sb_tier sub) B1 = (r, B2)"
    by (cases "sync_tenant_plan (sb_tenant sub) (sb_tier sub) B1")
  then have "serves (sb_tenant old) B1 B2" using sync_serves [OF serves_ok [OF s1]] assms(4) by simp
  moreover have "snd (handle_retry_success sub B) = B2"
    using r by (simp add: handle_retry_success_def B1_def [symmetric] split: sum.split)
  ultimately show ?thesis using s1 serves_trans by metis
qed

lemma saved_in: "old \<in> set (bl_subs B) \<Longrightarrow> sb_id sub = sb_id old \<Longrightarrow> sub \<in> set (bl_subs (save_sub sub B))"
  by (force simp: save_sub_def in_update_rows)

lemma find_saved:
  assumes "billing_ok B" "old \<in> set (bl_subs B)" "sb_id sub = sb_id old" "sb_tenant sub = sb_tenant old" "sub_ok sub"
  shows "find_sub (\<lambda>r. sb_id r = sb_id old) (save_sub sub B) = Some sub"
  unfolding find_sub_def using serves_ok [OF save_sub_serves [OF assms]] saved_in [OF assms(2,3)] assms(3)
  by (intro first_match_unique [where k = sb_id]) (auto simp: billing_ok_def)

lemma retry_serves:
  assumes ok: "billing_ok B" and sub: "find_sub (\<lambda>r. sb_id r = i) B = Some sub" and r: "retry_payment E now i ref B = (r, B', cs)"
  shows "serves (sb_tenant sub) B B'"
proof -
  have mem: "sub \<in> set (bl_subs B)" "sb_id sub = i" "sub_ok sub" using ok find_sub_in [OF sub] by (auto simp: billing_ok_def)
  obtain charged sub1 sent where c: "charge_renewal E now ref sub = (charged, sub1, sent)"
    by (cases "charge_renewal E now ref sub") auto
  note row = charge_row [OF c]
  have s1: "serves (sb_tenant sub) B (save_sub sub1 B)" using save_sub_serves [OF ok mem(1)] row mem by simp
  have mem1: "sub1 \<in> set (bl_subs (save_sub sub1 B))" using saved_in [OF mem(1)] row by simp
  have found: "find_sub (\<lambda>r. sb_id r = i) (save_sub sub1 B) = Some sub1"
    using find_saved [OF ok mem(1)] row mem by simp
  have "serves (sb_tenant sub) (save_sub sub1 B) (snd (handle_retry_success sub1 (save_sub sub1 B)))"
    using success_serves [OF serves_ok [OF s1] mem1] row mem by simp
  moreover have "serves (sb_tenant sub) (save_sub sub1 B) (snd (process_failed_payment E now i False (save_sub sub1 B)))"
    using failed_serves [OF serves_ok [OF s1] found] row by simp
  ultimately show ?thesis
    using r sub c s1 by (auto simp: retry_payment_def Let_def split: sum.splits bool.splits prod.splits intro: serves_trans)
qed

section \<open>The jobs\<close>

lemma savepoint_only: "billing_ok B \<Longrightarrow> only_for T B B' \<Longrightarrow> only_for T B (in_savepoint h B B')"
  by (simp add: in_savepoint_def only_for_refl split: handler_result.split)

definition job_tenants :: "job \<Rightarrow> billing \<Rightarrow> uuid set" where
  \<comment> \<open>the owner of the subscription a charging job names; a renewal must be a job of that tenant\<close>
  "job_tenants j B =
     (if jb_type j = ''dunning''
      then (case payload_subscription ''dunning'' j of Inl _ \<Rightarrow> {} | Inr i \<Rightarrow> subscribers (\<lambda>r. sb_id r = i) B)
      else (case payload_subscription ''recurring_billing'' j of
              Inl _ \<Rightarrow> {} | Inr i \<Rightarrow> subscribers (\<lambda>r. sb_id r = i \<and> Some (sb_tenant r) = jb_tenant j) B))"

lemma dunning_serves:
  assumes ok: "billing_ok B" and r: "dunning_execute E now j B = (h, B', cs)" and ty: "jb_type j = ''dunning''"
  shows "only_for (job_tenants j B) B B'"
proof (cases "payload_subscription ''dunning'' j")
  case (Inr i)
  then obtain r1 where "retry_payment E now i (payload_reference j) B = (r1, B', cs)"
    using r by (auto simp: dunning_execute_def split: sum.splits prod.splits)
  note r1 = this
  show ?thesis
  proof (cases "find_sub (\<lambda>r. sb_id r = i) B")
    case None
    then show ?thesis using r1 ok by (auto simp: retry_payment_def intro: only_for_refl)
  next
    case (Some sub)
    have "sb_tenant sub \<in> job_tenants j B"
      using find_sub_in [OF Some] Inr ty by (auto simp: job_tenants_def intro: subscriber)
    then show ?thesis using retry_serves [OF ok Some r1] by (blast intro: only_forI)
  qed
qed (use assms in \<open>auto simp: dunning_execute_def intro: only_for_refl\<close>)

lemma recurring_serves:
  assumes ok: "billing_ok B" and r: "recurring_execute E now j B = (h, B', cs)" and ty: "jb_type j \<noteq> ''dunning''"
  shows "only_for (job_tenants j B) B B'"
proof (cases "payload_subscription ''recurring_billing'' j")
  case (Inr i)
  show ?thesis
  proof (cases "find_sub (\<lambda>r. sb_id r = i \<and> Some (sb_tenant r) = jb_tenant j) B")
    case None
    then show ?thesis using r ok Inr by (auto simp: recurring_execute_def intro: only_for_refl)
  next
    case (Some sub)
    note sub = find_sub_in [OF Some]
    have t: "sb_tenant sub \<in> job_tenants j B" using sub Inr ty by (auto simp: job_tenants_def intro: subscriber)
    have "serves (sb_tenant sub) B (save_sub sub1 B)" if "charge_renewal E now ref sub = (c, sub1, sent)" for ref c sub1 sent
      using save_sub_serves [OF ok, of sub sub1] sub charge_row [OF that] ok by (auto simp: billing_ok_def)
    then have "only_for (job_tenants j B) B (save_sub sub1 B)" if "charge_renewal E now ref sub = (c, sub1, sent)" for ref c sub1 sent
      using that t by (blast intro: only_forI)
    then show ?thesis using r Inr Some only_for_refl [OF ok]
      by (auto simp: recurring_execute_def split: sum.splits if_splits prod.splits)
  qed
qed (use r only_for_refl [OF ok] in \<open>auto simp: recurring_execute_def\<close>)

lemma charging_serves:
  assumes "billing_ok B" "run_charging_job E now j B = (h, B', cs)"
  shows "only_for (job_tenants j B) B B'"
  using assms dunning_serves [of B E now j] recurring_serves [of B E now j] savepoint_only [of B]
  by (auto simp: run_charging_job_def split: prod.splits if_splits)

section \<open>The webhooks\<close>

lemma billed_then_Inr: "billed_then r f = Inr y \<longleftrightarrow> (\<exists>x. r = Inr x \<and> f x = Inr y)"
  by (cases r) (simp_all add: billed_then_def)

lemma never [simp]: "retryable m \<noteq> Inr x" "permanent m \<noteq> Inr x"
  by (simp_all add: retryable_def permanent_def)

lemma one_sub_none: "one_sub P B = Inr None \<Longrightarrow> find_sub P B = None"
  by (auto simp: one_sub_def find_sub_def first_match_None filter_empty_conv split: list.splits)

lemma one_sub_mem: "one_sub P B = Inr (Some sub) \<Longrightarrow> sub \<in> set (bl_subs B)"
  by (simp add: one_sub_in)

definition customer_of :: "pydict \<Rightarrow> string option" where
  "customer_of d = (case sub_dict d ''customer'' of None \<Rightarrow> None | Some c \<Rightarrow> text_field c ''customer_code'')"

definition by_customer :: "pydict \<Rightarrow> billing \<Rightarrow> uuid set" where
  "by_customer d B = (case customer_of d of None \<Rightarrow> {} | Some c \<Rightarrow> subscribers (\<lambda>r. sb_customer r = Some c) B)"

definition by_code :: "pydict \<Rightarrow> billing \<Rightarrow> uuid set" where
  "by_code d B = (case text_field d ''subscription_code'' of None \<Rightarrow> {} | Some c \<Rightarrow> subscribers (\<lambda>r. sb_code r = Some c) B)"

definition event_tenants :: "billing_env \<Rightarrow> string \<Rightarrow> pydict \<Rightarrow> billing \<Rightarrow> uuid set" where
  \<comment> \<open>whom an event is about: the owner of its customer or subscription code, for a charge the tenant in its metadata first\<close>
  "event_tenants E ev d B =
     (if ev = ''subscription.create'' then by_customer d B
      else if ev = ''subscription.disable'' then by_code d B
      else if ev = ''invoice.payment_failed'' then (if by_code d B = {} then by_customer d B else by_code d B)
      else if ev = ''charge.success''
      then (case billed_then (charge_metadata E d) metadata_tenant of Inr (Some t) \<Rightarrow> {t} | _ \<Rightarrow> by_customer d B)
      else {})"

lemma row_serves:
  assumes "billing_ok B" "sub \<in> set (bl_subs B)" "sub_ok sub \<Longrightarrow> sub_ok sub'" "sb_id sub' = sb_id sub" "sb_tenant sub' = sb_tenant sub"
  shows "serves (sb_tenant sub) B (save_sub sub' B)"
  using save_sub_serves [OF assms(1,2,4,5)] assms by (simp add: billing_ok_def)

lemma create_serves:
  assumes ok: "billing_ok B" and r: "handle_subscription_create d B = Inr B'"
  shows "only_for (by_customer d B) B B'"
proof -
  obtain customer where r1: "sub_dict d ''customer'' = Some customer"
    using r by (cases "sub_dict d ''customer''") (auto simp: handle_subscription_create_def)
  obtain code where r2: "text_field customer ''customer_code'' = Some code"
    using r r1 by (cases "text_field customer ''customer_code''") (auto simp: handle_subscription_create_def)
  obtain found where r3: "one_sub (\<lambda>r. sb_customer r = Some code) B = Inr found"
    using r r1 r2 by (auto simp: handle_subscription_create_def billed_then_Inr)
  obtain sub where r4: "found = Some sub"
    using r r1 r2 r3 by (cases found) (auto simp: handle_subscription_create_def billed_then_def)
  obtain c e due where B': "B' = save_sub (sub\<lparr>sb_code := c, sb_email_token := e, sb_next_payment := due, sb_status := SUB_ACTIVE\<rparr>) B"
    using r r1 r2 r3 r4 by (auto simp: handle_subscription_create_def billed_then_Inr)
  have "serves (sb_tenant sub) B B'"
    unfolding B' by (rule row_serves [OF ok]) (use r3 r4 in \<open>auto simp: sub_ok_def dest: one_sub_mem\<close>)
  moreover have "sb_tenant sub \<in> by_customer d B"
    using one_sub_in [OF r3 [unfolded r4]] r1 r2 by (auto simp: by_customer_def customer_of_def intro: subscriber)
  ultimately show ?thesis by (rule only_forI)
qed

lemma disable_serves:
  assumes ok: "billing_ok B" and r: "handle_subscription_disable now d B = Inr B'"
  shows "only_for (by_code d B) B B'"
proof -
  obtain sub where sub: "sub \<in> set (bl_subs B)" and t: "sb_tenant sub \<in> by_code d B" and B': "B' = save_sub (sub\<lparr>sb_status := SUB_CANCELLED, sb_canceled_at := Some now\<rparr>) B"
    using r unfolding handle_subscription_disable_def
    by (auto simp: billed_then_Inr by_code_def split: option.splits dest!: one_sub_in intro: subscriber)
  have "serves (sb_tenant sub) B B'" unfolding B' by (rule row_serves [OF ok sub]) (auto simp: sub_ok_def)
  then show ?thesis using t by (rule only_forI)
qed

lemma charged_row_simps [simp]:
  "sb_id (charged_row E now d m c a sub) = sb_id sub" "sb_tenant (charged_row E now d m c a sub) = sb_tenant sub"
  "sb_status (charged_row E now d m c a sub) = SUB_ACTIVE" "sb_attempts (charged_row E now d m c a sub) = sb_attempts sub"
  by (simp_all add: charged_row_def Let_def)

lemma charged_row_ok: "sub_ok sub \<Longrightarrow> sub_ok (charged_row E now d m c a sub)"
  by (simp add: sub_ok_def charged_row_def Let_def split: option.split)

lemma empty_ok [simp]: "sub_ok (empty_subscription i t)" "sb_id (empty_subscription i t) = i" "sb_tenant (empty_subscription i t) = t"
  by (simp_all add: empty_subscription_def sub_ok_def)

lemma apply_serves:
  assumes "apply_charge t tier is_new sub B = Inr B'"
    "serves t B (if is_new then add_sub sub B else save_sub sub B)"
  shows "serves t B B'"
proof -
  define B1 where "B1 = (if is_new then add_sub sub B else save_sub sub B)"
  have "B' = B1 \<or> (\<exists>p r. sync_tenant_plan t (tier_value p) B1 = (r, B'))"
    using assms(1) by (auto simp: apply_charge_def B1_def [symmetric] split: option.splits sum.splits prod.splits)
  then show ?thesis using assms(2) sync_serves [of B1 t] serves_ok [of t B B1] serves_trans
    unfolding B1_def [symmetric] by metis
qed

lemma target_cases:
  assumes "charge_target d tenant code B = Inr (Some (t, found))"
  obtains (new) "found = None" "find_sub (\<lambda>r. sb_tenant r = t) B = None"
  | (old) sub where "found = Some sub" "sub \<in> set (bl_subs B)" "t = sb_tenant sub"
proof (cases found)
  case None
  then show ?thesis
    using assms by (intro new) (auto simp: charge_target_def billed_then_Inr split: option.splits dest: one_sub_none)
next
  case (Some sub)
  then show ?thesis
    using assms by (intro old [of sub]) (auto simp: charge_target_def billed_then_Inr split: option.splits dest: one_sub_in)
qed

lemma charge_success_cases:
  assumes "handle_charge_success E now d B = Inr B'"
  obtains "B' = B"
  | t found tenant code m a where "charge_target d tenant code B = Inr (Some (t, found))"
      "billed_then (charge_metadata E d) metadata_tenant = Inr tenant" "code = customer_of d"
      "apply_charge t (charged_tier m) (found = None)
        (charged_row E now d m code a (case found of None \<Rightarrow> empty_subscription (bl_next B) t | Some s \<Rightarrow> s)) B = Inr B'"
proof -
  obtain m where r1: "charge_metadata E d = Inr m" using assms by (auto simp: handle_charge_success_def billed_then_Inr)
  obtain customer where r2: "sub_dict d ''customer'' = Some customer"
    using assms r1 by (cases "sub_dict d ''customer''") (auto simp: handle_charge_success_def billed_then_Inr)
  define code where "code = text_field customer ''customer_code''"
  obtain tenant target where r3: "metadata_tenant m = Inr tenant" "charge_target d tenant code B = Inr target"
    using assms r1 r2 by (auto simp: handle_charge_success_def billed_then_Inr Let_def code_def [symmetric])
  show ?thesis
  proof (cases target)
    case None
    then show ?thesis using assms r1 r2 r3
      by (simp add: handle_charge_success_def billed_then_def Let_def code_def [symmetric] split: if_splits)
  next
    case (Some x)
    obtain t found where x: "x = (t, found)" by (cases x)
    let ?sub = "case found of None \<Rightarrow> empty_subscription (bl_next B) t | Some s \<Rightarrow> s"
    show ?thesis
    proof (cases "text_field d ''reference'' \<noteq> None \<and> sb_reference ?sub = text_field d ''reference''")
      case True
      then show ?thesis using assms r1 r2 r3 Some x that(1)
        by (simp add: handle_charge_success_def billed_then_def Let_def code_def [symmetric])
    next
      case False
      then obtain a where "apply_charge t (charged_tier m) (found = None)
          (charged_row E now d m code (text_field a ''authorization_code'') ?sub) B = Inr B'"
        using assms r1 r2 r3 Some x
        by (auto simp: handle_charge_success_def billed_then_def Let_def code_def [symmetric] split: option.splits)
      moreover have "billed_then (charge_metadata E d) metadata_tenant = Inr tenant" "code = customer_of d"
        using r1 r2 r3(1) by (simp_all add: billed_then_def customer_of_def code_def)
      ultimately show ?thesis using that(2) r3(2) Some x by blast
    qed
  qed
qed

lemma charge_success_serves:
  assumes ok: "billing_ok B" and r: "handle_charge_success E now d B = Inr B'"
  shows "only_for (event_tenants E ''charge.success'' d B) B B'"
  using r
proof (cases rule: charge_success_cases)
  case 1
  then show ?thesis using ok only_for_refl by blast
next
  case (2 t found tenant code m a)
  have t: "t \<in> event_tenants E ''charge.success'' d B"
    using 2(1-3) by (auto simp: event_tenants_def by_customer_def charge_target_def billed_then_def
        split: sum.splits option.splits dest!: one_sub_in intro: subscriber)
  have "serves t B B'"
    using 2(1)
  proof (cases rule: target_cases)
    case new
    let ?row = "charged_row E now d m code a (empty_subscription (bl_next B) t)"
    have "serves t B (add_sub ?row B)"
      using add_sub_serves [OF ok, of ?row] charged_row_ok [OF empty_ok(1)] new by simp
    then show ?thesis using 2(4) new apply_serves by fastforce
  next
    case (old sub)
    have "serves t B (save_sub (charged_row E now d m code a sub) B)"
      using row_serves [OF ok old(2)] charged_row_ok old by simp
    then show ?thesis using 2(4) old apply_serves by fastforce
  qed
  then show ?thesis using t by (rule only_forI)
qed

lemma invoice_case:
  assumes "handle_invoice_failed E now d B = Inr B'"
  obtains sub v where "sub \<in> set (bl_subs B)" "process_failed_payment E now (sb_id sub) True B = (Inr v, B')"
    "sb_tenant sub \<in> event_tenants E ''invoice.payment_failed'' d B"
proof -
  obtain customer where r1: "sub_dict d ''customer'' = Some customer"
    using assms by (cases "sub_dict d ''customer''") (auto simp: handle_invoice_failed_def)
  obtain sub where sub: "sub \<in> set (bl_subs B)" "sb_tenant sub \<in> event_tenants E ''invoice.payment_failed'' d B"
    and r: "(case process_failed_payment E now (sb_id sub) True B of (Inl e, _) \<Rightarrow> Inl e | (Inr _, B1) \<Rightarrow> Inr B1) = Inr B'"
  proof (cases "text_field d ''subscription_code''")
    case None
    then obtain c sub where c: "text_field customer ''customer_code'' = Some c" "one_sub (\<lambda>r. sb_customer r = Some c) B = Inr (Some sub)"
      and r: "(case process_failed_payment E now (sb_id sub) True B of (Inl e, _) \<Rightarrow> Inl e | (Inr _, B1) \<Rightarrow> Inr B1) = Inr B'"
      using assms r1 by (auto simp: handle_invoice_failed_def Let_def billed_then_Inr split: if_splits option.splits)
    have "sb_tenant sub \<in> event_tenants E ''invoice.payment_failed'' d B"
      using one_sub_in [OF c(2)] c(1) r1 None
      by (auto simp: event_tenants_def by_code_def by_customer_def customer_of_def intro: subscriber)
    then show ?thesis using that [OF one_sub_mem [OF c(2)]] r by blast
  next
    case (Some k)
    show ?thesis
    proof (cases "one_sub (\<lambda>r. sb_code r = Some k) B")
      case (Inl e)
      then show ?thesis using assms r1 Some by (auto simp: handle_invoice_failed_def Let_def billed_then_Inr)
    next
      case (Inr found)
      show ?thesis
      proof (cases found)
        case None
        have none: "by_code d B = {}"
          using one_sub_none [OF Inr [unfolded None]] Some
          by (auto simp: by_code_def subscribers_def find_sub_def first_match_None filter_empty_conv)
        obtain c sub where c: "text_field customer ''customer_code'' = Some c" "one_sub (\<lambda>r. sb_customer r = Some c) B = Inr (Some sub)"
          and r: "(case process_failed_payment E now (sb_id sub) True B of (Inl e, _) \<Rightarrow> Inl e | (Inr _, B1) \<Rightarrow> Inr B1) = Inr B'"
          using assms r1 Some Inr None
          by (auto simp: handle_invoice_failed_def Let_def billed_then_Inr split: if_splits option.splits)
        have "sb_tenant sub \<in> event_tenants E ''invoice.payment_failed'' d B"
          using one_sub_in [OF c(2)] c(1) r1 none
          by (auto simp: event_tenants_def by_customer_def customer_of_def intro: subscriber)
        then show ?thesis using that [OF one_sub_mem [OF c(2)]] r by blast
      next
        case (Some sub)
        have in_code: "sb_tenant sub \<in> by_code d B"
          using one_sub_in [OF Inr [unfolded Some]] \<open>text_field d ''subscription_code'' = Some k\<close>
          by (auto simp: by_code_def intro: subscriber)
        then have "sb_tenant sub \<in> event_tenants E ''invoice.payment_failed'' d B" by (auto simp: event_tenants_def)
        moreover have "(case process_failed_payment E now (sb_id sub) True B of (Inl e, _) \<Rightarrow> Inl e | (Inr _, B1) \<Rightarrow> Inr B1) = Inr B'"
          using assms r1 \<open>text_field d ''subscription_code'' = Some k\<close> Inr Some
          by (auto simp: handle_invoice_failed_def Let_def billed_then_Inr split: if_splits option.splits)
        ultimately show ?thesis using that [OF one_sub_mem [OF Inr [unfolded Some]]] by blast
      qed
    qed
  qed
  then show ?thesis
    using that [of sub] by (cases "process_failed_payment E now (sb_id sub) True B") (auto split: sum.splits)
qed

lemma find_by_id: "billing_ok B \<Longrightarrow> sub \<in> set (bl_subs B) \<Longrightarrow> find_sub (\<lambda>r. sb_id r = sb_id sub) B = Some sub"
  unfolding find_sub_def by (intro first_match_unique [where k = sb_id]) (auto simp: billing_ok_def)

lemma invoice_serves:
  assumes ok: "billing_ok B" and r: "handle_invoice_failed E now d B = Inr B'"
  shows "only_for (event_tenants E ''invoice.payment_failed'' d B) B B'"
  using r
proof (cases rule: invoice_case)
  case (1 sub v)
  then show ?thesis using failed_serves [OF ok find_by_id [OF ok 1(1)], of E now True] by (auto intro: only_forI)
qed

lemma event_serves:
  "billing_ok B \<Longrightarrow> handle_event E now ev d B = Some (Inr B') \<Longrightarrow> only_for (event_tenants E ev d B) B B'"
  using create_serves [of B d B'] charge_success_serves [of B E now d B'] disable_serves [of B now d B'] invoice_serves [of B E now d B']
  by (auto simp: handle_event_def event_tenants_def split: if_splits)

section \<open>Every operation\<close>

lemma finished_dedup [simp]: "jb_dedup (process_job h now j) = jb_dedup j"
  by (auto simp: process_job_def running_job_def finished_job_def cancelled_job_def completed_job_def
      failure_transition_def Let_def split: handler_result.split option.split sum.split)

lemma work_serves:
  assumes "billing_ok B" "j \<in> set (jobs (bl_queue B))" "serves t B B1"
  shows "serves t B (B1\<lparr>bl_queue := save_job (process_job h now j) (bl_queue B1)\<rparr>)"
proof -
  have "(jb_id j, jb_dedup j) \<in> set (queue_keys (bl_queue B1))"
    using assms grows_mono [of "bl_queue B" "bl_queue B1"] by (auto simp: serves_def queue_keys_def)
  then have "queue_ok (save_job (process_job h now j) (bl_queue B1)) \<and>
      grows (bl_queue B1) (save_job (process_job h now j) (bl_queue B1))"
    using assms(3) by (intro save_job_ok) (simp_all add: serves_def billing_ok_def)
  then show ?thesis using queue_serves [OF serves_ok [OF assms(3)]] assms(3) serves_trans by blast
qed

lemma work_only:
  assumes "billing_ok B" "j \<in> set (jobs (bl_queue B))" "only_for T B B1"
  shows "only_for T B (B1\<lparr>bl_queue := save_job (process_job h now j) (bl_queue B1)\<rparr>)"
  using assms(3) work_serves [OF assms(1,2)] by (fastforce simp: only_for_def)

lemma sweep_queue:
  "queue_ok q \<Longrightarrow> queue_ok (fold (enqueue_renewal sha now) subs q) \<and> grows q (fold (enqueue_renewal sha now) subs q)"
proof (induction subs arbitrary: q)
  case (Cons sub subs)
  have "queue_ok (enqueue_renewal sha now sub q) \<and> grows q (enqueue_renewal sha now sub q)"
    unfolding enqueue_renewal_def by (rule enqueue_ok [OF Cons.prems prod.collapse [symmetric]]) (simp add: sweep_key_def)
  then show ?case using Cons.IH grows_trans by fastforce
qed simp

lemma store_queue:
  assumes ok: "queue_ok q" and r: "store_webhook sha ttl setting now provider ev payload ref sig raw q = (r, q')"
  shows "queue_ok q' \<and> grows q q'"
proof (cases "plain_json (PDict payload)")
  case True
  obtain e q1 where e: "enqueue_job ''webhook_retry'' None (Some (webhook_payload sha provider ev payload ref sig raw)) None 5
      (Some (webhook_key sha provider ev payload ref)) now q = (e, q1)" by (meson surj_pair)
  have key: "Some (webhook_key sha provider ev payload ref) \<noteq> Some []" by (simp add: webhook_key_def)
  show ?thesis
    using e key
  proof (cases rule: enqueue_cases)
    case (created j)
    then show ?thesis using enqueue_ok [OF ok e key] r True e by (simp add: store_webhook_def)
  next
    case (found j k)
    have "queue_ok (save_job (requeued_job now reason reset j) q) \<and> grows q (save_job (requeued_job now reason reset j) q)" for reason reset
      using found(3) by (intro save_job_ok [OF ok]) (auto simp: requeued_job_def queue_keys_def)
    then show ?thesis using found r True e ok by (auto simp: store_webhook_def Let_def split: option.splits)
  qed
qed (use assms in \<open>simp add: store_webhook_def\<close>)

lemma checkout_serves:
  assumes "billing_ok B"
  shows "serves (co_tenant c) B (record_checkout now c ref B)"
proof (cases "find_sub (\<lambda>r. sb_tenant r = co_tenant c) B")
  case None
  let ?row = "checkout_row now c ref ((empty_subscription (bl_next B) (co_tenant c))\<lparr>sb_tier := tier_value (co_tier c)\<rparr>)"
  have "serves (sb_tenant ?row) B (add_sub ?row B)"
    using None assms by (intro add_sub_serves) (simp_all add: checkout_row_def sub_ok_def empty_subscription_def)
  then show ?thesis using None by (simp add: record_checkout_def checkout_row_def)
next
  case (Some sub)
  then have "serves (sb_tenant sub) B (save_sub (checkout_row now c ref sub) B)"
    using find_sub_in [OF Some] by (intro row_serves [OF assms]) (auto simp: checkout_row_def sub_ok_def)
  then show ?thesis using Some find_sub_in [OF Some] by (simp add: record_checkout_def)
qed

definition webhook_tenants :: "billing_env \<Rightarrow> (string \<Rightarrow> string \<Rightarrow> bool) \<Rightarrow> job \<Rightarrow> billing \<Rightarrow> uuid set" where
  "webhook_tenants E verify j B =
     (case stored_event E verify (payload_of j) of Inr (PStr ev, d) \<Rightarrow> event_tenants E ev (as_dict d) B | _ \<Rightarrow> {})"

inductive billing_act :: "uuid set \<Rightarrow> billing \<Rightarrow> billing \<Rightarrow> bool" where
  \<comment> \<open>one operation, with the tenants it names\<close>
  charging_job: "j \<in> set (jobs (bl_queue B)) \<Longrightarrow> billing_act (job_tenants j B) B (fst (work_charging_job E now j B))"
| webhook_job: "j \<in> set (jobs (bl_queue B)) \<Longrightarrow> billing_act (webhook_tenants E verify j B) B (work_webhook_job E verify now j B)"
| checkout: "billing_act {tenant} B (snd (create_checkout_session E now tenant tier email callback cycle currency B))"
| cancellation: "billing_act {tenant} B (snd (cancel_subscription E now tenant B))"
| sweep: "billing_act {} B (billing_sweep sha now B)"
| store: "billing_act {} B (B\<lparr>bl_queue := snd (store_webhook sha ttl setting now provider ev payload ref sig raw (bl_queue B))\<rparr>)"
| fetch: "billing_act {} B (B\<lparr>bl_queue := snd (fetch_batch setting worker tenant_filter ty now n (bl_queue B))\<rparr>)"

definition billing_step :: "billing \<Rightarrow> billing \<Rightarrow> bool" where
  "billing_step B B' = (\<exists>T. billing_act T B B')"

lemma fetch_queue:
  assumes "queue_ok q"
  shows "queue_ok (snd (fetch_batch setting w t ty now n q)) \<and> grows q (snd (fetch_batch setting w t ty now n q))"
proof (rule keys_ok [OF _ _ assms])
  show "queue_keys (snd (fetch_batch setting w t ty now n q)) = queue_keys q"
    unfolding queue_keys_def fetch_batch_def Let_def recover_stale_def
    by (simp add: map_update_rows started_job_def recovered_job_def failure_transition_def Let_def)
  show "jobs_next (snd (fetch_batch setting w t ty now n q)) = jobs_next q"
    by (simp add: fetch_batch_def Let_def recover_stale_def)
qed

lemma checkout_outcome:
  "snd (create_checkout_session E now tenant tier email callback cycle currency B) = B \<or>
   (\<exists>c ref. co_tenant c = tenant \<and>
      snd (create_checkout_session E now tenant tier email callback cycle currency B) = record_checkout now c ref B)"
proof -
  define terms where "terms = and_then (normalize_billing_cycle cycle) (\<lambda>n.
     and_then (resolve_checkout_currency E currency) (\<lambda>cur.
     and_then (resolve_usd_price E tier n) (\<lambda>price.
     and_then (checkout_terms E cur price) (\<lambda>(amount, rate, fx).
       Inr \<lparr>co_tenant = tenant, co_email = email, co_amount = amount,
            co_plan_code = (if cur = ''NGN'' then resolve_plan_code E tier n else None), co_callback = callback,
            co_tier = tier, co_cycle = n, co_currency = cur, co_rate = rate, co_fx = fx\<rparr>))))"
  have "co_tenant c = tenant" if "terms = Inr c" for c
    using that by (auto simp: terms_def and_then_Inr)
  then show ?thesis
    unfolding create_checkout_session_def terms_def [symmetric]
    by (cases terms) (auto split: sum.split pyval.split)
qed

lemma act_only:
  assumes "billing_act T B B'" "billing_ok B"
  shows "only_for T B B'"
  using assms
proof cases
  case (charging_job j E now)
  obtain h B1 sent where r: "run_charging_job E now j B = (h, B1, sent)" by (cases "run_charging_job E now j B") auto
  show ?thesis
    using work_only [OF assms(2) charging_job(3) charging_serves [OF assms(2) r], of h now] charging_job(1,2) r
    by (simp add: work_charging_job_def)
next
  case (webhook_job j E verify now)
  obtain h B1 where r: "webhook_execute E verify now j B = (h, B1)" by (cases "webhook_execute E verify now j B")
  have "B1 = B \<or> (\<exists>ev d. stored_event E verify (payload_of j) = Inr (PStr ev, d) \<and> handle_event E now ev (as_dict d) B = Some (Inr B1))"
    using r by (auto simp: webhook_execute_def split: if_splits sum.splits pyval.splits option.splits)
  then have "only_for T B B1"
    using event_serves [OF assms(2)] only_for_refl [OF assms(2)] webhook_job(1) by (auto simp: webhook_tenants_def)
  from work_only [OF assms(2) webhook_job(3) savepoint_only [OF assms(2) this]] show ?thesis
    using webhook_job(2) r by (simp add: work_webhook_job_def Let_def)
next
  case (checkout tenant E now tier email callback cycle currency)
  have "B' = B \<or> (\<exists>c ref. co_tenant c = tenant \<and> B' = record_checkout now c ref B)"
    using checkout_outcome [of E now tenant tier email callback cycle currency B] checkout(2) by simp
  then show ?thesis
    using checkout_serves [OF assms(2)] only_for_refl [OF assms(2)] checkout(1) by (auto intro: only_forI)
next
  case (cancellation tenant E now)
  then have "B' = B \<or> (\<exists>sub\<in>set (bl_subs B). sb_tenant sub = tenant \<and>
      B' = save_sub (sub\<lparr>sb_status := SUB_CANCELLED, sb_canceled_at := Some now\<rparr>) B)"
    by (auto simp: cancel_subscription_def split: option.splits sum.splits if_splits dest: find_sub_in)
  moreover have "serves (sb_tenant sub) B (save_sub (sub\<lparr>sb_status := SUB_CANCELLED, sb_canceled_at := Some now\<rparr>) B)"
    if "sub \<in> set (bl_subs B)" for sub
    by (rule row_serves [OF assms(2) that]) (auto simp: sub_ok_def)
  ultimately show ?thesis using only_for_refl [OF assms(2)] cancellation(1) by (auto intro: only_forI)
next
  case (sweep sha now)
  have "queue_ok (bl_queue B)" using assms(2) by (simp add: billing_ok_def)
  from queue_only [OF assms(2) conjunct1 [OF sweep_queue [OF this]] conjunct2 [OF sweep_queue [OF this]]]
  show ?thesis unfolding sweep(2) billing_sweep_def .
next
  case (store sha ttl setting now provider ev payload ref sig raw)
  have "queue_ok (bl_queue B)" using assms(2) by (simp add: billing_ok_def)
  note q = store_queue [OF this prod.collapse [symmetric]]
  show ?thesis unfolding store(2) by (rule queue_only [OF assms(2) conjunct1 [OF q] conjunct2 [OF q]])
next
  case (fetch setting worker tenant_filter ty now n)
  have "queue_ok (bl_queue B)" using assms(2) by (simp add: billing_ok_def)
  note q = fetch_queue [OF this]
  show ?thesis unfolding fetch(2) by (rule queue_only [OF assms(2) conjunct1 [OF q] conjunct2 [OF q]])
qed

lemma step_serves: "billing_step B B' \<Longrightarrow> billing_ok B \<Longrightarrow> \<exists>t. serves t B B'"
  unfolding billing_step_def using act_only only_for_def by blast

end
