(* ===== verification/Billing_Guarantees.thy ===== *)
theory Billing_Guarantees
  imports Billing_Safety
begin

text \<open>
  The guarantees of billing, on the lemmas of \<open>Billing_Safety\<close>, each with a concrete instance.
\<close>

section \<open>A sample\<close>

definition sample_sub :: subscription where
  "sample_sub = (empty_subscription 1 7)\<lparr>sb_auth := Some ''AUTH'', sb_tier := ''pro'', sb_currency := ''USD'', sb_code := Some ''SUB''\<rparr>"

definition sample_billing :: billing where
  "sample_billing = \<lparr>bl_subs = [sample_sub], bl_plans = [(7, ''pro'')], bl_cache = [],
     bl_queue = \<lparr>jobs = [], jobs_next = 0\<rparr>, bl_next = 2\<rparr>"

definition sample_provider :: billing_env where
  "sample_provider = \<lparr>be_sha = (\<lambda>s. s), be_decrypt = (\<lambda>s. s), be_encrypt = (\<lambda>s. s), be_plan_price = (\<lambda>_. None),
     be_ngn_rate = Inr 1500, be_contact = (\<lambda>_. Some ''owner''),
     be_charge = (\<lambda>_. Inr [(''status'', PBool True), (''data'', PDict [(''status'', PStr ''success'')])]),
     be_fetch = (\<lambda>_. Inl TypeErr), be_disable = (\<lambda>_ _. Inr ()), be_enqueue_fails = False,
     be_default_currency = ''NGN'', be_usd_checkout = False, be_plan_code = (\<lambda>_ _. None),
     be_initialize = (\<lambda>_. Inl TypeErr), be_json = (\<lambda>_. None)\<rparr>"

lemma sample_ok: "billing_ok sample_billing"
  using tier_of_value_value [of PRO]
  by (simp add: billing_ok_def sample_billing_def sample_sub_def empty_subscription_def sub_ok_def queue_ok_def dedup_keys_def
      map_filter_simps)

lemma sample_find: "find_sub (\<lambda>r. sb_id r = 1) sample_billing = Some sample_sub"
  by (simp add: find_sub_def sample_billing_def sample_sub_def empty_subscription_def)

section \<open>All states\<close>

text \<open>C19: Whatever jobs, webhooks, checkouts, cancellations and sweeps do to a well-formed billing state, in any order, the
  result is well formed: identifiers and tenants are unique, a subscription has a valid tier, one that needs attention has
  one or two failures behind it and a retry date, a cancelled one its date, plans are valid tiers, deduplication keys are
  unique; no tenant is lost and no job loses its key.\<close>

theorem billing_states_sound:
  assumes "billing_step\<^sup>*\<^sup>* B B'" "billing_ok B"
  shows "billing_ok B' \<and> map fst (bl_plans B') = map fst (bl_plans B) \<and> grows (bl_queue B) (bl_queue B')"
  using assms
proof (induction rule: rtranclp_induct)
  case (step C D)
  then obtain t where "serves t C D" using step_serves by blast
  then show ?case using step grows_trans by (auto simp: serves_def)
qed simp

theorem billing_states_sound_witness:
  "billing_ok (billing_sweep (\<lambda>s. s) 0 sample_billing)"
proof -
  have "billing_step\<^sup>*\<^sup>* sample_billing (billing_sweep (\<lambda>s. s) 0 sample_billing)"
    unfolding billing_step_def by (intro r_into_rtranclp exI) (rule billing_act.sweep)
  from billing_states_sound [OF this sample_ok] show ?thesis by simp
qed

text \<open>C23: Every operation of billing changes the subscriptions, the plans and the cached tiers of the tenants it is about only, of
  at most one of them, and leaves those of all other tenants as they are.  It is about: a checkout or a cancellation, the tenant
  that asks for it; a dunning job, the owner of the subscription its payload names; a renewal job, that owner if the job is
  the owner's; a webhook, the tenant in the metadata of the charge, or the owner of the customer or the subscription code in it;
  the sweep, the storing of a webhook and the fetching of jobs, nobody.\<close>

theorem billing_isolates_tenants:
  assumes "billing_act T B B'" "billing_ok B"
  shows "outside T B' = outside T B \<and> (\<exists>t. rest_of t B' = rest_of t B)"
  using act_only [OF assms] only_for_outside [OF act_only [OF assms]] by (auto simp: only_for_def serves_def)

definition other_sub :: subscription where
  "other_sub = (empty_subscription 2 8)\<lparr>sb_tier := ''pro''\<rparr>"

definition sample_pair :: billing where
  "sample_pair = sample_billing\<lparr>bl_subs := [sample_sub, other_sub], bl_plans := [(7, ''pro''), (8, ''pro'')], bl_next := 3\<rparr>"

lemma sample_pair_ok: "billing_ok sample_pair"
  using tier_of_value_value [of PRO]
  by (simp add: billing_ok_def sample_pair_def other_sub_def sample_billing_def sample_sub_def empty_subscription_def sub_ok_def
      queue_ok_def dedup_keys_def map_filter_simps)

theorem billing_isolates_tenants_witness:
  "outside {7} (snd (cancel_subscription sample_provider 0 7 sample_pair)) = ([other_sub], [(8, ''pro'')], [])"
proof -
  have "outside {7} sample_pair = ([other_sub], [(8, ''pro'')], [])"
    by (simp add: outside_def sample_pair_def other_sub_def sample_billing_def sample_sub_def empty_subscription_def)
  then show ?thesis using billing_isolates_tenants [OF billing_act.cancellation sample_pair_ok] by metis
qed

section \<open>Failed payments\<close>

lemma find_map: "find_sub P B = Some sub \<Longrightarrow> (\<And>r. P r = (sb_id r = i)) \<Longrightarrow> sb_id sub = i"
  using find_sub_in by blast

lemma sync_result:
  assumes "distinct (map fst (bl_plans B))" "t \<in> fst ` set (bl_plans B)" "normalize_pricing_tier_value tier = Inr plan"
  shows "sync_tenant_plan t tier B = (Inr (), B\<lparr>bl_plans := update_rows (\<lambda>p. fst p = t) (\<lambda>p. (t, plan)) (bl_plans B),
      bl_cache := AList.delete (uuid_str t) (bl_cache B)\<rparr>)"
proof -
  have "length (filter (\<lambda>p. fst p = t) ps) = 1" if "distinct (map fst ps)" "t \<in> fst ` set ps" for ps :: "(uuid \<times> string) list"
    using that
  proof (induction ps)
    case (Cons p ps)
    then show ?case by (cases "fst p = t") (auto simp: filter_empty_conv image_iff)
  qed simp
  then show ?thesis using assms by (simp add: sync_tenant_plan_def Let_def clear_tenant_tier_cache_def)
qed

lemma plan_updated: "t \<in> fst ` set ps \<Longrightarrow> map_of (update_rows (\<lambda>p. fst p = t) (\<lambda>p. (t, plan)) ps) t = Some plan"
  by (induction ps) auto

lemma free_normal [simp]: "normalize_pricing_tier_value ''free'' = Inr ''free''"
  by (simp add: normalize_pricing_tier_value_def tier_of_value_def all_tiers_def norm_key_def strip_def lstrip_def lower_def
      lower_char_def is_space_def Let_def)

definition guarded_tier :: "billing \<Rightarrow> uuid \<Rightarrow> time \<Rightarrow> pricing_tier" where
  \<comment> \<open>the tier that a request of the tenant at \<open>later\<close> is guarded by\<close>
  "guarded_tier B t later = fst (get_tenant_tier (\<lambda>u. Inr (map_of (bl_plans B) u)) t later ([], bl_cache B))"

lemma final_outcome:
  assumes ok: "billing_ok B" and mem: "old \<in> set (bl_subs B)" and sub: "sb_id sub = sb_id old" "sb_tenant sub = sb_tenant old"
      "0 \<le> sb_attempts sub" and plan: "sb_tenant old \<in> fst ` set (bl_plans B)"
    and B': "B' = snd (handle_final_failure now sub B)"
  shows "find_sub (\<lambda>r. sb_id r = sb_id old) B' = Some (sub\<lparr>sb_status := SUB_CANCELLED, sb_tier := ''free'',
       sb_canceled_at := Some now, sb_next_retry := None\<rparr>)"
    and "map_of (bl_plans B') (sb_tenant old) = Some ''free''"
    and "guarded_tier B' (sb_tenant old) later = FREE"
    and "\<exists>d. fst (handle_final_failure now sub B) = Inr (PDict d) \<and> dget d ''status'' = PStr ''downgraded''"
    and "bl_queue B' = bl_queue B"
proof -
  let ?sub = "sub\<lparr>sb_status := SUB_CANCELLED, sb_tier := ''free'', sb_canceled_at := Some now, sb_next_retry := None\<rparr>"
  let ?B1 = "save_sub ?sub B"
  have plans1: "bl_plans ?B1 = bl_plans B" "bl_queue ?B1 = bl_queue B" by (simp_all add: save_sub_def)
  have "distinct (map fst (bl_plans B))" using ok by (simp add: billing_ok_def)
  then have sync: "sync_tenant_plan (sb_tenant sub) ''free'' ?B1 =
      (Inr (), ?B1\<lparr>bl_plans := update_rows (\<lambda>p. fst p = sb_tenant sub) (\<lambda>p. (sb_tenant sub, ''free'')) (bl_plans ?B1),
        bl_cache := AList.delete (uuid_str (sb_tenant sub)) (bl_cache ?B1)\<rparr>)"
    using plan sub by (intro sync_result) (simp_all add: plans1)
  have found: "find_sub (\<lambda>r. sb_id r = sb_id old) ?B1 = Some ?sub"
    using find_saved [OF ok mem, of ?sub] sub by (simp add: sub_ok_def)
  have eq: "B' = ?B1\<lparr>bl_plans := update_rows (\<lambda>p. fst p = sb_tenant sub) (\<lambda>p. (sb_tenant sub, ''free'')) (bl_plans ?B1),
        bl_cache := AList.delete (uuid_str (sb_tenant sub)) (bl_cache ?B1)\<rparr>"
    using B' sync by (simp add: handle_final_failure_def)
  show "find_sub (\<lambda>r. sb_id r = sb_id old) B' = Some ?sub" using found by (simp add: eq find_sub_def)
  show p: "map_of (bl_plans B') (sb_tenant old) = Some ''free''" using plan_updated [OF plan] by (simp add: eq sub plans1)
  show "guarded_tier B' (sb_tenant old) later = FREE"
    using p by (simp add: guarded_tier_def get_tenant_tier_def Let_def runtime_cache_get_def eq sub delete_conv)
  show "\<exists>d. fst (handle_final_failure now sub B) = Inr (PDict d) \<and> dget d ''status'' = PStr ''downgraded''"
    using sync by (simp add: handle_final_failure_def dget_def)
  show "bl_queue B' = bl_queue B" by (simp add: eq plans1)
qed

definition retry_queued :: "billing_env \<Rightarrow> time \<Rightarrow> subscription \<Rightarrow> int \<Rightarrow> time \<Rightarrow> job_store \<Rightarrow> job_store \<Rightarrow> bool" where
  \<comment> \<open>the queue holds the one job of the \<open>n\<close>-th attempt: a new one that a worker takes when it is due, or one of an earlier time\<close>
  "retry_queued E now sub n due q q' =
     (if retry_key sub n \<in> set (dedup_keys q) then q' = q
      else \<exists>j. jobs q' = jobs q @ [j] \<and> jb_dedup j = Some (retry_key sub n) \<and> jb_tenant j = Some (sb_tenant sub) \<and>
             jb_payload j = Some (retry_payload (be_sha E) sub n) \<and>
             (\<forall>t\<ge>due. due_job None None t j) \<and> (\<forall>t<due. \<not> due_job None None t j))"

lemma enqueue_retry_result:
  assumes "\<not> be_enqueue_fails E"
  shows "\<exists>j created q'. enqueue_retry E now sub n due q = (Inr (j, created), q') \<and> retry_queued E now sub n due q q'"
proof -
  obtain r q' where r: "enqueue_job ''dunning'' (Some (sb_tenant sub)) (Some (retry_payload (be_sha E) sub n)) (Some due) 3
      (Some (retry_key sub n)) now q = (r, q')" by (meson surj_pair)
  have key: "Some (retry_key sub n) \<noteq> Some []" by simp
  show ?thesis
    using r key
  proof (cases rule: enqueue_cases)
    case (created j)
    then show ?thesis using assms r by (auto simp: enqueue_retry_def retry_queued_def new_job_def due_job_def given_def)
  next
    case (found j k)
    then have "retry_key sub n \<in> set (dedup_keys q)" by (auto simp: dedup_key_iff)
    then show ?thesis using assms r found by (auto simp: enqueue_retry_def retry_queued_def)
  qed
qed

lemma find_saved_by:
  assumes "billing_ok B" "old \<in> set (bl_subs B)" "sb_id sub = sb_id old"
  shows "find_sub (\<lambda>r. sb_id r = sb_id old) (save_sub sub B) = Some sub"
proof -
  have "first_match (\<lambda>r. sb_id r = sb_id old) (update_rows (\<lambda>r. sb_id r = sb_id old) (\<lambda>_. sub) (bl_subs B)) =
      map_option (\<lambda>x. if sb_id x = sb_id old then sub else x) (first_match (\<lambda>r. sb_id r = sb_id old) (bl_subs B))"
    by (rule first_match_update_rows) (simp add: assms(3))
  then show ?thesis using find_by_id [OF assms(1,2)] by (simp add: find_sub_def save_sub_def assms(3))
qed

lemma schedule_outcome:
  assumes ok: "billing_ok B" and mem: "old \<in> set (bl_subs B)" and sub: "sb_id sub = sb_id old"
    and E: "\<not> be_enqueue_fails E" and B': "B' = snd (schedule_retry E now sub B)"
    and due: "due = now + days (retry_delay_days (sb_attempts sub))"
  shows "find_sub (\<lambda>r. sb_id r = sb_id old) B' = Some (sub\<lparr>sb_next_retry := Some due\<rparr>)"
    and "bl_plans B' = bl_plans B"
    and "retry_queued E now sub (sb_attempts sub + 1) due (bl_queue B) (bl_queue B')"
    and "\<exists>d. fst (schedule_retry E now sub B) = Inr (PDict d) \<and> dget d ''status'' = PStr ''scheduled_retry''"
proof -
  obtain j c q where q: "enqueue_retry E now sub (sb_attempts sub + 1) due (bl_queue B) = (Inr (j, c), q)"
    "retry_queued E now sub (sb_attempts sub + 1) due (bl_queue B) q"
    using enqueue_retry_result [OF E] by blast
  have eq: "B' = (save_sub (sub\<lparr>sb_next_retry := Some due\<rparr>) B)\<lparr>bl_queue := q\<rparr>"
    using q(1) B' by (simp add: schedule_retry_def Let_def due)
  show "find_sub (\<lambda>r. sb_id r = sb_id old) B' = Some (sub\<lparr>sb_next_retry := Some due\<rparr>)"
    using find_saved_by [OF ok mem, of "sub\<lparr>sb_next_retry := Some due\<rparr>"] sub by (simp add: eq find_sub_def)
  show "bl_plans B' = bl_plans B" by (simp add: eq save_sub_def)
  show "retry_queued E now sub (sb_attempts sub + 1) due (bl_queue B) (bl_queue B')" using q(2) by (simp add: eq)
  show "\<exists>d. fst (schedule_retry E now sub B) = Inr (PDict d) \<and> dget d ''status'' = PStr ''scheduled_retry''"
    using q(1) by (simp add: schedule_retry_def Let_def due dget_def)
qed

text \<open>What a failed payment does. A webhook within five minutes of the last failure, and a failure whose retry
  cannot be enqueued, change nothing. Otherwise the failure is counted; after the first and the second the subscription
  needs attention, keeps its plan, and the queue holds a job that retries the charge one or three days later and not
  before (or one of an earlier cycle under the same key); after the third it is cancelled, and every request of the tenant
  is guarded by the free tier from then on.\<close>

theorem failed_payment_outcome:
  assumes ok: "billing_ok B" and found: "find_sub (\<lambda>r. sb_id r = i) B = Some sub"
    and plan: "sb_tenant sub \<in> fst ` set (bl_plans B)"
    and r: "process_failed_payment E now i is_webhook B = (r, B')"
  shows "if is_webhook \<and> debounced now sub \<or> sb_attempts sub < 2 \<and> be_enqueue_fails E then B' = B
     else \<exists>sub'. find_sub (\<lambda>r. sb_id r = i) B' = Some sub' \<and> sb_attempts sub' = sb_attempts sub + 1 \<and>
       (if sb_attempts sub < 2
        then sb_status sub' = SUB_ATTENTION \<and> sb_tier sub' = sb_tier sub \<and> bl_plans B' = bl_plans B \<and>
          (let due = now + days (if sb_attempts sub = 0 then 1 else 3)
           in sb_next_retry sub' = Some due \<and>
              retry_queued E now sub (sb_attempts sub + 2) due (bl_queue B) (bl_queue B'))
        else sb_status sub' = SUB_CANCELLED \<and> sb_tier sub' = ''free'' \<and> sb_canceled_at sub' = Some now \<and>
          bl_queue B' = bl_queue B \<and> (\<forall>later. guarded_tier B' (sb_tenant sub) later = FREE))"
proof -
  have mem: "sub \<in> set (bl_subs B)" "sb_id sub = i" "sub_ok sub" using ok find_sub_in [OF found] by (auto simp: billing_ok_def)
  let ?sub = "sub\<lparr>sb_attempts := sb_attempts sub + 1, sb_last_dunning := Some now, sb_status := SUB_ATTENTION\<rparr>"
  have key: "retry_key ?sub n = retry_key sub n" "retry_queued E now ?sub n due q q' = retry_queued E now sub n due q q'"
    for n due q q' by (simp_all add: retry_key_def retry_queued_def retry_payload_def)
  show ?thesis
  proof (cases "is_webhook \<and> debounced now sub \<or> sb_attempts sub < 2 \<and> be_enqueue_fails E")
    case True
    then show ?thesis using r found by (auto simp: process_failed_payment_def schedule_retry_def enqueue_retry_def Let_def split: if_splits)
  next
    case False
    then have step: "B' = snd (if 3 \<le> sb_attempts ?sub then handle_final_failure now ?sub B else schedule_retry E now ?sub B)"
      using r found by (auto simp: process_failed_payment_def Let_def)
    show ?thesis
    proof (cases "sb_attempts sub < 2")
      case True
      have delay: "retry_delay_days (sb_attempts ?sub) = (if sb_attempts sub = 0 then 1 else 3)"
        using True mem(3) by (simp add: retry_delay_days_def sub_ok_def)
      show ?thesis
        using schedule_outcome [OF ok mem(1), of ?sub E B' now] step False True mem key delay
        by (auto simp: Let_def add.commute)
    next
      case 2: False
      show ?thesis
        using final_outcome [OF ok mem(1), of ?sub B' now] step False 2 mem plan by (auto simp: sub_ok_def)
    qed
  qed
qed

theorem failed_payment_outcome_witness:
  "sb_attempts sample_sub < 2 \<and> \<not> be_enqueue_fails sample_provider \<and>
   (\<exists>sub'. find_sub (\<lambda>r. sb_id r = 1) (snd (process_failed_payment sample_provider 0 1 True sample_billing)) = Some sub' \<and>
      sb_status sub' = SUB_ATTENTION)"
proof -
  have "sb_tenant sample_sub \<in> fst ` set (bl_plans sample_billing)" "\<not> debounced 0 sample_sub" "sb_attempts sample_sub = 0"
    "\<not> be_enqueue_fails sample_provider"
    by (simp_all add: sample_sub_def sample_billing_def empty_subscription_def debounced_def sample_provider_def)
  then show ?thesis
    using failed_payment_outcome [OF sample_ok sample_find _ prod.collapse [symmetric], where E = sample_provider and now = 0 and is_webhook = True]
    by (auto simp: Let_def)
qed

section \<open>A whole cycle\<close>

fun failures :: "billing_env \<Rightarrow> uuid \<Rightarrow> time list \<Rightarrow> billing \<Rightarrow> billing" where
  \<comment> \<open>declined charges one after the other, as the retry job reports them\<close>
  "failures E i [] B = B"
| "failures E i (t # ts) B = failures E i ts (snd (process_failed_payment E t i False B))"

lemma failed_step:
  assumes "billing_ok B" "find_sub (\<lambda>r. sb_id r = i) B = Some sub" "sb_tenant sub \<in> fst ` set (bl_plans B)"
    "\<not> be_enqueue_fails E" "B' = snd (process_failed_payment E now i False B)"
  obtains sub' where "billing_ok B'" "find_sub (\<lambda>r. sb_id r = i) B' = Some sub'" "sb_tenant sub' \<in> fst ` set (bl_plans B')"
    "sb_tenant sub' = sb_tenant sub" "sb_attempts sub' = sb_attempts sub + 1"
    "sb_status sub' = (if sb_attempts sub < 2 then SUB_ATTENTION else SUB_CANCELLED)"
    "2 \<le> sb_attempts sub \<Longrightarrow> sb_tier sub' = ''free'' \<and> (\<forall>later. guarded_tier B' (sb_tenant sub) later = FREE)"
proof -
  have s: "serves (sb_tenant sub) B B'" using failed_serves [OF assms(1,2)] assms(5) by simp
  obtain r where r: "process_failed_payment E now i False B = (r, B')" using assms(5) by (metis prod.collapse)
  have mem: "sub \<in> set (bl_subs B)" "sb_id sub = i" "sub_ok sub" using assms(1) find_sub_in [OF assms(2)] by (auto simp: billing_ok_def)
  let ?sub = "sub\<lparr>sb_attempts := sb_attempts sub + 1, sb_last_dunning := Some now, sb_status := SUB_ATTENTION\<rparr>"
  have B': "B' = snd (if 3 \<le> sb_attempts ?sub then handle_final_failure now ?sub B else schedule_retry E now ?sub B)"
    using assms(2,5) by (simp add: process_failed_payment_def Let_def)
  have plans: "fst ` set (bl_plans B') = fst ` set (bl_plans B)" using s by (metis list.set_map serves_def)
  show ?thesis
  proof (cases "sb_attempts sub < 2")
    case True
    then show ?thesis
      using schedule_outcome(1) [OF assms(1) mem(1), of ?sub E B' now] B' mem assms(3,4) plans serves_ok [OF s]
      by (intro that [of "?sub\<lparr>sb_next_retry := Some (now + days (retry_delay_days (sb_attempts ?sub)))\<rparr>"]) auto
  next
    case False
    then show ?thesis
      using final_outcome(1,3) [OF assms(1) mem(1), of ?sub B' now] B' mem assms(3) plans serves_ok [OF s]
      by (intro that [of "?sub\<lparr>sb_status := SUB_CANCELLED, sb_tier := ''free'', sb_canceled_at := Some now, sb_next_retry := None\<rparr>"])
        (auto simp: sub_ok_def)
  qed
qed

text \<open>C22: Dunning ends, provided its retries can be enqueued: however the declined charges are spaced, as many as are missing to three cancel the subscription and
  guard every request of the tenant by the free tier, and with fewer it still needs attention, with each of them counted.\<close>

theorem dunning_gives_up:
  assumes "billing_ok B" "find_sub (\<lambda>r. sb_id r = i) B = Some sub" "sb_tenant sub \<in> fst ` set (bl_plans B)"
    "\<not> be_enqueue_fails E" "ts \<noteq> []"
  shows "\<exists>sub'. find_sub (\<lambda>r. sb_id r = i) (failures E i ts B) = Some sub' \<and>
     sb_attempts sub' = sb_attempts sub + int (length ts) \<and>
     (if sb_attempts sub + int (length ts) < 3 then sb_status sub' = SUB_ATTENTION
      else sb_status sub' = SUB_CANCELLED \<and> sb_tier sub' = ''free'' \<and>
        (\<forall>later. guarded_tier (failures E i ts B) (sb_tenant sub) later = FREE))"
  using assms
proof (induction ts arbitrary: B sub)
  case (Cons t ts)
  define B' where "B' = snd (process_failed_payment E t i False B)"
  obtain sub' where s: "billing_ok B'" "find_sub (\<lambda>r. sb_id r = i) B' = Some sub'" "sb_tenant sub' \<in> fst ` set (bl_plans B')"
    "sb_tenant sub' = sb_tenant sub" "sb_attempts sub' = sb_attempts sub + 1"
    "sb_status sub' = (if sb_attempts sub < 2 then SUB_ATTENTION else SUB_CANCELLED)"
    "2 \<le> sb_attempts sub \<longrightarrow> sb_tier sub' = ''free'' \<and> (\<forall>later. guarded_tier B' (sb_tenant sub) later = FREE)"
    using failed_step [OF Cons.prems(1-4) B'_def] by metis
  show ?case
  proof (cases "ts = []")
    case True
    then show ?thesis using s by (auto simp: B'_def [symmetric])
  next
    case False
    then obtain x where "find_sub (\<lambda>r. sb_id r = i) (failures E i ts B') = Some x"
      "sb_attempts x = sb_attempts sub' + int (length ts)"
      "if sb_attempts sub' + int (length ts) < 3 then sb_status x = SUB_ATTENTION
       else sb_status x = SUB_CANCELLED \<and> sb_tier x = ''free'' \<and> (\<forall>later. guarded_tier (failures E i ts B') (sb_tenant sub') later = FREE)"
      using Cons.IH [OF s(1,2,3) Cons.prems(4)] by blast
    then show ?thesis using s(4,5) by (intro exI [of _ x]) (auto simp: B'_def [symmetric] split: if_splits)
  qed
qed simp

theorem dunning_gives_up_witness:
  "\<exists>sub'. find_sub (\<lambda>r. sb_id r = 1) (failures sample_provider 1 [0, days 1, days 4] sample_billing) = Some sub' \<and>
     sb_status sub' = SUB_CANCELLED"
proof -
  have "sb_tenant sample_sub \<in> fst ` set (bl_plans sample_billing)" "sb_attempts sample_sub = 0" "\<not> be_enqueue_fails sample_provider"
    by (simp_all add: sample_sub_def sample_billing_def empty_subscription_def sample_provider_def)
  then show ?thesis
    using dunning_gives_up [OF sample_ok sample_find, of sample_provider "[0, days 1, days 4]"] by auto
qed

section \<open>Charges\<close>

lemma half_up_near: "\<bar>of_int (half_up x) - x\<bar> \<le> 1 / 2"
proof -
  have "\<bar>of_int \<lfloor>y + 1 / 2\<rfloor> - y\<bar> \<le> 1 / 2" for y :: rat
    using floor_correct [of "y + 1 / 2"] by (intro abs_leI) linarith+
  note near = this [of x] this [of "- x"]
  show ?thesis
  proof (cases "x < 0")
    case True
    then have "half_up x = - \<lfloor>- x + 1 / 2\<rfloor>" by (simp add: half_up_def)
    then show ?thesis using near(2) by (simp only: of_int_minus abs_le_iff) linarith
  qed (use near(1) in \<open>simp add: half_up_def\<close>)
qed

lemma half_up_int [simp]: "half_up (of_int n) = n"
  by (simp add: half_up_def floor_unique)

definition whole_cents :: "usd \<Rightarrow> bool" where
  "whole_cents p = (0 \<le> p \<and> (\<exists>n. p = of_int n / 100))"

lemma usd_amount_cents: "usd_amount a = Inr p \<Longrightarrow> whole_cents p"
proof -
  assume a: "usd_amount a = Inr p"
  then have "0 \<le> a" "p = of_int (half_up (a * 100)) / 100" by (auto simp: usd_amount_def split: if_splits)
  moreover have "0 \<le> half_up (a * 100)" using \<open>0 \<le> a\<close> by (simp add: half_up_def)
  ultimately show ?thesis by (auto simp: whole_cents_def)
qed

lemma price_cents: "resolve_usd_price E t c = Inr p \<Longrightarrow> whole_cents p"
  by (auto simp: resolve_usd_price_def and_then_def to_decimal_usd_def intro: usd_amount_cents
      split: sum.splits option.splits if_splits)

lemma cents_exact: "whole_cents p \<Longrightarrow> of_int (usd_to_subunit_cents p) = p * 100"
  by (auto simp: whole_cents_def usd_to_subunit_cents_def)

definition fair_charge :: "billing_env \<Rightarrow> subscription \<Rightarrow> charge \<Rightarrow> bool" where
  \<comment> \<open>the charge is on the subscriber's own authorization, for the price of the plan and cycle: exact in dollars, and in naira
     the price at the exchange rate to half a kobo\<close>
  "fair_charge E sub c =
     (ch_tenant c = sb_tenant sub \<and> ch_auth c = be_decrypt E (opt_str (sb_auth sub)) \<and> ch_plan c = sb_tier sub \<and>
      ch_cycle c \<in> {''monthly'', ''annual''} \<and>
      (\<exists>tier price. tier_of_value (sb_tier sub) = Some tier \<and> resolve_usd_price E tier (ch_cycle c) = Inr price \<and> 0 \<le> price \<and>
         (ch_currency c = ''USD'' \<and> ch_rate c = 1 \<and> of_int (ch_amount c) = price * 100 \<or>
          ch_currency c = ''NGN'' \<and> be_ngn_rate E = Inr (ch_rate c) \<and> \<bar>of_int (ch_amount c) - price * ch_rate c * 100\<bar> \<le> 1 / 2)))"

lemma renewal_cycle_known: "renewal_cycle c \<in> {''monthly'', ''annual''}"
  by (auto simp: renewal_cycle_def normalize_billing_cycle_def Let_def)

lemma renewal_terms_fair:
  assumes "renewal_terms E raw price = Inr (cur, amount, rate, fx)" "whole_cents price"
  shows "cur = ''USD'' \<and> rate = 1 \<and> of_int amount = price * 100 \<or>
    cur = ''NGN'' \<and> be_ngn_rate E = Inr rate \<and> \<bar>of_int amount - price * rate * 100\<bar> \<le> 1 / 2"
  using assms half_up_near [of "price * rate * 100"] cents_exact [OF assms(2)]
  by (auto simp: renewal_terms_def Let_def and_then_def convert_usd_to_ngn_subunits_def split: if_splits sum.splits)

lemma charge_sent:
  assumes "charge_renewal E now ref sub = (r, sub', sent)" "sent \<noteq> []"
  obtains c tier price where "sent = [c]" "(r, sub') = send_charge E now c sub" "tier_of_value (sb_tier sub) = Some tier"
    "resolve_usd_price E tier (renewal_cycle (sb_cycle sub)) = Inr price"
    "renewal_terms E (sb_currency sub) price = Inr (ch_currency c, ch_amount c, ch_rate c, ch_fx c)"
    "ch_cycle c = renewal_cycle (sb_cycle sub)" "ch_tenant c = sb_tenant sub" "ch_plan c = sb_tier sub"
    "ch_auth c = be_decrypt E (opt_str (sb_auth sub))"
    "ch_reference c = (if opt_str ref = [] then renewal_reference (be_sha E) sub else opt_str ref)"
    "sb_reference sub \<noteq> Some (ch_reference c)"
proof -
  have auth: "opt_str (sb_auth sub) \<noteq> []" "be_decrypt E (opt_str (sb_auth sub)) \<noteq> []"
    using assms by (auto simp: charge_renewal_def Let_def)
  obtain tier where tier: "tier_of_value (sb_tier sub) = Some tier"
    using assms auth by (cases "tier_of_value (sb_tier sub)") (auto simp: charge_renewal_def Let_def)
  obtain price where price: "resolve_usd_price E tier (renewal_cycle (sb_cycle sub)) = Inr price"
    using assms auth tier by (cases "resolve_usd_price E tier (renewal_cycle (sb_cycle sub))") (auto simp: charge_renewal_def Let_def)
  obtain cur amount rate fx where terms: "renewal_terms E (sb_currency sub) price = Inr (cur, amount, rate, fx)"
    using assms auth tier price
    by (cases "renewal_terms E (sb_currency sub) price") (auto simp: charge_renewal_def Let_def)
  let ?ref = "if opt_str ref = [] then renewal_reference (be_sha E) sub else opt_str ref"
  have new: "sb_reference sub \<noteq> Some ?ref"
    using assms auth tier price terms by (auto simp: charge_renewal_def Let_def)
  obtain email where email: "be_contact E (sb_tenant sub) = Some email"
    using assms auth tier price terms new
    by (cases "be_contact E (sb_tenant sub)") (auto simp: charge_renewal_def Let_def split: if_splits)
  let ?c = "\<lparr>ch_tenant = sb_tenant sub, ch_email = email, ch_amount = amount, ch_auth = be_decrypt E (opt_str (sb_auth sub)),
      ch_plan = sb_tier sub, ch_cycle = renewal_cycle (sb_cycle sub), ch_currency = cur, ch_rate = rate, ch_fx = fx,
      ch_reference = ?ref\<rparr>"
  have "sent = [?c] \<and> (r, sub') = send_charge E now ?c sub"
    using assms auth tier price terms new email
    by (auto simp: charge_renewal_def Let_def split: if_splits prod.splits)
  then show ?thesis using tier price terms new by (intro that [of ?c tier price]) auto
qed

lemma charge_unsent:
  assumes "charge_renewal E now ref sub = (r, sub', [])"
  shows "sub' = sub \<and> (r = Inr True \<longrightarrow>
     sb_reference sub = Some (if opt_str ref = [] then renewal_reference (be_sha E) sub else opt_str ref))"
  using assms by (auto simp: charge_renewal_def Let_def split: if_splits option.splits sum.splits prod.splits)

lemma send_true:
  assumes "send_charge E now c sub = (Inr True, sub')"
  obtains d where "dget d ''status'' = PStr ''success''" "settle_charge E now c d sub = (Inr True, sub')"
    "\<exists>resp. be_charge E c = Inr resp \<and> dget resp ''data'' = PDict d"
  using assms by (auto simp: send_charge_def renewal_failed_def split: sum.splits if_splits pyval.splits)

lemma send_false: "send_charge E now c sub = (Inr False, sub') \<Longrightarrow> sub' = sub"
  by (auto simp: send_charge_def settle_charge_def renewal_failed_def Let_def split: sum.splits if_splits pyval.splits)

lemma settle_true:
  assumes "settle_charge E now c d sub = (Inr True, sub')"
  shows "sb_amount sub' = Some (ch_amount c)" "sb_currency sub' = ch_currency c" "sb_fx_rate sub' = Some (ch_rate c)"
    "sb_charged_at sub' = Some now"
    "sb_reference sub' = Some (if truthy (dget d ''reference'') then py_str (dget d ''reference'') else ch_reference c)"
    "sb_next_payment sub' = Some (resolve_renewal_next_payment_date E now sub d)"
  using assms by (auto simp: settle_charge_def Let_def renewal_failed_def split: sum.splits)

text \<open>C20: A renewal sends the provider at most one charge. It is never under the reference of the last charge; it is on the
  subscriber's own authorization and for the price of the plan, exact in dollars and to half a kobo in naira. After a
  success the row says what was charged, or nothing was sent because the last charge had the reference already; without
  success nothing of the row changes except on an error.\<close>

theorem charge_is_for_the_price:
  assumes r: "charge_renewal E now ref sub = (r, sub', sent)"
  shows "length sent \<le> 1 \<and> (\<forall>c\<in>set sent. fair_charge E sub c \<and> sb_reference sub \<noteq> Some (ch_reference c)) \<and>
     (case r of
        Inl _ \<Rightarrow> True
      | Inr False \<Rightarrow> sub' = sub
      | Inr True \<Rightarrow>
          (if sent = []
           then sub' = sub \<and> sb_reference sub = Some (if opt_str ref = [] then renewal_reference (be_sha E) sub else opt_str ref)
           else sb_amount sub' = Some (ch_amount (hd sent)) \<and> sb_currency sub' = ch_currency (hd sent) \<and>
                sb_fx_rate sub' = Some (ch_rate (hd sent)) \<and> sb_charged_at sub' = Some now))"
proof (cases "sent = []")
  case True
  then show ?thesis using charge_unsent [of E now ref sub r sub'] r by (auto split: sum.split bool.split)
next
  case False
  obtain c tier price where c: "sent = [c]" "(r, sub') = send_charge E now c sub" "tier_of_value (sb_tier sub) = Some tier"
    "resolve_usd_price E tier (renewal_cycle (sb_cycle sub)) = Inr price"
    "renewal_terms E (sb_currency sub) price = Inr (ch_currency c, ch_amount c, ch_rate c, ch_fx c)"
    "ch_cycle c = renewal_cycle (sb_cycle sub)" "ch_tenant c = sb_tenant sub" "ch_plan c = sb_tier sub"
    "ch_auth c = be_decrypt E (opt_str (sb_auth sub))" "sb_reference sub \<noteq> Some (ch_reference c)"
    by (rule charge_sent [OF r False])
  have cents: "whole_cents price" by (rule price_cents [OF c(4)])
  have fair: "fair_charge E sub c"
    unfolding fair_charge_def
    using c renewal_terms_fair [OF c(5) cents] renewal_cycle_known [of "sb_cycle sub"] cents by (auto simp: whole_cents_def)
  have "sb_amount sub' = Some (ch_amount c) \<and> sb_currency sub' = ch_currency c \<and> sb_fx_rate sub' = Some (ch_rate c) \<and>
      sb_charged_at sub' = Some now" if "r = Inr True"
    using c(2) that by (metis send_true settle_true(1-4))
  moreover have "sub' = sub" if "r = Inr False" using c(2) that send_false by metis
  ultimately show ?thesis using c fair by (auto split: sum.split bool.split)
qed

lemma sample_fields:
  "be_decrypt sample_provider s = s" "be_contact sample_provider t = Some ''owner''" "sb_auth sample_sub = Some ''AUTH''"
  "sb_tier sample_sub = ''pro''" "sb_cycle sample_sub = ''monthly''" "sb_currency sample_sub = ''USD''"
  "sb_reference sample_sub = None" "tier_of_value ''pro'' = Some PRO"
  using tier_of_value_value [of PRO] by (simp_all add: sample_provider_def sample_sub_def empty_subscription_def)

lemma sample_price:
  "resolve_usd_price sample_provider PRO ''monthly'' = Inr 299" "renewal_cycle ''monthly'' = ''monthly''"
  "renewal_terms sample_provider ''USD'' 299 = Inr (''USD'', 29900, 1, ''native_usd'')"
  by code_simp+

theorem charge_is_for_the_price_witness:
  "\<exists>c. snd (snd (charge_renewal sample_provider 0 None sample_sub)) = [c] \<and> ch_amount c = 29900 \<and> fair_charge sample_provider sample_sub c"
proof -
  obtain r sub' sent where r: "charge_renewal sample_provider 0 None sample_sub = (r, sub', sent)" by (rule prod_cases3)
  have "\<exists>c. sent = [c] \<and> ch_amount c = 29900"
    using r by (auto simp: charge_renewal_def Let_def sample_fields sample_price opt_str_def split: prod.splits)
  then show ?thesis using charge_is_for_the_price [OF r] r by auto
qed

definition accepted :: "billing_env \<Rightarrow> charge \<Rightarrow> pydict option" where
  \<comment> \<open>the provider's answer to a charge that it has made: status, and the data of a success\<close>
  "accepted E c =
     (case be_charge E c of
        Inl _ \<Rightarrow> None
      | Inr response \<Rightarrow>
          (case dget response ''data'' of
             PDict d \<Rightarrow> if truthy (dget response ''status'') \<and> dget d ''status'' = PStr ''success'' then Some d else None
           | _ \<Rightarrow> None))"

definition echoes :: "charge \<Rightarrow> pydict \<Rightarrow> bool" where
  \<comment> \<open>the answer repeats the reference and the metadata of the request, or leaves them out\<close>
  "echoes c d =
     (dget d ''reference'' \<in> {PNone, PStr (ch_reference c)} \<and>
      (case dget d ''metadata'' of PDict m \<Rightarrow> dget m ''billing_cycle'' \<in> {PNone, PStr (ch_cycle c)} | _ \<Rightarrow> True))"

lemma accepted_settles:
  assumes "accepted E c = Some d" "echoes c d" "ch_cycle c \<in> {''monthly'', ''annual''}" "ch_reference c \<noteq> []"
  obtains sub' where "send_charge E now c sub = (Inr True, sub')" "sb_reference sub' = Some (ch_reference c)"
proof -
  obtain resp where resp: "be_charge E c = Inr resp" "dget resp ''data'' = PDict d" "truthy (dget resp ''status'')"
      "dget d ''status'' = PStr ''success''"
    using assms(1) by (auto simp: accepted_def split: sum.splits pyval.splits if_splits)
  then have "has_key resp ''data''" by (cases "map_of resp ''data''") (auto simp: has_key_def dget_def)
  then have send: "send_charge E now c sub = settle_charge E now c d sub" using resp by (simp add: send_charge_def)
  have normal: "normalize_billing_cycle ''monthly'' = Inr ''monthly''" "normalize_billing_cycle ''annual'' = Inr ''annual''"
    by code_simp+
  have "\<exists>cycle. charged_cycle (ch_cycle c) d (sb_cycle sub) = Inr cycle"
  proof (cases "has_key d ''metadata'' \<and> (\<exists>m. dget d ''metadata'' = PDict m)")
    case True
    then obtain m where m: "has_key d ''metadata''" "dget d ''metadata'' = PDict m" by blast
    then consider "dget m ''billing_cycle'' = PNone" | "dget m ''billing_cycle'' = PStr (ch_cycle c)"
      using assms(2) by (auto simp: echoes_def)
    then show ?thesis using m assms(3) normal by cases (auto simp: charged_cycle_def py_str_def truthy_def)
  next
    case False
    then show ?thesis
      by (cases "dget d ''metadata''") (auto simp: charged_cycle_def dget_def truthy_def)
  qed
  moreover have "(if truthy (dget d ''reference'') then py_str (dget d ''reference'') else ch_reference c) = ch_reference c"
    using assms(2) by (auto simp: echoes_def truthy_def py_str_def)
  ultimately show ?thesis using that by (auto simp: send settle_charge_def Let_def)
qed

lemma charged_once:
  assumes "sb_reference sub = Some ref" "ref \<noteq> []"
  shows "snd (charge_renewal E now (Some ref) sub) = (sub, [])"
proof -
  obtain r sub1 sent where r: "charge_renewal E now (Some ref) sub = (r, sub1, sent)" by (rule prod_cases3)
  have "sent = []"
  proof (rule ccontr)
    assume "sent \<noteq> []"
    from r this show False by (rule charge_sent) (use assms in \<open>simp add: opt_str_def\<close>)
  qed
  then show ?thesis using r charge_unsent [of E now "Some ref" sub r sub1] by simp
qed

lemma accepted_charge:
  assumes r: "charge_renewal E now (Some ref) sub = (r, sub', sent)" and ref: "ref \<noteq> []"
    and c: "c \<in> set sent" "accepted E c = Some d" "echoes c d"
  shows "r = Inr True \<and> sb_reference sub' = Some ref"
proof -
  have "sent \<noteq> []" using c(1) by auto
  from r this show ?thesis
  proof (rule charge_sent)
    fix x assume x: "sent = [x]" "(r, sub') = send_charge E now x sub" "ch_cycle x = renewal_cycle (sb_cycle sub)"
      "ch_reference x = (if opt_str (Some ref) = [] then renewal_reference (be_sha E) sub else opt_str (Some ref))"
    have "c = x" using x(1) c(1) by simp
    have cycle: "ch_cycle c \<in> {''monthly'', ''annual''}" using x(3) renewal_cycle_known [of "sb_cycle sub"] \<open>c = x\<close> by simp
    have "ch_reference c = ref" using x(4) ref \<open>c = x\<close> by (simp add: opt_str_def)
    then have "ch_reference c \<noteq> []" using ref by simp
    obtain s where "send_charge E now c sub = (Inr True, s)" "sb_reference s = Some (ch_reference c)"
      by (rule accepted_settles [OF c(2,3) cycle \<open>ch_reference c \<noteq> []\<close>])
    then show ?thesis using x(2) \<open>c = x\<close> \<open>ch_reference c = ref\<close> by simp
  qed
qed

text \<open>C21: A charge that the provider has accepted, with an answer that repeats the reference and the billing cycle it was given
  or leaves them out, makes the renewal succeed and is not sent again under its reference, whatever the
  provider, the rates and the clock are by then: the row stays as the charge left it.\<close>

theorem charge_not_repeated:
  assumes r: "charge_renewal E now (Some ref) sub = (r, sub', sent)" and ref: "ref \<noteq> []"
    and c: "c \<in> set sent" "accepted E c = Some d" "echoes c d"
  shows "r = Inr True \<and> sb_reference sub' = Some ref \<and> snd (charge_renewal E' later (Some ref) sub') = (sub', [])"
  using accepted_charge [OF r ref c] charged_once [OF _ ref, of sub' E' later] by blast

text \<open>On the database: a renewal job whose charge was accepted succeeds and is not charged for again by any job with its
  subscription and reference.\<close>

lemma renewal_job_charges_once:
  assumes ok: "billing_ok B" and run: "recurring_execute E now j B = (h, B', sent)" and ref: "payload_reference j = Some ref" "ref \<noteq> []"
    and c: "c \<in> set sent" "accepted E c = Some d" "echoes c d" and j': "jb_payload j' = jb_payload j"
  shows "(\<exists>v. h = Returned v) \<and> snd (snd (recurring_execute E' later j' B')) = []"
proof -
  obtain i where i: "payload_subscription ''recurring_billing'' j = Inr i"
    using run c(1) by (cases "payload_subscription ''recurring_billing'' j") (auto simp: recurring_execute_def)
  obtain sub where sub: "find_sub (\<lambda>r. sb_id r = i \<and> Some (sb_tenant r) = jb_tenant j) B = Some sub" "sb_status sub = SUB_ACTIVE"
    using run c(1) i by (auto simp: recurring_execute_def split: option.splits if_splits)
  obtain r sub1 sent1 where r: "charge_renewal E now (Some ref) sub = (r, sub1, sent1)" by (rule prod_cases3)
  have sent: "sent1 = sent" "B' = save_sub sub1 B" using run i sub r ref(1) by (simp_all add: recurring_execute_def)
  have "c \<in> set sent1" using sent(1) c(1) by simp
  from accepted_charge [OF r ref(2) this c(2,3)] have paid: "r = Inr True" "sb_reference sub1 = Some ref" by simp_all
  have mem: "sub \<in> set (bl_subs B)" "sb_id sub = i" "sub_ok sub" using find_sub_in [OF sub(1)] ok by (auto simp: billing_ok_def)
  note row = charge_row [OF r]
  have "serves (sb_tenant sub) B B'" unfolding sent(2) by (rule save_sub_serves [OF ok mem(1)]) (use row mem in simp_all)
  then have ok': "billing_ok B'" by (rule serves_ok)
  have mem': "sub1 \<in> set (bl_subs B')" unfolding sent(2) by (rule saved_in [OF mem(1)]) (use row in simp)
  have same: "s = sub1" if "find_sub P B' = Some s" "\<And>x. P x \<Longrightarrow> sb_id x = i" for P s
    using sub_unique [OF ok' _ mem'] find_sub_in [OF that(1)] that(2) row mem(2) by simp
  have payload: "payload_subscription ''recurring_billing'' j' = Inr i" "payload_reference j' = Some ref"
    using i ref(1) j' by (simp_all add: payload_subscription_def payload_reference_def payload_of_def)
  have again: "snd (snd (charge_renewal E' later (Some ref) sub1)) = []" using charged_once [OF paid(2) ref(2), of E' later] by simp
  have "snd (snd (recurring_execute E' later j' B')) = []"
  proof (cases "find_sub (\<lambda>r. sb_id r = i \<and> Some (sb_tenant r) = jb_tenant j') B'")
    case (Some s)
    then have "s = sub1" by (rule same) simp
    then show ?thesis
      using Some payload again by (cases "charge_renewal E' later (Some ref) sub1") (simp add: recurring_execute_def)
  qed (simp add: recurring_execute_def payload)
  moreover have "\<exists>v. h = Returned v" using run i sub r ref(1) paid(1) by (auto simp: recurring_execute_def)
  ultimately show ?thesis by blast
qed

section \<open>The queue of billing work\<close>

lemma dedup_once:
  assumes "queue_ok q" "x \<in> set (jobs q)" "y \<in> set (jobs q)" "jb_dedup x = Some k" "jb_dedup y = Some k"
  shows "x = y"
proof -
  have "distinct (List.map_filter jb_dedup js) \<Longrightarrow> x \<in> set js \<Longrightarrow> y \<in> set js \<Longrightarrow> x = y" for js
  proof (induction js)
    case (Cons j js)
    have "k \<in> set (List.map_filter jb_dedup js)" if "x \<in> set js \<or> y \<in> set js"
      using that assms(4,5) by (auto simp: map_filter_def image_iff)
    then show ?case using Cons assms(4,5) by (auto simp: map_filter_simps split: option.splits)
  qed simp
  from this [of "jobs q"] show ?thesis using assms(1-3) by (simp add: queue_ok_def dedup_keys_def)
qed

lemma once:
  assumes "queue_ok q" "j \<in> set (jobs q)" "jb_dedup j = Some k"
  shows "\<exists>!j. j \<in> set (jobs q) \<and> jb_dedup j = Some k"
  using assms(2,3) by (intro ex1I [of _ j]) (auto intro: dedup_once [OF assms(1)])

lemma first_dedup:
  assumes "queue_ok q" "j \<in> set (jobs q)" "jb_dedup j = Some k"
  shows "first_match (\<lambda>j. jb_dedup j = Some k) (jobs q) = Some j"
proof -
  obtain x where x: "first_match (\<lambda>j. jb_dedup j = Some k) (jobs q) = Some x"
    using assms by (cases "first_match (\<lambda>j. jb_dedup j = Some k) (jobs q)") (auto simp: first_match_None)
  then show ?thesis using dedup_once [OF assms(1) _ assms(2) _ assms(3)] first_match_SomeD by fastforce
qed

lemma stored_again:
  assumes "queue_ok q" "j \<in> set (jobs q)" "jb_dedup j = Some (webhook_key sha provider ev payload ref)" "jb_status j = PENDING_JOB"
    "plain_json (PDict payload)"
  shows "store_webhook sha ttl setting later provider ev payload ref sig raw q = (Inr None, q)"
proof -
  have "webhook_key sha provider ev payload ref \<noteq> []" by (simp add: webhook_key_def)
  then show ?thesis using first_dedup [OF assms(1-3)] assms(4,5) by (simp add: store_webhook_def enqueue_job_def redelivery_def)
qed

text \<open>C24: However often a webhook is delivered, the queue holds one job for it. A delivery of a new one adds a pending job; one
  of a stored webhook changes at most that job: nothing while it waits, runs in time, or was completed within the time to
  live, else it waits again. So a second delivery before the job is taken changes nothing.\<close>

theorem webhook_stored_once:
  assumes ok: "queue_ok q" and json: "plain_json (PDict payload)"
    and r: "store_webhook sha ttl setting now provider ev payload ref sig raw q = (r, q')"
    and key: "key = webhook_key sha provider ev payload ref"
  shows "(\<exists>!j. j \<in> set (jobs q') \<and> jb_dedup j = Some key) \<and>
     (if key \<in> set (dedup_keys q)
      then \<exists>j\<in>set (jobs q). jb_dedup j = Some key \<and>
        (case redelivery ttl setting now j of
           None \<Rightarrow> r = Inr None \<and> q' = q
         | Some (why, reset) \<Rightarrow> r = Inr (Some (requeued_job now why reset j)) \<and> q' = save_job (requeued_job now why reset j) q)
      else \<exists>j. r = Inr (Some j) \<and> jobs q' = jobs q @ [j] \<and> jb_status j = PENDING_JOB \<and> jb_scheduled j = now \<and> jb_max j = 5) \<and>
     (r \<noteq> Inr None \<longrightarrow>
        store_webhook sha ttl setting later provider ev payload ref sig' raw' q' = (Inr None, q'))"
proof -
  have keyne: "Some key \<noteq> Some []" by (simp add: key webhook_key_def)
  obtain e q1 where e: "enqueue_job ''webhook_retry'' None (Some (webhook_payload sha provider ev payload ref sig raw)) None 5
      (Some key) now q = (e, q1)" by (meson surj_pair)
  have ok': "queue_ok q'" using store_queue [OF ok r] by simp
  show ?thesis
    using e keyne
  proof (cases rule: enqueue_cases)
    case (created j)
    have new: "key \<notin> set (dedup_keys q)" "r = Inr (Some j)" "jobs q' = jobs q @ [j]"
      using created r json e by (auto simp: store_webhook_def key [symmetric])
    have "jb_status j = PENDING_JOB \<and> jb_scheduled j = now \<and> jb_max j = 5 \<and> jb_dedup j = Some key"
      using created(2) by (simp add: new_job_def given_def)
    then show ?thesis using new once [OF ok', of j key] stored_again [OF ok', of j] json by (simp add: key)
  next
    case (found j k)
    have k: "k = key" "key \<in> set (dedup_keys q)" using found by (auto simp: dedup_key_iff)
    show ?thesis
    proof (cases "redelivery ttl setting now j")
      case None
      then have "r = Inr None \<and> q' = q" using found r json e by (simp add: store_webhook_def key [symmetric])
      then show ?thesis using None found k once [OF ok, of j key] by (auto intro!: bexI [of _ j])
    next
      case (Some x)
      obtain why reset where x: "x = (why, reset)" by (cases x)
      let ?j = "requeued_job now why reset j"
      have q': "r = Inr (Some ?j) \<and> q' = save_job ?j q"
        using Some found r json e x by (simp add: store_webhook_def Let_def key [symmetric])
      have j: "?j \<in> set (jobs q')" "jb_dedup ?j = Some key" "jb_status ?j = PENDING_JOB"
        using found k q' by (auto simp: save_job_def in_update_rows requeued_job_def intro!: bexI [of _ j])
      have "store_webhook sha ttl setting later provider ev payload ref sig' raw' q' = (Inr None, q')"
        using stored_again [OF ok' j(1) _ j(3) json] j(2) key by simp
      then show ?thesis using Some found(3,5) k q' x once [OF ok' j(1,2)] by (simp, intro bexI [of _ j]) simp_all
    qed
  qed
qed

theorem charge_not_repeated_witness:
  "\<exists>c. snd (snd (charge_renewal sample_provider 0 (Some ''R'') sample_sub)) = [c] \<and> ch_reference c = ''R'' \<and>
     snd (snd (charge_renewal sample_provider 5 (Some ''R'') (fst (snd (charge_renewal sample_provider 0 (Some ''R'') sample_sub))))) = []"
proof -
  obtain r sub' sent where r: "charge_renewal sample_provider 0 (Some ''R'') sample_sub = (r, sub', sent)" by (rule prod_cases3)
  obtain c where c: "sent = [c]" "ch_reference c = ''R''"
    using r by (auto simp: charge_renewal_def Let_def sample_fields sample_price opt_str_def split: prod.splits)
  have "accepted sample_provider c = Some [(''status'', PStr ''success'')]"
    by (simp add: accepted_def sample_provider_def dget_def truthy_def)
  moreover have "echoes c [(''status'', PStr ''success'')]" by (simp add: echoes_def dget_def)
  ultimately show ?thesis using charge_not_repeated [OF r, of c] r c by simp
qed

theorem webhook_stored_once_witness:
  "\<exists>!j. j \<in> set (jobs (snd (store_webhook (\<lambda>s. s) 24 None 0 ''paystack'' ''charge.success'' [] (Some ''R'') PNone PNone
     \<lparr>jobs = [], jobs_next = 0\<rparr>))) \<and> jb_dedup j = Some (webhook_key (\<lambda>s. s) ''paystack'' ''charge.success'' [] (Some ''R''))"
  using webhook_stored_once [OF _ _ prod.collapse [symmetric] refl, where q = "\<lparr>jobs = [], jobs_next = 0\<rparr>" and payload = "[]"
      and sha = "\<lambda>s. s" and ttl = 24 and setting = None and now = 0 and provider = "''paystack''" and ev = "''charge.success''"
      and ref = "Some ''R''" and sig = PNone and raw = PNone]
  by (simp add: queue_ok_def dedup_keys_def map_filter_simps)

text \<open>The daily sweep queues every active subscription that is due and can be charged, once: after it each has exactly
  one renewal job for the day, and a second sweep on the same day over the same due subscriptions changes nothing.\<close>

theorem sweep_queues_each_once:
  assumes "billing_ok B" "date_of later = date_of now"
    "filter (due_for_renewal later) (bl_subs B) = filter (due_for_renewal now) (bl_subs B)"
  shows "(\<forall>sub\<in>set (bl_subs B). due_for_renewal now sub \<longrightarrow>
      (\<exists>!j. j \<in> set (jobs (bl_queue (billing_sweep sha now B))) \<and> jb_dedup j = Some (sweep_key now sub))) \<and>
    billing_sweep sha later (billing_sweep sha now B) = billing_sweep sha now B"
proof -
  let ?due = "filter (due_for_renewal now) (bl_subs B)"
  let ?q = "fold (enqueue_renewal sha now) ?due (bl_queue B)"
  have ok: "queue_ok (bl_queue B)" using assms(1) by (simp add: billing_ok_def)
  have added: "\<forall>sub\<in>set subs. sweep_key now sub \<in> set (dedup_keys (fold (enqueue_renewal sha now) subs q))" for subs q
  proof (induction subs arbitrary: q rule: rev_induct)
    case (snoc sub subs)
    let ?p = "fold (enqueue_renewal sha now) subs q"
    obtain r p' where r: "enqueue_job ''recurring_billing'' (Some (sb_tenant sub)) (Some (sweep_payload sha now sub)) (Some now) 3
            (Some (sweep_key now sub)) now ?p = (r, p')" by (meson surj_pair)
    have ne: "Some (sweep_key now sub) \<noteq> Some []" by (simp add: sweep_key_def)
    from r ne have "set (dedup_keys ?p) \<subseteq> set (dedup_keys p') \<and> sweep_key now sub \<in> set (dedup_keys p')"
      by (cases rule: enqueue_cases) (auto simp: dedup_key_iff)
    moreover have "enqueue_renewal sha now sub ?p = p'" using r by (simp add: enqueue_renewal_def)
    ultimately show ?case using snoc [of q] by auto
  qed simp
  have same: "enqueue_renewal sha later sub q = q" if "sweep_key now sub \<in> set (dedup_keys q)" for sub q
  proof -
    have key: "sweep_key later sub = sweep_key now sub" using assms(2) by (simp add: sweep_key_def)
    note present = that
    obtain j where "first_match (\<lambda>j. jb_dedup j = Some (sweep_key now sub)) (jobs q) = Some j"
      using present by (cases "first_match (\<lambda>j. jb_dedup j = Some (sweep_key now sub)) (jobs q)")
        (auto simp: first_match_None dedup_key_iff)
    moreover have "sweep_key now sub \<noteq> []" by (simp add: sweep_key_def)
    ultimately show ?thesis by (simp add: enqueue_renewal_def enqueue_job_def key)
  qed
  have "fold (enqueue_renewal sha later) subs ?q = ?q" if "set subs \<subseteq> set ?due" for subs
    using that added [of ?due "bl_queue B"] same by (induction subs) auto
  then have "billing_sweep sha later (billing_sweep sha now B) = billing_sweep sha now B"
    using assms(3) by (simp add: billing_sweep_def)
  moreover have "\<exists>!j. j \<in> set (jobs ?q) \<and> jb_dedup j = Some (sweep_key now sub)"
    if "sub \<in> set (bl_subs B)" "due_for_renewal now sub" for sub
  proof -
    have "sweep_key now sub \<in> set (dedup_keys ?q)" using added [of ?due "bl_queue B"] that by simp
    then obtain j where "j \<in> set (jobs ?q)" "jb_dedup j = Some (sweep_key now sub)" by (auto simp: dedup_key_iff)
    then show ?thesis using once sweep_queue [OF ok] by blast
  qed
  ultimately show ?thesis by (simp add: billing_sweep_def)
qed

theorem sweep_queues_each_once_witness:
  "billing_sweep (\<lambda>s. s) 0 (billing_sweep (\<lambda>s. s) 0 sample_billing) = billing_sweep (\<lambda>s. s) 0 sample_billing"
  using sweep_queues_each_once [OF sample_ok refl refl] by blast

section \<open>Where the code falls short\<close>

text \<open>A retry under the reference of the last charge reactivates the subscription although nothing is charged; the
  reference of a retry is the same in every dunning cycle.\<close>

lemma stale_reference_reactivates:
  assumes ok: "billing_ok B" and sub: "find_sub (\<lambda>r. sb_id r = i) B = Some sub" and ref: "sb_reference sub = Some ref" "ref \<noteq> []"
    and pays: "charge_renewal E now (Some ref) sub = (Inr True, sub1, sent)"
  shows "sent = [] \<and> snd (snd (retry_payment E now i (Some ref) B)) = []"
proof -
  have "sent = []"
  proof (rule ccontr)
    assume "sent \<noteq> []"
    from pays this show False by (rule charge_sent) (use ref in \<open>simp add: opt_str_def\<close>)
  qed
  then show ?thesis using sub pays by (simp add: retry_payment_def Let_def split: prod.split)
qed

text \<open>A retry does not look at the status: it charges and reactivates a cancelled subscription as it would any other.\<close>

lemma charge_ignores_status:
  "charge_renewal E now ref (sub\<lparr>sb_status := s\<rparr>) =
     (case charge_renewal E now ref sub of (r, sub1, sent) \<Rightarrow> (r, sub1\<lparr>sb_status := s\<rparr>, sent))"
proof -
  have settle: "settle_charge E now c d (sub\<lparr>sb_status := s\<rparr>) = map_prod id (\<lambda>x. x\<lparr>sb_status := s\<rparr>) (settle_charge E now c d sub)" for c d
    by (simp add: settle_charge_def Let_def resolve_renewal_next_payment_date_def fetch_provider_next_payment_date_def
        compute_fallback_next_payment_date_def split: sum.split option.split)
  have send: "send_charge E now c (sub\<lparr>sb_status := s\<rparr>) = map_prod id (\<lambda>x. x\<lparr>sb_status := s\<rparr>) (send_charge E now c sub)" for c
    by (simp add: send_charge_def settle split: sum.split pyval.split)
  show ?thesis
    by (auto simp: charge_renewal_def Let_def renewal_reference_def send split: sum.split option.split prod.split)
qed

text \<open>A failed payment whose retry cannot be enqueued is lost: the webhook succeeds and nothing has changed.\<close>

lemma unqueued_failure_is_swallowed:
  assumes "find_sub (\<lambda>r. sb_id r = i) B = Some sub" "sb_attempts sub < 2" "be_enqueue_fails E" "\<not> debounced now sub"
  shows "\<exists>v. process_failed_payment E now i True B = (Inr v, B)"
  using assms by (simp add: process_failed_payment_def schedule_retry_def enqueue_retry_def Let_def)

text \<open>The end of a subscription by the provider or by its owner leaves the paid plan of the tenant in force.\<close>

lemma cancelled_keeps_plan:
  "handle_subscription_disable now d B = Inr B' \<Longrightarrow> bl_plans B' = bl_plans B"
  "bl_plans (snd (cancel_subscription E now tenant B)) = bl_plans B"
  by (auto simp: handle_subscription_disable_def cancel_subscription_def billed_then_Inr save_sub_def
      split: option.splits sum.splits)

end
