(* ===== verification/Remediation_Policy.thy ===== *)
theory Remediation_Policy
  imports Approval_Token Job_Queue
begin

text \<open>
  The policy engine of remediations (\<open>modules/governance/domain/security/remediation_policy.py\<close>) and the context it
  trusts: the profile of a connection (\<open>shared/core/connection_state.py\<close>) and the system policy context
  (\<open>modules/optimization/domain/remediation_context.py\<close>, \<open>remediation.py\<close>).
\<close>

section \<open>Data\<close>

datatype (plugins only: code size) rem_action =
    DELETE_VOLUME | DELETE_SNAPSHOT | RELEASE_ELASTIC_IP | STOP_INSTANCE | TERMINATE_INSTANCE | DELETE_S3_BUCKET
  | DELETE_ECR_IMAGE | DELETE_SAGEMAKER_ENDPOINT | DELETE_REDSHIFT_CLUSTER | DELETE_LOAD_BALANCER | STOP_RDS_INSTANCE
  | DELETE_RDS_INSTANCE | DELETE_NAT_GATEWAY | RESIZE_INSTANCE | DEALLOCATE_AZURE_VM | RESIZE_AZURE_VM
  | STOP_GCP_INSTANCE | RESIZE_GCP_INSTANCE | REVOKE_GITHUB_SEAT | RECLAIM_LICENSE_SEAT | MANUAL_REVIEW

datatype rem_status =
    REM_PENDING | REM_PENDING_APPROVAL | REM_APPROVED | REM_EXECUTING | REM_SCHEDULED | REM_COMPLETED | REM_FAILED
  | REM_REJECTED | REM_CANCELLED

record rem_request =
  rm_id :: uuid
  rm_tenant :: uuid
  rm_resource :: string
  rm_type :: string
  rm_provider :: string
  rm_connection :: "uuid option"
  rm_finding :: "uuid option"
  rm_snapshot :: "pydict option"
  rm_region :: string
  rm_action :: rem_action
  rm_status :: rem_status
  rm_savings :: "usd option"
  rm_confidence :: "usd option"
  rm_explanation :: "string option"
  rm_backup :: bool
  rm_retention :: int
  rm_backup_cost :: "usd option"
  rm_backup_id :: "string option"
  rm_requested_by :: uuid
  rm_reviewed_by :: "uuid option"
  rm_review_notes :: "string option"
  rm_error :: "string option"
  rm_scheduled :: "time option"
  rm_escalation :: bool
  rm_escalation_reason :: "string option"
  rm_escalated_at :: "time option"
  rm_executed_at :: "time option"
  rm_params :: "pydict option"
  rm_created :: time

datatype policy_verdict = POLICY_ALLOW | POLICY_WARN | POLICY_BLOCK | POLICY_ESCALATE

record policy_config =
  pc_enabled :: bool
  pc_block_production :: bool
  pc_gpu_override :: bool
  pc_threshold :: usd

definition default_policy_config :: policy_config where
  "default_policy_config = \<lparr>pc_enabled = True, pc_block_production = True, pc_gpu_override = True, pc_threshold = 9 / 10\<rparr>"

section \<open>Words and flags\<close>

definition has_marker :: "string list \<Rightarrow> string \<Rightarrow> bool" where
  "has_marker markers text = list_ex (contains text) markers"

definition is_word_char :: "char \<Rightarrow> bool" where
  \<comment> \<open>\<open>\w\<close> of a Latin-1 text\<close>
  "is_word_char c = (let n = of_char c :: nat in
     (48 \<le> n \<and> n \<le> 57) \<or> (65 \<le> n \<and> n \<le> 90) \<or> n = 95 \<or> (97 \<le> n \<and> n \<le> 122) \<or>
     n \<in> {170, 178, 179, 181, 185, 186, 188, 189, 190} \<or> (192 \<le> n \<and> n \<noteq> 215 \<and> n \<noteq> 247))"

fun words_of :: "string \<Rightarrow> string \<Rightarrow> string list" where
  \<comment> \<open>the maximal runs of word characters; \<open>w\<close> is the current one\<close>
  "words_of w [] = [w]"
| "words_of w (c # s) = (if is_word_char c then words_of (w @ [c]) s else w # words_of [] s)"

definition coerce_bool :: "pyval \<Rightarrow> bool option" where
  "coerce_bool v =
     (case v of
        PBool b \<Rightarrow> Some b
      | PInt n \<Rightarrow> if n = 1 then Some True else if n = 0 then Some False else None
      | PFloat f \<Rightarrow> if f = ''1.0'' then Some True else if f = ''0.0'' \<or> f = ''-0.0'' then Some False else None
      | PStr s \<Rightarrow>
          (let n = norm_key s in
           if n \<in> {''1'', ''true'', ''yes'', ''y'', ''on''} then Some True
           else if n \<in> {''0'', ''false'', ''no'', ''n'', ''off''} then Some False else None)
      | _ \<Rightarrow> None)"

section \<open>The rules\<close>

definition destructive_actions :: "rem_action set" where
  "destructive_actions = {DELETE_VOLUME, DELETE_SNAPSHOT, DELETE_S3_BUCKET, DELETE_ECR_IMAGE, DELETE_SAGEMAKER_ENDPOINT,
     DELETE_REDSHIFT_CLUSTER, DELETE_RDS_INSTANCE, DELETE_NAT_GATEWAY, DELETE_LOAD_BALANCER, TERMINATE_INSTANCE}"

definition gpu_actions :: "rem_action set" where
  "gpu_actions = {STOP_INSTANCE, TERMINATE_INSTANCE, RESIZE_INSTANCE, DELETE_SAGEMAKER_ENDPOINT}"

definition request_text :: "rem_request \<Rightarrow> string" where
  "request_text r = lower (rm_resource r @ '' '' @ rm_type r @ '' '' @ opt_str (rm_explanation r))"

definition trusted_context :: "rem_request \<Rightarrow> pydict" where
  "trusted_context r = as_dict (dget (case rm_params r of None \<Rightarrow> [] | Some d \<Rightarrow> d) ''_system_policy_context'')"

definition production_signal :: "rem_request \<Rightarrow> bool option" where
  "production_signal r =
     (let c = trusted_context r in
      if c = [] then None
      else case coerce_bool (dget c ''is_production'') of
        Some b \<Rightarrow> Some b
      | None \<Rightarrow>
          (case dget c ''environment'' of
             PStr s \<Rightarrow>
               (let e = norm_key s in
                if e \<in> {''prod'', ''production'', ''live''} then Some True
                else if e \<in> {''dev'', ''development'', ''staging'', ''stage'', ''test''} then Some False else None)
           | _ \<Rightarrow> None))"

definition production_markers :: "string list" where
  "production_markers = [''prod'', ''production'', ''critical'', ''pci'', ''hipaa'']"

definition looks_like_production :: "bool \<Rightarrow> rem_request \<Rightarrow> bool" where
  \<comment> \<open>\<open>override\<close>: the argument \<open>is_production\<close> of \<open>evaluate\<close>\<close>
  "looks_like_production override r =
     (override \<or> (case production_signal r of Some b \<Rightarrow> b | None \<Rightarrow> has_marker production_markers (request_text r)))"

definition is_gpu_sensitive :: "rem_request \<Rightarrow> bool" where
  "is_gpu_sensitive r = (rm_action r \<in> gpu_actions \<and> ''gpu'' \<in> set (words_of [] (request_text r)))"

definition has_gpu_override :: "rem_request \<Rightarrow> bool" where
  "has_gpu_override r = has_marker [''gpu-approved'', ''gpu_override'', ''approved_gpu''] (lower (opt_str (rm_review_notes r)))"

definition evaluate_block_rules :: "bool \<Rightarrow> policy_config \<Rightarrow> rem_request \<Rightarrow> (string \<times> string) list" where
  \<comment> \<open>rule identifier and message of a hit\<close>
  "evaluate_block_rules override cfg r =
     (if pc_block_production cfg \<and> rm_action r \<in> destructive_actions \<and> looks_like_production override r
      then [(''protect-production-destructive'',
             ''Destructive remediation blocked for production-like resource identifiers.'')] else [])"

definition evaluate_escalation_rules :: "policy_config \<Rightarrow> rem_request \<Rightarrow> (string \<times> string) list" where
  "evaluate_escalation_rules cfg r =
     (if pc_gpu_override cfg \<and> is_gpu_sensitive r \<and> \<not> has_gpu_override r
      then [(''gpu-change-requires-explicit-override'',
             ''GPU-related remediation requires explicit GPU approval override.'')] else [])"

definition evaluate_warning_rules :: "policy_config \<Rightarrow> rem_request \<Rightarrow> (string \<times> string) list" where
  "evaluate_warning_rules cfg r =
     (case rm_confidence r of
        None \<Rightarrow> []
      | Some c \<Rightarrow> if c < pc_threshold cfg
                  then [(''low-confidence-remediation'', ''Low-confidence remediation execution; review recommended.'')] else [])"

definition evaluate_policy :: "bool \<Rightarrow> policy_config \<Rightarrow> rem_request \<Rightarrow> policy_verdict \<times> (string \<times> string) list" where
  "evaluate_policy override cfg r =
     (let b = evaluate_block_rules override cfg r; e = evaluate_escalation_rules cfg r; w = evaluate_warning_rules cfg r in
      if \<not> pc_enabled cfg then (POLICY_ALLOW, [])
      else if b \<noteq> [] then (POLICY_BLOCK, b)
      else if e \<noteq> [] then (POLICY_ESCALATE, e)
      else if w \<noteq> [] then (POLICY_WARN, w)
      else (POLICY_ALLOW, []))"

definition policy_summary :: "(string \<times> string) list \<Rightarrow> string" where
  "policy_summary hits = (case hits of [] \<Rightarrow> ''No policy rules triggered.'' | h # _ \<Rightarrow> snd h)"

section \<open>The system policy context\<close>

record connection =
  cn_id :: uuid
  cn_tenant :: uuid
  cn_provider :: string
  cn_name :: "string option"
  cn_status :: "string option"
  cn_active :: "bool option"
  cn_region :: "string option"
  cn_config :: "pydict option"
  cn_is_production :: pyval
  cn_environment :: pyval
  cn_criticality :: pyval

record cloud_account =
  ca_id :: uuid
  ca_tenant :: uuid
  ca_provider :: string
  ca_production :: bool
  ca_criticality :: "string option"

definition providers :: "string list" where
  "providers = [''aws'', ''azure'', ''gcp'', ''saas'', ''license'', ''platform'', ''hybrid'']"

definition normalize_provider :: "string \<Rightarrow> string" where
  "normalize_provider s = (if norm_key s \<in> set providers then norm_key s else [])"

definition profile_value :: "pyval \<Rightarrow> connection \<Rightarrow> string \<Rightarrow> pyval" where
  "profile_value direct c k =
     (if direct \<noteq> PNone then direct else case cn_config c of None \<Rightarrow> PNone | Some d \<Rightarrow> dget d k)"

definition coerce_text :: "pyval \<Rightarrow> string option" where
  "coerce_text v = (case v of PStr s \<Rightarrow> or_none (strip s) | _ \<Rightarrow> None)"

definition coerce_criticality :: "pyval \<Rightarrow> string option" where
  "coerce_criticality v =
     (case coerce_text v of None \<Rightarrow> None
      | Some s \<Rightarrow> if lower s \<in> {''low'', ''medium'', ''high'', ''critical''} then Some (lower s) else None)"

definition infer_production :: "string option \<Rightarrow> bool option" where
  \<comment> \<open>from the name of a connection\<close>
  "infer_production name =
     (let s = norm_key (opt_str name) in
      if s = [] then None
      else if has_marker [''dev'', ''development'', ''staging'', ''stage'', ''sandbox'', ''test'', ''qa''] s then Some False
      else if has_marker production_markers s then Some True else None)"

definition environment_signal :: "pyval \<Rightarrow> bool option" where
  "environment_signal v =
     (case coerce_text v of None \<Rightarrow> None
      | Some s \<Rightarrow>
          if lower s \<in> {''prod'', ''production'', ''live''} then Some True
          else if lower s \<in> {''dev'', ''development'', ''staging'', ''stage'', ''sandbox'', ''test'', ''qa''} then Some False
          else None)"

definition resolve_connection_profile :: "connection \<Rightarrow> bool option \<times> string option \<times> string" where
  \<comment> \<open>whether it is production, its criticality, and where that is from\<close>
  "resolve_connection_profile c =
     (let crit = coerce_criticality (profile_value (cn_criticality c) c ''criticality'') in
      case coerce_bool (profile_value (cn_is_production c) c ''is_production'') of
        Some b \<Rightarrow> (Some b, crit, ''explicit_is_production'')
      | None \<Rightarrow>
      (case environment_signal (profile_value (cn_environment c) c ''environment'') of
        Some b \<Rightarrow> (Some b, crit, ''explicit_environment'')
      | None \<Rightarrow>
      (case infer_production (cn_name c) of
        Some b \<Rightarrow> (Some b, crit, ''name_inference'')
      | None \<Rightarrow> (None, crit, ''unknown''))))"

definition is_connection_active :: "connection \<Rightarrow> bool" where
  "is_connection_active c =
     (case cn_status c of Some s \<Rightarrow> norm_key s = ''active'' | None \<Rightarrow> given (cn_active c) True)"

definition resolve_connection_region :: "string \<Rightarrow> connection \<Rightarrow> string" where
  "resolve_connection_region default_region c =
     (let raw = strip (opt_str (cn_region c)) in
      if normalize_provider (cn_provider c) = ''aws''
      then (if raw = [] \<or> raw = ''global'' then or_default (strip default_region) ''us-east-1'' else raw)
      else or_default raw ''global'')"

definition account_context :: "cloud_account \<Rightarrow> pydict" where
  "account_context a =
     [(''source'', PStr ''cloud_account''), (''connection_id'', PStr (uuid_str (ca_id a))),
      (''is_production'', PBool (ca_production a)), (''criticality'', opt_val PStr (ca_criticality a))]"

definition build_system_policy_context ::
  "cloud_account list \<Rightarrow> connection list \<Rightarrow> uuid \<Rightarrow> string \<Rightarrow> uuid option \<Rightarrow> pydict" where
  "build_system_policy_context accounts connections tenant provider conn =
     (let p = normalize_provider provider in
      case conn of
        None \<Rightarrow> []
      | Some i \<Rightarrow>
          if p = [] then []
          else (let account = first_match (\<lambda>a. ca_tenant a = tenant \<and> ca_id a = i \<and> ca_provider a = p) accounts;
                    found = first_match (\<lambda>c. cn_tenant c = tenant \<and> cn_id c = i \<and> cn_provider c = p) connections
                in case (account, found) of
                     (Some a, None) \<Rightarrow> account_context a
                   | (Some a, Some c) \<Rightarrow>
                       if ca_production a \<or> opt_str (ca_criticality a) \<noteq> [] then account_context a
                       else (case resolve_connection_profile c of (is_prod, crit, src) \<Rightarrow>
                         [(''source'', PStr src), (''connection_id'', PStr (uuid_str i)),
                          (''is_production'', opt_val PBool is_prod), (''criticality'', opt_val PStr crit)])
                   | (None, Some c) \<Rightarrow>
                       (case resolve_connection_profile c of (is_prod, crit, src) \<Rightarrow>
                         [(''source'', PStr src), (''connection_id'', PStr (uuid_str i)),
                          (''is_production'', opt_val PBool is_prod), (''criticality'', opt_val PStr crit)])
                   | (None, None) \<Rightarrow> []))"

definition strip_system_policy_context :: "pydict option \<Rightarrow> pydict" where
  "strip_system_policy_context ps =
     filter (\<lambda>kv. fst kv \<noteq> ''_system_policy_context'') (case ps of None \<Rightarrow> [] | Some d \<Rightarrow> d)"

definition sanitize_action_parameters :: "pydict option \<Rightarrow> pydict \<Rightarrow> pydict option" where
  "sanitize_action_parameters ps context =
     (let safe = strip_system_policy_context ps @
            (if context = [] then [] else [(''_system_policy_context'', PDict context)])
      in if safe = [] then None else Some safe)"

section \<open>What the engine decides\<close>

lemma evaluate_cases:
  "fst (evaluate_policy override cfg r) = POLICY_BLOCK \<longleftrightarrow>
     pc_enabled cfg \<and> pc_block_production cfg \<and> rm_action r \<in> destructive_actions \<and> looks_like_production override r"
  "fst (evaluate_policy override cfg r) \<in> {POLICY_ALLOW, POLICY_WARN} \<Longrightarrow> pc_enabled cfg \<Longrightarrow> pc_gpu_override cfg \<Longrightarrow>
     is_gpu_sensitive r \<Longrightarrow> has_gpu_override r"
  by (auto simp: evaluate_policy_def Let_def evaluate_block_rules_def evaluate_escalation_rules_def split: if_splits)

lemma trusted_after_sanitize:
  "context \<noteq> [] \<Longrightarrow> trusted_context (r\<lparr>rm_params := sanitize_action_parameters ps context\<rparr>) = context"
  "trusted_context (r\<lparr>rm_params := sanitize_action_parameters ps []\<rparr>) = []"
proof -
  have strip: "map_of (filter (\<lambda>kv. fst kv \<noteq> k) d) k = None" for d :: pydict and k
    by (induction d) auto
  show "context \<noteq> [] \<Longrightarrow> trusted_context (r\<lparr>rm_params := sanitize_action_parameters ps context\<rparr>) = context"
    by (simp add: trusted_context_def sanitize_action_parameters_def strip_system_policy_context_def Let_def dget_def
        as_dict_def map_add_def strip)
  show "trusted_context (r\<lparr>rm_params := sanitize_action_parameters ps []\<rparr>) = []"
    by (simp add: trusted_context_def sanitize_action_parameters_def strip_system_policy_context_def Let_def dget_def
        as_dict_def strip split: option.split)
qed

end
