(* ===== verification/Remediation_Guards.thy ===== *)
theory Remediation_Guards
  imports Remediation_Policy Dunning
begin

text \<open>
  What an execution checks before it acts, and how it acts: the rows a remediation reads, the errors it can raise, the
  binding of a request to its finding (\<open>modules/optimization/domain/findings.py\<close>), the safety guardrails
  (\<open>shared/core/safety_service.py\<close>), regions and credentials (\<open>remediation_context.py\<close>,
  \<open>remediation_credentials.py\<close>), and the action strategies (\<open>actions/base.py\<close>, \<open>actions/factory.py\<close>).

  The month's spend, the tier of a tenant, the secrets of a connection and what a strategy does at the cloud provider are
  parameters (\<open>rem_env\<close>); an \<open>attempt\<close> tells an outcome from an error the strategies turn into a failed result
  (\<open>Fails\<close>) and from one they raise.
\<close>

section \<open>Data\<close>

primrec action_value :: "rem_action \<Rightarrow> string" where
  "action_value DELETE_VOLUME = ''delete_volume''"
| "action_value DELETE_SNAPSHOT = ''delete_snapshot''"
| "action_value RELEASE_ELASTIC_IP = ''release_elastic_ip''"
| "action_value STOP_INSTANCE = ''stop_instance''"
| "action_value TERMINATE_INSTANCE = ''terminate_instance''"
| "action_value DELETE_S3_BUCKET = ''delete_s3_bucket''"
| "action_value DELETE_ECR_IMAGE = ''delete_ecr_image''"
| "action_value DELETE_SAGEMAKER_ENDPOINT = ''delete_sagemaker_endpoint''"
| "action_value DELETE_REDSHIFT_CLUSTER = ''delete_redshift_cluster''"
| "action_value DELETE_LOAD_BALANCER = ''delete_load_balancer''"
| "action_value STOP_RDS_INSTANCE = ''stop_rds_instance''"
| "action_value DELETE_RDS_INSTANCE = ''delete_rds_instance''"
| "action_value DELETE_NAT_GATEWAY = ''delete_nat_gateway''"
| "action_value RESIZE_INSTANCE = ''resize_instance''"
| "action_value DEALLOCATE_AZURE_VM = ''deallocate_azure_vm''"
| "action_value RESIZE_AZURE_VM = ''resize_azure_vm''"
| "action_value STOP_GCP_INSTANCE = ''stop_gcp_instance''"
| "action_value RESIZE_GCP_INSTANCE = ''resize_gcp_instance''"
| "action_value REVOKE_GITHUB_SEAT = ''revoke_github_seat''"
| "action_value RECLAIM_LICENSE_SEAT = ''reclaim_license_seat''"
| "action_value MANUAL_REVIEW = ''manual_review''"

primrec rem_status_value :: "rem_status \<Rightarrow> string" where
  "rem_status_value REM_PENDING = ''pending''"
| "rem_status_value REM_PENDING_APPROVAL = ''pending_approval''"
| "rem_status_value REM_APPROVED = ''approved''"
| "rem_status_value REM_EXECUTING = ''executing''"
| "rem_status_value REM_SCHEDULED = ''scheduled''"
| "rem_status_value REM_COMPLETED = ''completed''"
| "rem_status_value REM_FAILED = ''failed''"
| "rem_status_value REM_REJECTED = ''rejected''"
| "rem_status_value REM_CANCELLED = ''cancelled''"

record finding =
  fi_id :: uuid
  fi_tenant :: uuid
  fi_open :: bool
  fi_fingerprint :: string
  fi_provider :: string
  fi_category :: string
  fi_connection :: uuid
  fi_connection_name :: "string option"
  fi_resource :: string
  fi_type :: string
  fi_region :: string
  fi_savings :: "usd option"
  fi_confidence :: "usd option"
  fi_explanation :: "string option"
  fi_manual_review :: bool
  fi_automated :: bool
  fi_gate :: "string option"
  fi_payload :: pydict
  fi_first :: time
  fi_last :: time
  fi_resolved_at :: "time option"

record rem_settings =
  rs_tenant :: uuid
  rs_hard_cap :: bool
  rs_cap :: usd
  rs_policy :: bool
  rs_block_production :: bool
  rs_gpu_override :: bool
  rs_threshold :: usd
  rs_escalation_role :: "string option"
  rs_grace_days :: int

record rem_db =
  rd_requests :: "rem_request list"
  rd_findings :: "finding list"
  rd_settings :: "rem_settings list"
  rd_accounts :: "cloud_account list"
  rd_connections :: "connection list"
  rd_queue :: job_store
  rd_next :: uuid

datatype rem_error =
    App_error string string int
  | Value_error string
  | Runtime_error string
  | Program_error string

type_synonym 'a rem = "rem_error + 'a"

primrec rem_error_text :: "rem_error \<Rightarrow> string" where
  \<comment> \<open>\<open>str(exc)\<close>\<close>
  "rem_error_text (App_error code m status) = ''['' @ code @ ''] '' @ m @ '' (Status: '' @ int_str status @ '')''"
| "rem_error_text (Value_error m) = m"
| "rem_error_text (Runtime_error m) = m"
| "rem_error_text (Program_error m) = m"

datatype 'a attempt = Yields 'a | Fails string | Raises rem_error

datatype exec_status = EXEC_SUCCESS | EXEC_FAILED | EXEC_SKIPPED

record exec_result =
  xr_status :: exec_status
  xr_error :: "string option"
  xr_backup :: "string option"

record rem_context =
  cx_tenant :: uuid
  cx_tier :: string
  cx_region :: string
  cx_credentials :: pydict
  cx_backup :: bool
  cx_retention :: int
  cx_params :: pydict

record rem_strategy =
  st_validate :: "string \<Rightarrow> rem_context \<Rightarrow> bool attempt"
  st_create_backup :: "string \<Rightarrow> rem_context \<Rightarrow> string option attempt"
  st_perform :: "string \<Rightarrow> rem_context \<Rightarrow> exec_result attempt"

datatype cloud_call = Backup_call string rem_context | Action_call rem_action string rem_context

record rem_env =
  re_kill_scope :: string
  re_kill_threshold :: string
  re_aws_region :: string
  re_bypass_on_limit :: bool
  re_spend :: "uuid \<Rightarrow> usd"
  re_tier :: "uuid \<Rightarrow> pricing_tier"
  re_secrets :: "connection \<Rightarrow> pydict"
  re_strategy :: "string \<Rightarrow> rem_action \<Rightarrow> rem_strategy"

definition rem_then :: "'a rem \<Rightarrow> ('a \<Rightarrow> 'b rem) \<Rightarrow> 'b rem" where
  "rem_then r f = (case r of Inl e \<Rightarrow> Inl e | Inr x \<Rightarrow> f x)"

lemma rem_then_simps [simp]: "rem_then (Inl e) f = Inl e" "rem_then (Inr x) f = f x"
  by (simp_all add: rem_then_def)

lemma rem_then_Inr: "rem_then r f = Inr y \<longleftrightarrow> (\<exists>x. r = Inr x \<and> f x = Inr y)"
  by (cases r) auto

section \<open>The bound finding\<close>

definition build_finding_snapshot :: "finding \<Rightarrow> pydict" where
  "build_finding_snapshot f =
     [(''finding_id'', PStr (uuid_str (fi_id f))), (''source'', PStr ''zombie_scan''),
      (''status'', PStr (if fi_open f then ''open'' else ''resolved'')), (''fingerprint'', PStr (fi_fingerprint f)),
      (''provider'', PStr (fi_provider f)), (''category'', PStr (fi_category f)),
      (''connection_id'', PStr (uuid_str (fi_connection f))), (''connection_name'', PStr (opt_str (fi_connection_name f))),
      (''resource_id'', PStr (fi_resource f)), (''resource_type'', PStr (fi_type f)),
      (''region'', PStr (or_default (fi_region f) ''global'')),
      (''estimated_monthly_savings'', opt_val (PStr \<circ> fixed_str 2) (fi_savings f)),
      (''confidence_score'', opt_val (PFloat \<circ> float_text) (fi_confidence f)),
      (''explainability_notes'', opt_val PStr (fi_explanation f)),
      (''requires_manual_review'', PBool (fi_manual_review f)), (''automated_action_allowed'', PBool (fi_automated f)),
      (''decision_gate'', opt_val PStr (fi_gate f)), (''payload'', PDict (fi_payload f)),
      (''first_detected_at'', PStr (iso_str (fi_first f))), (''last_detected_at'', PStr (iso_str (fi_last f)))]"

definition get_open_finding :: "rem_db \<Rightarrow> uuid \<Rightarrow> uuid \<Rightarrow> finding rem" where
  \<comment> \<open>every finding has the one source \<open>zombie_scan\<close>\<close>
  "get_open_finding db tenant i =
     (case first_match (\<lambda>f. fi_tenant f = tenant \<and> fi_id f = i) (rd_findings db) of
        None \<Rightarrow> Inl (App_error ''optimization_finding_not_found'' (''Finding '' @ uuid_str i @ '' not found for this tenant.'') 404)
      | Some f \<Rightarrow>
          if fi_open f then Inr f
          else Inl (App_error ''optimization_finding_resolved'' ''Finding is no longer open for remediation.'' 409))"

definition snapshot_uuid :: "pyval \<Rightarrow> uuid option" where
  "snapshot_uuid v =
     (case v of PUuid i \<Rightarrow> Some i
      | PStr s \<Rightarrow> if strip s = [] then None else uuid_of_text (strip s)
      | _ \<Rightarrow> None)"

definition normalize_region :: "pyval \<Rightarrow> string" where
  "normalize_region v = or_default (norm_key (str_or_empty v)) ''global''"

definition snapshot_matches :: "pydict \<Rightarrow> rem_request \<Rightarrow> bool" where
  "snapshot_matches d r =
     (normalize_provider (str_or_empty (dget d ''provider'')) = normalize_provider (rm_provider r) \<and>
      snapshot_uuid (dget d ''connection_id'') = rm_connection r \<and>
      normalize_region (dget d ''region'') = normalize_region (PStr (rm_region r)) \<and>
      strip (str_or_empty (dget d ''resource_id'')) = strip (rm_resource r) \<and>
      strip (str_or_empty (dget d ''resource_type'')) = strip (rm_type r))"

definition drifted :: "pydict \<Rightarrow> finding \<Rightarrow> bool" where
  "drifted d f =
     (let approved = strip (str_or_empty (dget d ''fingerprint'')) in approved \<noteq> [] \<and> approved \<noteq> fi_fingerprint f)"

definition validate_request_finding_binding :: "rem_db \<Rightarrow> uuid \<Rightarrow> rem_request \<Rightarrow> finding option rem" where
  "validate_request_finding_binding db tenant r =
     (case rm_snapshot r of
        None \<Rightarrow>
          (if rm_finding r = None then Inr None
           else Inl (App_error ''remediation_finding_snapshot_missing''
                  ''Remediation request is missing its immutable finding snapshot.'' 409))
      | Some d \<Rightarrow>
          if \<not> snapshot_matches d r
          then Inl (App_error ''remediation_finding_context_mismatch''
                 ''Remediation request no longer matches its bound finding context.'' 409)
          else case rm_finding r of
                 None \<Rightarrow> Inr None
               | Some i \<Rightarrow>
                   rem_then (get_open_finding db tenant i) (\<lambda>f.
                     if drifted d f
                     then Inl (App_error ''remediation_finding_drifted''
                            ''Remediation finding has drifted from the approved snapshot.'' 409)
                     else Inr (Some f)))"

section \<open>The safety guardrails\<close>

definition kill_switch :: "string \<Rightarrow> 'a rem" where
  "kill_switch m = Inl (App_error ''kill_switch_triggered'' m 403)"

definition kill_switch_scope :: "rem_env \<Rightarrow> string" where
  "kill_switch_scope E =
     (let s = norm_key (or_default (re_kill_scope E) ''tenant'')
      in if s \<in> {''tenant'', ''global''} then s else ''tenant'')"

definition kill_threshold :: "rem_env \<Rightarrow> usd" where
  "kill_threshold E = given (parse_decimal (re_kill_threshold E)) 0"

definition completed_today :: "time \<Rightarrow> rem_request \<Rightarrow> bool" where
  "completed_today now r =
     (rm_status r = REM_COMPLETED \<and> (case rm_executed_at r of None \<Rightarrow> False | Some t \<Rightarrow> date_of t = date_of now))"

definition impact_today :: "rem_env \<Rightarrow> time \<Rightarrow> uuid \<Rightarrow> rem_db \<Rightarrow> usd" where
  "impact_today E now tenant db =
     total (\<lambda>r. given (rm_savings r) 0)
       (filter (\<lambda>r. completed_today now r \<and> (kill_switch_scope E = ''tenant'' \<longrightarrow> rm_tenant r = tenant)) (rd_requests db))"

definition check_global_kill_switch :: "rem_env \<Rightarrow> time \<Rightarrow> uuid \<Rightarrow> usd \<Rightarrow> rem_db \<Rightarrow> unit rem" where
  "check_global_kill_switch E now tenant impact db =
     (if kill_threshold E \<le> impact_today E now tenant db + impact
      then kill_switch (''Safety kill-switch triggered. Daily cost impact limit ($'' @ re_kill_threshold E @ '') reached.'')
      else Inr ())"

definition find_settings :: "rem_db \<Rightarrow> uuid \<Rightarrow> rem_settings option" where
  "find_settings db tenant = first_match (\<lambda>s. rs_tenant s = tenant) (rd_settings db)"

definition check_monthly_hard_cap :: "rem_env \<Rightarrow> uuid \<Rightarrow> rem_db \<Rightarrow> unit rem" where
  "check_monthly_hard_cap E tenant db =
     (case find_settings db tenant of
        None \<Rightarrow> Inr ()
      | Some s \<Rightarrow>
          if rs_hard_cap s \<and> rs_cap s < re_spend E tenant
          then kill_switch (''Monthly budget hard-cap reached ($'' @ float_text (rs_cap s) @ ''). Remediation disabled.'')
          else Inr ())"

definition day_start :: "time \<Rightarrow> time" where
  "day_start now = now - now mod day_us"

definition failures_today :: "time \<Rightarrow> uuid \<Rightarrow> rem_db \<Rightarrow> nat" where
  "failures_today now tenant db =
     length (filter (\<lambda>r. rm_tenant r = tenant \<and> rm_status r = REM_FAILED \<and>
       (case rm_executed_at r of None \<Rightarrow> False | Some t \<Rightarrow> day_start now \<le> t)) (rd_requests db))"

definition check_failure_breaker :: "time \<Rightarrow> uuid \<Rightarrow> rem_db \<Rightarrow> unit rem" where
  "check_failure_breaker now tenant db =
     (if 5 \<le> failures_today now tenant db
      then kill_switch (''Remediation circuit breaker open due to '' @ int_str (int (failures_today now tenant db)) @
             '' recent failures. Reset required.'')
      else Inr ())"

definition check_all_guards :: "rem_env \<Rightarrow> time \<Rightarrow> uuid \<Rightarrow> usd \<Rightarrow> rem_db \<Rightarrow> unit rem" where
  "check_all_guards E now tenant impact db =
     rem_then (check_global_kill_switch E now tenant impact db) (\<lambda>_.
     rem_then (check_monthly_hard_cap E tenant db) (\<lambda>_. check_failure_breaker now tenant db))"

section \<open>The policy of the tenant\<close>

definition build_policy_config :: "rem_settings option \<Rightarrow> policy_config" where
  "build_policy_config settings =
     (case settings of
        None \<Rightarrow> default_policy_config
      | Some s \<Rightarrow> \<lparr>pc_enabled = rs_policy s, pc_block_production = rs_block_production s,
                   pc_gpu_override = rs_gpu_override s, pc_threshold = rs_threshold s\<rparr>)"

definition apply_system_policy_context :: "rem_db \<Rightarrow> uuid \<Rightarrow> string \<Rightarrow> rem_request \<Rightarrow> rem_request" where
  "apply_system_policy_context db tenant provider r =
     r\<lparr>rm_params := sanitize_action_parameters (rm_params r)
         (build_system_policy_context (rd_accounts db) (rd_connections db) tenant provider (rm_connection r))\<rparr>"

section \<open>Connections, regions and credentials\<close>

definition find_connection :: "rem_db \<Rightarrow> string \<Rightarrow> uuid \<Rightarrow> uuid \<Rightarrow> connection option" where
  \<comment> \<open>\<open>get_by_id\<close> on the table of the provider\<close>
  "find_connection db provider tenant i =
     first_match (\<lambda>c. cn_provider c = provider \<and> cn_tenant c = tenant \<and> cn_id c = i) (rd_connections db)"

definition invalid_provider :: "string \<Rightarrow> 'a rem" where
  "invalid_provider operation =
     Inl (App_error ''invalid_provider'' (''Invalid provider for remediation '' @ operation @ ''.'') 400)"

definition require_scoped_active_connection ::
  "rem_db \<Rightarrow> uuid \<Rightarrow> string \<Rightarrow> uuid option \<Rightarrow> string \<Rightarrow> connection rem" where
  "require_scoped_active_connection db tenant provider conn operation =
     (if normalize_provider provider = [] then invalid_provider operation
      else case conn of
        None \<Rightarrow> Inl (App_error ''remediation_connection_required''
                  (''An explicit active connection_id is required for remediation '' @ operation @ ''.'') 400)
      | Some i \<Rightarrow>
          (case find_connection db (normalize_provider provider) tenant i of
             None \<Rightarrow> Inl (App_error ''remediation_connection_not_found''
                       (''Connection '' @ uuid_str i @ '' not found for this tenant.'') 404)
           | Some c \<Rightarrow>
               if is_connection_active c then Inr c
               else Inl (App_error ''remediation_connection_inactive''
                      ''Remediation requires an active verified connection.'' 400)))"

definition no_region :: "string \<Rightarrow> bool" where
  "no_region s = (norm_key s = [] \<or> norm_key s = ''global'')"

definition default_region :: "rem_env \<Rightarrow> string" where
  "default_region E = or_default (strip (re_aws_region E)) ''us-east-1''"

definition resolve_aws_region_hint ::
  "rem_env \<Rightarrow> rem_db \<Rightarrow> string \<Rightarrow> uuid \<Rightarrow> uuid option \<Rightarrow> connection option \<Rightarrow> string rem" where
  \<comment> \<open>\<open>region\<close>: the hint of the service\<close>
  "resolve_aws_region_hint E db region tenant conn connection =
     (if \<not> no_region region then Inr (norm_key region)
      else case (case connection of None \<Rightarrow> ''global'' | Some c \<Rightarrow> resolve_connection_region (re_aws_region E) c) of
        r \<Rightarrow> if r \<noteq> ''global'' then Inr r
        else case conn of
          None \<Rightarrow> Inr (default_region E)
        | Some i \<Rightarrow>
            (case find_connection db ''aws'' tenant i of
               None \<Rightarrow> Inl (App_error ''not_found'' (''AWSConnection '' @ uuid_str i @ '' not found for this tenant.'') 404)
             | Some c \<Rightarrow>
                 (let s = resolve_connection_region (re_aws_region E) c
                  in Inr (if s \<noteq> ''global'' then s else default_region E))))"

definition resolve_connection_credentials :: "rem_env \<Rightarrow> rem_db \<Rightarrow> rem_request \<Rightarrow> pydict" where
  \<comment> \<open>a service without credentials of its own\<close>
  "resolve_connection_credentials E db r =
     (let p = normalize_provider (rm_provider r) in
      case rm_connection r of
        None \<Rightarrow> []
      | Some i \<Rightarrow>
          if p = [] then []
          else case find_connection db p (rm_tenant r) i of
                 None \<Rightarrow> []
               | Some c \<Rightarrow> if is_connection_active c then re_secrets E c else [])"

definition resolve_execution_region ::
  "rem_env \<Rightarrow> rem_db \<Rightarrow> string \<Rightarrow> string \<Rightarrow> uuid \<Rightarrow> pydict \<Rightarrow> rem_request \<Rightarrow> string rem" where
  "resolve_execution_region E db region provider tenant credentials r =
     (let r0 = or_default (rm_region r) region;
          c = strip (str_or_empty (dget credentials ''region''));
          r1 = (if no_region r0 \<and> c \<noteq> [] \<and> lower c \<noteq> ''global'' then c else r0)
      in if provider = ''aws'' \<and> no_region r1
         then resolve_aws_region_hint E db region tenant (rm_connection r) None else Inr r1)"

definition build_remediation_context ::
  "rem_env \<Rightarrow> uuid \<Rightarrow> string \<Rightarrow> pydict \<Rightarrow> rem_request \<Rightarrow> rem_context" where
  "build_remediation_context E tenant region credentials r =
     \<lparr>cx_tenant = tenant, cx_tier = tier_value (re_tier E tenant), cx_region = region, cx_credentials = credentials,
      cx_backup = rm_backup r, cx_retention = (if rm_retention r = 0 then 30 else rm_retention r),
      cx_params = strip_system_policy_context (rm_params r)\<rparr>"

section \<open>The strategies\<close>

definition registered_strategies :: "(string \<times> rem_action) list" where
  \<comment> \<open>what the decorators of \<open>actions/\<close> register\<close>
  "registered_strategies =
     [(''aws'', DELETE_S3_BUCKET), (''aws'', DELETE_ECR_IMAGE), (''aws'', DELETE_VOLUME), (''aws'', STOP_INSTANCE),
      (''aws'', TERMINATE_INSTANCE), (''aws'', RESIZE_INSTANCE), (''aws'', DELETE_SNAPSHOT), (''aws'', RELEASE_ELASTIC_IP),
      (''aws'', DELETE_NAT_GATEWAY), (''aws'', DELETE_REDSHIFT_CLUSTER), (''aws'', DELETE_SAGEMAKER_ENDPOINT),
      (''aws'', DELETE_LOAD_BALANCER), (''aws'', STOP_RDS_INSTANCE), (''aws'', DELETE_RDS_INSTANCE),
      (''azure'', DEALLOCATE_AZURE_VM), (''azure'', RESIZE_AZURE_VM), (''gcp'', STOP_GCP_INSTANCE),
      (''gcp'', RESIZE_GCP_INSTANCE), (''saas'', MANUAL_REVIEW), (''saas'', REVOKE_GITHUB_SEAT),
      (''license'', RECLAIM_LICENSE_SEAT), (''platform'', MANUAL_REVIEW), (''hybrid'', MANUAL_REVIEW)]"

definition required_feature :: "string \<Rightarrow> string" where
  "required_feature provider =
     (if provider = ''aws'' then ''auto_remediation''
      else if provider = ''azure'' \<or> provider = ''gcp'' then ''multi_cloud'' else ''cloud_plus_connectors'')"

definition no_strategy :: "string \<Rightarrow> rem_action \<Rightarrow> string" where
  "no_strategy provider act =
     (let own = sort_key id (map (\<lambda>pa. fst pa @ ''/'' @ action_value (snd pa)) (filter (\<lambda>pa. fst pa = provider) registered_strategies))
      in ''No remediation strategy registered for '' @ provider @ ''/'' @ action_value act @ ''.'' @
         (if own = [] then '' No actions registered for this provider.''
          else '' Available for provider '' @ [CHR 0x27] @ provider @ [CHR 0x27] @ '': '' @ join_commas own))"

definition get_strategy :: "rem_env \<Rightarrow> string \<Rightarrow> rem_action \<Rightarrow> rem_strategy rem" where
  "get_strategy E provider act =
     (if (provider, act) \<in> set registered_strategies then Inr (re_strategy E provider act)
      else Inl (Value_error (no_strategy provider act)))"

definition skipped :: "string \<Rightarrow> exec_result" where
  "skipped m = \<lparr>xr_status = EXEC_SKIPPED, xr_error = Some m, xr_backup = None\<rparr>"

definition went_wrong :: "string \<Rightarrow> exec_result" where
  \<comment> \<open>\<open>except REMEDIATION_ACTION_EXECUTION_RECOVERABLE_EXCEPTIONS\<close>\<close>
  "went_wrong m = \<lparr>xr_status = EXEC_FAILED, xr_error = Some m, xr_backup = None\<rparr>"

definition run_action ::
  "rem_strategy \<Rightarrow> rem_action \<Rightarrow> string \<Rightarrow> rem_context \<Rightarrow> string option \<Rightarrow> exec_result rem \<times> cloud_call list" where
  \<comment> \<open>the action itself, with the retries of its wrapper inside the strategy\<close>
  "run_action S act resource cx backup =
     (case st_perform S resource cx of
        Yields x \<Rightarrow> Inr (x\<lparr>xr_backup := backup\<rparr>)
      | Fails m \<Rightarrow> Inr (went_wrong m)
      | Raises e \<Rightarrow> Inl e, [Action_call act resource cx])"

definition run_strategy ::
  "string \<Rightarrow> rem_strategy \<Rightarrow> rem_action \<Rightarrow> string \<Rightarrow> rem_context \<Rightarrow> exec_result rem \<times> cloud_call list" where
  "run_strategy feature S act resource cx =
     (if \<not> is_feature_enabled (TierText (cx_tier cx)) feature
      then (Inr (skipped (''Feature '' @ [CHR 0x27] @ feature @ [CHR 0x27] @ '' not enabled for tier '' @
              [CHR 0x27] @ cx_tier cx @ [CHR 0x27])), [])
      else case st_validate S resource cx of
        Fails m \<Rightarrow> (Inr (went_wrong m), [])
      | Raises e \<Rightarrow> (Inl e, [])
      | Yields False \<Rightarrow> (Inr (skipped ''Validation failed''), [])
      | Yields True \<Rightarrow>
          (if \<not> cx_backup cx then run_action S act resource cx None
           else case st_create_backup S resource cx of
             Fails m \<Rightarrow> (Inr (went_wrong m), [Backup_call resource cx])
           | Raises e \<Rightarrow> (Inl e, [Backup_call resource cx])
           | Yields b \<Rightarrow>
               (case run_action S act resource cx b of (x, calls) \<Rightarrow> (x, Backup_call resource cx # calls))))"

end
