(* ===== verification/Remediation.thy ===== *)
theory Remediation
  imports Remediation_Guards
begin

text \<open>
  The life of a remediation request (\<open>modules/optimization/domain/remediation_workflow.py\<close>, \<open>remediation_execute.py\<close>,
  \<open>remediation_execute_helpers.py\<close>, \<open>remediation_hard_limit.py\<close>), the autonomous candidates
  (\<open>shared/remediation/autonomous.py\<close>) and the job that executes a request (\<open>jobs/handlers/remediation.py\<close>).

  An execution is in two parts, because it commits the status \<open>EXECUTING\<close> before it calls the cloud provider: what
  \<open>begin_execution\<close> commits, and what \<open>finish_execution\<close> writes later over the row as it is then.  Audit log,
  notifications and metrics are not modelled.  Amounts are the decimals the columns store.  Amounts are the decimals the columns store.
\<close>

section \<open>Creating requests\<close>

definition open_statuses :: "rem_status list" where
  "open_statuses = [REM_PENDING, REM_PENDING_APPROVAL, REM_APPROVED, REM_SCHEDULED, REM_EXECUTING]"

definition is_open :: "rem_request \<Rightarrow> bool" where
  "is_open r = (rm_status r \<in> set open_statuses)"

record rem_input =
  ri_resource :: string
  ri_type :: string
  ri_action :: rem_action
  ri_savings :: usd
  ri_provider :: string
  ri_backup :: bool
  ri_retention :: int
  ri_backup_cost :: usd
  ri_confidence :: "usd option"
  ri_explanation :: "string option"
  ri_connection :: "uuid option"
  ri_params :: "pydict option"

definition policy_params :: "rem_db \<Rightarrow> uuid \<Rightarrow> string \<Rightarrow> uuid option \<Rightarrow> pydict option \<Rightarrow> pydict option" where
  "policy_params db tenant provider conn ps =
     sanitize_action_parameters ps (build_system_policy_context (rd_accounts db) (rd_connections db) tenant provider conn)"

definition backup_cost :: "usd \<Rightarrow> usd option" where
  "backup_cost c = (if c = 0 then None else Some c)"

definition new_request :: "rem_db \<Rightarrow> time \<Rightarrow> uuid \<Rightarrow> uuid \<Rightarrow> string \<Rightarrow> rem_input \<Rightarrow> rem_request" where
  "new_request db now tenant user region x =
     \<lparr>rm_id = rd_next db, rm_tenant = tenant, rm_resource = ri_resource x, rm_type = ri_type x,
      rm_provider = normalize_provider (ri_provider x), rm_connection = ri_connection x, rm_finding = None,
      rm_snapshot = None, rm_region = region, rm_action = ri_action x, rm_status = REM_PENDING,
      rm_savings = Some (ri_savings x), rm_confidence = ri_confidence x, rm_explanation = ri_explanation x,
      rm_backup = ri_backup x, rm_retention = ri_retention x, rm_backup_cost = backup_cost (ri_backup_cost x),
      rm_backup_id = None, rm_requested_by = user, rm_reviewed_by = None, rm_review_notes = None, rm_error = None,
      rm_scheduled = None, rm_escalation = False, rm_escalation_reason = None, rm_escalated_at = None,
      rm_executed_at = None,
      rm_params = policy_params db tenant (normalize_provider (ri_provider x)) (ri_connection x) (ri_params x),
      rm_created = now\<rparr>"

definition add_request :: "rem_request \<Rightarrow> rem_db \<Rightarrow> rem_db" where
  "add_request r db = db\<lparr>rd_requests := rd_requests db @ [r], rd_next := Suc (rd_next db)\<rparr>"

definition create_remediation_request ::
  "rem_env \<Rightarrow> string \<Rightarrow> time \<Rightarrow> uuid \<Rightarrow> uuid \<Rightarrow> rem_input \<Rightarrow> rem_db \<Rightarrow> rem_request rem \<times> rem_db" where
  "create_remediation_request E region now tenant user x db =
     (case rem_then (require_scoped_active_connection db tenant (ri_provider x) (ri_connection x) ''request creation'')
             (\<lambda>c. if normalize_provider (ri_provider x) = ''aws''
                  then resolve_aws_region_hint E db region tenant (ri_connection x) (Some c) else Inr ''global'') of
        Inl e \<Rightarrow> (Inl e, db)
      | Inr place \<Rightarrow> (let r = new_request db now tenant user place x in (Inr r, add_request r db)))"

definition finding_request :: "rem_db \<Rightarrow> time \<Rightarrow> uuid \<Rightarrow> uuid \<Rightarrow> finding \<Rightarrow> rem_input \<Rightarrow> rem_request" where
  \<comment> \<open>of the input only the action, the backup and the parameters count\<close>
  "finding_request db now tenant user f x =
     (let p = normalize_provider (fi_provider f) in
      \<lparr>rm_id = rd_next db, rm_tenant = tenant, rm_resource = fi_resource f, rm_type = fi_type f,
       rm_provider = p, rm_connection = Some (fi_connection f), rm_finding = Some (fi_id f),
       rm_snapshot = Some (build_finding_snapshot f), rm_region = or_default (fi_region f) ''global'',
       rm_action = ri_action x, rm_status = REM_PENDING, rm_savings = Some (given (fi_savings f) 0),
       rm_confidence = fi_confidence f, rm_explanation = fi_explanation f,
       rm_backup = ri_backup x, rm_retention = ri_retention x, rm_backup_cost = backup_cost (ri_backup_cost x),
       rm_backup_id = None, rm_requested_by = user, rm_reviewed_by = None, rm_review_notes = None, rm_error = None,
       rm_scheduled = None, rm_escalation = False, rm_escalation_reason = None, rm_escalated_at = None,
       rm_executed_at = None, rm_params = policy_params db tenant p (Some (fi_connection f)) (ri_params x),
       rm_created = now\<rparr>)"

definition open_for_finding :: "uuid \<Rightarrow> uuid \<Rightarrow> rem_action \<Rightarrow> rem_request \<Rightarrow> bool" where
  "open_for_finding tenant f act r = (rm_tenant r = tenant \<and> rm_finding r = Some f \<and> rm_action r = act \<and> is_open r)"

definition duplicate_request :: "'a rem" where
  "duplicate_request =
     Inl (App_error ''remediation_request_duplicate_open_finding''
       ''An open remediation request already exists for this finding.'' 409)"

definition create_request_from_finding ::
  "time \<Rightarrow> uuid \<Rightarrow> uuid \<Rightarrow> uuid \<Rightarrow> rem_input \<Rightarrow> rem_db \<Rightarrow> rem_request rem \<times> rem_db" where
  \<comment> \<open>the unique index on the open requests of a finding makes the commit of a concurrent creation fail in the same way\<close>
  "create_request_from_finding now tenant user i x db =
     (case rem_then (get_open_finding db tenant i) (\<lambda>f.
             rem_then (require_scoped_active_connection db tenant (fi_provider f) (Some (fi_connection f)) ''request creation'')
               (\<lambda>_. if list_ex (open_for_finding tenant (fi_id f) (ri_action x)) (rd_requests db)
                    then duplicate_request else Inr f)) of
        Inl e \<Rightarrow> (Inl e, db)
      | Inr f \<Rightarrow> (let r = finding_request db now tenant user f x in (Inr r, add_request r db)))"

section \<open>Listing\<close>

definition page :: "int \<Rightarrow> int \<Rightarrow> 'a list \<Rightarrow> 'a list" where
  \<comment> \<open>\<open>offset\<close> and \<open>limit\<close>, at most 200 rows\<close>
  "page limit offset xs = take (nat (min limit 200)) (drop (nat offset) xs)"

definition list_pending_requests :: "uuid \<Rightarrow> int \<Rightarrow> int \<Rightarrow> rem_db \<Rightarrow> rem_request list" where
  "list_pending_requests tenant limit offset db =
     page limit offset (order_by [\<lambda>r. - rm_created r] (filter (\<lambda>r. rm_tenant r = tenant \<and> is_open r) (rd_requests db)))"

section \<open>Review\<close>

definition find_request :: "rem_db \<Rightarrow> uuid \<Rightarrow> uuid \<Rightarrow> rem_request option" where
  "find_request db tenant i = first_match (\<lambda>r. rm_id r = i \<and> rm_tenant r = tenant) (rd_requests db)"

definition set_request :: "uuid \<Rightarrow> (rem_request \<Rightarrow> rem_request) \<Rightarrow> rem_db \<Rightarrow> rem_db" where
  "set_request i f db = db\<lparr>rd_requests := update_rows (\<lambda>r. rm_id r = i) f (rd_requests db)\<rparr>"

definition request_missing :: "uuid \<Rightarrow> rem_error" where
  "request_missing i = App_error ''not_found'' (''Request '' @ uuid_str i @ '' not found'') 404"

definition awaits_review :: "rem_request \<Rightarrow> bool" where
  "awaits_review r = (rm_status r \<in> {REM_PENDING, REM_PENDING_APPROVAL})"

definition not_pending :: "rem_request \<Rightarrow> 'a rem" where
  "not_pending r = Inl (Value_error (''Request is '' @ rem_status_value (rm_status r) @ '', not pending approval''))"

definition escalation_role :: "rem_settings option \<Rightarrow> string" where
  "escalation_role settings =
     (let s = norm_key (or_default (case settings of None \<Rightarrow> ''owner'' | Some x \<Rightarrow> opt_str (rs_escalation_role x)) ''owner'')
      in if s \<in> {''owner'', ''admin''} then s else ''owner'')"

definition gpu_marker :: string where
  "gpu_marker = ''gpu-approved''"

definition escalation_notes :: "string option \<Rightarrow> string" where
  "escalation_notes notes =
     (let n = opt_str notes in
      if n = [] then ''Owner escalation approval ['' @ gpu_marker @ '']''
      else if contains (lower n) gpu_marker then n
      else n @ [CHR 0x0A] @ ''['' @ gpu_marker @ '']'')"

definition approved_request :: "uuid \<Rightarrow> string option \<Rightarrow> rem_request \<Rightarrow> rem_request" where
  "approved_request reviewer notes r =
     r\<lparr>rm_status := REM_APPROVED, rm_reviewed_by := Some reviewer, rm_review_notes := notes, rm_escalation := False,
       rm_escalation_reason := None\<rparr>"

definition approve_remediation ::
  "uuid \<Rightarrow> uuid \<Rightarrow> uuid \<Rightarrow> string option \<Rightarrow> string option \<Rightarrow> rem_db \<Rightarrow> rem_request rem \<times> rem_db" where
  "approve_remediation i tenant reviewer notes role db =
     (case find_request db tenant i of
        None \<Rightarrow> (Inl (request_missing i), db)
      | Some r \<Rightarrow>
          if \<not> awaits_review r then (not_pending r, db)
          else (let required = escalation_role (find_settings db tenant); own = norm_key (opt_str role)
                in if rm_escalation r \<and> own \<noteq> ''owner'' \<and> own \<noteq> required
                   then (Inl (Value_error (''Escalated remediation requests require '' @ required @ '' approval.'')), db)
                   else let r1 = approved_request reviewer (if rm_escalation r then Some (escalation_notes notes) else notes) r
                        in (Inr r1, set_request i (\<lambda>_. r1) db)))"

definition reject_remediation ::
  "uuid \<Rightarrow> uuid \<Rightarrow> uuid \<Rightarrow> string option \<Rightarrow> rem_db \<Rightarrow> rem_request rem \<times> rem_db" where
  "reject_remediation i tenant reviewer notes db =
     (case find_request db tenant i of
        None \<Rightarrow> (Inl (request_missing i), db)
      | Some r \<Rightarrow>
          if \<not> awaits_review r then (not_pending r, db)
          else let r1 = r\<lparr>rm_status := REM_REJECTED, rm_reviewed_by := Some reviewer, rm_review_notes := notes,
                          rm_escalation := False, rm_escalation_reason := None\<rparr>
               in (Inr r1, set_request i (\<lambda>_. r1) db))"

section \<open>Execution up to the commit of \<open>EXECUTING\<close>\<close>

datatype begun =
    Not_begun rem_error
  | Ended rem_request
  | Begun rem_request "finding option"

definition failed_request :: "rem_error \<Rightarrow> rem_request \<Rightarrow> rem_request" where
  "failed_request e r = r\<lparr>rm_status := REM_FAILED, rm_error := Some (take 500 (rem_error_text e))\<rparr>"

definition status_check :: "time \<Rightarrow> bool \<Rightarrow> rem_request \<Rightarrow> bool rem" where
  \<comment> \<open>whether the request may go on, \<open>Inr False\<close>: deferred by its grace period\<close>
  "status_check now bypass r =
     (if rm_status r = REM_APPROVED then Inr True
      else if rm_status r = REM_SCHEDULED
      then Inr (case rm_scheduled r of None \<Rightarrow> True | Some t \<Rightarrow> t \<le> now \<or> bypass)
      else Inl (Value_error (''Request must be approved or scheduled (current: '' @ rem_status_value (rm_status r) @ '')'')))"

definition pre_checks ::
  "rem_env \<Rightarrow> bool \<Rightarrow> time \<Rightarrow> uuid \<Rightarrow> rem_request \<Rightarrow> rem_db \<Rightarrow> (finding option \<times> bool) rem" where
  "pre_checks E bypass now tenant r db =
     rem_then (validate_request_finding_binding db tenant r) (\<lambda>f.
     rem_then (check_all_guards E now tenant (given (rm_savings r) 0) db) (\<lambda>_.
     rem_then (status_check now bypass r) (\<lambda>go. Inr (f, go))))"

definition blocked_request :: "string \<Rightarrow> rem_request \<Rightarrow> rem_request" where
  "blocked_request summary r = r\<lparr>rm_status := REM_FAILED, rm_error := Some (''POLICY_BLOCK: '' @ summary)\<rparr>"

definition escalated_request :: "time \<Rightarrow> string \<Rightarrow> rem_request \<Rightarrow> rem_request" where
  "escalated_request now summary r =
     r\<lparr>rm_status := REM_PENDING_APPROVAL, rm_escalation := True, rm_escalation_reason := Some summary,
       rm_escalated_at := Some now, rm_error := None\<rparr>"

definition grace_hours :: "rem_settings option \<Rightarrow> rem_action \<Rightarrow> int" where
  "grace_hours settings act =
     (if act = RECLAIM_LICENSE_SEAT
      then (case settings of None \<Rightarrow> 1 | Some s \<Rightarrow> if rs_grace_days s = 0 then 1 else rs_grace_days s) * 24
      else 24)"

definition schedule_request :: "time \<Rightarrow> uuid \<Rightarrow> rem_request \<Rightarrow> rem_db \<Rightarrow> rem_request \<times> rem_db" where
  "schedule_request now tenant r db =
     (let due = now + seconds (grace_hours (find_settings db tenant) (rm_action r) * 3600);
          r1 = r\<lparr>rm_status := REM_SCHEDULED, rm_scheduled := Some due\<rparr>;
          q = snd (enqueue_job ''remediation'' (Some tenant) (Some [(''request_id'', PStr (uuid_str (rm_id r)))]) (Some due) 3
                     None now (rd_queue db))
      in (r1, (set_request (rm_id r) (\<lambda>_. r1) db)\<lparr>rd_queue := q\<rparr>))"

definition settle_request :: "rem_request \<Rightarrow> rem_db \<Rightarrow> begun \<times> rem_db" where
  "settle_request r db = (Ended r, set_request (rm_id r) (\<lambda>_. r) db)"

definition go_on :: "bool \<Rightarrow> time \<Rightarrow> uuid \<Rightarrow> rem_request \<Rightarrow> finding option \<Rightarrow> rem_db \<Rightarrow> begun \<times> rem_db" where
  \<comment> \<open>with the trusted context applied: the policy, the grace period, the commit of \<open>EXECUTING\<close>\<close>
  "go_on bypass now tenant r f db =
     (case evaluate_policy False (build_policy_config (find_settings db tenant)) r of (verdict, hits) \<Rightarrow>
        if verdict = POLICY_BLOCK then settle_request (blocked_request (policy_summary hits) r) db
        else if verdict = POLICY_ESCALATE then settle_request (escalated_request now (policy_summary hits) r) db
        else if rm_status r = REM_APPROVED \<and> \<not> bypass
        then (case schedule_request now tenant r db of (r1, db1) \<Rightarrow> (Ended r1, db1))
        else (let r1 = r\<lparr>rm_status := REM_EXECUTING\<rparr> in (Begun r1 f, set_request (rm_id r) (\<lambda>_. r1) db)))"

definition begin_execution :: "rem_env \<Rightarrow> bool \<Rightarrow> time \<Rightarrow> uuid \<Rightarrow> uuid \<Rightarrow> rem_db \<Rightarrow> begun \<times> rem_db" where
  "begin_execution E bypass now tenant i db =
     (case find_request db tenant i of
        None \<Rightarrow> (Not_begun (request_missing i), db)
      | Some r \<Rightarrow>
          if normalize_provider (rm_provider r) = []
          then (Not_begun (Value_error ''Invalid or missing provider on remediation request''), db)
          else case pre_checks E bypass now tenant r db of
            Inl e \<Rightarrow> settle_request (failed_request e r) db
          | Inr (f, go) \<Rightarrow>
              if go then go_on bypass now tenant (apply_system_policy_context db tenant (normalize_provider (rm_provider r)) r) f db
              else (Ended r, db))"

section \<open>The action and its result\<close>

definition perform_action ::
  "rem_env \<Rightarrow> string \<Rightarrow> uuid \<Rightarrow> rem_request \<Rightarrow> rem_db \<Rightarrow> exec_result rem \<times> cloud_call list" where
  "perform_action E region tenant r db =
     (let p = normalize_provider (rm_provider r); creds = resolve_connection_credentials E db r in
      case resolve_execution_region E db region p tenant creds r of
        Inl e \<Rightarrow> (Inl e, [])
      | Inr place \<Rightarrow>
          (case get_strategy E p (rm_action r) of
             Inl e \<Rightarrow> (Inl e, [])
           | Inr S \<Rightarrow> run_strategy (required_feature p) S (rm_action r) (rm_resource r)
                        (build_remediation_context E tenant place creds r)))"

definition apply_execution_result :: "time \<Rightarrow> exec_result \<Rightarrow> rem_request \<Rightarrow> rem_request" where
  "apply_execution_result now x r =
     (if xr_status x = EXEC_SUCCESS
      then r\<lparr>rm_status := REM_COMPLETED, rm_executed_at := Some now, rm_backup_id := xr_backup x, rm_error := None\<rparr>
      else r\<lparr>rm_status := REM_FAILED,
             rm_error := Some (or_default (opt_str (xr_error x))
               (if xr_status x = EXEC_SKIPPED then ''Action skipped by validation or tier policy.'' else ''Action failed.''))\<rparr>)"

definition flush_request :: "rem_request \<Rightarrow> rem_request \<Rightarrow> rem_request \<Rightarrow> rem_request" where
  \<comment> \<open>the update names only the columns whose value the session changed: \<open>old\<close> as read, \<open>new\<close> as assigned\<close>
  "flush_request old new r =
     r\<lparr>rm_status := (if rm_status new = rm_status old then rm_status r else rm_status new),
       rm_executed_at := (if rm_executed_at new = rm_executed_at old then rm_executed_at r else rm_executed_at new),
       rm_backup_id := (if rm_backup_id new = rm_backup_id old then rm_backup_id r else rm_backup_id new),
       rm_error := (if rm_error new = rm_error old then rm_error r else rm_error new)\<rparr>"

definition resolve_finding :: "time \<Rightarrow> uuid \<Rightarrow> rem_db \<Rightarrow> rem_db" where
  "resolve_finding now i db =
     db\<lparr>rd_findings := update_rows (\<lambda>f. fi_id f = i) (\<lambda>f. f\<lparr>fi_open := False, fi_resolved_at := Some now\<rparr>) (rd_findings db)\<rparr>"

definition finish_execution ::
  "time \<Rightarrow> rem_request \<Rightarrow> finding option \<Rightarrow> exec_result rem \<Rightarrow> rem_db \<Rightarrow> unit rem \<times> rem_db" where
  "finish_execution now r f outcome db =
     (case outcome of
        Inl (Program_error m) \<Rightarrow> (Inl (Program_error m), db)
      | Inl e \<Rightarrow> (Inr (), set_request (rm_id r) (flush_request r (failed_request e r)) db)
      | Inr x \<Rightarrow>
          (let db1 = set_request (rm_id r) (flush_request r (apply_execution_result now x r)) db
           in (Inr (), case f of
                 None \<Rightarrow> db1
               | Some y \<Rightarrow> if xr_status x = EXEC_SUCCESS then resolve_finding now (fi_id y) db1 else db1)))"

definition execute_remediation_request ::
  "rem_env \<Rightarrow> string \<Rightarrow> bool \<Rightarrow> time \<Rightarrow> time \<Rightarrow> uuid \<Rightarrow> uuid \<Rightarrow> rem_db \<Rightarrow> unit rem \<times> rem_db \<times> cloud_call list" where
  \<comment> \<open>with nothing in between: it begins at \<open>now\<close> and ends at \<open>later\<close>\<close>
  "execute_remediation_request E region bypass now later tenant i db =
     (case begin_execution E bypass now tenant i db of
        (Not_begun e, db1) \<Rightarrow> (Inl e, db1, [])
      | (Ended r, db1) \<Rightarrow> (Inr (), db1, [])
      | (Begun r f, db1) \<Rightarrow>
          (case perform_action E region tenant r db1 of
             (outcome, calls) \<Rightarrow> (case finish_execution later r f outcome db1 of (u, db2) \<Rightarrow> (u, db2, calls))))"

section \<open>The budget's hard limit\<close>

definition safe_actions :: "rem_action list" where
  "safe_actions = [STOP_INSTANCE, RESIZE_INSTANCE, STOP_RDS_INSTANCE]"

definition limit_candidates :: "uuid \<Rightarrow> rem_db \<Rightarrow> rem_request list" where
  \<comment> \<open>descending savings, the missing ones first\<close>
  "limit_candidates tenant db =
     (let rows = filter (\<lambda>r. rm_tenant r = tenant \<and> rm_status r = REM_PENDING \<and>
                   (case rm_confidence r of None \<Rightarrow> False | Some c \<Rightarrow> 9 / 10 \<le> c) \<and> rm_action r \<in> set safe_actions)
                 (rd_requests db)
      in filter (\<lambda>r. rm_savings r = None) rows @ sort_key (\<lambda>r. - given (rm_savings r) 0) (filter (\<lambda>r. rm_savings r \<noteq> None) rows))"

definition same_slot :: "rem_request \<Rightarrow> rem_request \<Rightarrow> bool" where
  \<comment> \<open>the key of the unique index\<close>
  "same_slot r s = (rm_finding r \<noteq> None \<and> rm_tenant s = rm_tenant r \<and> rm_finding s = rm_finding r \<and> rm_action s = rm_action r)"

definition limit_approve :: "uuid \<Rightarrow> rem_db \<Rightarrow> rem_db" where
  \<comment> \<open>sets the status of a row read earlier, whatever it is now; the unique index refuses a second open request\<close>
  "limit_approve i db =
     (case first_match (\<lambda>r. rm_id r = i) (rd_requests db) of
        None \<Rightarrow> db
      | Some r \<Rightarrow>
          if list_ex (\<lambda>s. rm_id s \<noteq> i \<and> same_slot r s \<and> is_open s) (rd_requests db) then db
          else set_request i (\<lambda>s. s\<lparr>rm_status := REM_APPROVED, rm_reviewed_by := Some 0,
                 rm_review_notes := Some ''AUTO_APPROVED: Budget Hard Limit Exceeded''\<rparr>) db)"

fun limit_loop ::
  "rem_env \<Rightarrow> string \<Rightarrow> (uuid \<Rightarrow> time \<times> time) \<Rightarrow> uuid \<Rightarrow> uuid list \<Rightarrow> rem_db \<Rightarrow> uuid list rem \<times> rem_db \<times> cloud_call list" where
  \<comment> \<open>an application error leaves the loop, the others are logged\<close>
  "limit_loop E region clock tenant [] db = (Inr [], db, [])"
| "limit_loop E region clock tenant (i # is) db =
     (case execute_remediation_request E region (re_bypass_on_limit E) (fst (clock i)) (snd (clock i)) tenant i (limit_approve i db) of
        (r, db1, calls) \<Rightarrow>
          (case r of
             Inl (App_error c m n) \<Rightarrow> (Inl (App_error c m n), db1, calls)
           | _ \<Rightarrow>
               (case limit_loop E region clock tenant is db1 of
                  (rest, db2, others) \<Rightarrow>
                    (case rest of Inl e \<Rightarrow> Inl e | Inr ids \<Rightarrow> Inr (if r = Inr () then i # ids else ids), db2, calls @ others))))"

definition enforce_hard_limit ::
  "rem_env \<Rightarrow> string \<Rightarrow> (uuid \<Rightarrow> time \<times> time) \<Rightarrow> bool \<Rightarrow> uuid \<Rightarrow> rem_db \<Rightarrow> uuid list rem \<times> rem_db \<times> cloud_call list" where
  \<comment> \<open>\<open>over\<close>: the tracker of the budget reports \<open>HARD_LIMIT\<close>\<close>
  "enforce_hard_limit E region clock over tenant db =
     (if over then limit_loop E region clock tenant (map rm_id (limit_candidates tenant db)) db else (Inr [], db, []))"

section \<open>Autonomous candidates\<close>

definition has_open_request :: "rem_db \<Rightarrow> uuid \<Rightarrow> string \<Rightarrow> string \<Rightarrow> rem_action \<Rightarrow> bool rem" where
  \<comment> \<open>\<open>scalar_one_or_none()\<close> raises on several rows\<close>
  "has_open_request db tenant resource provider act =
     (case filter (\<lambda>r. rm_tenant r = tenant \<and> rm_resource r = resource \<and> rm_provider r = provider \<and> rm_action r = act \<and> is_open r)
             (rd_requests db) of
        [] \<Rightarrow> Inr False
      | [_] \<Rightarrow> Inr True
      | _ \<Rightarrow> Inl (Runtime_error ''Multiple rows were found when one or none was required''))"

definition candidate_input ::
  "string \<Rightarrow> string \<Rightarrow> string \<Rightarrow> uuid option \<Rightarrow> rem_action \<Rightarrow> usd \<Rightarrow> string \<Rightarrow> string \<Rightarrow> pydict option \<Rightarrow> rem_input" where
  \<comment> \<open>\<open>confidence\<close>: as it prints\<close>
  "candidate_input resource ty provider conn act savings confidence reason params =
     \<lparr>ri_resource = resource, ri_type = ty, ri_action = act, ri_savings = savings, ri_provider = provider, ri_backup = False,
      ri_retention = 30, ri_backup_cost = 0, ri_confidence = None,
      ri_explanation = Some (''Autonomous candidate: '' @ reason @ '' (Confidence: '' @ confidence @ '')''),
      ri_connection = conn, ri_params = params\<rparr>"

definition process_candidate ::
  "rem_env \<Rightarrow> bool \<Rightarrow> time \<Rightarrow> time \<Rightarrow> uuid \<Rightarrow> usd \<Rightarrow> rem_input \<Rightarrow> rem_db \<Rightarrow> bool rem \<times> rem_db \<times> cloud_call list" where
  "process_candidate E auto_pilot now later tenant confidence x db =
     (case has_open_request db tenant (ri_resource x) (ri_provider x) (ri_action x) of
        Inl e \<Rightarrow> (Inl e, db, [])
      | Inr True \<Rightarrow> (Inr False, db, [])
      | Inr False \<Rightarrow>
          (case create_remediation_request E ''global'' now tenant 0 x db of
             (Inl e, db1) \<Rightarrow> (Inl e, db1, [])
           | (Inr r, db1) \<Rightarrow>
               if \<not> auto_pilot \<or> confidence < 95 / 100 then (Inr False, db1, [])
               else case approve_remediation (rm_id r) tenant 0 (Some ''Auto-Pilot execution'') None db1 of
                 (Inl e, db2) \<Rightarrow> (Inl e, db2, [])
               | (Inr _, db2) \<Rightarrow>
                   (case execute_remediation_request E ''global'' False now later tenant (rm_id r) db2 of
                      (u, db3, calls) \<Rightarrow> (case u of Inl e \<Rightarrow> Inl e | Inr _ \<Rightarrow> Inr True, db3, calls))))"

section \<open>The job\<close>

definition error_status :: "string \<Rightarrow> (string \<times> nat) option" where
  \<comment> \<open>\<open>\s*(?P<message>.*)\s+\(Status:\s*(?P<status>\d+)\)\<close>, from the end of the text\<close>
  "error_status t =
     (case rev t of
        [] \<Rightarrow> None
      | c # u \<Rightarrow>
          (let digits = takeWhile is_digit u; v = dropWhile is_space (dropWhile is_digit u); tag = rev ''(Status:'';
               w = drop (length tag) v; body = lstrip (rev (tl w)); m = takeWhile (\<lambda>x. x \<noteq> CHR 0x0A) body
           in if c = CHR '')'' \<and> digits \<noteq> [] \<and> take (length tag) v = tag \<and> w \<noteq> [] \<and> is_space (hd w) \<and>
                 list_all is_space (drop (length m) body)
              then Some (m, digits_val (rev digits)) else None))"

definition parse_execution_error :: "string option \<Rightarrow> string \<times> string \<times> nat option" where
  \<comment> \<open>reason, message and status of \<open>[code] message (Status: n)\<close>, or the text as it is\<close>
  "parse_execution_error err =
     (let raw = strip (opt_str err); code = takeWhile (\<lambda>c. c \<noteq> CHR '']'') (drop 1 raw) in
      if raw = [] then (''remediation_execution_failed'', ''Remediation execution failed.'', None)
      else case (if hd raw = CHR ''['' \<and> code \<noteq> [] then error_status (drop (length code + 2) raw) else None) of
             None \<Rightarrow> (''remediation_execution_failed'', raw, None)
           | Some (m, n) \<Rightarrow> (code, m, Some n))"

definition remediation_job_result :: "rem_request \<Rightarrow> pydict" where
  "remediation_job_result r =
     (let s = rem_status_value (rm_status r);
          fields = [(''status'', PStr s), (''mode'', PStr ''targeted''), (''request_id'', PStr (uuid_str (rm_id r))),
                    (''remediation_status'', PStr s)]
      in if rm_status r \<noteq> REM_FAILED then fields
         else case parse_execution_error (rm_error r) of (reason, m, n) \<Rightarrow>
           fields @ [(''reason'', PStr reason), (''error'', PStr m)] @
           (case n of None \<Rightarrow> [] | Some k \<Rightarrow> [(''status_code'', PInt (int k))]))"

definition skipped_job_result :: "rem_request \<Rightarrow> time \<Rightarrow> pydict" where
  "skipped_job_result r due =
     [(''status'', PStr ''skipped''), (''mode'', PStr ''targeted''), (''request_id'', PStr (uuid_str (rm_id r))),
      (''remediation_status'', PStr (rem_status_value (rm_status r))), (''reason'', PStr ''grace_period_not_elapsed''),
      (''scheduled_execution_at'', PStr (iso_str due))]"

definition early_run :: "time \<Rightarrow> rem_request \<Rightarrow> time option" where
  "early_run now r =
     (case rm_scheduled r of None \<Rightarrow> None
      | Some due \<Rightarrow> if rm_status r = REM_SCHEDULED \<and> now < due then Some due else None)"

definition execute_targeted_job ::
  "rem_env \<Rightarrow> time \<Rightarrow> time \<Rightarrow> uuid \<Rightarrow> string \<Rightarrow> rem_db \<Rightarrow> pydict rem \<times> rem_db \<times> cloud_call list" where
  \<comment> \<open>\<open>ident\<close>: the identifier in the payload, as text\<close>
  "execute_targeted_job E now later tenant ident db =
     (case uuid_of_text ident of
        None \<Rightarrow> (Inl (Value_error ''badly formed hexadecimal UUID string''), db, [])
      | Some i \<Rightarrow>
          (case find_request db tenant i of
             None \<Rightarrow> (Inl (App_error ''remediation_request_not_found'' (''Remediation request '' @ ident @ '' not found'') 404), db, [])
           | Some r \<Rightarrow>
               case early_run now r of
                 Some due \<Rightarrow> (Inr (skipped_job_result r due), db, [])
               | None \<Rightarrow>
                   (case execute_remediation_request E (or_default (strip (rm_region r)) ''global'') False now later tenant i db of
                      (Inl e, db1, calls) \<Rightarrow> (Inl e, db1, calls)
                    | (Inr _, db1, calls) \<Rightarrow>
                        (Inr (case find_request db1 tenant i of None \<Rightarrow> [] | Some r1 \<Rightarrow> remediation_job_result r1), db1, calls))))"

end
