(* ===== verification/Remediation_Safety.thy ===== *)
theory Remediation_Safety
  imports Remediation
begin

text \<open>
  The remediation requests of a database as a state machine: creations, reviews, executions that begin and finish with
  anything in between, the approvals of the hard limit, and changes of the other tables.  Every operation rewrites at
  most one request, along the life cycle of its status, and leaves what was requested alone.
\<close>

section \<open>The life cycle\<close>

fun next_statuses :: "rem_status \<Rightarrow> rem_status set" where
  "next_statuses REM_PENDING = {REM_APPROVED, REM_REJECTED, REM_FAILED}"
| "next_statuses REM_PENDING_APPROVAL = {REM_APPROVED, REM_REJECTED, REM_FAILED}"
| "next_statuses REM_APPROVED = {REM_SCHEDULED, REM_EXECUTING, REM_PENDING_APPROVAL, REM_FAILED}"
| "next_statuses REM_SCHEDULED = {REM_EXECUTING, REM_PENDING_APPROVAL, REM_FAILED}"
| "next_statuses REM_EXECUTING = {REM_COMPLETED, REM_FAILED}"
| "next_statuses REM_FAILED = {REM_COMPLETED}"
| "next_statuses _ = {REM_FAILED}"

definition begun_statuses :: "rem_status set" where
  "begun_statuses = {REM_EXECUTING, REM_COMPLETED, REM_FAILED}"

definition requested :: "rem_request \<Rightarrow> rem_request" where
  \<comment> \<open>what was requested: the row without what the work flow writes\<close>
  "requested r =
     r\<lparr>rm_status := REM_PENDING, rm_reviewed_by := None, rm_review_notes := None, rm_error := None, rm_scheduled := None,
       rm_escalation := False, rm_escalation_reason := None, rm_escalated_at := None, rm_executed_at := None,
       rm_backup_id := None, rm_params := None\<rparr>"

definition evolves :: "rem_request \<Rightarrow> rem_request \<Rightarrow> bool" where
  "evolves r s =
     (requested s = requested r \<and> (rm_status s = rm_status r \<or> rm_status s \<in> next_statuses (rm_status r)) \<and>
      (rm_status s = REM_SCHEDULED \<longrightarrow> rm_scheduled s \<noteq> None \<or> rm_status r = REM_SCHEDULED \<and> rm_scheduled s = rm_scheduled r) \<and>
      (rm_status s = REM_COMPLETED \<longrightarrow> rm_executed_at s \<noteq> None \<or> rm_status r = REM_COMPLETED \<and> rm_executed_at s = rm_executed_at r) \<and>
      (is_open s \<longrightarrow> rm_executed_at s = rm_executed_at r) \<and> (rm_executed_at r \<noteq> None \<longrightarrow> rm_executed_at s \<noteq> None))"

definition request_ok :: "rem_request \<Rightarrow> bool" where
  "request_ok r =
     ((rm_status r = REM_SCHEDULED \<longrightarrow> rm_scheduled r \<noteq> None) \<and> (rm_status r = REM_COMPLETED \<longrightarrow> rm_executed_at r \<noteq> None) \<and>
      (rm_finding r \<noteq> None \<longrightarrow> rm_snapshot r \<noteq> None \<and> rm_connection r \<noteq> None))"

definition requests_ok :: "rem_db \<Rightarrow> bool" where
  "requests_ok db =
     (distinct (map rm_id (rd_requests db)) \<and>
      (\<forall>r\<in>set (rd_requests db). rm_id r < rd_next db \<and> request_ok r) \<and>
      (\<forall>r\<in>set (rd_requests db). \<forall>s\<in>set (rd_requests db). is_open r \<and> is_open s \<and> same_slot r s \<longrightarrow> rm_id r = rm_id s))"

lemma requestedD:
  assumes "requested s = requested r"
  shows "rm_id s = rm_id r" "rm_tenant s = rm_tenant r" "rm_finding s = rm_finding r" "rm_action s = rm_action r"
    "rm_snapshot s = rm_snapshot r" "rm_connection s = rm_connection r" "rm_provider s = rm_provider r"
    "rm_resource s = rm_resource r"
  using arg_cong [OF assms, of rm_id] arg_cong [OF assms, of rm_tenant] arg_cong [OF assms, of rm_finding]
    arg_cong [OF assms, of rm_action] arg_cong [OF assms, of rm_snapshot] arg_cong [OF assms, of rm_connection]
    arg_cong [OF assms, of rm_provider] arg_cong [OF assms, of rm_resource]
  by (simp_all add: requested_def)

lemma evolves_refl: "evolves r r"
  by (simp add: evolves_def)

lemma evolves_id: "evolves r s \<Longrightarrow> rm_id s = rm_id r"
  unfolding evolves_def using requestedD(1) by blast

lemma next_open: "y \<in> next_statuses x \<Longrightarrow> y \<in> set open_statuses \<Longrightarrow> x \<in> set open_statuses"
  by (cases x) (auto simp: open_statuses_def)

lemma next_begun: "y \<in> next_statuses x \<Longrightarrow> x \<in> begun_statuses \<Longrightarrow> y \<in> begun_statuses"
  by (cases x) (auto simp: begun_statuses_def)

lemma evolves_status: "evolves r s \<Longrightarrow> rm_status s = rm_status r \<or> rm_status s \<in> next_statuses (rm_status r)"
  by (simp add: evolves_def)

lemma evolves_open: "evolves r s \<Longrightarrow> is_open s \<Longrightarrow> is_open r"
  using evolves_status next_open unfolding is_open_def by metis

lemma evolves_begun: "evolves r s \<Longrightarrow> rm_status r \<in> begun_statuses \<Longrightarrow> rm_status s \<in> begun_statuses"
  using evolves_status next_begun by metis

lemma evolves_ok:
  assumes e: "evolves r s" and ok: "request_ok r"
  shows "request_ok s"
proof -
  have "requested s = requested r" using e unfolding evolves_def by blast
  then have "rm_finding s = rm_finding r" "rm_snapshot s = rm_snapshot r" "rm_connection s = rm_connection r"
    by (rule requestedD)+
  moreover have "rm_scheduled s \<noteq> None" if "rm_status s = REM_SCHEDULED"
    using e ok that unfolding evolves_def request_ok_def by auto
  moreover have "rm_executed_at s \<noteq> None" if "rm_status s = REM_COMPLETED"
    using e ok that unfolding evolves_def request_ok_def by auto
  ultimately show ?thesis using ok unfolding request_ok_def by simp
qed

lemma evolves_slot:
  assumes "evolves r s" "evolves r' s'"
  shows "same_slot s s' = same_slot r r'"
proof -
  have "requested s = requested r" "requested s' = requested r'" using assms unfolding evolves_def by blast+
  from requestedD(2-4) [OF this(1)] requestedD(2-4) [OF this(2)] show ?thesis by (simp add: same_slot_def)
qed

lemma evolves_executed:
  assumes "evolves r s"
  shows "is_open s \<Longrightarrow> rm_executed_at s = rm_executed_at r" "rm_executed_at r \<noteq> None \<Longrightarrow> rm_executed_at s \<noteq> None"
  using assms unfolding evolves_def by blast+

section \<open>One operation on the requests\<close>

definition enters :: "rem_db \<Rightarrow> rem_request \<Rightarrow> bool" where
  \<comment> \<open>a new row\<close>
  "enters db r =
     (rm_id r = rd_next db \<and> rm_status r = REM_PENDING \<and> rm_executed_at r = None \<and> request_ok r \<and>
      (\<forall>s\<in>set (rd_requests db). is_open s \<longrightarrow> \<not> same_slot r s))"

definition one_change :: "rem_db \<Rightarrow> rem_db \<Rightarrow> bool" where
  "one_change db db' =
     ((rd_requests db' = rd_requests db \<and> rd_next db' = rd_next db) \<or>
      (\<exists>i f. rd_requests db' = update_rows (\<lambda>r. rm_id r = i) f (rd_requests db) \<and> rd_next db' = rd_next db \<and>
         (\<forall>r\<in>set (rd_requests db). rm_id r = i \<longrightarrow> evolves r (f r))) \<or>
      (\<exists>r. rd_requests db' = rd_requests db @ [r] \<and> rd_next db' = Suc (rd_next db) \<and> enters db r))"

lemma one_change_same: "rd_requests db' = rd_requests db \<Longrightarrow> rd_next db' = rd_next db \<Longrightarrow> one_change db db'"
  by (simp add: one_change_def)

lemma one_change_refl [simp]: "one_change db db"
  by (rule one_change_same) simp_all

lemma one_change_set:
  assumes "\<And>r. r \<in> set (rd_requests db) \<Longrightarrow> rm_id r = i \<Longrightarrow> evolves r (f r)"
  shows "one_change db (set_request i f db)"
  using assms by (auto simp: one_change_def set_request_def)

lemma one_change_add: "enters db r \<Longrightarrow> one_change db (add_request r db)"
  by (simp add: one_change_def add_request_def)

lemma one_change_tables:
  "one_change db db1 \<Longrightarrow> rd_requests db2 = rd_requests db1 \<Longrightarrow> rd_next db2 = rd_next db1 \<Longrightarrow> one_change db db2"
  by (simp add: one_change_def)

lemma one_change_cases:
  assumes "one_change db db'"
  obtains (same) "rd_requests db' = rd_requests db" "rd_next db' = rd_next db"
  | (update) i f where "rd_requests db' = update_rows (\<lambda>r. rm_id r = i) f (rd_requests db)" "rd_next db' = rd_next db"
      "\<forall>r\<in>set (rd_requests db). rm_id r = i \<longrightarrow> evolves r (f r)"
  | (add) r where "rd_requests db' = rd_requests db @ [r]" "rd_next db' = Suc (rd_next db)" "enters db r"
  using assms unfolding one_change_def by blast

lemma one_change_rows:
  assumes "one_change db db'" "s \<in> set (rd_requests db')"
  shows "(\<exists>r\<in>set (rd_requests db). evolves r s) \<or> enters db s \<and> rd_next db' = Suc (rd_next db)"
  using assms(1)
proof (cases rule: one_change_cases)
  case same
  then show ?thesis using assms(2) evolves_refl by auto
next
  case (update i f)
  then obtain r where "r \<in> set (rd_requests db)" "s = (if rm_id r = i then f r else r)"
    using assms(2) by (auto simp: in_update_rows)
  then show ?thesis using update(3) evolves_refl by (cases "rm_id r = i") auto
next
  case (add r)
  then show ?thesis using assms(2) evolves_refl by auto
qed

lemma one_change_kept:
  assumes "one_change db db'" "r \<in> set (rd_requests db)"
  shows "\<exists>s\<in>set (rd_requests db'). evolves r s"
  using assms(1)
proof (cases rule: one_change_cases)
  case (update i f)
  have "(if rm_id r = i then f r else r) \<in> set (rd_requests db')"
    unfolding update(1) by (rule update_rowsI [OF assms(2)])
  then show ?thesis using update(3) assms(2) evolves_refl by (cases "rm_id r = i") auto
qed (use assms(2) evolves_refl in auto)

lemma one_change_next: "one_change db db' \<Longrightarrow> rd_next db \<le> rd_next db'"
  by (auto simp: one_change_def)

lemma one_change_ids:
  assumes "one_change db db'" "distinct (map rm_id (rd_requests db))" "\<forall>r\<in>set (rd_requests db). rm_id r < rd_next db"
  shows "distinct (map rm_id (rd_requests db'))"
  using assms(1)
proof (cases rule: one_change_cases)
  case (update i f)
  have "map rm_id (rd_requests db') = map rm_id (rd_requests db)"
    unfolding update(1) update_rows_def map_map by (rule map_cong) (use update(3) in \<open>auto dest: evolves_id\<close>)
  then show ?thesis using assms(2) by simp
next
  case (add r)
  then show ?thesis using assms(2,3) by (auto simp: enters_def)
qed (use assms(2) in simp)

lemma enters_open: "enters db r \<Longrightarrow> is_open r"
  by (simp add: enters_def is_open_def open_statuses_def)

lemma same_slot_sym: "same_slot r s = same_slot s r"
  by (auto simp: same_slot_def)

lemma one_change_ok:
  assumes ch: "one_change db db'" and ok: "requests_ok db"
  shows "requests_ok db'"
proof -
  have ids: "\<forall>r\<in>set (rd_requests db). rm_id r < rd_next db" using ok by (simp add: requests_ok_def)
  have d: "distinct (map rm_id (rd_requests db'))"
    using one_change_ids [OF ch _ ids] ok by (simp add: requests_ok_def)
  have row: "rm_id s < rd_next db' \<and> request_ok s" if "s \<in> set (rd_requests db')" for s
    using one_change_rows [OF ch that]
  proof
    assume "\<exists>r\<in>set (rd_requests db). evolves r s"
    then obtain r where r: "r \<in> set (rd_requests db)" "evolves r s" by blast
    then have "rm_id r < rd_next db" "request_ok r" using ok by (simp_all add: requests_ok_def)
    then show ?thesis using evolves_id [OF r(2)] evolves_ok [OF r(2)] one_change_next [OF ch] by simp
  next
    assume "enters db s \<and> rd_next db' = Suc (rd_next db)"
    then show ?thesis by (simp add: enters_def)
  qed
  have slots: "rm_id s = rm_id s'"
    if s: "s \<in> set (rd_requests db')" "s' \<in> set (rd_requests db')" "is_open s" "is_open s'" "same_slot s s'" for s s'
    using one_change_rows [OF ch s(1)] one_change_rows [OF ch s(2)]
  proof (elim disjE bexE)
    fix r r'
    assume r: "r \<in> set (rd_requests db)" "evolves r s" "r' \<in> set (rd_requests db)" "evolves r' s'"
    have "is_open r" "is_open r'" "same_slot r r'"
      using s(3-5) r evolves_open [OF r(2)] evolves_open [OF r(4)] evolves_slot [OF r(2,4)] by simp_all
    then have "rm_id r = rm_id r'" using ok r(1,3) unfolding requests_ok_def by blast
    then show ?thesis using evolves_id [OF r(2)] evolves_id [OF r(4)] by simp
  next
    fix r assume r: "r \<in> set (rd_requests db)" "evolves r s" "enters db s' \<and> rd_next db' = Suc (rd_next db)"
    have "is_open r" "same_slot s' r"
      using s(3,5) evolves_open [OF r(2)] evolves_slot [OF r(2) evolves_refl, of s'] same_slot_sym by auto
    then show ?thesis using r(1,3) unfolding enters_def by blast
  next
    fix r' assume r: "enters db s \<and> rd_next db' = Suc (rd_next db)" "r' \<in> set (rd_requests db)" "evolves r' s'"
    have "is_open r'" "same_slot s r'"
      using s(4,5) evolves_open [OF r(3)] evolves_slot [OF evolves_refl r(3), of s] by auto
    then show ?thesis using r(1,2) unfolding enters_def by blast
  next
    assume "enters db s \<and> rd_next db' = Suc (rd_next db)" "enters db s' \<and> rd_next db' = Suc (rd_next db)"
    then show ?thesis by (simp add: enters_def)
  qed
  show ?thesis unfolding requests_ok_def using d row slots by blast
qed

section \<open>The operations\<close>

lemma find_request_in:
  "find_request db t i = Some r \<Longrightarrow> r \<in> set (rd_requests db) \<and> rm_id r = i \<and> rm_tenant r = t"
  unfolding find_request_def by (drule first_match_SomeD) simp

lemma request_unique:
  "requests_ok db \<Longrightarrow> r \<in> set (rd_requests db) \<Longrightarrow> s \<in> set (rd_requests db) \<Longrightarrow> rm_id r = rm_id s \<Longrightarrow> r = s"
  unfolding requests_ok_def by (meson distinct_map inj_onD)

lemma set_found:
  assumes "requests_ok db" "find_request db t i = Some r" "evolves r r1"
  shows "one_change db (set_request i (\<lambda>_. r1) db)"
proof (rule one_change_set)
  fix s assume "s \<in> set (rd_requests db)" "rm_id s = i"
  then have "s = r" using request_unique [OF assms(1)] find_request_in [OF assms(2)] by metis
  then show "evolves s r1" using assms(3) by simp
qed

lemma create_changes: "one_change db (snd (create_remediation_request E region now t u x db))"
  by (auto simp: create_remediation_request_def Let_def split: sum.split intro!: one_change_add
      simp: enters_def new_request_def request_ok_def same_slot_def)

lemma from_finding_changes: "one_change db (snd (create_request_from_finding now t u i x db))"
proof (cases "fst (create_request_from_finding now t u i x db)")
  case (Inl e)
  then have "snd (create_request_from_finding now t u i x db) = db"
    by (auto simp: create_request_from_finding_def Let_def split: sum.splits)
  then show ?thesis by simp
next
  case (Inr r)
  then obtain f where r: "r = finding_request db now t u f x"
    and db': "snd (create_request_from_finding now t u i x db) = add_request r db"
    and fresh: "\<not> list_ex (open_for_finding t (fi_id f) (ri_action x)) (rd_requests db)"
    by (auto simp: create_request_from_finding_def Let_def rem_then_def duplicate_request_def split: sum.splits if_splits)
  have "\<not> same_slot r s" if "s \<in> set (rd_requests db)" "is_open s" for s
    using fresh that by (auto simp: r finding_request_def Let_def same_slot_def list_ex_iff open_for_finding_def)
  then have "enters db r" by (simp add: enters_def r finding_request_def Let_def request_ok_def)
  then show ?thesis unfolding db' by (rule one_change_add)
qed

lemma approve_evolves: "awaits_review r \<Longrightarrow> evolves r (approved_request reviewer notes r)"
  by (auto simp: awaits_review_def evolves_def approved_request_def requested_def)

lemma approve_changes:
  assumes "requests_ok db"
  shows "one_change db (snd (approve_remediation i t reviewer notes role db))"
  using set_found [OF assms _ approve_evolves]
  by (auto simp: approve_remediation_def Let_def split: option.split)

lemma reject_changes:
  assumes "requests_ok db"
  shows "one_change db (snd (reject_remediation i t reviewer notes db))"
proof (cases "find_request db t i")
  case (Some r)
  have "evolves r (r\<lparr>rm_status := REM_REJECTED, rm_reviewed_by := Some reviewer, rm_review_notes := notes,
      rm_escalation := False, rm_escalation_reason := None\<rparr>)" if "awaits_review r"
    using that by (auto simp: awaits_review_def evolves_def requested_def is_open_def open_statuses_def)
  from set_found [OF assms Some this] show ?thesis using Some by (auto simp: reject_remediation_def Let_def)
qed (simp add: reject_remediation_def)

lemma failed_evolves: "evolves r (failed_request e r)"
  by (cases "rm_status r") (auto simp: failed_request_def evolves_def requested_def is_open_def open_statuses_def)

lemma status_check_go:
  "status_check now bypass r = Inr go \<Longrightarrow> rm_status r = REM_APPROVED \<or> rm_status r = REM_SCHEDULED"
  by (auto simp: status_check_def split: if_splits)

lemma pre_checks_status:
  "pre_checks E bypass now t r db = Inr (f, go) \<Longrightarrow> rm_status r = REM_APPROVED \<or> rm_status r = REM_SCHEDULED"
  unfolding pre_checks_def rem_then_Inr using status_check_go by auto

lemma go_on_cases:
  assumes run: "go_on bypass now t r f db = (b, db')" and st: "rm_status r = REM_APPROVED \<or> rm_status r = REM_SCHEDULED"
  obtains (ended) s where "b = Ended s" "evolves r s" "rd_requests db' = rd_requests (set_request (rm_id r) (\<lambda>_. s) db)"
      "rd_next db' = rd_next db"
  | (begun) "b = Begun (r\<lparr>rm_status := REM_EXECUTING\<rparr>) f" "db' = set_request (rm_id r) (\<lambda>_. r\<lparr>rm_status := REM_EXECUTING\<rparr>) db"
      "rm_status r = REM_APPROVED \<and> bypass \<or> rm_status r = REM_SCHEDULED"
proof -
  obtain verdict hits where v: "evaluate_policy False (build_policy_config (find_settings db t)) r = (verdict, hits)"
    by (cases "evaluate_policy False (build_policy_config (find_settings db t)) r")
  have blocked: "evolves r (blocked_request m r)" for m
    using st by (auto simp: evolves_def blocked_request_def requested_def is_open_def open_statuses_def)
  have escalated: "evolves r (escalated_request now m r)" for m
    using st by (auto simp: evolves_def escalated_request_def requested_def)
  consider "verdict = POLICY_BLOCK" | "verdict = POLICY_ESCALATE"
    | "verdict \<noteq> POLICY_BLOCK" "verdict \<noteq> POLICY_ESCALATE" "rm_status r = REM_APPROVED \<and> \<not> bypass"
    | "verdict \<noteq> POLICY_BLOCK" "verdict \<noteq> POLICY_ESCALATE" "\<not> (rm_status r = REM_APPROVED \<and> \<not> bypass)" by blast
  then show ?thesis
  proof cases
    case 1
    then have "b = Ended (blocked_request (policy_summary hits) r)"
        "db' = set_request (rm_id r) (\<lambda>_. blocked_request (policy_summary hits) r) db"
      using run v by (simp_all add: go_on_def settle_request_def blocked_request_def)
    then show ?thesis by (intro that(1) [OF _ blocked]) (simp_all add: set_request_def)
  next
    case 2
    then have "b = Ended (escalated_request now (policy_summary hits) r)"
        "db' = set_request (rm_id r) (\<lambda>_. escalated_request now (policy_summary hits) r) db"
      using run v by (simp_all add: go_on_def settle_request_def escalated_request_def)
    then show ?thesis by (intro that(1) [OF _ escalated]) (simp_all add: set_request_def)
  next
    case 3
    obtain s db1 where s: "schedule_request now t r db = (s, db1)" by (cases "schedule_request now t r db")
    have row: "rm_status s = REM_SCHEDULED" "rm_scheduled s \<noteq> None" "requested s = requested r" "rm_executed_at s = rm_executed_at r"
      and rows: "rd_requests db1 = rd_requests (set_request (rm_id r) (\<lambda>_. s) db)" "rd_next db1 = rd_next db"
      using s by (auto simp: schedule_request_def Let_def set_request_def requested_def)
    have "evolves r s" using 3(3) row by (simp add: evolves_def)
    moreover have "b = Ended s" "db' = db1" using run v 3 s by (simp_all add: go_on_def)
    ultimately show ?thesis using rows by (intro that(1)) simp_all
  next
    case 4
    then have "b = Begun (r\<lparr>rm_status := REM_EXECUTING\<rparr>) f" "db' = set_request (rm_id r) (\<lambda>_. r\<lparr>rm_status := REM_EXECUTING\<rparr>) db"
      using run v by (auto simp: go_on_def Let_def)
    then show ?thesis using 4(3) st by (intro that(2)) auto
  qed
qed

lemma context_keeps:
  "requested (apply_system_policy_context db t p q) = requested q" "rm_status (apply_system_policy_context db t p q) = rm_status q"
  "rm_id (apply_system_policy_context db t p q) = rm_id q" "rm_tenant (apply_system_policy_context db t p q) = rm_tenant q"
  "rm_action (apply_system_policy_context db t p q) = rm_action q"
  "rm_executed_at (apply_system_policy_context db t p q) = rm_executed_at q"
  "rm_scheduled (apply_system_policy_context db t p q) = rm_scheduled q"
  by (simp_all add: apply_system_policy_context_def requested_def)

lemma context_evolves: "evolves (apply_system_policy_context db t p q) r \<Longrightarrow> evolves q r"
  unfolding evolves_def context_keeps .

lemma begin_cases:
  assumes "begin_execution E bypass now t i db = (b, db')"
  obtains (refused) "db' = db" "\<And>r f. b \<noteq> Begun r f"
  | (ended) q r where "find_request db t i = Some q" "b = Ended r" "evolves q r"
      "rd_requests db' = rd_requests (set_request i (\<lambda>_. r) db)" "rd_next db' = rd_next db"
  | (begun) q r f where "find_request db t i = Some q" "b = Begun r f" "db' = set_request i (\<lambda>_. r) db"
      "rm_status q = REM_APPROVED \<and> bypass \<or> rm_status q = REM_SCHEDULED" "pre_checks E bypass now t q db = Inr (f, True)"
      "r = (apply_system_policy_context db t (normalize_provider (rm_provider q)) q)\<lparr>rm_status := REM_EXECUTING\<rparr>"
proof (cases "find_request db t i")
  case None
  then have "b = Not_begun (request_missing i)" "db' = db" using assms by (simp_all add: begin_execution_def)
  then show ?thesis by (intro that(1)) simp_all
next
  case (Some q)
  have i: "rm_id q = i" using find_request_in [OF Some] by blast
  let ?p = "normalize_provider (rm_provider q)"
  show ?thesis
  proof (cases "?p = []")
    case True
    then have "b = Not_begun (Value_error ''Invalid or missing provider on remediation request'')" "db' = db"
      using assms Some by (simp_all add: begin_execution_def)
    then show ?thesis by (intro that(1)) simp_all
  next
    case p: False
    show ?thesis
    proof (cases "pre_checks E bypass now t q db")
      case (Inl e)
      then have "b = Ended (failed_request e q)" "db' = set_request i (\<lambda>_. failed_request e q) db"
        using assms Some p i by (auto simp: begin_execution_def settle_request_def failed_request_def)
      then show ?thesis by (intro that(2) [OF Some _ failed_evolves, of e]) (simp_all add: set_request_def)
    next
      case (Inr fg)
      show ?thesis
      proof (cases "snd fg")
        case False
        then have "b = Ended q" "db' = db" using assms Some p Inr by (simp_all add: begin_execution_def case_prod_beta)
        then show ?thesis by (intro that(1)) simp_all
      next
        case True
        then have pre: "pre_checks E bypass now t q db = Inr (fst fg, True)" using Inr by (cases fg) simp
        let ?r = "apply_system_policy_context db t ?p q"
        have run: "go_on bypass now t ?r (fst fg) db = (b, db')" using assms Some p pre by (simp add: begin_execution_def)
        have "rm_status ?r = REM_APPROVED \<or> rm_status ?r = REM_SCHEDULED"
          using pre_checks_status [OF pre] by (simp add: context_keeps)
        with run show ?thesis
        proof (cases rule: go_on_cases)
          case (ended s)
          have "rd_requests db' = rd_requests (set_request i (\<lambda>_. s) db)"
            using ended(3) i by (simp only: context_keeps)
          then show ?thesis by (rule that(2) [OF Some ended(1) context_evolves [OF ended(2)] _ ended(4)])
        next
          case begun
          have "db' = set_request i (\<lambda>_. ?r\<lparr>rm_status := REM_EXECUTING\<rparr>) db"
            using begun(2) i by (simp only: context_keeps)
          moreover have "rm_status q = REM_APPROVED \<and> bypass \<or> rm_status q = REM_SCHEDULED"
            using begun(3) by (simp only: context_keeps)
          ultimately show ?thesis by (rule that(3) [OF Some begun(1) _ _ pre refl])
        qed
      qed
    qed
  qed
qed

end
