(* ===== verification/Remediation_Guarantees.thy ===== *)
theory Remediation_Guarantees
  imports Remediation_Safety
begin

text \<open>
  What the remediation work flow guarantees: the rows stay well formed and an action begins at most once for a request,
  whatever happens between the steps; an execution begins exactly when the request is cleared; production is spared,
  escalations need their role, an approved request is scheduled with its job, and a backup precedes the action.
\<close>

section \<open>The world\<close>

record rem_world =
  rw_db :: rem_db
  rw_runs :: "(rem_request \<times> finding option) list"
  rw_started :: "uuid list"
  rw_chosen :: "uuid list"
  rw_revived :: "uuid list"

definition after_begin :: "begun \<Rightarrow> rem_db \<Rightarrow> rem_world \<Rightarrow> rem_world" where
  "after_begin b db w =
     (case b of
        Begun r f \<Rightarrow> w\<lparr>rw_db := db, rw_runs := (r, f) # rw_runs w, rw_started := rm_id r # rw_started w\<rparr>
      | _ \<Rightarrow> w\<lparr>rw_db := db\<rparr>)"

definition still_pending :: "uuid \<Rightarrow> rem_db \<Rightarrow> bool" where
  "still_pending i db = (\<forall>r\<in>set (rd_requests db). rm_id r = i \<longrightarrow> rm_status r = REM_PENDING)"

text \<open>
  The hard limit chooses pending requests first and approves them one by one later, without looking again at what has
  become of them.  Several runs of it may be under way: \<open>rw_chosen\<close> is all that was ever chosen.  \<open>rw_revived\<close> records
  the requests that it approved when they were no longer pending; \<open>revived_request_runs_twice\<close> shows what follows.
\<close>

inductive rem_step :: "rem_world \<Rightarrow> rem_world \<Rightarrow> bool" where
  create: "rem_step w (w\<lparr>rw_db := snd (create_remediation_request E region now t u x (rw_db w))\<rparr>)"
| from_finding: "rem_step w (w\<lparr>rw_db := snd (create_request_from_finding now t u i x (rw_db w))\<rparr>)"
| approve: "rem_step w (w\<lparr>rw_db := snd (approve_remediation i t reviewer msg role (rw_db w))\<rparr>)"
| reject: "rem_step w (w\<lparr>rw_db := snd (reject_remediation i t reviewer msg (rw_db w))\<rparr>)"
| start: "begin_execution E bypass now t i (rw_db w) = (b, db) \<Longrightarrow> rem_step w (after_begin b db w)"
| finish: "(r, f) \<in> set (rw_runs w) \<Longrightarrow>
    rem_step w (w\<lparr>rw_db := snd (finish_execution now r f outcome (rw_db w)), rw_runs := remove1 (r, f) (rw_runs w)\<rparr>)"
| choose: "rem_step w (w\<lparr>rw_chosen := map rm_id (limit_candidates t (rw_db w)) @ rw_chosen w\<rparr>)"
| limit: "i \<in> set (rw_chosen w) \<Longrightarrow>
    rem_step w (w\<lparr>rw_db := limit_approve i (rw_db w),
      rw_revived := (if still_pending i (rw_db w) then [] else [i]) @ rw_revived w\<rparr>)"
| outside: "rem_step w (w\<lparr>rw_db := (rw_db w)\<lparr>rd_findings := fs, rd_settings := ss, rd_accounts := accounts,
      rd_connections := cs, rd_queue := q\<rparr>\<rparr>)"

inductive rem_reachable :: "rem_world \<Rightarrow> bool" where
  initial: "rd_requests db = [] \<Longrightarrow> rem_reachable \<lparr>rw_db = db, rw_runs = [], rw_started = [], rw_chosen = [], rw_revived = []\<rparr>"
| more: "rem_reachable w \<Longrightarrow> rem_step w w' \<Longrightarrow> rem_reachable w'"

definition fresh_ok :: "uuid set \<Rightarrow> rem_db \<Rightarrow> bool" where
  "fresh_ok R db = (\<forall>r\<in>set (rd_requests db). rm_id r \<notin> R \<longrightarrow> is_open r \<longrightarrow> rm_executed_at r = None)"

definition started_ok :: "uuid set \<Rightarrow> rem_db \<Rightarrow> uuid list \<Rightarrow> bool" where
  "started_ok R db started =
     (distinct (filter (\<lambda>i. i \<notin> R) started) \<and>
      (\<forall>i\<in>set started. i < rd_next db \<and>
         (\<forall>r\<in>set (rd_requests db). rm_id r = i \<longrightarrow> i \<notin> R \<longrightarrow> rm_status r \<in> begun_statuses)))"

definition run_ok :: "uuid set \<Rightarrow> uuid list \<Rightarrow> rem_db \<Rightarrow> rem_request \<Rightarrow> bool" where
  "run_ok R started db r =
     (rm_status r = REM_EXECUTING \<and> (rm_id r \<notin> R \<longrightarrow> rm_executed_at r = None) \<and> rm_id r \<in> set started \<and>
      (\<exists>s\<in>set (rd_requests db). rm_id s = rm_id r \<and> requested s = requested r \<and>
         (rm_executed_at r \<noteq> None \<longrightarrow> rm_executed_at s \<noteq> None)))"

definition runs_ok :: "uuid set \<Rightarrow> (rem_request \<times> finding option) list \<Rightarrow> uuid list \<Rightarrow> rem_db \<Rightarrow> bool" where
  "runs_ok R runs started db = (\<forall>(r, f)\<in>set runs. run_ok R started db r)"

definition rem_ok :: "rem_world \<Rightarrow> bool" where
  "rem_ok w =
     (let R = set (rw_revived w) in
      requests_ok (rw_db w) \<and> fresh_ok R (rw_db w) \<and> started_ok R (rw_db w) (rw_started w) \<and>
      runs_ok R (rw_runs w) (rw_started w) (rw_db w) \<and> R \<subseteq> set (rw_chosen w))"

lemma rem_okD:
  assumes "rem_ok w"
  shows "requests_ok (rw_db w)" "fresh_ok (set (rw_revived w)) (rw_db w)"
    "started_ok (set (rw_revived w)) (rw_db w) (rw_started w)"
    "runs_ok (set (rw_revived w)) (rw_runs w) (rw_started w) (rw_db w)" "set (rw_revived w) \<subseteq> set (rw_chosen w)"
  using assms by (simp_all add: rem_ok_def Let_def)

section \<open>A change of a revived request\<close>

definition overwrites :: "rem_request \<Rightarrow> rem_request \<Rightarrow> bool" where
  "overwrites r s =
     (requested s = requested r \<and> rm_status s \<in> {REM_APPROVED, REM_COMPLETED, REM_FAILED} \<and>
      (rm_status s = REM_COMPLETED \<longrightarrow> rm_executed_at s \<noteq> None) \<and> (rm_executed_at r \<noteq> None \<longrightarrow> rm_executed_at s \<noteq> None))"

definition revival :: "uuid \<Rightarrow> rem_db \<Rightarrow> rem_db \<Rightarrow> bool" where
  \<comment> \<open>the row may open again only if no other is open in its slot\<close>
  "revival i db db' =
     (\<exists>f. rd_requests db' = update_rows (\<lambda>r. rm_id r = i) f (rd_requests db) \<and> rd_next db' = rd_next db \<and>
        (\<forall>r\<in>set (rd_requests db). rm_id r = i \<longrightarrow> overwrites r (f r) \<and>
           (is_open (f r) \<longrightarrow> (\<forall>s\<in>set (rd_requests db). rm_id s \<noteq> i \<longrightarrow> is_open s \<longrightarrow> \<not> same_slot r s))))"

definition change :: "uuid set \<Rightarrow> rem_db \<Rightarrow> rem_db \<Rightarrow> bool" where
  "change R db db' = (one_change db db' \<or> (\<exists>i\<in>R. revival i db db'))"

lemma overwrites_id: "overwrites r s \<Longrightarrow> rm_id s = rm_id r"
  unfolding overwrites_def using requestedD(1) by blast

lemma revival_row:
  assumes "revival i db db'" "s \<in> set (rd_requests db')"
  obtains r where "r \<in> set (rd_requests db)" "rm_id s = rm_id r" "rm_id r \<noteq> i \<longrightarrow> s = r"
    "rm_id r = i \<longrightarrow> overwrites r s \<and> (is_open s \<longrightarrow> (\<forall>x\<in>set (rd_requests db). rm_id x \<noteq> i \<longrightarrow> is_open x \<longrightarrow> \<not> same_slot r x))"
proof -
  obtain f where f: "rd_requests db' = update_rows (\<lambda>r. rm_id r = i) f (rd_requests db)"
    and o: "\<forall>r\<in>set (rd_requests db). rm_id r = i \<longrightarrow> overwrites r (f r) \<and>
      (is_open (f r) \<longrightarrow> (\<forall>x\<in>set (rd_requests db). rm_id x \<noteq> i \<longrightarrow> is_open x \<longrightarrow> \<not> same_slot r x))"
    using assms(1) unfolding revival_def by blast
  obtain r where r: "r \<in> set (rd_requests db)" "s = (if rm_id r = i then f r else r)"
    using assms(2) unfolding f by (auto simp: in_update_rows)
  then show ?thesis using o overwrites_id by (intro that [of r]) auto
qed

lemma revival_kept:
  assumes "revival i db db'" "r \<in> set (rd_requests db)"
  obtains s where "s \<in> set (rd_requests db')" "rm_id r \<noteq> i \<longrightarrow> s = r" "rm_id r = i \<longrightarrow> overwrites r s"
proof -
  obtain f where f: "rd_requests db' = update_rows (\<lambda>r. rm_id r = i) f (rd_requests db)"
    and o: "\<forall>r\<in>set (rd_requests db). rm_id r = i \<longrightarrow> overwrites r (f r)"
    using assms(1) unfolding revival_def by blast
  have "(if rm_id r = i then f r else r) \<in> set (rd_requests db')" unfolding f by (rule update_rowsI [OF assms(2)])
  then show ?thesis using o assms(2) by (intro that [of "if rm_id r = i then f r else r"]) auto
qed

lemma revival_ok:
  assumes ch: "revival i db db'" and ok: "requests_ok db"
  shows "requests_ok db'"
proof -
  have ids: "map rm_id (rd_requests db') = map rm_id (rd_requests db)"
    using ch unfolding revival_def update_rows_def by (fastforce simp: map_eq_conv dest: overwrites_id)
  have n: "rd_next db' = rd_next db" using ch unfolding revival_def by blast
  have row: "rm_id s < rd_next db' \<and> request_ok s" if "s \<in> set (rd_requests db')" for s
    using ch that
  proof (rule revival_row)
    fix r assume r: "r \<in> set (rd_requests db)" "rm_id s = rm_id r" "rm_id r \<noteq> i \<longrightarrow> s = r"
      and o: "rm_id r = i \<longrightarrow> overwrites r s \<and> (is_open s \<longrightarrow> (\<forall>x\<in>set (rd_requests db). rm_id x \<noteq> i \<longrightarrow> is_open x \<longrightarrow> \<not> same_slot r x))"
    have "rm_id r < rd_next db" "request_ok r" using ok r(1) by (simp_all add: requests_ok_def)
    moreover have "request_ok s" if "overwrites r s"
      using that requestedD(3,5,6) [of s r] \<open>request_ok r\<close> unfolding overwrites_def request_ok_def by auto
    ultimately show ?thesis using r o n by (cases "rm_id r = i") auto
  qed
  have slots: "rm_id s = rm_id s'"
    if s: "s \<in> set (rd_requests db')" "s' \<in> set (rd_requests db')" "is_open s" "is_open s'" "same_slot s s'" for s s'
  proof -
    obtain r where r: "r \<in> set (rd_requests db)" "rm_id s = rm_id r" "rm_id r \<noteq> i \<longrightarrow> s = r"
      "rm_id r = i \<longrightarrow> overwrites r s \<and> (is_open s \<longrightarrow> (\<forall>x\<in>set (rd_requests db). rm_id x \<noteq> i \<longrightarrow> is_open x \<longrightarrow> \<not> same_slot r x))"
      by (rule revival_row [OF ch s(1)])
    obtain r' where r': "r' \<in> set (rd_requests db)" "rm_id s' = rm_id r'" "rm_id r' \<noteq> i \<longrightarrow> s' = r'"
      "rm_id r' = i \<longrightarrow> overwrites r' s' \<and> (is_open s' \<longrightarrow> (\<forall>x\<in>set (rd_requests db). rm_id x \<noteq> i \<longrightarrow> is_open x \<longrightarrow> \<not> same_slot r' x))"
      by (rule revival_row [OF ch s(2)])
    have slot: "same_slot s x = same_slot r x" "same_slot x s' = same_slot x r'" for x
      using r(3,4) r'(3,4) requestedD(2-4) [of s r] requestedD(2-4) [of s' r'] unfolding overwrites_def same_slot_def by metis+
    consider "rm_id r = i" "rm_id r' = i" | "rm_id r = i" "rm_id r' \<noteq> i" | "rm_id r \<noteq> i" "rm_id r' = i"
      | "rm_id r \<noteq> i" "rm_id r' \<noteq> i" by blast
    then show ?thesis
    proof cases
      case 1
      then show ?thesis using r(2) r'(2) by simp
    next
      case 2
      then have "\<not> same_slot r r'" using r(4) r'(1,3) s(3,4) by blast
      then show ?thesis using s(5) slot by simp
    next
      case 3
      then have "\<not> same_slot r' r" using r'(4) r(1,3) s(3,4) by blast
      then show ?thesis using s(5) slot same_slot_sym by simp
    next
      case 4
      then show ?thesis using ok r(1,3) r'(1,3) s(3-5) unfolding requests_ok_def by blast
    qed
  qed
  have "distinct (map rm_id (rd_requests db'))" using ok ids by (simp add: requests_ok_def)
  then show ?thesis unfolding requests_ok_def using row slots by blast
qed

section \<open>Every step\<close>

lemma change_rows:
  assumes "change R db db'" "s \<in> set (rd_requests db')"
  obtains (old) r where "r \<in> set (rd_requests db)" "rm_id s = rm_id r" "requested s = requested r" "rm_id r \<notin> R \<longrightarrow> evolves r s"
  | (new) "enters db s"
proof -
  consider "one_change db db'" | i where "i \<in> R" "revival i db db'" using assms(1) unfolding change_def by blast
  then show ?thesis
  proof cases
    case 1
    then show ?thesis
      using one_change_rows [OF 1 assms(2)] old new evolves_id unfolding evolves_def by blast
  next
    case 2
    from 2(2) assms(2) show ?thesis
    proof (rule revival_row)
      fix r assume r: "r \<in> set (rd_requests db)" "rm_id s = rm_id r" "rm_id r \<noteq> i \<longrightarrow> s = r"
        and o: "rm_id r = i \<longrightarrow> overwrites r s \<and> (is_open s \<longrightarrow> (\<forall>x\<in>set (rd_requests db). rm_id x \<noteq> i \<longrightarrow> is_open x \<longrightarrow> \<not> same_slot r x))"
      show ?thesis
      proof (cases "rm_id r = i")
        case True
        then have "requested s = requested r" using o by (simp add: overwrites_def)
        then show ?thesis using old r 2(1) True by blast
      next
        case False
        then show ?thesis using old [OF r(1)] r(3) evolves_refl by blast
      qed
    qed
  qed
qed

lemma change_kept:
  assumes "change R db db'" "r \<in> set (rd_requests db)"
  obtains s where "s \<in> set (rd_requests db')" "rm_id s = rm_id r" "requested s = requested r"
    "rm_executed_at r \<noteq> None \<longrightarrow> rm_executed_at s \<noteq> None" "rm_id r \<notin> R \<longrightarrow> evolves r s"
proof -
  consider "one_change db db'" | i where "i \<in> R" "revival i db db'" using assms(1) unfolding change_def by blast
  then show ?thesis
  proof cases
    case 1
    obtain s where s: "s \<in> set (rd_requests db')" "evolves r s" using one_change_kept [OF 1 assms(2)] by blast
    then show ?thesis using evolves_id [OF s(2)] by (intro that [of s]) (simp_all add: evolves_def)
  next
    case 2
    obtain s where s: "s \<in> set (rd_requests db')" "rm_id r \<noteq> i \<longrightarrow> s = r" "rm_id r = i \<longrightarrow> overwrites r s"
      by (rule revival_kept [OF 2(2) assms(2)])
    show ?thesis
    proof (cases "rm_id r = i")
      case True
      then have o: "overwrites r s" using s(3) by blast
      then show ?thesis using s(1) True 2(1) overwrites_id [OF o] by (intro that [of s]) (simp_all add: overwrites_def)
    next
      case False
      then show ?thesis using that [OF s(1)] s(2) evolves_refl by blast
    qed
  qed
qed

lemma change_requests: "change R db db' \<Longrightarrow> requests_ok db \<Longrightarrow> requests_ok db'"
  unfolding change_def using one_change_ok revival_ok by blast

lemma change_next: "change R db db' \<Longrightarrow> rd_next db \<le> rd_next db'"
  unfolding change_def revival_def using one_change_next by fastforce

lemma fresh_kept:
  assumes "change R db db'" "fresh_ok R db"
  shows "fresh_ok R db'"
proof -
  have "rm_executed_at s = None" if s: "s \<in> set (rd_requests db')" "rm_id s \<notin> R" "is_open s" for s
    using assms(1) s(1)
  proof (cases rule: change_rows)
    case (old r)
    then have e: "evolves r s" "is_open r" using s(2,3) evolves_open by auto
    then have "rm_executed_at r = None" using assms(2) old(1,2) s(2) by (simp add: fresh_ok_def)
    then show ?thesis using evolves_executed(1) [OF e(1) s(3)] by simp
  next
    case new
    then show ?thesis by (simp add: enters_def)
  qed
  then show ?thesis by (simp add: fresh_ok_def)
qed

lemma started_kept:
  assumes "change R db db'" "started_ok R db started"
  shows "started_ok R db' started"
proof -
  have "rm_status s \<in> begun_statuses" if i: "s \<in> set (rd_requests db')" "rm_id s \<in> set started" "rm_id s \<notin> R" for s
    using assms(1) i(1)
  proof (cases rule: change_rows)
    case (old r)
    then have "rm_status r \<in> begun_statuses" using assms(2) i(2,3) by (simp add: started_ok_def)
    then show ?thesis using old i(3) evolves_begun by simp
  next
    case new
    then show ?thesis using assms(2) i(2) by (auto simp: enters_def started_ok_def)
  qed
  then show ?thesis using assms(2) change_next [OF assms(1)] unfolding started_ok_def by fastforce
qed

lemma runs_kept:
  assumes "change R db db'" "runs_ok R runs started db" "set runs' \<subseteq> set runs" "set started \<subseteq> set started'"
  shows "runs_ok R runs' started' db'"
proof -
  have "run_ok R started' db' r" if "(r, f) \<in> set runs'" for r f
  proof -
    have r: "run_ok R started db r" using assms(2,3) that unfolding runs_ok_def by blast
    then obtain s where s: "s \<in> set (rd_requests db)" "rm_id s = rm_id r" "requested s = requested r"
        "rm_executed_at r \<noteq> None \<longrightarrow> rm_executed_at s \<noteq> None" unfolding run_ok_def by blast
    obtain s' where "s' \<in> set (rd_requests db')" "rm_id s' = rm_id s" "requested s' = requested s"
        "rm_executed_at s \<noteq> None \<longrightarrow> rm_executed_at s' \<noteq> None" by (rule change_kept [OF assms(1) s(1)])
    then have "\<exists>s\<in>set (rd_requests db'). rm_id s = rm_id r \<and> requested s = requested r \<and>
        (rm_executed_at r \<noteq> None \<longrightarrow> rm_executed_at s \<noteq> None)" using s(2-4) by (intro bexI [of _ s']) simp_all
    then show ?thesis using r assms(4) unfolding run_ok_def by blast
  qed
  then show ?thesis unfolding runs_ok_def by blast
qed

lemma change_ok:
  assumes "rem_ok w" "change (set (rw_revived w)) (rw_db w) db" "set runs \<subseteq> set (rw_runs w)"
  shows "rem_ok (w\<lparr>rw_db := db, rw_runs := runs\<rparr>)"
  using rem_okD [OF assms(1)] change_requests [OF assms(2)] fresh_kept [OF assms(2)] started_kept [OF assms(2)]
    runs_kept [OF assms(2) _ assms(3) order_refl]
  by (simp add: rem_ok_def Let_def)

lemma change_db_ok:
  assumes "rem_ok w" "one_change (rw_db w) db"
  shows "rem_ok (w\<lparr>rw_db := db\<rparr>)"
  using change_ok [OF assms(1) _ order_refl, of db] assms(2) by (simp add: change_def)

lemma revive_ok:
  assumes "rem_ok w" "i \<in> set (rw_chosen w)"
  shows "rem_ok (w\<lparr>rw_revived := i # rw_revived w\<rparr>)"
proof -
  have "distinct (filter (\<lambda>j. j \<notin> insert i (set (rw_revived w))) (rw_started w))"
    using distinct_filter [of "filter (\<lambda>j. j \<notin> set (rw_revived w)) (rw_started w)" "\<lambda>j. j \<noteq> i"] rem_okD(3) [OF assms(1)]
    by (simp add: started_ok_def conj_commute)
  then show ?thesis
    using rem_okD [OF assms(1)] assms(2)
    by (auto simp: rem_ok_def Let_def fresh_ok_def started_ok_def runs_ok_def run_ok_def)
qed

lemma limit_changes:
  assumes "still_pending i db"
  shows "one_change db (limit_approve i db)"
proof (cases "first_match (\<lambda>r. rm_id r = i) (rd_requests db)")
  case (Some r)
  have "evolves s (s\<lparr>rm_status := REM_APPROVED, rm_reviewed_by := Some 0,
      rm_review_notes := Some ''AUTO_APPROVED: Budget Hard Limit Exceeded''\<rparr>)"
    if "s \<in> set (rd_requests db)" "rm_id s = i" for s
    using assms that by (auto simp: still_pending_def evolves_def requested_def)
  then have "one_change db (set_request i (\<lambda>s. s\<lparr>rm_status := REM_APPROVED, rm_reviewed_by := Some 0,
      rm_review_notes := Some ''AUTO_APPROVED: Budget Hard Limit Exceeded''\<rparr>) db)" by (rule one_change_set)
  then show ?thesis using Some by (simp add: limit_approve_def)
qed (simp add: limit_approve_def)

lemma limit_revival:
  assumes ok: "requests_ok db"
  shows "limit_approve i db = db \<or>
    revival i db (limit_approve i db) \<and> (\<forall>s\<in>set (rd_requests (limit_approve i db)). rm_id s = i \<longrightarrow> rm_status s = REM_APPROVED)"
proof (cases "first_match (\<lambda>r. rm_id r = i) (rd_requests db)")
  case (Some r)
  show ?thesis
  proof (cases "list_ex (\<lambda>s. rm_id s \<noteq> i \<and> same_slot r s \<and> is_open s) (rd_requests db)")
    case True
    then show ?thesis using Some by (simp add: limit_approve_def)
  next
    case False
    define f where "f s = s\<lparr>rm_status := REM_APPROVED, rm_reviewed_by := Some 0,
        rm_review_notes := Some ''AUTO_APPROVED: Budget Hard Limit Exceeded''\<rparr>" for s :: rem_request
    have r: "r \<in> set (rd_requests db)" "rm_id r = i" using first_match_SomeD [OF Some] by simp_all
    have db': "limit_approve i db = set_request i f db" using Some False by (simp add: limit_approve_def f_def [abs_def])
    have f: "overwrites s (f s)" "rm_status (f s) = REM_APPROVED" for s by (simp_all add: overwrites_def requested_def f_def)
    have free: "\<forall>x\<in>set (rd_requests db). rm_id x \<noteq> i \<longrightarrow> is_open x \<longrightarrow> \<not> same_slot r x"
      using False unfolding list_ex_iff by blast
    have "\<forall>x\<in>set (rd_requests db). rm_id x \<noteq> i \<longrightarrow> is_open x \<longrightarrow> \<not> same_slot s x"
      if "s \<in> set (rd_requests db)" "rm_id s = i" for s
      using request_unique [OF ok that(1) r(1)] that(2) r(2) free by simp
    then have "revival i db (set_request i f db)"
      unfolding revival_def set_request_def by (intro exI [of _ f]) (simp add: f)
    moreover have "\<forall>s\<in>set (rd_requests (set_request i f db)). rm_id s = i \<longrightarrow> rm_status s = REM_APPROVED"
      using f(2) overwrites_id [OF f(1)] by (auto simp: set_request_def update_rows_def)
    ultimately show ?thesis unfolding db' by blast
  qed
qed (simp add: limit_approve_def)

lemma limit_ok:
  assumes ok: "rem_ok w" and i: "i \<in> set (rw_chosen w)"
  shows "rem_ok (w\<lparr>rw_db := limit_approve i (rw_db w), rw_revived := (if still_pending i (rw_db w) then [] else [i]) @ rw_revived w\<rparr>)"
proof (cases "still_pending i (rw_db w)")
  case True
  then show ?thesis using change_db_ok [OF ok limit_changes [OF True]] by simp
next
  case False
  have "change (insert i (set (rw_revived w))) (rw_db w) (limit_approve i (rw_db w))"
    using limit_revival [OF rem_okD(1) [OF ok], of i] by (auto simp: change_def)
  then show ?thesis using change_ok [OF revive_ok [OF ok i] _ order_refl, of "limit_approve i (rw_db w)"] False
    by (simp add: rem_ok_def Let_def)
qed

lemma flush_evolves:
  assumes s: "rm_status s \<in> begun_statuses" and old: "rm_executed_at r = None"
    and "rm_status new \<noteq> rm_status r"
    and new: "rm_status new = REM_FAILED \<and> rm_executed_at new = rm_executed_at r \<or> rm_status new = REM_COMPLETED \<and> rm_executed_at new \<noteq> None"
  shows "evolves s (flush_request r new s)"
proof -
  have st: "rm_status (flush_request r new s) = rm_status new" using assms(3) by (simp add: flush_request_def)
  have "requested (flush_request r new s) = requested s" by (simp add: requested_def flush_request_def)
  moreover have "rm_status new = rm_status s \<or> rm_status new \<in> next_statuses (rm_status s)"
    using s(1) new by (cases "rm_status s") (auto simp: begun_statuses_def)
  moreover have "rm_executed_at (flush_request r new s) \<noteq> None" if "rm_status new = REM_COMPLETED"
    using new that old by (auto simp: flush_request_def)
  moreover have "rm_executed_at (flush_request r new s) \<noteq> None" if "rm_executed_at s \<noteq> None"
    using new that by (auto simp: flush_request_def)
  moreover have "\<not> is_open (flush_request r new s)"
    using st new by (auto simp: is_open_def open_statuses_def)
  moreover have "rm_status new \<noteq> REM_SCHEDULED" using new by auto
  ultimately show ?thesis using st unfolding evolves_def by simp
qed

lemma flush_overwrites:
  assumes "rm_status r = REM_EXECUTING" "rm_executed_at r \<noteq> None \<longrightarrow> rm_executed_at s \<noteq> None"
    and new: "rm_status new = REM_FAILED \<and> rm_executed_at new = rm_executed_at r \<or> rm_status new = REM_COMPLETED \<and> rm_executed_at new \<noteq> None"
  shows "overwrites s (flush_request r new s)" "\<not> is_open (flush_request r new s)"
  using assms by (auto simp: overwrites_def flush_request_def requested_def is_open_def open_statuses_def)

definition finished_change :: "uuid set \<Rightarrow> uuid \<Rightarrow> rem_db \<Rightarrow> rem_db \<Rightarrow> bool" where
  \<comment> \<open>a change of request \<open>i\<close> that ends it, whatever it is if it was revived\<close>
  "finished_change R i db db' =
     (one_change db db' \<or>
      i \<in> R \<and> revival i db db' \<and> (\<forall>s\<in>set (rd_requests db'). rm_id s = i \<longrightarrow> rm_status s \<in> {REM_COMPLETED, REM_FAILED}))"

lemma flush_changes:
  assumes ok: "requests_ok db" "started_ok R db started" "runs_ok R runs started db" "(r, f) \<in> set runs"
    and new: "rm_status new = REM_FAILED \<and> rm_executed_at new = rm_executed_at r \<or> rm_status new = REM_COMPLETED \<and> rm_executed_at new \<noteq> None"
  shows "finished_change R (rm_id r) db (set_request (rm_id r) (flush_request r new) db)"
proof -
  have r: "rm_status r = REM_EXECUTING" "rm_id r \<notin> R \<longrightarrow> rm_executed_at r = None" "rm_id r \<in> set started"
    and row: "\<exists>s\<in>set (rd_requests db). rm_id s = rm_id r \<and> (rm_executed_at r \<noteq> None \<longrightarrow> rm_executed_at s \<noteq> None)"
    using ok(3,4) unfolding runs_ok_def run_ok_def by blast+
  show ?thesis
  proof (cases "rm_id r \<in> R")
    case True
    have ex: "rm_executed_at r \<noteq> None \<longrightarrow> rm_executed_at s \<noteq> None" if "s \<in> set (rd_requests db)" "rm_id s = rm_id r" for s
      using row request_unique [OF ok(1)] that by metis
    have "revival (rm_id r) db (set_request (rm_id r) (flush_request r new) db)"
      unfolding revival_def set_request_def using flush_overwrites [OF r(1) ex new]
      by (intro exI [of _ "flush_request r new"]) simp
    moreover have "\<forall>s\<in>set (rd_requests (set_request (rm_id r) (flush_request r new) db)). rm_id s = rm_id r \<longrightarrow>
        rm_status s \<in> {REM_COMPLETED, REM_FAILED}"
      using new r(1) by (auto simp: set_request_def in_update_rows flush_request_def)
    ultimately show ?thesis using True by (simp add: finished_change_def)
  next
    case False
    have "one_change db (set_request (rm_id r) (flush_request r new) db)"
    proof (rule one_change_set)
      fix s assume s: "s \<in> set (rd_requests db)" "rm_id s = rm_id r"
      have "rm_status s \<in> begun_statuses" using ok(2) r(3) s False unfolding started_ok_def by blast
      then show "evolves s (flush_request r new s)" using r False new by (intro flush_evolves) auto
    qed
    then show ?thesis by (simp add: finished_change_def)
  qed
qed

lemma finished_tables:
  "finished_change R i db db1 \<Longrightarrow> rd_requests db2 = rd_requests db1 \<Longrightarrow> rd_next db2 = rd_next db1 \<Longrightarrow> finished_change R i db db2"
  using one_change_tables by (auto simp: finished_change_def revival_def)

lemma finish_changes:
  assumes ok: "requests_ok db" "started_ok R db started" "runs_ok R runs started db" "(r, f) \<in> set runs"
  shows "finished_change R (rm_id r) db (snd (finish_execution now r f outcome db))"
proof (cases outcome)
  case (Inl e)
  have "finished_change R (rm_id r) db (set_request (rm_id r) (flush_request r (failed_request e r)) db)"
    by (rule flush_changes [OF ok]) (simp add: failed_request_def)
  then show ?thesis using Inl by (cases e) (simp_all add: finish_execution_def finished_change_def)
next
  case (Inr x)
  let ?db1 = "set_request (rm_id r) (flush_request r (apply_execution_result now x r)) db"
  have ch: "finished_change R (rm_id r) db ?db1" by (rule flush_changes [OF ok]) (simp add: apply_execution_result_def)
  have "finished_change R (rm_id r) db (resolve_finding now j ?db1)" for j
    by (rule finished_tables [OF ch]) (simp_all add: resolve_finding_def)
  then show ?thesis using Inr ch by (simp add: finish_execution_def Let_def split: option.split)
qed

lemma begun_evolves:
  assumes "rm_status q = REM_APPROVED \<or> rm_status q = REM_SCHEDULED"
    "r = (apply_system_policy_context db t p q)\<lparr>rm_status := REM_EXECUTING\<rparr>"
  shows "evolves q r"
  using assms by (auto simp: evolves_def apply_system_policy_context_def requested_def)

lemma begin_changes:
  assumes ok: "requests_ok db" and run: "begin_execution E bypass now t i db = (b, db')"
  shows "one_change db db'"
  using run
proof (cases rule: begin_cases)
  case (ended q r)
  show ?thesis
    by (rule one_change_tables [OF set_found [OF ok ended(1,3)]]) (use ended in \<open>simp_all add: set_request_def\<close>)
next
  case (begun q r f)
  then have "evolves q r" using begun_evolves by blast
  from set_found [OF ok begun(1) this] show ?thesis unfolding begun(3) .
qed simp

lemma start_ok:
  assumes ok: "rem_ok w" and run: "begin_execution E bypass now t i (rw_db w) = (b, db)"
  shows "rem_ok (after_begin b db w)"
  using run
proof (cases rule: begin_cases)
  case refused
  then have "after_begin b db w = w" by (cases b) (auto simp: after_begin_def)
  then show ?thesis using ok by simp
next
  case (ended q r)
  have "one_change (rw_db w) db" by (rule begin_changes [OF rem_okD(1) [OF ok] run])
  then show ?thesis using change_db_ok [OF ok] ended(2) by (simp add: after_begin_def)
next
  case (begun q r f)
  let ?R = "set (rw_revived w)"
  have q: "q \<in> set (rd_requests (rw_db w))" "rm_id q = i" using find_request_in [OF begun(1)] by blast+
  have ev: "evolves q r" using begun_evolves begun(4,6) by blast
  have r: "rm_id r = i" "rm_status r = REM_EXECUTING" "rm_executed_at r = rm_executed_at q"
    using evolves_id [OF ev] q(2) by (simp_all add: begun(6) apply_system_policy_context_def)
  note rows = rem_okD [OF ok]
  have q_ok: "i < rd_next (rw_db w)" using rows(1) q unfolding requests_ok_def by blast
  have "is_open q" "rm_status q \<notin> begun_statuses"
    using begun(4) by (auto simp: is_open_def open_statuses_def begun_statuses_def)
  then have exec: "i \<notin> ?R \<longrightarrow> rm_executed_at r = None" and new: "i \<notin> ?R \<longrightarrow> i \<notin> set (rw_started w)"
    using q rows(2,3) r(3) unfolding fresh_ok_def started_ok_def by auto
  have ch: "change ?R (rw_db w) db" using begin_changes [OF rows(1) run] by (simp add: change_def)
  have dbrow: "\<forall>s\<in>set (rd_requests db). rm_id s = i \<longrightarrow> s = r"
    using r(1) unfolding begun(3) set_request_def by (auto simp: in_update_rows split: if_splits)
  have "r \<in> set (rd_requests db)"
    using update_rowsI [OF q(1), of "\<lambda>r. rm_id r = i" "\<lambda>_. r"] q(2) by (simp add: begun(3) set_request_def)
  then have "run_ok ?R (i # rw_started w) db r" using r exec by (auto simp: run_ok_def)
  moreover have "started_ok ?R db (i # rw_started w)"
    using started_kept [OF ch rows(3)] new dbrow r(2) q_ok(1) change_next [OF ch]
    by (auto simp: started_ok_def begun_statuses_def)
  moreover have "runs_ok ?R (rw_runs w) (i # rw_started w) db"
    by (rule runs_kept [OF ch rows(4)]) auto
  ultimately show ?thesis
    using change_requests [OF ch rows(1)] fresh_kept [OF ch rows(2)] rows(5) r(1)
    by (simp add: rem_ok_def Let_def after_begin_def begun(2) runs_ok_def)
qed

lemma step_ok:
  assumes "rem_step w w'" "rem_ok w"
  shows "rem_ok w'"
  using assms
proof cases
  case (finish r f now outcome)
  note ok = rem_okD [OF assms(2)]
  have "change (set (rw_revived w)) (rw_db w) (snd (finish_execution now r f outcome (rw_db w)))"
    using finish_changes [OF ok(1,3,4) finish(2)] unfolding finished_change_def change_def by blast
  then show ?thesis unfolding finish(1) by (rule change_ok [OF assms(2)]) (rule set_remove1_subset)
next
  case (outside fs ss accounts cs q)
  show ?thesis unfolding outside(1) by (rule change_db_ok [OF assms(2) one_change_same]) simp_all
next
  case (approve i t reviewer msg role)
  then show ?thesis using change_db_ok [OF assms(2) approve_changes] rem_okD [OF assms(2)] by simp
next
  case (reject i t reviewer msg)
  then show ?thesis using change_db_ok [OF assms(2) reject_changes] rem_okD [OF assms(2)] by simp
next
  case (start E bypass now t i b db)
  then show ?thesis using start_ok [OF assms(2)] by simp
next
  case (choose t)
  then show ?thesis using rem_okD [OF assms(2)] by (auto simp: rem_ok_def Let_def)
next
  case (limit i)
  then show ?thesis using limit_ok [OF assms(2)] by simp
qed (use change_db_ok [OF assms(2)] create_changes from_finding_changes in auto)

lemma reachable_ok: "rem_reachable w \<Longrightarrow> rem_ok w"
proof (induction rule: rem_reachable.induct)
  case (initial db)
  then show ?case by (simp add: rem_ok_def requests_ok_def fresh_ok_def started_ok_def runs_ok_def)
next
  case (more w w')
  then show ?case using step_ok by blast
qed

definition exceptional :: "rem_world \<Rightarrow> rem_world \<Rightarrow> uuid \<Rightarrow> rem_status \<Rightarrow> bool" where
  \<comment> \<open>the request \<open>i\<close> was approved by the hard limit when it was no longer pending: now, or before, and a run ends it\<close>
  "exceptional w w' i st =
     (i \<in> set (rw_revived w') \<and>
      (st = REM_APPROVED \<and> i \<in> set (rw_chosen w) \<or>
       st \<in> {REM_COMPLETED, REM_FAILED} \<and> (\<exists>(r, f)\<in>set (rw_runs w). rm_id r = i)))"

lemma step_change:
  assumes "rem_step w w'" "rem_ok w"
  obtains (ordinary) "one_change (rw_db w) (rw_db w')"
  | (revived) i where "revival i (rw_db w) (rw_db w')" "\<forall>s\<in>set (rd_requests (rw_db w')). rm_id s = i \<longrightarrow> exceptional w w' i (rm_status s)"
      "i \<in> set (rw_revived w')"
  using assms(1)
proof cases
  case (finish r f now outcome)
  note ok = rem_okD [OF assms(2)]
  have "finished_change (set (rw_revived w)) (rm_id r) (rw_db w) (rw_db w')"
    using finish_changes [OF ok(1,3,4) finish(2)] finish(1) by simp
  then show ?thesis
    using that finish unfolding finished_change_def exceptional_def by fastforce
next
  case (limit i)
  show ?thesis
  proof (cases "still_pending i (rw_db w)")
    case True
    then show ?thesis using that(1) limit_changes [OF True] limit(1) by simp
  next
    case False
    then show ?thesis
      using that limit limit_revival [OF rem_okD(1) [OF assms(2)], of i] by (auto simp: exceptional_def)
  qed
next
  case (outside fs ss accounts cs q)
  have "one_change (rw_db w) (rw_db w')" unfolding outside(1) by (rule one_change_same) simp_all
  then show ?thesis by (rule that(1))
next
  case (start E bypass now t i b db)
  have "one_change (rw_db w) db" by (rule begin_changes [OF rem_okD(1) [OF assms(2)] start(2)])
  then show ?thesis using start(1) by (intro that(1)) (simp add: after_begin_def split: begun.split)
qed (use that(1) rem_okD [OF assms(2)] approve_changes reject_changes create_changes from_finding_changes in simp_all)

section \<open>A sample\<close>

definition sample_rem_env :: rem_env where
  "sample_rem_env =
     \<lparr>re_kill_scope = ''tenant'', re_kill_threshold = ''50'', re_aws_region = [], re_bypass_on_limit = True,
      re_spend = (\<lambda>_. 0), re_tier = (\<lambda>_. ENTERPRISE), re_secrets = (\<lambda>_. []),
      re_strategy = (\<lambda>_ _. \<lparr>st_validate = (\<lambda>_ _. Yields True), st_create_backup = (\<lambda>_ _. Yields (Some ''snap-1'')),
        st_perform = (\<lambda>_ _. Yields \<lparr>xr_status = EXEC_SUCCESS, xr_error = None, xr_backup = None\<rparr>)\<rparr>)\<rparr>"

definition sample_connection :: connection where
  "sample_connection =
     \<lparr>cn_id = 5, cn_tenant = 1, cn_provider = ''aws'', cn_name = Some ''main'', cn_status = Some ''active'', cn_active = None,
      cn_region = Some ''eu-west-1'', cn_config = None, cn_is_production = PNone, cn_environment = PNone, cn_criticality = PNone\<rparr>"

definition sample_rem_db :: "cloud_account list \<Rightarrow> rem_request list \<Rightarrow> rem_db" where
  "sample_rem_db accounts rows =
     \<lparr>rd_requests = rows, rd_findings = [], rd_settings = [], rd_accounts = accounts, rd_connections = [sample_connection],
      rd_queue = \<lparr>jobs = [], jobs_next = 0\<rparr>, rd_next = length rows\<rparr>"

definition sample_rem_input :: rem_input where
  "sample_rem_input =
     \<lparr>ri_resource = ''vol-1'', ri_type = ''EBS Volume'', ri_action = DELETE_VOLUME, ri_savings = 20, ri_provider = ''aws'',
      ri_backup = True, ri_retention = 30, ri_backup_cost = 0, ri_confidence = Some (95 / 100), ri_explanation = None,
      ri_connection = Some 5, ri_params = None\<rparr>"

definition sample_rem_row :: "rem_status \<Rightarrow> rem_request" where
  "sample_rem_row st =
     (new_request (sample_rem_db [] []) 0 1 2 ''eu-west-1'' sample_rem_input)\<lparr>rm_status := st\<rparr>"

definition sample_account :: cloud_account where
  "sample_account = \<lparr>ca_id = 5, ca_tenant = 1, ca_provider = ''aws'', ca_production = True, ca_criticality = None\<rparr>"

definition sample_world_a :: rem_world where
  "sample_world_a = \<lparr>rw_db = sample_rem_db [] [], rw_runs = [], rw_started = [], rw_chosen = [], rw_revived = []\<rparr>"

definition sample_world_b :: rem_world where
  "sample_world_b = sample_world_a\<lparr>rw_db := snd (create_remediation_request sample_rem_env ''global'' 0 1 2 sample_rem_input (rw_db sample_world_a))\<rparr>"

definition sample_world_c :: rem_world where
  "sample_world_c = sample_world_b\<lparr>rw_db := snd (approve_remediation 0 1 3 None None (rw_db sample_world_b))\<rparr>"

definition sample_world_d :: rem_world where
  "sample_world_d =
     after_begin (fst (begin_execution sample_rem_env True 1 1 0 (rw_db sample_world_c)))
       (snd (begin_execution sample_rem_env True 1 1 0 (rw_db sample_world_c))) sample_world_c"

lemma sample_steps: "rem_reachable sample_world_c" "rem_step sample_world_c sample_world_d" "rem_reachable sample_world_d"
proof -
  have "rem_reachable sample_world_a" unfolding sample_world_a_def by (rule rem_reachable.initial) (simp add: sample_rem_db_def)
  then have "rem_reachable sample_world_b" unfolding sample_world_b_def by (rule rem_reachable.more) (rule rem_step.create)
  then show c: "rem_reachable sample_world_c" unfolding sample_world_c_def by (rule rem_reachable.more) (rule rem_step.approve)
  show d: "rem_step sample_world_c sample_world_d" unfolding sample_world_d_def by (rule rem_step.start) simp
  show "rem_reachable sample_world_d" by (rule rem_reachable.more [OF c d])
qed

lemma sample_started: "rw_started sample_world_d = [0]" "map rm_status (rd_requests (rw_db sample_world_c)) = [REM_APPROVED]"
  by code_simp+

lemma sample_revived: "rw_revived sample_world_d = []"
  unfolding sample_world_d_def sample_world_c_def sample_world_b_def sample_world_a_def after_begin_def
  by (cases "fst (begin_execution sample_rem_env True 1 1 0 (rw_db sample_world_c))")
    (simp_all split: begun.split)

section \<open>Properties\<close>





lemma guards_pass:
  "check_all_guards E now t impact db = Inr () \<longleftrightarrow>
     impact_today E now t db + impact < kill_threshold E \<and>
     (\<forall>s. find_settings db t = Some s \<and> rs_hard_cap s \<longrightarrow> re_spend E t \<le> rs_cap s) \<and> failures_today now t db < 5"
  by (auto simp: check_all_guards_def rem_then_def check_global_kill_switch_def check_monthly_hard_cap_def
      check_failure_breaker_def kill_switch_def not_le split: option.split)

lemma status_passes:
  "status_check now bypass q = Inr True \<longleftrightarrow>
     rm_status q = REM_APPROVED \<or>
     rm_status q = REM_SCHEDULED \<and> (bypass \<or> (\<forall>due. rm_scheduled q = Some due \<longrightarrow> due \<le> now))"
  by (auto simp: status_check_def split: option.split)

lemma pre_checks_pass:
  "pre_checks E bypass now t q db = Inr (f, True) \<longleftrightarrow>
     validate_request_finding_binding db t q = Inr f \<and> check_all_guards E now t (given (rm_savings q) 0) db = Inr () \<and>
     status_check now bypass q = Inr True"
  by (auto simp: pre_checks_def rem_then_Inr)

definition policy_verdict_of :: "rem_db \<Rightarrow> uuid \<Rightarrow> rem_request \<Rightarrow> policy_verdict" where
  "policy_verdict_of db t q =
     fst (evaluate_policy False (build_policy_config (find_settings db t))
       (apply_system_policy_context db t (normalize_provider (rm_provider q)) q))"

lemma begin_verdict:
  assumes "begin_execution E bypass now t i db = (Begun r f, db')" "find_request db t i = Some q"
  shows "normalize_provider (rm_provider q) \<noteq> [] \<and> pre_checks E bypass now t q db = Inr (f, True) \<and>
    (rm_status q = REM_APPROVED \<and> bypass \<or> rm_status q = REM_SCHEDULED) \<and>
    policy_verdict_of db t q \<noteq> POLICY_BLOCK \<and> policy_verdict_of db t q \<noteq> POLICY_ESCALATE"
proof -
  have p: "normalize_provider (rm_provider q) \<noteq> []" using assms by (auto simp: begin_execution_def)
  have pre: "pre_checks E bypass now t q db = Inr (f, True)"
    "rm_status q = REM_APPROVED \<and> bypass \<or> rm_status q = REM_SCHEDULED"
    using assms by (cases rule: begin_cases; auto)+
  have "policy_verdict_of db t q \<noteq> POLICY_BLOCK \<and> policy_verdict_of db t q \<noteq> POLICY_ESCALATE"
    using assms p pre(1)
    by (auto simp: begin_execution_def go_on_def Let_def policy_verdict_of_def settle_request_def split: prod.splits if_splits)
  then show ?thesis using p pre by blast
qed

text \<open>C26: An execution begins exactly when the request exists, its provider is known, its finding is the one that was
  approved and still open, the kill switch, the monthly cap and the failure breaker let it pass, it is approved with the
  grace period bypassed or scheduled and due (or bypassed), and the policy neither blocks nor escalates it.\<close>

theorem execution_begins_iff_cleared:
  "(\<exists>r f db'. begin_execution E bypass now t i db = (Begun r f, db')) \<longleftrightarrow>
   (\<exists>q f. find_request db t i = Some q \<and> normalize_provider (rm_provider q) \<noteq> [] \<and>
      validate_request_finding_binding db t q = Inr f \<and>
      impact_today E now t db + given (rm_savings q) 0 < kill_threshold E \<and>
      (\<forall>s. find_settings db t = Some s \<and> rs_hard_cap s \<longrightarrow> re_spend E t \<le> rs_cap s) \<and> failures_today now t db < 5 \<and>
      (rm_status q = REM_APPROVED \<and> bypass \<or>
       rm_status q = REM_SCHEDULED \<and> (bypass \<or> (\<forall>due. rm_scheduled q = Some due \<longrightarrow> due \<le> now))) \<and>
      policy_verdict_of db t q \<in> {POLICY_ALLOW, POLICY_WARN})"
  (is "?begins \<longleftrightarrow> ?cleared")
proof
  assume ?begins
  then obtain r f db' where run: "begin_execution E bypass now t i db = (Begun r f, db')" by blast
  then obtain q where q: "find_request db t i = Some q" by (cases rule: begin_cases) auto
  note v = begin_verdict [OF run q]
  then have "policy_verdict_of db t q \<in> {POLICY_ALLOW, POLICY_WARN}" by (cases "policy_verdict_of db t q") auto
  then show ?cleared using q v unfolding pre_checks_pass guards_pass status_passes by (intro exI [of _ q] exI [of _ f]) auto
next
  assume ?cleared
  then obtain q f where q: "find_request db t i = Some q" "normalize_provider (rm_provider q) \<noteq> []"
    and pre: "pre_checks E bypass now t q db = Inr (f, True)"
    and st: "\<not> (rm_status q = REM_APPROVED \<and> \<not> bypass)"
    and v: "policy_verdict_of db t q \<noteq> POLICY_BLOCK" "policy_verdict_of db t q \<noteq> POLICY_ESCALATE"
    unfolding pre_checks_pass guards_pass status_passes by auto
  then show ?begins
    by (auto simp: begin_execution_def go_on_def Let_def policy_verdict_of_def context_keeps split: prod.splits)
qed

theorem execution_begins_iff_cleared_witness:
  "\<exists>q. find_request (sample_rem_db [] [sample_rem_row REM_APPROVED]) 1 0 = Some q \<and> rm_status q = REM_APPROVED \<and>
     policy_verdict_of (sample_rem_db [] [sample_rem_row REM_APPROVED]) 1 q \<in> {POLICY_ALLOW, POLICY_WARN}"
proof -
  let ?db = "sample_rem_db [] [sample_rem_row REM_APPROVED]"
  have "case fst (begin_execution sample_rem_env True 0 1 0 ?db) of Begun r f \<Rightarrow> True | _ \<Rightarrow> False" by code_simp
  then have "\<exists>r f db'. begin_execution sample_rem_env True 0 1 0 ?db = (Begun r f, db')"
    by (cases "begin_execution sample_rem_env True 0 1 0 ?db") (auto split: begun.splits)
  moreover have "find_request ?db 1 0 = Some (sample_rem_row REM_APPROVED)" "rm_status (sample_rem_row REM_APPROVED) = REM_APPROVED"
    by code_simp+
  ultimately show ?thesis unfolding execution_begins_iff_cleared by auto
qed

text \<open>C27: A destructive action on a connection whose cloud account is marked as production never reaches the cloud provider,
  whatever parameters and notes the request carries and even when the grace period is bypassed, as long as the tenant's
  policy has the rule.\<close>

theorem production_is_spared:
  assumes q: "find_request db t i = Some q" "rm_connection q = Some c" "rm_action q \<in> destructive_actions"
    and a: "first_match (\<lambda>a. ca_tenant a = t \<and> ca_id a = c \<and> ca_provider a = normalize_provider (rm_provider q)) (rd_accounts db) = Some a"
      "ca_production a"
    and policy: "pc_enabled (build_policy_config (find_settings db t))" "pc_block_production (build_policy_config (find_settings db t))"
  shows "snd (snd (execute_remediation_request E region bypass now later t i db)) = []"
proof -
  have verdict: "policy_verdict_of db t q = POLICY_BLOCK" if p: "normalize_provider (rm_provider q) \<noteq> []"
  proof -
    let ?r = "apply_system_policy_context db t (normalize_provider (rm_provider q)) q"
    have idem: "normalize_provider (normalize_provider s) = normalize_provider s" for s
      by (simp add: normalize_provider_def)
    have "build_system_policy_context (rd_accounts db) (rd_connections db) t (normalize_provider (rm_provider q)) (rm_connection q)
        = account_context a"
      using q(2) a p idem by (simp add: build_system_policy_context_def Let_def split: option.split)
    then have "trusted_context ?r = account_context a"
      unfolding apply_system_policy_context_def using trusted_after_sanitize(1) [of "account_context a" "rm_params q" q]
      by (simp add: account_context_def)
    then have "production_signal ?r = Some True"
      using a(2) by (simp add: production_signal_def account_context_def dget_def coerce_bool_def)
    moreover have "rm_action ?r = rm_action q" by (simp add: apply_system_policy_context_def)
    ultimately show ?thesis
      unfolding policy_verdict_of_def evaluate_cases(1) using policy q(3) by (simp add: looks_like_production_def)
  qed
  have "\<nexists>r f db'. begin_execution E bypass now t i db = (Begun r f, db')"
    using begin_verdict [OF _ q(1)] verdict by blast
  then show ?thesis
    by (auto simp: execute_remediation_request_def split: prod.split begun.split)
qed

theorem production_is_spared_witness:
  "snd (snd (execute_remediation_request sample_rem_env ''global'' True 0 1 1 0
     (sample_rem_db [sample_account] [sample_rem_row REM_APPROVED]))) = []"
proof (rule production_is_spared)
  let ?db = "sample_rem_db [sample_account] [sample_rem_row REM_APPROVED]"
  show "find_request ?db 1 0 = Some (sample_rem_row REM_APPROVED)" by code_simp
  show "rm_connection (sample_rem_row REM_APPROVED) = Some 5" by code_simp
  show "rm_action (sample_rem_row REM_APPROVED) \<in> destructive_actions" by code_simp
  show "first_match (\<lambda>a. ca_tenant a = 1 \<and> ca_id a = 5 \<and> ca_provider a = normalize_provider (rm_provider (sample_rem_row REM_APPROVED)))
      (rd_accounts ?db) = Some sample_account" by code_simp
  show "ca_production sample_account" by (simp add: sample_account_def)
  show "pc_enabled (build_policy_config (find_settings ?db 1))" "pc_block_production (build_policy_config (find_settings ?db 1))"
    by (simp_all add: find_settings_def sample_rem_db_def build_policy_config_def default_policy_config_def)
qed

lemma starts_with_prefix: "starts_with (b @ c) b"
  by (induction b) auto

lemma contains_prefix: "contains (b @ c) b"
  by (simp add: contains.simps [of "b @ c"] starts_with_prefix)

lemma contains_middle: "contains (a @ b @ c) b"
  by (induction a) (auto simp: contains_prefix contains.simps [of "_ # _"])

lemma escalation_marker: "contains (lower (escalation_notes msg)) gpu_marker"
proof -
  have m: "lower gpu_marker = gpu_marker" by code_simp
  have app: "lower (x @ y) = lower x @ lower y" for x y by (simp add: lower_def)
  have "contains (lower (''Owner escalation approval ['' @ gpu_marker @ '']'')) gpu_marker"
    using contains_middle [of "lower ''Owner escalation approval [''" gpu_marker "lower '']''"] by (simp only: app m)
  moreover have "contains (lower (n @ [CHR 0x0A] @ ''['' @ gpu_marker @ '']'')) gpu_marker" for n
    using contains_middle [of "lower n @ lower [CHR 0x0A] @ lower ''[''" gpu_marker "lower '']''"] by (simp only: app m append_assoc)
  ultimately show ?thesis by (simp add: escalation_notes_def Let_def)
qed

text \<open>C31: An escalated request is approved only by an owner or the role the tenant requires; the approval then carries the
  marker the policy asks for, whatever the notes, and a refused approval changes nothing.\<close>

theorem escalation_needs_role:
  assumes "find_request db t i = Some r" "awaits_review r" "rm_escalation r"
  shows "if norm_key (opt_str role) \<in> {''owner'', escalation_role (find_settings db t)}
    then \<exists>s. approve_remediation i t reviewer msg role db = (Inr s, set_request i (\<lambda>_. s) db) \<and>
           rm_status s = REM_APPROVED \<and> \<not> rm_escalation s \<and> rm_reviewed_by s = Some reviewer \<and> has_gpu_override s
    else \<exists>m. approve_remediation i t reviewer msg role db = (Inl (Value_error m), db)"
proof -
  have "has_gpu_override (approved_request reviewer (Some (escalation_notes msg)) r)"
    using escalation_marker [of msg]
    by (simp add: has_gpu_override_def approved_request_def has_marker_def gpu_marker_def opt_str_def)
  then show ?thesis
    using assms by (auto simp: approve_remediation_def Let_def approved_request_def)
qed

theorem escalation_needs_role_witness:
  "\<exists>m. approve_remediation 0 1 3 None (Some ''member'')
     (sample_rem_db [] [(sample_rem_row REM_PENDING_APPROVAL)\<lparr>rm_escalation := True\<rparr>]) =
     (Inl (Value_error m), sample_rem_db [] [(sample_rem_row REM_PENDING_APPROVAL)\<lparr>rm_escalation := True\<rparr>])"
proof -
  let ?r = "(sample_rem_row REM_PENDING_APPROVAL)\<lparr>rm_escalation := True\<rparr>"
  let ?db = "sample_rem_db [] [?r]"
  have "find_request ?db 1 0 = Some ?r" by code_simp
  moreover have "awaits_review ?r" by code_simp
  moreover have "norm_key (opt_str (Some ''member'')) \<notin> {''owner'', escalation_role (find_settings ?db 1)}" by code_simp
  ultimately show ?thesis using escalation_needs_role [of ?db 1 0 ?r "Some ''member''" 3 None] by simp
qed

lemma find_set:
  assumes ok: "requests_ok db" and q: "find_request db t i = Some q" and r: "rm_id r = i" "rm_tenant r = t"
  shows "find_request (set_request i (\<lambda>_. r) db) t i = Some r"
proof -
  have "distinct (map rm_id (update_rows (\<lambda>s. rm_id s = i) (\<lambda>_. r) (rd_requests db)))"
    using ok r(1) by (subst distinct_map_update_rows) (simp_all add: requests_ok_def)
  moreover have "r \<in> set (update_rows (\<lambda>s. rm_id s = i) (\<lambda>_. r) (rd_requests db))"
    using update_rowsI [of q _ "\<lambda>s. rm_id s = i" "\<lambda>_. r"] find_request_in [OF q] by simp
  ultimately show ?thesis
    unfolding find_request_def set_request_def using r by (auto intro: first_match_unique)
qed

text \<open>C29: An approved request is never acted on at once unless the grace period is bypassed.  When the checks and the policy
  let it pass it is scheduled, at least a day later, and exactly one job is added to the queue: the one that executes this
  request when it is due.\<close>

theorem approved_request_is_scheduled:
  assumes ok: "requests_ok db" and q: "find_request db t i = Some q" "rm_status q = REM_APPROVED" "normalize_provider (rm_provider q) \<noteq> []"
    and pre: "pre_checks E False now t q db = Inr (f, go)"
    and verdict: "policy_verdict_of db t q \<in> {POLICY_ALLOW, POLICY_WARN}"
    and grace: "\<And>s. find_settings db t = Some s \<Longrightarrow> 0 \<le> rs_grace_days s"
  shows "\<exists>r db' due j. begin_execution E False now t i db = (Ended r, db') \<and> find_request db' t i = Some r \<and>
    rm_status r = REM_SCHEDULED \<and> rm_scheduled r = Some due \<and> now + days 1 \<le> due \<and>
    jobs (rd_queue db') = jobs (rd_queue db) @ [j] \<and> jb_type j = ''remediation'' \<and> jb_tenant j = Some t \<and>
    jb_payload j = Some [(''request_id'', PStr (uuid_str i))] \<and> jb_scheduled j = due \<and> jb_status j = PENDING_JOB"
proof -
  let ?r1 = "apply_system_policy_context db t (normalize_provider (rm_provider q)) q"
  define due where "due = now + seconds (grace_hours (find_settings db t) (rm_action q) * 3600)"
  define r where "r = ?r1\<lparr>rm_status := REM_SCHEDULED, rm_scheduled := Some due\<rparr>"
  define db' where "db' = snd (schedule_request now t ?r1 db)"
  have i: "rm_id q = i" "rm_tenant q = t" using find_request_in [OF q(1)] by blast+
  have go: "go" using pre q(2) by (auto simp: pre_checks_def rem_then_Inr status_check_def)
  have r1: "rm_id ?r1 = i" "rm_action ?r1 = rm_action q" using i by (simp_all add: apply_system_policy_context_def)
  have s: "schedule_request now t ?r1 db = (r, db')"
    unfolding db'_def r_def due_def by (simp add: schedule_request_def Let_def r1(2))
  have "policy_verdict_of db t q \<noteq> POLICY_BLOCK" "policy_verdict_of db t q \<noteq> POLICY_ESCALATE" using verdict by auto
  then have run: "begin_execution E False now t i db = (Ended r, db')"
    using q pre go s by (auto simp: begin_execution_def go_on_def Let_def policy_verdict_of_def context_keeps split: prod.splits)
  have db': "rd_requests db' = rd_requests (set_request i (\<lambda>_. r) db)"
    "jobs (rd_queue db') = jobs (rd_queue db) @ [new_job ''remediation'' (Some t) (Some [(''request_id'', PStr (uuid_str i))])
       (Some due) 3 None now (jobs_next (rd_queue db))]"
    unfolding db'_def using r1 by (simp_all add: schedule_request_def Let_def r_def due_def enqueue_job_def)
  have "find_request (set_request i (\<lambda>_. r) db) t i = Some r"
    using i by (intro find_set [OF ok q(1)]) (simp_all add: r_def apply_system_policy_context_def)
  then have found: "find_request db' t i = Some r" unfolding find_request_def db'(1) .
  have "24 \<le> grace_hours (find_settings db t) (rm_action q)"
    using grace by (fastforce simp: grace_hours_def split: option.split)
  then have "now + days 1 \<le> due" by (simp add: due_def days_def)
  then show ?thesis
    using run found db'(2) by (auto simp: r_def new_job_def given_def)
qed

theorem approved_request_is_scheduled_witness:
  "\<exists>r db' due. begin_execution sample_rem_env False 0 1 0 (sample_rem_db [] [sample_rem_row REM_APPROVED]) = (Ended r, db') \<and>
     rm_status r = REM_SCHEDULED \<and> rm_scheduled r = Some due \<and> days 1 \<le> due \<and> length (jobs (rd_queue db')) = 1"
proof -
  let ?q = "sample_rem_row REM_APPROVED" and ?db = "sample_rem_db [] [sample_rem_row REM_APPROVED]"
  have ok: "requests_ok ?db" by (simp add: requests_ok_def sample_rem_db_def sample_rem_row_def new_request_def request_ok_def)
  have q: "find_request ?db 1 0 = Some ?q" "rm_status ?q = REM_APPROVED" "normalize_provider (rm_provider ?q) \<noteq> []"
    by code_simp+
  have "case pre_checks sample_rem_env False 0 1 ?q ?db of Inr _ \<Rightarrow> True | Inl _ \<Rightarrow> False" by code_simp
  then obtain f go where pre: "pre_checks sample_rem_env False 0 1 ?q ?db = Inr (f, go)" by (auto split: sum.splits)
  have v: "policy_verdict_of ?db 1 ?q \<in> {POLICY_ALLOW, POLICY_WARN}" by code_simp
  have "find_settings ?db 1 = None" by (simp add: find_settings_def sample_rem_db_def)
  then have g: "\<And>s. find_settings ?db 1 = Some s \<Longrightarrow> 0 \<le> rs_grace_days s" by simp
  have e: "jobs (rd_queue ?db) = []" by (simp add: sample_rem_db_def)
  show ?thesis using approved_request_is_scheduled [OF ok q pre v g] unfolding e by fastforce
qed

text \<open>C30: An action reaches the cloud provider only through the strategy registered for it, for a tenant whose tier has the
  feature of the provider, after a successful validation, for the resource of the request, without the trusted policy
  context among its parameters, and, where a backup was asked for, after that backup was made.\<close>

theorem action_is_prepared:
  assumes "perform_action E region t r db = (outcome, calls)" "Action_call act resource cx \<in> set calls"
  shows "act = rm_action r \<and> resource = rm_resource r \<and> cx_tenant cx = t \<and>
    (normalize_provider (rm_provider r), act) \<in> set registered_strategies \<and>
    is_feature_enabled (TierText (tier_value (re_tier E t))) (required_feature (normalize_provider (rm_provider r))) \<and>
    st_validate (re_strategy E (normalize_provider (rm_provider r)) act) resource cx = Yields True \<and>
    \<not> has_key (cx_params cx) ''_system_policy_context'' \<and>
    (if rm_backup r
     then calls = [Backup_call resource cx, Action_call act resource cx] \<and>
       (\<exists>b. st_create_backup (re_strategy E (normalize_provider (rm_provider r)) act) resource cx = Yields b)
     else calls = [Action_call act resource cx])"
proof -
  let ?p = "normalize_provider (rm_provider r)"
  let ?creds = "resolve_connection_credentials E db r"
  obtain place where place: "resolve_execution_region E db region ?p t ?creds r = Inr place"
    using assms by (auto simp: perform_action_def Let_def split: sum.splits)
  define k where "k = build_remediation_context E t place ?creds r"
  have reg: "(?p, rm_action r) \<in> set registered_strategies"
    using assms place by (auto simp: perform_action_def Let_def get_strategy_def split: sum.splits if_splits)
  define S where "S = re_strategy E ?p (rm_action r)"
  have run: "run_strategy (required_feature ?p) S (rm_action r) (rm_resource r) k = (outcome, calls)"
    using assms(1) place reg by (simp add: perform_action_def Let_def get_strategy_def k_def S_def)
  have k: "cx_tier k = tier_value (re_tier E t)" "cx_backup k = rm_backup r" "cx_tenant k = t"
    "cx_params k = strip_system_policy_context (rm_params r)"
    by (simp_all add: k_def build_remediation_context_def)
  have strip: "map_of (filter (\<lambda>kv. fst kv \<noteq> x) d) x = None" for d :: pydict and x
    by (induction d) auto
  have feature: "is_feature_enabled (TierText (cx_tier k)) (required_feature ?p)"
    using run assms(2) by (auto simp: run_strategy_def split: if_splits)
  have valid: "st_validate S (rm_resource r) k = Yields True"
    using run assms(2) feature by (auto simp: run_strategy_def split: attempt.splits bool.splits)
  have "if rm_backup r
     then calls = [Backup_call (rm_resource r) k, Action_call (rm_action r) (rm_resource r) k] \<and>
       (\<exists>b. st_create_backup S (rm_resource r) k = Yields b)
     else calls = [Action_call (rm_action r) (rm_resource r) k]"
    using run assms(2) feature valid k(2) by (auto simp: run_strategy_def run_action_def split: attempt.splits)
  moreover from this have "act = rm_action r" "resource = rm_resource r" "cx = k" using assms(2) by (auto split: if_splits)
  ultimately show ?thesis
    using reg feature valid k(1,3,4) strip unfolding S_def
    by (cases "rm_backup r") (simp_all add: has_key_def strip_system_policy_context_def)
qed

theorem action_is_prepared_witness:
  "\<exists>cx. snd (perform_action sample_rem_env ''global'' 1 (sample_rem_row REM_EXECUTING) (sample_rem_db [] [])) =
     [Backup_call ''vol-1'' cx, Action_call DELETE_VOLUME ''vol-1'' cx]"
proof -
  obtain outcome calls where run: "perform_action sample_rem_env ''global'' 1 (sample_rem_row REM_EXECUTING) (sample_rem_db [] []) = (outcome, calls)"
    by (cases "perform_action sample_rem_env ''global'' 1 (sample_rem_row REM_EXECUTING) (sample_rem_db [] [])")
  have "list_ex (\<lambda>c. case c of Action_call _ _ _ \<Rightarrow> True | _ \<Rightarrow> False)
      (snd (perform_action sample_rem_env ''global'' 1 (sample_rem_row REM_EXECUTING) (sample_rem_db [] [])))" by code_simp
  then obtain act resource cx where "Action_call act resource cx \<in> set calls"
    using run by (auto simp: list_ex_iff split: cloud_call.splits) (metis cloud_call.exhaust)
  from action_is_prepared [OF run this] show ?thesis using run
    by (auto simp: sample_rem_row_def new_request_def sample_rem_input_def)
qed

lemma error_status_written:
  assumes "CHR 0x0A \<notin> set m" "lstrip m = m"
  shows "error_status ('' '' @ m @ '' (Status: '' @ nat_digits k @ '')'') = Some (m, k)"
proof -
  have digits: "list_all is_digit (rev (nat_digits k))" "nat_digits k \<noteq> []" "digits_val (nat_digits k) = k"
    using nat_digits_all [of k] by (simp_all add: list_all_iff)
  have rv: "rev ('' '' @ m @ '' (Status: '' @ nat_digits k @ '')'') = CHR '')'' # rev (nat_digits k) @ rev '' (Status: '' @ rev m @ '' ''"
    by simp
  have nd: "\<not> is_digit CHR '' ''" by code_simp
  have sp: "is_space CHR '' ''" "\<not> is_space CHR '':''" by code_simp+
  have tw: "takeWhile is_digit (rev (nat_digits k) @ rev '' (Status: '' @ rev m @ '' '') = rev (nat_digits k)"
    using digits(1) nd by (subst takeWhile_append2) (simp_all add: list_all_iff)
  have tw2: "dropWhile is_digit (rev (nat_digits k) @ rev '' (Status: '' @ rev m @ '' '') = rev '' (Status: '' @ rev m @ '' ''"
    using digits(1) nd by (subst dropWhile_append2) (simp_all add: list_all_iff)
  have dw: "dropWhile is_space (rev '' (Status: '' @ rev m @ '' '') = rev ''(Status:'' @ '' '' @ rev m @ '' ''"
    using sp by simp
  have body: "lstrip ('' '' @ m) = m" using assms(2) sp by (simp add: lstrip_def)
  have all: "takeWhile (\<lambda>x. x \<noteq> CHR 0x0A) m = m" using assms(1) by (auto simp: takeWhile_eq_all_conv)
  show ?thesis
    unfolding error_status_def rv list.case Let_def tw tw2 dw
    using digits sp body by (simp add: all)
qed

text \<open>
  The reason, message and status of an application error survive the text in which a failed request stores them: the job
  that executed it reports them again.
\<close>

theorem failure_reason_reads_back:
  assumes "0 \<le> n" "c \<noteq> []" "CHR '']'' \<notin> set c" "CHR 0x0A \<notin> set m" "lstrip m = m"
  shows "parse_execution_error (Some (rem_error_text (App_error c m n))) = (c, m, Some (nat n))"
proof -
  let ?t = "'' '' @ m @ '' (Status: '' @ nat_digits (nat n) @ '')''"
  have shown: "rem_error_text (App_error c m n) = ''['' @ c @ '']'' @ ?t"
    using assms(1) by (simp add: int_str_def)
  have sp: "\<not> is_space CHR ''[''" "\<not> is_space CHR '')''" by code_simp+
  have "strip (''['' @ c @ '']'' @ ?t) = ''['' @ c @ '']'' @ ?t"
    using sp by (simp add: strip_def lstrip_def)
  moreover have "takeWhile (\<lambda>x. x \<noteq> CHR '']'') (c @ '']'' @ ?t) = c"
    using assms(3) by (subst takeWhile_append2) auto
  moreover have "drop (length c + 2) (''['' @ c @ '']'' @ ?t) = ?t" by simp
  ultimately show ?thesis
    using error_status_written [OF assms(4,5), of "nat n"] assms(2)
    unfolding parse_execution_error_def opt_str_def option.case shown Let_def by simp
qed

section \<open>What the code does besides\<close>

lemma unapproved_execution_fails:
  \<comment> \<open>the status check is inside the \<open>try\<close>: executing a request that is pending, completed, rejected or running makes it fail\<close>
  assumes "find_request db t i = Some q" "normalize_provider (rm_provider q) \<noteq> []"
    "rm_status q \<notin> {REM_APPROVED, REM_SCHEDULED}"
  obtains e where "begin_execution E bypass now t i db = (Ended (failed_request e q), set_request i (\<lambda>_. failed_request e q) db)"
proof -
  have "\<nexists>x. pre_checks E bypass now t q db = Inr x" using pre_checks_status assms(3) by (metis insertI1 insert_commute surj_pair)
  then obtain e where "pre_checks E bypass now t q db = Inl e" by (metis sum.exhaust)
  then show ?thesis
    using that assms(1,2) find_request_in [OF assms(1)] by (auto simp: begin_execution_def settle_request_def failed_request_def)
qed

lemma limit_revives_request:
  \<comment> \<open>whatever has become of a chosen request, the hard limit approves it\<close>
  assumes "first_match (\<lambda>r. rm_id r = i) (rd_requests db) = Some r"
    "\<not> list_ex (\<lambda>s. rm_id s \<noteq> i \<and> same_slot r s \<and> is_open s) (rd_requests db)"
  shows "\<exists>s. first_match (\<lambda>r. rm_id r = i) (rd_requests (limit_approve i db)) = Some s \<and> rm_status s = REM_APPROVED"
  using assms by (auto simp: limit_approve_def set_request_def first_match_update_rows dest: first_match_SomeD)

definition sample_stop_a :: rem_world where
  "sample_stop_a = sample_world_a\<lparr>rw_db := snd (create_remediation_request sample_rem_env ''global'' 0 1 2
     (sample_rem_input\<lparr>ri_action := STOP_INSTANCE\<rparr>) (rw_db sample_world_a))\<rparr>"

definition sample_stop_b :: rem_world where
  \<comment> \<open>chosen by the hard limit, then approved by a reviewer\<close>
  "sample_stop_b = (let w = sample_stop_a\<lparr>rw_chosen := map rm_id (limit_candidates 1 (rw_db sample_stop_a)) @ rw_chosen sample_stop_a\<rparr>
     in w\<lparr>rw_db := snd (approve_remediation 0 1 3 None None (rw_db w))\<rparr>)"

definition sample_begin :: "rem_world \<Rightarrow> rem_world" where
  "sample_begin w = after_begin (fst (begin_execution sample_rem_env True 1 1 0 (rw_db w)))
     (snd (begin_execution sample_rem_env True 1 1 0 (rw_db w))) w"

definition sample_finish :: "rem_world \<Rightarrow> rem_world" where
  "sample_finish w = (case hd (rw_runs w) of (r, f) \<Rightarrow>
     w\<lparr>rw_db := snd (finish_execution 2 r f (Inr \<lparr>xr_status = EXEC_SUCCESS, xr_error = None, xr_backup = None\<rparr>) (rw_db w)),
       rw_runs := remove1 (r, f) (rw_runs w)\<rparr>)"

definition sample_limit :: "rem_world \<Rightarrow> rem_world" where
  "sample_limit w = w\<lparr>rw_db := limit_approve 0 (rw_db w),
     rw_revived := (if still_pending 0 (rw_db w) then [] else [0]) @ rw_revived w\<rparr>"

lemma revived_request_runs_twice:
  \<comment> \<open>a chosen request that a reviewer approves and that is executed is approved again by the hard limit and executed again\<close>
  "\<exists>w. rem_reachable w \<and> rw_started w = [0, 0] \<and> rw_revived w = [0]"
proof -
  let ?d = "sample_finish (sample_begin sample_stop_b)"
  have "rem_reachable sample_world_a" unfolding sample_world_a_def by (rule rem_reachable.initial) (simp add: sample_rem_db_def)
  then have "rem_reachable sample_stop_a" unfolding sample_stop_a_def by (rule rem_reachable.more) (rule rem_step.create)
  then have "rem_reachable sample_stop_b"
    unfolding sample_stop_b_def Let_def by (intro rem_reachable.more [OF _ rem_step.approve] rem_reachable.more [OF _ rem_step.choose])
  moreover have "rem_step w (sample_begin w)" for w unfolding sample_begin_def by (rule rem_step.start) simp
  moreover have "rem_step (sample_begin sample_stop_b) ?d"
  proof -
    have "rw_runs (sample_begin sample_stop_b) \<noteq> []" by code_simp
    then obtain r f rs where "rw_runs (sample_begin sample_stop_b) = (r, f) # rs" by (cases "rw_runs (sample_begin sample_stop_b)") auto
    note runs = this
    then have "(r, f) \<in> set (rw_runs (sample_begin sample_stop_b))" by simp
    from rem_step.finish [OF this, of 2 "Inr \<lparr>xr_status = EXEC_SUCCESS, xr_error = None, xr_backup = None\<rparr>"]
    show ?thesis by (simp add: sample_finish_def runs)
  qed
  moreover have "rem_step ?d (sample_limit ?d)"
  proof -
    have "0 \<in> set (rw_chosen ?d)" by code_simp
    then show ?thesis unfolding sample_limit_def by (rule rem_step.limit)
  qed
  ultimately have "rem_reachable (sample_begin (sample_limit ?d))" using rem_reachable.more by blast
  moreover have "rw_started (sample_begin (sample_limit ?d)) = [0, 0]" by code_simp
  moreover have "rw_revived (sample_begin (sample_limit ?d)) = [0]" by code_simp
  ultimately show ?thesis by blast
qed

lemma early_job_is_dropped:
  \<comment> \<open>the job of a request whose time has not come is completed, not rescheduled\<close>
  assumes "early_run now r = Some due"
  shows "jb_status (process_job (Returned (PDict (skipped_job_result r due))) later j) = COMPLETED_JOB"
proof -
  have "failed_result (PDict (skipped_job_result r due)) = None"
    by (simp add: failed_result_def skipped_job_result_def has_key_def dget_def py_str_def Let_def) code_simp
  then show ?thesis
    by (auto simp: process_job_def finished_job_def prepare_result_def skipped_job_result_def completed_job_def Let_def
        split: sum.split)
qed

lemma failure_has_no_execution_time:
  \<comment> \<open>so the breaker of the day does not see it\<close>
  "xr_status x \<noteq> EXEC_SUCCESS \<Longrightarrow> rm_executed_at (apply_execution_result now x r) = rm_executed_at r"
  "rm_executed_at (failed_request e r) = rm_executed_at r" "rm_executed_at (blocked_request m r) = rm_executed_at r"
  by (simp_all add: apply_execution_result_def failed_request_def blocked_request_def)

lemma devops_is_not_production: "infer_production (Some ''devops-production'') = Some False"
  by code_simp

lemma any_reviewer_can_write_marker: "has_gpu_override (approved_request reviewer (Some ''gpu-approved'') r)"
proof -
  have "has_marker [''gpu-approved'', ''gpu_override'', ''approved_gpu''] (lower (opt_str (Some ''gpu-approved'')))" by code_simp
  then show ?thesis by (simp add: has_gpu_override_def approved_request_def)
qed

end
