(* ===== verification/Spec2Isabelle.thy ===== *)
theory Spec2Isabelle
  imports Control_Plane Export_Integrity Circuit_Breakers Billing_Guarantees Remediation_Guarantees
begin

text \<open>
  A verification development for Valdrics (a FinOps control plane in Python: FastAPI, SQLAlchemy, Celery).  It models
  the parts of the program that decide about money and that hold state, as executable definitions translated from the
  source, and proves what they promise.

  \<^bold>\<open>The program.\<close>  A tenant's resource requests pass a \<^emph>\<open>gate\<close> that charges the estimated monthly cost to an entitlement
  waterfall (plan limit, project allocation, reserved credits, emergency credits, enterprise ceiling), decides according
  to the tenant's policy document, and stores a decision with its credit reservation, approval request and ledger row.
  An approval is routed to a reviewer by role and handed out as a signed token that is redeemed once.  Reservations are
  reconciled against the actual cost or released when they are overdue.  Approved work is queued as actions that workers
  lease.  Decisions are exported as a signed bundle.  Beside it stand the background job queue, the circuit breakers, the
  subscription tiers with their cache, subscription billing with dunning and webhooks, and the workflow that remediates
  idle cloud resources after an approval.

  \<^bold>\<open>Conventions.\<close>  A table is a list of records in insertion order, a database the record of its tables; an operation
  is a function from the database at its start to its outcome and the database as committed.  A Python call that may
  raise has a sum type (\<open>exn + 'a\<close>, \<open>billing_error + 'a\<close>), \<open>Inl\<close> the exception.  Instants are integers (microseconds
  since 0001-01-01T00:00Z), money is rational on a decimal grid, JSON is \<open>pyval\<close> with dictionaries as association
  lists in insertion order.  What is not under \<open>src/\<close> is a parameter: sha256 and hmac, the JWT library, pydantic's
  validation of a policy document, the payment provider, encryption, the handlers of jobs, the actions on a cloud.

  \<^bold>\<open>Theories and sources.\<close>  Paths are under \<open>src/app\<close>; \<open>E\<close> stands for \<open>modules/enforcement/domain\<close>, \<open>B\<close> for
  \<open>modules/billing/domain/billing\<close>, \<open>O\<close> for \<open>modules/optimization/domain\<close>.
  \<^item> \<open>Prelude\<close>, \<open>Strings\<close>, \<open>Calendar\<close>, \<open>PyValue\<close>, \<open>Money\<close>, \<open>Lifecycle\<close>: outcomes, lists as tables, Python's \<open>str\<close>,
    \<open>datetime\<close>, \<open>dict\<close> and \<open>Decimal\<close> as far as the source uses them; the interfaces \<open>quantizer\<close> and \<open>lifecycle\<close>.
  \<^item> \<open>Types\<close>, \<open>Samples\<close>: the rows of \<open>models/enforcement_*.py\<close>, and concrete ones for the witnesses.
  \<^item> \<open>Service_Utils\<close> (\<open>E/service_utils.py\<close>), \<open>Canonical_Json\<close>: normalisation, canonical JSON, fingerprints; canonical
    JSON is readable in one way only.
  \<^item> \<open>Waterfall\<close> (\<open>E/waterfall_ops.py\<close>): the waterfall refines an abstract charge to a list of pools.
  \<^item> \<open>Credits\<close>, \<open>Credit_Books\<close> (\<open>E/credit_ops.py\<close>, \<open>E/budget_credit_ops.py\<close>): reservation and settlement of credit;
    the interface \<open>reservation_store\<close>, interpreted on the model; credit money is conserved.
  \<^item> \<open>Approval_Routing\<close>, \<open>Policy_Contract\<close>, \<open>Computed_Context\<close>: \<open>E/approval_routing_ops.py\<close>, \<open>E/policy_document.py\<close>,
    \<open>E/policy_contract_ops.py\<close>, \<open>E/computed_context_ops.py\<close>.
  \<^item> \<open>Pricing_Catalog\<close>, \<open>Pricing\<close>: \<open>shared/core/pricing*.py\<close>.
  \<^item> \<open>Ledger\<close>, \<open>World\<close>, \<open>Gate\<close>, \<open>Gate_Safety\<close>: \<open>E/gate_evaluation_*.py\<close>, the lock and the ledger; the invariant of the
    whole database (\<open>world_ok\<close>), its preservation by the gate, ceilings, idempotent replay, modes and errors.
  \<^item> \<open>Approval_Token\<close>, \<open>Approval_Flow\<close>, \<open>Flow_Safety\<close>, \<open>Flow_Guarantees\<close>: \<open>E/approval_token_ops.py\<close>,
    \<open>E/approval_flow_ops.py\<close>; \<open>approval_life\<close> interprets \<open>lifecycle\<close>.
  \<^item> \<open>Reconciliation\<close>, \<open>Reconciliation_Safety\<close>: \<open>E/reconciliation_*.py\<close>.
  \<^item> \<open>Actions\<close>, \<open>Actions_Safety\<close>: \<open>E/actions.py\<close>, \<open>E/actions_terminal_ops.py\<close>; \<open>action_life\<close> interprets \<open>lifecycle\<close>.
  \<^item> \<open>Control_Plane\<close>: all of these operations on one database as a step relation, in any order and for any tenants; the
    invariant in every reachable state, single redemption of tokens, the life cycle of approvals.
  \<^item> \<open>Export_Csv\<close>, \<open>Export_Bundle\<close>, \<open>Export_Integrity\<close>: \<open>E/export_bundle_*.py\<close>; a CSV reader that gets the rows back.
  \<^item> \<open>Job_Queue\<close>, \<open>Job_Guarantees\<close>: \<open>modules/governance/domain/jobs/processor.py\<close>; \<open>job_life\<close> interprets \<open>lifecycle\<close>.
  \<^item> \<open>Circuit_Breakers\<close>: \<open>shared/core/circuit_breaker.py\<close> and \<open>shared/remediation/circuit_breaker.py\<close>, both
    interpretations of the interface \<open>breaker\<close>.
  \<^item> \<open>Billing\<close>, \<open>Dunning\<close>, \<open>Paystack_Webhook\<close>, \<open>Billing_Queue\<close> (\<open>B/paystack_*.py\<close>, \<open>B/dunning_service.py\<close>,
    \<open>B/webhook_retry.py\<close>, \<open>B/entitlement_policy.py\<close>, the two charging job handlers and the billing sweep): charges, failed
    payments, webhooks; a job's effect on the database is undone when it fails, what it sent to the provider is not.
  \<^item> \<open>Billing_Safety\<close>, \<open>Billing_Guarantees\<close>: every operation as a step relation that keeps the rows well formed and works
    only for the tenants it is about; charges for the price, once per reference; the course and the end of dunning; webhooks stored once.
  \<^item> \<open>Remediation_Policy\<close> (\<open>modules/governance/domain/security/remediation_policy.py\<close>, \<open>shared/core/connection_state.py\<close>,
    \<open>O/remediation_context.py\<close>), \<open>Remediation_Guards\<close> (\<open>O/findings.py\<close>, \<open>shared/core/safety_service.py\<close>, \<open>O/actions/\<close>),
    \<open>Remediation\<close> (\<open>O/remediation_*.py\<close>, \<open>shared/remediation/autonomous.py\<close>, \<open>jobs/handlers/remediation.py\<close>): the
    requests, their review and their execution, which commits \<open>EXECUTING\<close> before it acts and is therefore two operations.
  \<^item> \<open>Remediation_Safety\<close>, \<open>Remediation_Guarantees\<close>: every operation changes one request along its life cycle; a step
    relation in which executions overlap with everything else; an action begins only when cleared, and at most once unless
    the hard limit approves a request that is no longer pending, which the code does not prevent.

  \<^bold>\<open>Parameters and hypotheses.\<close>  \<open>isolated\<close> (\<open>others_sound\<close>): what other transactions commit while an operation waits
  for its lock keeps the invariant and the rows the lock protects.  \<open>jwt_accepts\<close> and \<open>fresh_token\<close>: a token that was
  encoded decodes to its payload before its expiry, and a drawn token identifier is new.  \<open>queue_others\<close> and the argument
  \<open>others\<close> of reconciliation and actions: interference between a read and a conditional write.  \<open>view\<close> of the export: the
  database each of its four queries sees.  \<open>handler_result\<close>: what a run observes of a job's handler.  \<open>policy_env\<close>: the
  validators of a policy document.  \<open>rem_env\<close>: the month's spend, the secrets of a connection and what an action strategy
  does at the cloud provider.  Each property with such a hypothesis has a witness at a concrete function.

  \<^bold>\<open>Bounds and fuel.\<close>  No definition uses fuel except the lease loop of \<open>Actions\<close>, whose five tries are the source's own
  bound.  Loops over rows are structural; the eviction loop of the tier cache terminates by the length of the cache.
  Life cycles terminate by their rank (\<open>lifecycle.run_bounded\<close>).  Batch and page limits are those of the source.

  \<^bold>\<open>Amounts.\<close>  A cost that reaches the gate may have any sign and size, because the admission path reads it from an
  annotation without a check: a negative one is always allowed and recorded as it is (\<open>negative_cost_is_allowed\<close>), one
  beyond the 28 digits of the decimal context raises \<open>InvalidOperation\<close> (\<open>costs_representable\<close>), and a decision that does
  not fit its columns raises \<open>DataError\<close> (\<open>row_fits\<close>).  These errors are modelled in the gate only; grants, budgets and
  actual costs elsewhere are taken to fit.

  \<^bold>\<open>Interleaving.\<close>  The steps of \<open>Control_Plane\<close> and of billing are whole operations, one after the other, with the
  interference of other transactions where an argument names it.  The queue operations of \<open>Actions\<close> that end an action
  read without a lock; the theorems on them speak of operations that do not overlap, and
  \<open>completion_overwrites_cancellation\<close> and \<open>interleaved_change_is_serial\<close> say what an overlap does.  An exception that the
  job processor does not catch (\<open>Escaped\<close>) ends the batch.

  \<^bold>\<open>Not modelled.\<close>  Strings are Latin-1.  \<open>datetime.fromisoformat\<close> is its extended format.  \<open>Decimal\<close> has no NaN,
  no infinity and no negative zero, and the 28 digits of its context are checked only in \<open>quantize_checked\<close> and \<open>costs_representable\<close>; a float is the rational it prints as.  Metrics, logging,
  tracing, the audit log, e-mails and notifications have no effect on the state and are left out.  Errors of the
  database itself (a lost connection, a unique-constraint race between two transactions) are left out, except where an
  operation handles them; identifiers that \<open>uuid4\<close> draws are taken from a counter.  The HTTP layers, the cloud adapters,
  reporting, notifications, the LLM clients, discovery, configuration, migrations, scripts and the dashboard are I/O or
  glue around these parts, and are listed as such in the manifest.  Of the remediation work flow the previews, the scan that
  finds resources, license governance and the savepoint of the worker around a remediation job are left out.
\<close>

end
